(* ===== verification/OM_Prelude.thy ===== *)
theory OM_Prelude
  imports Main "HOL-Library.Word" "HOL-Library.AList" "HOL-Library.Product_Lexorder"
begin

text \<open>
  Shared vocabulary of the development: the machine integers, the result type, the Rust
  string operations and the map operations that the components use, with the generic lemmas
  about them.

  \<^item> \<open>u8\<close> .. \<open>u64\<close> are words, so \<open>+\<close> wraps as in a release build; \<open>checked_add\<close>,
    \<open>checked_sub\<close> and \<open>saturating_add\<close> are the methods of the same names.  An \<open>i64\<close> is an
    \<open>int\<close>; where the code adds two of them the wrap-around is \<open>wrap_i64\<close>.  A \<open>usize\<close> that
    counts elements or bytes held in memory is a \<open>nat\<close>.
  \<^item> \<open>Result<T, E>\<close> is the sum \<open>'e + 'a\<close>, with \<open>Inl\<close> for \<open>Err\<close>.
  \<^item> a \<open>String\<close> or \<open>&str\<close> is its UTF-8 byte sequence, a \<open>char list\<close>, so \<open>length\<close> is
    \<open>str::len\<close>.  The operations below that look at characters (\<open>trim\<close>) decode the UTF-8
    encodings they care about.
  \<^item> \<open>HashMap\<close> and \<open>BTreeMap\<close> are association lists with distinct keys.  For a \<open>HashMap\<close>
    the list order is one possible iteration order.
\<close>

named_theorems result_simps \<open>evaluation of result-typed sequencing\<close>
named_theorems str_simps \<open>evaluation of the string operations\<close>

type_synonym u8 = "8 word"
type_synonym u16 = "16 word"
type_synonym u32 = "32 word"
type_synonym u64 = "64 word"
type_synonym i64 = int
type_synonym bytes = "u8 list"
type_synonym ('e, 'a) result = "'e + 'a"

section \<open>Machine integers\<close>

definition checked_add :: "'a::len word \<Rightarrow> 'a word \<Rightarrow> 'a word option" where
  "checked_add a b = (if unat a + unat b < 2 ^ LENGTH('a) then Some (a + b) else None)"

definition checked_sub :: "'a::len word \<Rightarrow> 'a word \<Rightarrow> 'a word option" where
  "checked_sub a b = (if b \<le> a then Some (a - b) else None)"

definition saturating_add :: "'a::len word \<Rightarrow> 'a word \<Rightarrow> 'a word" where
  "saturating_add a b = (if unat a + unat b < 2 ^ LENGTH('a) then a + b else - 1)"

definition saturating_sub :: "'a::len word \<Rightarrow> 'a word \<Rightarrow> 'a word" where
  "saturating_sub a b = (if b \<le> a then a - b else 0)"

definition wrap_i64 :: "int \<Rightarrow> i64" where
  "wrap_i64 x = (x + 2 ^ 63) mod 2 ^ 64 - 2 ^ 63"

definition checked_add_i64 :: "i64 \<Rightarrow> i64 \<Rightarrow> i64 option" where
  "checked_add_i64 a b = (if - (2 ^ 63) \<le> a + b \<and> a + b < 2 ^ 63 then Some (a + b) else None)"

text \<open>\<open>clamp lo hi x\<close> is \<open>x.clamp(lo, hi)\<close> on \<open>usize\<close>.\<close>

definition clamp :: "nat \<Rightarrow> nat \<Rightarrow> nat \<Rightarrow> nat" where
  "clamp lo hi x = (if x < lo then lo else if hi < x then hi else x)"

lemma checked_add_Some:
  "checked_add a b = Some c \<Longrightarrow> c = a + b \<and> unat c = unat a + unat b"
  by (auto simp: checked_add_def unat_word_ariths split: if_splits)

lemma checked_add_None:
  "checked_add (a :: 'a::len word) b = None \<longleftrightarrow> 2 ^ LENGTH('a) \<le> unat a + unat b"
  by (auto simp: checked_add_def)

lemma checked_add_less: "checked_add a b = Some c \<Longrightarrow> b \<noteq> 0 \<Longrightarrow> a < c"
  by (auto dest!: checked_add_Some simp: word_less_nat_alt unat_eq_0 simp flip: unat_gt_0)

lemma checked_add_one_None: "checked_add (e :: u64) 1 = None \<longleftrightarrow> e = - 1"
proof
  assume "checked_add e 1 = None"
  then have "unat e = 2 ^ 64 - 1"
    using unsigned_less [of e, where 'a = nat] by (simp add: checked_add_None)
  then have "unat e = unat (- 1 :: u64)" by (simp add: unsigned_minus_1_eq_mask mask_eq_exp_minus_1)
  then show "e = - 1" by (simp only: word_unat_eq_iff)
next
  assume "e = - 1"
  then show "checked_add e 1 = None"
    by (simp add: checked_add_None unsigned_minus_1_eq_mask mask_eq_exp_minus_1)
qed

lemma checked_add_top [simp]: "checked_add (- 1 :: u64) 1 = None"
  by (simp add: checked_add_one_None)

lemma checked_sub_Some:
  "checked_sub a b = Some c \<Longrightarrow> c = a - b \<and> unat a = unat b + unat c"
  by (auto simp: checked_sub_def unat_sub word_le_nat_alt split: if_splits)

lemma wrap_i64_id: "- (2 ^ 63) \<le> x \<Longrightarrow> x < 2 ^ 63 \<Longrightarrow> wrap_i64 x = x"
  by (simp add: wrap_i64_def)

lemma wrap_i64_bounds: "- (2 ^ 63) \<le> wrap_i64 x \<and> wrap_i64 x < 2 ^ 63"
  by (simp add: wrap_i64_def)

lemma clamp_bounds: "lo \<le> hi \<Longrightarrow> lo \<le> clamp lo hi x \<and> clamp lo hi x \<le> hi"
  by (simp add: clamp_def)

lemma clamp_idem: "lo \<le> hi \<Longrightarrow> clamp lo hi (clamp lo hi x) = clamp lo hi x"
  by (simp add: clamp_def)

section \<open>Results\<close>

text \<open>The \<open>?\<close> operator: stop at the first error.\<close>

definition and_then :: "('e, 'a) result \<Rightarrow> ('a \<Rightarrow> ('e, 'b) result) \<Rightarrow> ('e, 'b) result" where
  "and_then r f = (case r of Inl e \<Rightarrow> Inl e | Inr x \<Rightarrow> f x)"

definition ok_or :: "'e \<Rightarrow> 'a option \<Rightarrow> ('e, 'a) result" where
  "ok_or e v = (case v of None \<Rightarrow> Inl e | Some x \<Rightarrow> Inr x)"

text \<open>A loop \<open>for x in xs { f(x)?; }\<close>.\<close>

fun try_each :: "('a \<Rightarrow> ('e, unit) result) \<Rightarrow> 'a list \<Rightarrow> ('e, unit) result" where
  "try_each f [] = Inr ()"
| "try_each f (x # xs) = and_then (f x) (\<lambda>_. try_each f xs)"

lemma and_then_simps [simp, result_simps]:
  "and_then (Inl e) f = Inl e"
  "and_then (Inr x) f = f x"
  by (simp_all add: and_then_def)

lemma and_then_Inr_iff: "and_then r f = Inr y \<longleftrightarrow> (\<exists>x. r = Inr x \<and> f x = Inr y)"
  by (cases r) auto

lemma and_then_Inl_iff:
  "and_then r f = Inl e \<longleftrightarrow> r = Inl e \<or> (\<exists>x. r = Inr x \<and> f x = Inl e)"
  by (cases r) auto

lemma ok_or_simps [simp, result_simps]:
  "ok_or e None = Inl e"
  "ok_or e (Some x) = Inr x"
  by (simp_all add: ok_or_def)

lemma ok_or_Inr_iff: "ok_or e v = Inr x \<longleftrightarrow> v = Some x"
  by (cases v) auto

lemma try_each_Inr_iff: "try_each f xs = Inr () \<longleftrightarrow> (\<forall>x\<in>set xs. f x = Inr ())"
  by (induction xs) (auto simp: and_then_Inr_iff)

section \<open>Strings\<close>

definition starts_with :: "string \<Rightarrow> string \<Rightarrow> bool" where
  "starts_with s p \<longleftrightarrow> take (length p) s = p"

definition ends_with :: "string \<Rightarrow> string \<Rightarrow> bool" where
  "ends_with s p \<longleftrightarrow> starts_with (rev s) (rev p)"

definition strip_prefix :: "string \<Rightarrow> string \<Rightarrow> string option" where
  "strip_prefix p s = (if starts_with s p then Some (drop (length p) s) else None)"

definition strip_suffix :: "string \<Rightarrow> string \<Rightarrow> string option" where
  "strip_suffix p s = (if ends_with s p then Some (take (length s - length p) s) else None)"

lemma starts_with_iff: "starts_with s p \<longleftrightarrow> (\<exists>r. s = p @ r)"
  by (metis append_eq_conv_conj append_take_drop_id starts_with_def)

lemma starts_with_refl [simp]: "starts_with s s"
  by (simp add: starts_with_def)

lemma starts_with_Nil [simp]: "starts_with s []"
  by (simp add: starts_with_def)

lemma starts_with_trans: "starts_with a b \<Longrightarrow> starts_with b c \<Longrightarrow> starts_with a c"
  by (auto simp: starts_with_iff)

lemma starts_with_append [simp]: "starts_with (p @ r) p"
  by (simp add: starts_with_def)

lemma ends_with_iff: "ends_with s p \<longleftrightarrow> (\<exists>r. s = r @ p)"
proof
  assume "ends_with s p"
  then obtain r where "rev s = rev p @ r" by (auto simp: ends_with_def starts_with_iff)
  then have "s = rev r @ p" by (metis rev_append rev_rev_ident)
  then show "\<exists>r. s = r @ p" ..
qed (auto simp: ends_with_def)

lemma strip_prefix_Some_iff: "strip_prefix p s = Some r \<longleftrightarrow> s = p @ r"
  by (auto simp: strip_prefix_def starts_with_iff)

lemma strip_suffix_Some_iff: "strip_suffix p s = Some r \<longleftrightarrow> s = r @ p"
  by (auto simp: strip_suffix_def ends_with_iff)

text \<open>
  \<open>str::trim\<close> removes leading and trailing characters with the Unicode property
  \<open>White_Space\<close>.  \<open>ws_head\<close> is the number of bytes of a white-space character at the front
  of a UTF-8 byte sequence (0 when there is none): U+0009..U+000D and U+0020 in one byte,
  U+0085 and U+00A0 in two, U+1680, U+2000..U+200A, U+2028, U+2029, U+202F, U+205F and
  U+3000 in three.  \<open>ws_tail\<close> reads the reversed sequence.
\<close>

definition ascii_ws :: "char \<Rightarrow> bool" where
  "ascii_ws c \<longleftrightarrow>
     c \<in> {CHR 0x09, CHR 0x0A, CHR 0x0B, CHR 0x0C, CHR 0x0D, CHR 0x20}"

definition ws2 :: "char \<Rightarrow> char \<Rightarrow> bool" where
  "ws2 a b \<longleftrightarrow> a = CHR 0xC2 \<and> b \<in> {CHR 0x85, CHR 0xA0}"

definition ws3 :: "char \<Rightarrow> char \<Rightarrow> char \<Rightarrow> bool" where
  "ws3 a b c \<longleftrightarrow>
     a = CHR 0xE1 \<and> b = CHR 0x9A \<and> c = CHR 0x80
   \<or> a = CHR 0xE2 \<and> b = CHR 0x80 \<and>
       c \<in> {CHR 0x80, CHR 0x81, CHR 0x82, CHR 0x83, CHR 0x84, CHR 0x85, CHR 0x86, CHR 0x87,
            CHR 0x88, CHR 0x89, CHR 0x8A, CHR 0xA8, CHR 0xA9, CHR 0xAF}
   \<or> a = CHR 0xE2 \<and> b = CHR 0x81 \<and> c = CHR 0x9F
   \<or> a = CHR 0xE3 \<and> b = CHR 0x80 \<and> c = CHR 0x80"

fun ws_head :: "string \<Rightarrow> nat" where
  "ws_head [] = 0"
| "ws_head [a] = (if ascii_ws a then 1 else 0)"
| "ws_head [a, b] = (if ascii_ws a then 1 else if ws2 a b then 2 else 0)"
| "ws_head (a # b # c # _) =
     (if ascii_ws a then 1 else if ws2 a b then 2 else if ws3 a b c then 3 else 0)"

fun ws_tail :: "string \<Rightarrow> nat" where
  "ws_tail [] = 0"
| "ws_tail [a] = (if ascii_ws a then 1 else 0)"
| "ws_tail [b, a] = (if ascii_ws b then 1 else if ws2 a b then 2 else 0)"
| "ws_tail (c # b # a # _) =
     (if ascii_ws c then 1 else if ws2 b c then 2 else if ws3 a b c then 3 else 0)"

lemma ws_head_le: "ws_head s \<le> length s"
  by (induction s rule: ws_head.induct) auto

lemma ws_tail_le: "ws_tail s \<le> length s"
  by (induction s rule: ws_tail.induct) auto

function trim_start :: "string \<Rightarrow> string" where
  "trim_start s = (if ws_head s = 0 then s else trim_start (drop (ws_head s) s))"
  by pat_completeness auto
termination
proof (relation "measure length")
  fix s :: string
  assume "ws_head s \<noteq> 0"
  with ws_head_le [of s] show "(drop (ws_head s) s, s) \<in> measure length" by simp
qed simp

function trim_rev :: "string \<Rightarrow> string" where
  "trim_rev s = (if ws_tail s = 0 then s else trim_rev (drop (ws_tail s) s))"
  by pat_completeness auto
termination
proof (relation "measure length")
  fix s :: string
  assume "ws_tail s \<noteq> 0"
  with ws_tail_le [of s] show "(drop (ws_tail s) s, s) \<in> measure length" by simp
qed simp

declare trim_start.simps [simp del] trim_rev.simps [simp del]

definition trim :: "string \<Rightarrow> string" where
  "trim s = rev (trim_rev (rev (trim_start s)))"

lemma trim_start_ws_head: "ws_head (trim_start s) = 0"
proof (induction s rule: trim_start.induct)
  case (1 s)
  then show ?case by (cases "ws_head s = 0") (simp_all add: trim_start.simps [of s])
qed

lemma trim_rev_ws_tail: "ws_tail (trim_rev s) = 0"
proof (induction s rule: trim_rev.induct)
  case (1 s)
  then show ?case by (cases "ws_tail s = 0") (simp_all add: trim_rev.simps [of s])
qed

lemma trim_rev_suffix: "\<exists>r. s = r @ trim_rev s"
proof (induction s rule: trim_rev.induct)
  case (1 s)
  show ?case
  proof (cases "ws_tail s = 0")
    case True
    then have "s = [] @ trim_rev s" by (simp add: trim_rev.simps [of s])
    then show ?thesis ..
  next
    case False
    with 1 obtain r where "drop (ws_tail s) s = r @ trim_rev (drop (ws_tail s) s)" by blast
    then have "s = (take (ws_tail s) s @ r) @ trim_rev (drop (ws_tail s) s)"
      by (metis append.assoc append_take_drop_id)
    with False show ?thesis by (metis trim_rev.simps)
  qed
qed

lemma ws_head_pair: "ws_head (a # b # r) = 0 \<Longrightarrow> \<not> ascii_ws a \<and> \<not> ws2 a b"
  by (cases r) (auto split: if_splits)

lemma ws_head_single: "ws_head (a # r) = 0 \<Longrightarrow> \<not> ascii_ws a"
  by (cases r) (auto split: if_splits dest: ws_head_pair)

lemma ws_head_append: "ws_head (p @ r) = 0 \<Longrightarrow> ws_head p = 0"
  by (induction p rule: ws_head.induct)
    (auto split: if_splits dest: ws_head_pair ws_head_single)

lemma trim_idem [simp]: "trim (trim s) = trim s"
proof -
  let ?u = "trim_start s"
  obtain r where r: "rev ?u = r @ trim_rev (rev ?u)" using trim_rev_suffix by blast
  then have "?u = trim s @ rev r" by (metis rev_append rev_rev_ident trim_def)
  with trim_start_ws_head have "ws_head (trim s) = 0" by (metis ws_head_append)
  then have "trim_start (trim s) = trim s" by (simp add: trim_start.simps)
  moreover have "trim_rev (rev (trim s)) = rev (trim s)"
    using trim_rev_ws_tail [of "rev ?u"]
    by (simp add: trim_def trim_rev.simps [of "trim_rev (rev (trim_start s))"])
  ultimately show ?thesis by (simp add: trim_def [of "trim s"])
qed

lemma trim_Nil [simp]: "trim [] = []"
  by (simp add: trim_def trim_start.simps trim_rev.simps)

lemma trim_start_le: "length (trim_start s) \<le> length s"
proof (induction s rule: trim_start.induct)
  case (1 s)
  then show ?case by (cases "ws_head s = 0") (simp_all add: trim_start.simps [of s])
qed

lemma length_trim_le: "length (trim s) \<le> length s"
proof -
  obtain r where "rev (trim_start s) = r @ trim_rev (rev (trim_start s))"
    using trim_rev_suffix by blast
  then have "length (trim_rev (rev (trim_start s))) \<le> length (rev (trim_start s))"
    by (metis length_append le_add2)
  then have "length (trim s) \<le> length (trim_start s)" by (simp add: trim_def)
  with trim_start_le [of s] show ?thesis by simp
qed

text \<open>ASCII classification and case mapping, byte by byte.\<close>

definition is_ascii_digit :: "char \<Rightarrow> bool" where
  "is_ascii_digit c \<longleftrightarrow> 48 \<le> (of_char c :: nat) \<and> (of_char c :: nat) \<le> 57"

definition is_ascii_uppercase :: "char \<Rightarrow> bool" where
  "is_ascii_uppercase c \<longleftrightarrow> 65 \<le> (of_char c :: nat) \<and> (of_char c :: nat) \<le> 90"

definition is_ascii_lowercase :: "char \<Rightarrow> bool" where
  "is_ascii_lowercase c \<longleftrightarrow> 97 \<le> (of_char c :: nat) \<and> (of_char c :: nat) \<le> 122"

definition is_ascii_alphanumeric :: "char \<Rightarrow> bool" where
  "is_ascii_alphanumeric c \<longleftrightarrow>
     is_ascii_digit c \<or> is_ascii_uppercase c \<or> is_ascii_lowercase c"

definition is_ascii_hexdigit :: "char \<Rightarrow> bool" where
  "is_ascii_hexdigit c \<longleftrightarrow> is_ascii_digit c
     \<or> 65 \<le> (of_char c :: nat) \<and> (of_char c :: nat) \<le> 70
     \<or> 97 \<le> (of_char c :: nat) \<and> (of_char c :: nat) \<le> 102"

definition is_ascii_control :: "char \<Rightarrow> bool" where
  "is_ascii_control c \<longleftrightarrow> (of_char c :: nat) < 32 \<or> (of_char c :: nat) = 127"

text \<open>
  \<open>char::is_control\<close> on the bytes of a string: the ASCII control characters, and U+0080 to U+009F,
  which are the byte C2 followed by a byte from 80 to 9F.
\<close>

fun has_control :: "string \<Rightarrow> bool" where
  "has_control [] \<longleftrightarrow> False"
| "has_control (c # s) \<longleftrightarrow>
     is_ascii_control c
   \<or> (c = CHR 0xC2 \<and> s \<noteq> [] \<and> 0x80 \<le> (of_char (hd s) :: nat) \<and> (of_char (hd s) :: nat) \<le> 0x9F)
   \<or> has_control s"

definition to_lower_byte :: "char \<Rightarrow> char" where
  "to_lower_byte c = (if is_ascii_uppercase c then char_of ((of_char c :: nat) + 32) else c)"

definition to_ascii_lowercase :: "string \<Rightarrow> string" where
  "to_ascii_lowercase = map to_lower_byte"

definition eq_ignore_ascii_case :: "string \<Rightarrow> string \<Rightarrow> bool" where
  "eq_ignore_ascii_case a b \<longleftrightarrow> to_ascii_lowercase a = to_ascii_lowercase b"

text \<open>\<open>n.to_string()\<close> for an unsigned integer: its decimal digits.\<close>

fun dec :: "nat \<Rightarrow> string" where
  "dec n = (if n < 10 then [char_of (n + 48)] else dec (n div 10) @ [char_of (n mod 10 + 48)])"

declare dec.simps [simp del]

lemma find_Some_mem: "List.find P xs = Some x \<Longrightarrow> x \<in> set xs"
  by (induction xs) (auto split: if_splits)

section \<open>Maps\<close>

abbreviation keys :: "('k \<times> 'v) list \<Rightarrow> 'k list" where
  "keys m \<equiv> map fst m"

lemma map_of_filter_keys:
  "distinct (keys m) \<Longrightarrow>
   map_of (filter (\<lambda>(k, v). P v) m) k =
     (case map_of m k of None \<Rightarrow> None | Some v \<Rightarrow> if P v then Some v else None)"
proof (induction m)
  case (Cons kv m)
  obtain k' v' where kv: "kv = (k', v')" by (cases kv)
  show ?case
  proof (cases "k = k'")
    case True
    with Cons kv have "map_of m k = None" by (auto simp: map_of_eq_None_iff)
    with Cons True kv show ?thesis by simp
  next
    case False
    with Cons kv show ?thesis by auto
  qed
qed simp

lemma map_of_map_values:
  "map_of (map (\<lambda>(k, v). (k, f k v)) m) k = map_option (f k) (map_of m k)"
  by (induction m) auto

lemma keys_map_values [simp]: "keys (map (\<lambda>(k, v). (k, f k v)) m) = keys m"
  by (induction m) auto

lemma mem_update_cases:
  "x \<in> set (AList.update k v m) \<Longrightarrow> x = (k, v) \<or> x \<in> set m"
  by (induction m) (auto split: if_splits)

lemma mem_delete: "x \<in> set (AList.delete k m) \<Longrightarrow> x \<in> set m"
  by (auto simp: AList.delete_eq)

lemma length_update_present:
  "map_of m k = Some v \<Longrightarrow> length (AList.update k w m) = length m"
  by (induction m) (auto split: if_splits)

lemma length_update_absent:
  "map_of m k = None \<Longrightarrow> length (AList.update k w m) = Suc (length m)"
  by (induction m) (auto split: if_splits)

lemma length_update_le: "length (AList.update k w m) \<le> Suc (length m)"
  by (induction m) auto

lemma distinct_keys_filter:
  "distinct (keys m) \<Longrightarrow> distinct (keys (filter P m))"
  by (induction m) auto

lemma update_update_same [simp]: "AList.update k v (AList.update k w m) = AList.update k v m"
  by (induction m) auto

lemma mem_delete_iff: "x \<in> set (AList.delete k m) \<longleftrightarrow> x \<in> set m \<and> fst x \<noteq> k"
  by (auto simp: AList.delete_eq)

lemma mem_foldl_delete:
  "x \<in> set (foldl (\<lambda>m k. AList.delete k m) m ks) \<Longrightarrow> x \<in> set m"
  by (induction ks arbitrary: m) (auto dest: mem_delete)

lemma fst_comp_map_values [simp]: "fst \<circ> (\<lambda>(k, v). (k, f k v)) = fst"
  by auto

lemma update_keys_present: "map_of m k = Some v \<Longrightarrow> keys (AList.update k w m) = keys m"
  by (induction m) (auto split: if_splits)

lemma distinct_foldl_delete:
  "distinct (keys m) \<Longrightarrow> distinct (keys (foldl (\<lambda>m k. AList.delete k m) m ks))"
  by (induction ks arbitrary: m) (simp_all add: distinct_delete)

lemma update_same: "map_of m k = Some v \<Longrightarrow> AList.update k v m = m"
  by (induction m) (auto split: if_splits)

end
