(* ===== verification/OM_Path.thy ===== *)
theory OM_Path
  imports OM_Prelude
begin

text \<open>
  \<open>std::path\<close> on a Unix target, as far as the crates use it: the iterator
  \<open>Path::components\<close>, and the \<open>PathBuf\<close> that is built by \<open>push\<close>ing and \<open>pop\<close>ping
  components.  A path is its byte sequence.  \<open>Component::Prefix\<close> exists on Windows only and
  has no constructor here.
\<close>

datatype path_component = RootDir | CurDir | ParentDir | Normal string

text \<open>The parts between separators; an empty path has one empty part.\<close>

fun split_on :: "char \<Rightarrow> string \<Rightarrow> string list" where
  "split_on sep [] = [[]]"
| "split_on sep (c # cs) =
     (if c = sep then [] # split_on sep cs
      else case split_on sep cs of [] \<Rightarrow> [[c]] | p # ps \<Rightarrow> (c # p) # ps)"

text \<open>
  One part as a component.  Empty parts (repeated or trailing separators) and \<open>.\<close> parts are
  skipped; the only \<open>.\<close> that \<open>components\<close> reports is a leading one of a path with no root.
\<close>

definition parse_single_component :: "string \<Rightarrow> path_component option" where
  "parse_single_component p =
     (if p = [] \<or> p = ''.'' then None
      else if p = ''..'' then Some ParentDir
      else Some (Normal p))"

definition has_root :: "string \<Rightarrow> bool" where
  "has_root s \<longleftrightarrow> starts_with s ''/''"

definition include_cur_dir :: "string \<Rightarrow> bool" where
  "include_cur_dir s \<longleftrightarrow> s = ''.'' \<or> starts_with s ''./''"

definition components :: "string \<Rightarrow> path_component list" where
  "components s =
     (if has_root s then [RootDir] else if include_cur_dir s then [CurDir] else [])
     @ List.map_filter parse_single_component (split_on CHR ''/'' s)"

fun join_parts :: "path_component list \<Rightarrow> string" where
  "join_parts [] = []"
| "join_parts (Normal n # cs) = n @ (if cs = [] then [] else ''/'' @ join_parts cs)"
| "join_parts (CurDir # cs) = ''.'' @ (if cs = [] then [] else ''/'' @ join_parts cs)"
| "join_parts (ParentDir # cs) = ''..'' @ (if cs = [] then [] else ''/'' @ join_parts cs)"
| "join_parts (RootDir # cs) = ''/'' @ join_parts cs"

text \<open>A path buffer is the list of components pushed so far; \<open>render\<close> is its byte form.\<close>

abbreviation render :: "path_component list \<Rightarrow> string" where
  "render \<equiv> join_parts"

text \<open>\<open>PathBuf::push\<close>: an absolute component replaces the buffer.\<close>

definition pathbuf_push :: "path_component list \<Rightarrow> path_component \<Rightarrow> path_component list" where
  "pathbuf_push buf c = (if c = RootDir then [RootDir] else buf @ [c])"

text \<open>\<open>PathBuf::pop\<close>: false on an empty buffer and on a bare root.\<close>

definition pathbuf_pop :: "path_component list \<Rightarrow> path_component list option" where
  "pathbuf_pop buf = (if buf = [] \<or> last buf = RootDir then None else Some (butlast buf))"

definition is_absolute :: "string \<Rightarrow> bool" where
  "is_absolute s \<longleftrightarrow> has_root s"

section \<open>Facts about components\<close>

lemma split_on_nonempty [simp]: "split_on sep s \<noteq> []"
  by (induction s) (auto split: list.splits)

lemma split_on_no_sep: "sep \<notin> set p \<Longrightarrow> split_on sep p = [p]"
  by (induction p) auto

lemma split_on_append_sep:
  "sep \<notin> set p \<Longrightarrow> split_on sep (p @ sep # s) = p # split_on sep s"
  by (induction p) auto

lemma split_on_sep: "split_on sep (a @ sep # s) = split_on sep a @ split_on sep s"
  by (induction a) (auto split: list.splits simp: Cons_eq_append_conv)

lemma split_on_parts: "p \<in> set (split_on sep s) \<Longrightarrow> sep \<notin> set p"
  by (induction s arbitrary: p) (auto split: list.splits if_splits)

lemma map_filter_Cons [simp]:
  "List.map_filter f (x # xs) =
     (case f x of None \<Rightarrow> List.map_filter f xs | Some y \<Rightarrow> y # List.map_filter f xs)"
  by (simp add: List.map_filter_def split: option.splits)

lemma map_filter_Nil [simp]: "List.map_filter f [] = []"
  by (simp add: List.map_filter_def)

lemma map_filter_append [simp]:
  "List.map_filter f (xs @ ys) = List.map_filter f xs @ List.map_filter f ys"
  by (simp add: List.map_filter_def)

lemma in_map_filter: "y \<in> set (List.map_filter f xs) \<longleftrightarrow> (\<exists>x\<in>set xs. f x = Some y)"
  by (induction xs) (auto split: option.splits)

text \<open>What one part can become.\<close>

definition plain_name :: "string \<Rightarrow> bool" where
  "plain_name n \<longleftrightarrow> n \<noteq> [] \<and> n \<noteq> ''.'' \<and> n \<noteq> ''..'' \<and> CHR ''/'' \<notin> set n"

lemma parse_plain [simp]: "plain_name n \<Longrightarrow> parse_single_component n = Some (Normal n)"
  by (simp add: parse_single_component_def plain_name_def)

lemma parse_single_cases:
  "parse_single_component p = Some c \<Longrightarrow>
   c = ParentDir \<or> c = Normal p \<and> p \<noteq> [] \<and> p \<noteq> ''.'' \<and> p \<noteq> ''..''"
  by (auto simp: parse_single_component_def split: if_splits)

lemma body_components:
  assumes "c \<in> set (List.map_filter parse_single_component (split_on CHR ''/'' s))"
  shows "c = ParentDir \<or> (\<exists>n. c = Normal n \<and> plain_name n)"
proof -
  from assms obtain p where p: "p \<in> set (split_on CHR ''/'' s)" "parse_single_component p = Some c"
    by (auto simp: in_map_filter)
  from parse_single_cases [OF p(2)] split_on_parts [OF p(1)] show ?thesis
    by (auto simp: plain_name_def)
qed

lemma components_cases:
  assumes "c \<in> set (components s)"
  shows "c = RootDir \<and> has_root s \<or> c = CurDir \<and> include_cur_dir s \<or> c = ParentDir
    \<or> (\<exists>n. c = Normal n \<and> plain_name n)"
  using assms body_components [of c s] by (auto simp: components_def split: if_splits)

lemma components_plain_append:
  assumes "plain_name n"
  shows "components (n @ ''/'' @ s) =
    Normal n # List.map_filter parse_single_component (split_on CHR ''/'' s)"
proof -
  have "\<not> has_root (n @ ''/'' @ s)" "\<not> include_cur_dir (n @ ''/'' @ s)"
    using assms
    by (cases n rule: list.exhaust; cases "tl n";
        auto simp: has_root_def include_cur_dir_def starts_with_def plain_name_def)+
  moreover have "split_on CHR ''/'' (n @ CHR ''/'' # s) = n # split_on CHR ''/'' s"
    using assms by (intro split_on_append_sep) (simp add: plain_name_def)
  ultimately show ?thesis using assms by (simp add: components_def)
qed

lemma components_plain: "plain_name n \<Longrightarrow> components n = [Normal n]"
proof -
  assume n: "plain_name n"
  then have "\<not> has_root n" "\<not> include_cur_dir n"
    by (cases n rule: list.exhaust; cases "tl n";
        auto simp: has_root_def include_cur_dir_def starts_with_def plain_name_def)+
  moreover have "split_on CHR ''/'' n = [n]"
    using n by (intro split_on_no_sep) (simp add: plain_name_def)
  ultimately show ?thesis using n by (simp add: components_def)
qed

text \<open>A leading \<open>./\<close> adds the one \<open>CurDir\<close> component and nothing else.\<close>

lemma components_dot_slash:
  assumes "\<not> has_root s"
  shows "filter (\<lambda>c. c \<noteq> CurDir) (components (''./'' @ s)) =
    filter (\<lambda>c. c \<noteq> CurDir) (components s)"
proof -
  have "split_on CHR ''/'' (''.'' @ CHR ''/'' # s) = ''.'' # split_on CHR ''/'' s"
    by (rule split_on_append_sep) simp
  with assms show ?thesis
    by (simp add: components_def has_root_def include_cur_dir_def starts_with_def
        parse_single_component_def)
qed

end
