(* ===== verification/Policy.thy ===== *)
theory Policy
  imports OM_Path
begin

text \<open>
  The policy engine, \<open>crates/ownmesh-policy/src/lib.rs\<close>: the allow / ask / deny decision over
  machine facts and the built-in presets.  The grants that can lift an Ask are in \<open>Policy_Grants\<close>.
  Everything is a pure function of the document and the facts, as in the crate.
\<close>

section \<open>Decisions, facts and rules\<close>

datatype decision = Allow | Ask | Deny

fun decision_rank :: "decision \<Rightarrow> int" where
  "decision_rank Allow = 0"
| "decision_rank Ask = 1"
| "decision_rank Deny = 2"

lemma decision_rank_inj: "decision_rank a = decision_rank b \<longleftrightarrow> a = b"
  by (cases a; cases b) auto

instantiation decision :: linorder
begin

definition less_eq_decision :: "decision \<Rightarrow> decision \<Rightarrow> bool" where
  "less_eq_decision a b \<longleftrightarrow> decision_rank a \<le> decision_rank b"

definition less_decision :: "decision \<Rightarrow> decision \<Rightarrow> bool" where
  "less_decision a b \<longleftrightarrow> decision_rank a < decision_rank b"

instance
  by standard (auto simp: less_eq_decision_def less_decision_def decision_rank_inj)

end

definition tighten :: "decision \<Rightarrow> decision \<Rightarrow> decision" where
  "tighten a b = (if b \<le> a then a else b)"

datatype access_preset = WorkspaceOnly | Recommended | FullUserAccess | FullAccess | Custom

record executable_identity =
  eib_path :: string
  eib_content_sha256 :: string
  eib_len :: u64
  eib_device :: "u64 option"
  eib_inode :: "u64 option"
  eib_path_device :: "u64 option"
  eib_path_inode :: "u64 option"
  eib_link_target :: "string option"
  eib_policy_kind :: string

definition is_bound :: "executable_identity \<Rightarrow> bool" where
  "is_bound b \<longleftrightarrow>
     trim (eib_path b) \<noteq> [] \<and> trim (eib_content_sha256 b) \<noteq> [] \<and> trim (eib_policy_kind b) \<noteq> []"

definition identity_matches :: "executable_identity \<Rightarrow> executable_identity \<Rightarrow> bool" where
  "identity_matches a b =
     (if \<not> is_bound a \<or> \<not> is_bound b then False
      else if eib_path a \<noteq> eib_path b \<or> eib_content_sha256 a \<noteq> eib_content_sha256 b
           \<or> eib_len a \<noteq> eib_len b \<or> eib_policy_kind a \<noteq> eib_policy_kind b then False
      else if (eib_device a \<noteq> None \<or> eib_device b \<noteq> None
               \<or> eib_inode a \<noteq> None \<or> eib_inode b \<noteq> None
               \<or> eib_path_device a \<noteq> None \<or> eib_path_device b \<noteq> None
               \<or> eib_path_inode a \<noteq> None \<or> eib_path_inode b \<noteq> None
               \<or> eib_link_target a \<noteq> None \<or> eib_link_target b \<noteq> None)
            \<and> (eib_device a \<noteq> eib_device b \<or> eib_inode a \<noteq> eib_inode b
               \<or> eib_path_device a \<noteq> eib_path_device b
               \<or> eib_path_inode a \<noteq> eib_path_inode b
               \<or> eib_link_target a \<noteq> eib_link_target b) then False
      else True)"

definition TAG_READS_SENSITIVE_LOCATION :: string where
  "TAG_READS_SENSITIVE_LOCATION = ''reads_sensitive_location''"

record operation_facts =
  f_capability :: string
  f_kind :: string
  f_path :: "string option"
  f_program :: "string option"
  f_elevated :: bool
  f_workspace_relative :: bool
  f_tags :: "string list"
  f_executable_identity :: "executable_identity option"
  f_invocation_identity :: "executable_identity option"
  f_workspace_id :: "string option"
  f_tool :: "string option"

record policy_rule =
  r_id :: string
  r_decision :: decision
  r_priority :: int
  r_capability :: string
  r_when_elevated :: "bool option"
  r_when_kind :: "string option"
  r_path_prefix :: "string option"
  r_program_equals :: "string option"
  r_when_tag :: "string option"
  r_description :: "string option"

section \<open>Path and capability matching\<close>

fun scope_parts :: "path_component list \<Rightarrow> path_component list option" where
  "scope_parts [] = Some []"
| "scope_parts (CurDir # cs) = scope_parts cs"
| "scope_parts (ParentDir # cs) = None"
| "scope_parts (c # cs) = map_option ((#) c) (scope_parts cs)"

definition path_components :: "string \<Rightarrow> path_component list option" where
  "path_components value =
     (if value = [] then None
      else case scope_parts (components value) of
             None \<Rightarrow> None
           | Some out \<Rightarrow> if out = [] then None else Some out)"

definition has_parent :: "string \<Rightarrow> bool" where
  "has_parent value \<longleftrightarrow> ParentDir \<in> set (components value)"

fun normalize_parts ::
  "path_component list \<Rightarrow> path_component list \<Rightarrow> path_component list option" where
  "normalize_parts buf [] = Some buf"
| "normalize_parts buf (CurDir # cs) = normalize_parts buf cs"
| "normalize_parts buf (ParentDir # cs) =
     (case pathbuf_pop buf of None \<Rightarrow> None | Some buf' \<Rightarrow> normalize_parts buf' cs)"
| "normalize_parts buf (RootDir # cs) = normalize_parts (pathbuf_push buf RootDir) cs"
| "normalize_parts buf (Normal n # cs) = normalize_parts (pathbuf_push buf (Normal n)) cs"

definition normalize :: "string \<Rightarrow> string option" where
  "normalize value =
     (case normalize_parts [] (components value) of
        None \<Rightarrow> None
      | Some normalized \<Rightarrow>
          let rendered = render normalized in
          Some (if ends_with value ''/'' \<and> \<not> ends_with rendered ''/''
                then rendered @ ''/'' else rendered))"

definition rule_path_prefix_matches :: "string \<Rightarrow> string \<Rightarrow> bool" where
  "rule_path_prefix_matches pre candidate =
     (if \<not> has_parent pre \<and> \<not> has_parent candidate then starts_with candidate pre
      else case normalize pre of
             None \<Rightarrow> False
           | Some p \<Rightarrow> (case normalize candidate of
                          None \<Rightarrow> False
                        | Some c \<Rightarrow> starts_with c p))"

definition path_scope_contains :: "string \<Rightarrow> string \<Rightarrow> bool" where
  "path_scope_contains scope candidate =
     (case (path_components scope, path_components candidate) of
        (Some s, Some c) \<Rightarrow> length s \<le> length c \<and> list_all (\<lambda>(a, b). a = b) (zip s c)
      | _ \<Rightarrow> False)"

definition capability_match :: "string \<Rightarrow> string \<Rightarrow> bool" where
  "capability_match pattern capability =
     (if pattern = ''*'' then True
      else case strip_suffix ''.*'' pattern of
             Some pre \<Rightarrow> capability = pre \<or> starts_with capability (pre @ ''.'')
           | None \<Rightarrow> pattern = capability)"

definition rule_matches :: "policy_rule \<Rightarrow> operation_facts \<Rightarrow> bool" where
  "rule_matches r facts =
     (if \<not> capability_match (r_capability r) (f_capability facts) then False
      else if (case r_when_elevated r of None \<Rightarrow> False | Some e \<Rightarrow> e \<noteq> f_elevated facts) then False
      else if (case r_when_kind r of None \<Rightarrow> False | Some k \<Rightarrow> k \<noteq> f_kind facts) then False
      else if (case r_when_tag r of None \<Rightarrow> False | Some tag \<Rightarrow> tag \<notin> set (f_tags facts)) then False
      else if (case r_path_prefix r of
                 None \<Rightarrow> False
               | Some pre \<Rightarrow> (case f_path facts of
                                  Some p \<Rightarrow> \<not> rule_path_prefix_matches pre p
                                | None \<Rightarrow> True)) then False
      else if (case r_program_equals r of
                 None \<Rightarrow> False
               | Some prog \<Rightarrow> f_program facts \<noteq> Some prog) then False
      else True)"

section \<open>Evaluation\<close>

record policy_document =
  d_preset :: access_preset
  d_rules :: "policy_rule list"
  d_note :: "string option"

record policy_verdict =
  v_decision :: decision
  v_matched_rule_id :: "string option"
  v_reason :: string

text \<open>
  \<open>sort_by\<close> is a stable sort; its comparator orders by decision and then by priority, both
  descending, which is ascending order of the negated pair.
\<close>

definition severity_key :: "policy_rule \<Rightarrow> int \<times> int" where
  "severity_key r = (- decision_rank (r_decision r), - r_priority r)"

definition evaluate :: "policy_document \<Rightarrow> operation_facts \<Rightarrow> policy_verdict" where
  "evaluate doc facts =
     (let matched = filter (\<lambda>r. rule_matches r facts) (d_rules doc) in
      if matched = [] then
        \<lparr>v_decision = Allow, v_matched_rule_id = None,
         v_reason = ''no matching rule; default allow''\<rparr>
      else
        let top = hd (sort_key severity_key matched) in
        \<lparr>v_decision = r_decision top, v_matched_rule_id = Some (r_id top),
         v_reason = (case r_description top of
                       Some d \<Rightarrow> d
                     | None \<Rightarrow> ''matched rule '' @ r_id top)\<rparr>)"

definition evaluate_combined ::
  "policy_document \<Rightarrow> policy_document \<Rightarrow> operation_facts \<Rightarrow> policy_verdict" where
  "evaluate_combined cloud loc facts =
     (let c = evaluate cloud facts; l = evaluate loc facts;
          decision = tighten (v_decision c) (v_decision l) in
      if decision = v_decision c \<and> decision \<noteq> v_decision l then
        \<lparr>v_decision = decision, v_matched_rule_id = v_matched_rule_id c,
         v_reason = ''cloud: '' @ v_reason c\<rparr>
      else if decision = v_decision l \<and> decision \<noteq> v_decision c then
        \<lparr>v_decision = decision, v_matched_rule_id = v_matched_rule_id l,
         v_reason = ''local: '' @ v_reason l\<rparr>
      else if v_decision l \<le> v_decision c then
        \<lparr>v_decision = decision, v_matched_rule_id = v_matched_rule_id c,
         v_reason = ''combined cloud+local (cloud): '' @ v_reason c\<rparr>
      else
        \<lparr>v_decision = decision, v_matched_rule_id = v_matched_rule_id l,
         v_reason = ''combined cloud+local (local): '' @ v_reason l\<rparr>)"

section \<open>Presets\<close>

text \<open>A rule with no condition besides its capability; the presets update it.\<close>

abbreviation basic_rule ::
  "string \<Rightarrow> decision \<Rightarrow> int \<Rightarrow> string \<Rightarrow> string \<Rightarrow> policy_rule" where
  "basic_rule i dcn prio cap desc \<equiv>
     \<lparr>r_id = i, r_decision = dcn, r_priority = prio, r_capability = cap,
      r_when_elevated = None, r_when_kind = None, r_path_prefix = None,
      r_program_equals = None, r_when_tag = None, r_description = Some desc\<rparr>"

definition sensitive_read_ask_rule :: "string \<Rightarrow> policy_rule" where
  "sensitive_read_ask_rule i =
     (basic_rule i Ask 60 ''filesystem.read'' ''confirm reads of credential-like paths'')
       \<lparr>r_when_tag := Some TAG_READS_SENSITIVE_LOCATION\<rparr>"

definition preset_workspace_only :: policy_document where
  "preset_workspace_only =
     \<lparr>d_preset = WorkspaceOnly,
      d_rules =
        [(basic_rule ''ws-deny-elevated'' Deny 100 ''*''
            ''elevated ops denied in Workspace Only'')\<lparr>r_when_elevated := Some True\<rparr>,
         basic_rule ''ws-deny-command-until-confinement'' Deny 95 ''command.run''
            ''command.run denied in workspace_only until OS process confinement'',
         basic_rule ''ws-deny-session-open-until-confinement'' Deny 95 ''session.open''
            ''session.open denied in workspace_only until OS process confinement'',
         basic_rule ''ws-ask-write'' Ask 50 ''filesystem.write'' ''confirm writes'',
         sensitive_read_ask_rule ''ws-ask-sensitive-read''],
      d_note = Some ''Workspace-relative FS only; command.run denied until OS process confinement exists''\<rparr>"

definition preset_recommended :: policy_document where
  "preset_recommended =
     \<lparr>d_preset = Recommended,
      d_rules =
        [(basic_rule ''rec-ask-elevated'' Ask 100 ''*'' ''confirm elevated'')
            \<lparr>r_when_elevated := Some True\<rparr>,
         basic_rule ''rec-deny-command-until-confinement'' Deny 95 ''command.run''
            ''command.run denied in recommended until OS process confinement'',
         basic_rule ''rec-deny-session-open-until-confinement'' Deny 95 ''session.open''
            ''session.open denied in recommended until OS process confinement'',
         basic_rule ''rec-ask-write'' Ask 50 ''filesystem.write'' ''confirm writes'',
         basic_rule ''rec-allow-read'' Allow 10 ''filesystem.read'' ''allow reads'',
         sensitive_read_ask_rule ''rec-ask-sensitive-read''],
      d_note = Some ''Balanced defaults: ask on write, allow reads; command.run denied until OS confinement''\<rparr>"

definition preset_full_user_access :: policy_document where
  "preset_full_user_access =
     \<lparr>d_preset = FullUserAccess,
      d_rules =
        [(basic_rule ''fua-ask-elevated'' Ask 100 ''*'' ''confirm elevated only'')
            \<lparr>r_when_elevated := Some True\<rparr>],
      d_note = Some ''User-level full access; elevated still asks''\<rparr>"

fun preset_document :: "access_preset \<Rightarrow> policy_document" where
  "preset_document WorkspaceOnly = preset_workspace_only"
| "preset_document Recommended = preset_recommended"
| "preset_document FullUserAccess = preset_full_user_access"
| "preset_document FullAccess =
     \<lparr>d_preset = FullAccess, d_rules = [],
      d_note = Some ''Full Access: all allow, no hidden denies''\<rparr>"
| "preset_document Custom =
     \<lparr>d_preset = Custom, d_rules = [],
      d_note = Some ''Empty custom policy; default allow until rules added''\<rparr>"

definition full_access_has_no_hidden_restrictive_rules :: "policy_document \<Rightarrow> bool" where
  "full_access_has_no_hidden_restrictive_rules doc \<longleftrightarrow>
     d_preset doc = FullAccess \<and> list_all (\<lambda>r. r_decision r = Allow) (d_rules doc)"

text \<open>The counts of rules per decision, in the key order of the \<open>BTreeMap\<close>.\<close>

definition decision_histogram :: "policy_document \<Rightarrow> (string \<times> nat) list" where
  "decision_histogram doc =
     foldl (\<lambda>m r. let key = (case r_decision r of
                               Allow \<Rightarrow> ''allow'' | Ask \<Rightarrow> ''ask'' | Deny \<Rightarrow> ''deny'')
                  in AList.update key (Suc (case map_of m key of None \<Rightarrow> 0 | Some n \<Rightarrow> n)) m)
       [(''allow'', 0), (''ask'', 0), (''deny'', 0)] (d_rules doc)"

section \<open>The decision of a document\<close>

lemma hd_insort_key:
  "hd (insort_key f x ys) = (if ys = [] \<or> f x \<le> f (hd ys) then x else hd ys)"
  by (cases ys) auto

lemma hd_sort_key:
  "xs \<noteq> [] \<Longrightarrow> hd (sort_key f xs) \<in> set xs \<and> (\<forall>y\<in>set xs. f (hd (sort_key f xs)) \<le> f y)"
proof (induction xs)
  case (Cons x xs)
  show ?case
  proof (cases "xs = []")
    case False
    with Cons have IH: "hd (sort_key f xs) \<in> set xs"
      "\<forall>y\<in>set xs. f (hd (sort_key f xs)) \<le> f y" by auto
    have "sort_key f xs \<noteq> []" using False by (metis set_empty set_sort)
    with IH show ?thesis
      by (auto simp: hd_insort_key)
  qed simp
qed simp

text \<open>The verdict of a rule that was selected.\<close>

definition verdict_of :: "policy_rule \<Rightarrow> policy_verdict" where
  "verdict_of r =
     \<lparr>v_decision = r_decision r, v_matched_rule_id = Some (r_id r),
      v_reason = (case r_description r of Some d \<Rightarrow> d | None \<Rightarrow> ''matched rule '' @ r_id r)\<rparr>"

abbreviation default_verdict :: policy_verdict where
  "default_verdict \<equiv>
     \<lparr>v_decision = Allow, v_matched_rule_id = None,
      v_reason = ''no matching rule; default allow''\<rparr>"

definition matching_rules :: "policy_document \<Rightarrow> operation_facts \<Rightarrow> policy_rule list" where
  "matching_rules doc facts = filter (\<lambda>r. rule_matches r facts) (d_rules doc)"

lemma evaluate_cases:
  obtains (none) "matching_rules doc facts = []" "evaluate doc facts = default_verdict"
  | (top) r where "r \<in> set (matching_rules doc facts)" "evaluate doc facts = verdict_of r"
      "r = hd (sort_key severity_key (matching_rules doc facts))"
      "\<forall>q\<in>set (matching_rules doc facts). severity_key r \<le> severity_key q"
proof (cases "matching_rules doc facts = []")
  case True
  then show ?thesis using none by (simp add: evaluate_def matching_rules_def)
next
  case False
  let ?r = "hd (sort_key severity_key (matching_rules doc facts))"
  have "evaluate doc facts = verdict_of ?r"
    using False by (simp add: evaluate_def matching_rules_def verdict_of_def Let_def)
  with hd_sort_key [OF False, of severity_key] show ?thesis using top by blast
qed

lemma severity_key_le: "severity_key r \<le> severity_key q \<Longrightarrow> r_decision q \<le> r_decision r"
  by (auto simp: severity_key_def less_eq_prod_def less_eq_decision_def)

lemma evaluate_ge:
  "r \<in> set (d_rules doc) \<Longrightarrow> rule_matches r facts \<Longrightarrow>
   r_decision r \<le> v_decision (evaluate doc facts)"
  by (rule evaluate_cases [of doc facts])
    (auto simp: matching_rules_def verdict_of_def filter_empty_conv dest: severity_key_le)

lemma Allow_le [simp]: "Allow \<le> d"
  by (cases d) (auto simp: less_eq_decision_def)

lemma decision_le_Allow [simp]: "d \<le> Allow \<longleftrightarrow> d = Allow"
  by (cases d) (auto simp: less_eq_decision_def)

lemma Deny_le [simp]: "Deny \<le> d \<longleftrightarrow> d = Deny"
  by (cases d) (auto simp: less_eq_decision_def)

lemma le_Deny [simp]: "d \<le> Deny"
  by (cases d) (auto simp: less_eq_decision_def)

lemma Ask_le [simp]: "Ask \<le> d \<longleftrightarrow> d \<noteq> Allow"
  by (cases d) (auto simp: less_eq_decision_def)

lemma evaluate_decided_by:
  "v_decision (evaluate doc facts) \<noteq> Allow \<Longrightarrow>
   \<exists>r\<in>set (d_rules doc). rule_matches r facts \<and> r_decision r = v_decision (evaluate doc facts)"
  by (rule evaluate_cases [of doc facts]) (auto simp: matching_rules_def verdict_of_def)

text \<open>Facts used by the closed instances below: a write of a workspace file.\<close>

definition facts0 :: operation_facts where
  "facts0 =
     \<lparr>f_capability = ''filesystem.write'', f_kind = ''file'', f_path = Some ''proj/out.txt'',
      f_program = None, f_elevated = False, f_workspace_relative = True, f_tags = [],
      f_executable_identity = None, f_invocation_identity = None,
      f_workspace_id = Some ''ws_default'', f_tool = Some ''fs_write''\<rparr>"

text \<open>The decision as the specification states it: deny over ask over allow.\<close>

definition decides :: "policy_document \<Rightarrow> operation_facts \<Rightarrow> decision \<Rightarrow> bool" where
  "decides doc facts d \<longleftrightarrow> (\<exists>r\<in>set (d_rules doc). rule_matches r facts \<and> r_decision r = d)"

lemma evaluate_decision:
  "v_decision (evaluate doc facts) =
     (if decides doc facts Deny then Deny else if decides doc facts Ask then Ask else Allow)"
proof -
  let ?d = "v_decision (evaluate doc facts)"
  have up: "\<And>d. decides doc facts d \<Longrightarrow> d \<le> ?d"
    using evaluate_ge by (auto simp: decides_def)
  have down: "?d \<noteq> Allow \<Longrightarrow> decides doc facts ?d"
    using evaluate_decided_by by (auto simp: decides_def)
  from up [of Deny] up [of Ask] down show ?thesis by (cases ?d) auto
qed

text \<open>A reference evaluator: one pass that keeps the most severe rule seen so far.\<close>

fun most_severe :: "policy_rule \<Rightarrow> policy_rule list \<Rightarrow> policy_rule" where
  "most_severe best [] = best"
| "most_severe best (r # rs) =
     most_severe (if severity_key r < severity_key best then r else best) rs"

lemma most_severe_Cons:
  "most_severe b (r # rs) =
     (let m = most_severe r rs in if severity_key m < severity_key b then m else b)"
proof (induction rs arbitrary: b r)
  case (Cons q rs)
  have *: "most_severe x (q # rs) =
      (let m = most_severe q rs in if severity_key m < severity_key x then m else x)" for x
    by (rule Cons.IH)
  show ?case
    by (simp only: most_severe.simps(2) [of b r] * Let_def) (auto simp: * Let_def)
qed simp

lemma hd_sort_key_most_severe: "hd (sort_key severity_key (r # rs)) = most_severe r rs"
proof (induction rs arbitrary: r)
  case (Cons q rs)
  let ?s = "sort_key severity_key (q # rs)"
  have "?s \<noteq> []" by (metis list.set_intros(1) set_empty empty_iff set_sort)
  then have "hd (sort_key severity_key (r # q # rs)) =
      (if severity_key r \<le> severity_key (hd ?s) then r else hd ?s)"
    by (simp add: hd_insort_key)
  with Cons.IH [of q] show ?case
    by (simp add: most_severe_Cons Let_def not_le del: most_severe.simps)
qed simp

text \<open>
  For every document and every set of facts, sorting the matching rules and taking the
  head (the code) gives the same verdict, rule id and reason as one left-to-right pass that
  replaces its candidate only by a strictly more severe rule: the first rule in document order
  among those of highest decision and, within it, highest priority; and the default Allow when
  no rule matches.
\<close>

theorem evaluate_is_single_pass:
  "evaluate doc facts =
     (case filter (\<lambda>r. rule_matches r facts) (d_rules doc) of
        [] \<Rightarrow> default_verdict
      | r # rs \<Rightarrow> verdict_of (most_severe r rs))"
  by (cases "filter (\<lambda>r. rule_matches r facts) (d_rules doc)")
    (simp_all add: evaluate_def Let_def verdict_of_def hd_sort_key_most_severe
      del: sort_key_simps most_severe.simps)

text \<open>
  Deny beats ask beats allow whatever the priorities: the verdict is Deny exactly when some
  matching rule denies, Ask exactly when none denies and some asks, and Allow otherwise.
\<close>

theorem evaluate_deny_ask_allow:
  "(v_decision (evaluate doc facts) = Deny \<longleftrightarrow>
      (\<exists>r\<in>set (d_rules doc). rule_matches r facts \<and> r_decision r = Deny))
   \<and> (v_decision (evaluate doc facts) = Ask \<longleftrightarrow>
      \<not> (\<exists>r\<in>set (d_rules doc). rule_matches r facts \<and> r_decision r = Deny)
      \<and> (\<exists>r\<in>set (d_rules doc). rule_matches r facts \<and> r_decision r = Ask))"
  using evaluate_decision [of doc facts] by (auto simp: decides_def)

text \<open>
  Rules only tighten.  A document whose rules include those of another never decides less
  restrictively than the other, whatever the order, the duplicates and the priorities; in
  particular reordering rules never changes the decision.
\<close>

theorem more_rules_never_loosen:
  "set (d_rules a) \<subseteq> set (d_rules b) \<Longrightarrow>
   v_decision (evaluate a facts) \<le> v_decision (evaluate b facts)"
proof (cases "v_decision (evaluate a facts) = Allow")
  case False
  assume sub: "set (d_rules a) \<subseteq> set (d_rules b)"
  from False obtain r where "r \<in> set (d_rules a)" "rule_matches r facts"
    "r_decision r = v_decision (evaluate a facts)"
    using evaluate_decided_by by blast
  with sub evaluate_ge [of r b facts] show ?thesis by auto
qed simp

theorem more_rules_never_loosen_witness:
  "set (d_rules (preset_document FullUserAccess)) \<subseteq>
     set (d_rules ((preset_document WorkspaceOnly)
       \<lparr>d_rules := d_rules preset_workspace_only @ d_rules preset_full_user_access\<rparr>))
   \<and> v_decision (evaluate (preset_document FullUserAccess) facts0)
     \<le> v_decision (evaluate ((preset_document WorkspaceOnly)
         \<lparr>d_rules := d_rules preset_workspace_only @ d_rules preset_full_user_access\<rparr>) facts0)"
proof -
  have h: "set (d_rules (preset_document FullUserAccess)) \<subseteq>
     set (d_rules ((preset_document WorkspaceOnly)
       \<lparr>d_rules := d_rules preset_workspace_only @ d_rules preset_full_user_access\<rparr>))"
    by simp
  show ?thesis using h more_rules_never_loosen [OF h, of facts0] by blast
qed

section \<open>Presets\<close>

lemma capability_match_star [simp]: "capability_match ''*'' c"
  by (simp add: capability_match_def)

lemma capability_match_exact:
  "strip_suffix ''.*'' p = None \<Longrightarrow> p \<noteq> ''*'' \<Longrightarrow> capability_match p c \<longleftrightarrow> p = c"
  by (simp add: capability_match_def)

lemma preset_capabilities [simp]:
  "capability_match ''command.run'' c \<longleftrightarrow> c = ''command.run''"
  "capability_match ''session.open'' c \<longleftrightarrow> c = ''session.open''"
  "capability_match ''filesystem.write'' c \<longleftrightarrow> c = ''filesystem.write''"
  "capability_match ''filesystem.read'' c \<longleftrightarrow> c = ''filesystem.read''"
  by (subst capability_match_exact;
      auto simp: strip_suffix_def ends_with_def starts_with_def)+

lemma rule_matches_basic [simp]:
  "rule_matches (basic_rule i dcn prio cap desc) facts \<longleftrightarrow>
     capability_match cap (f_capability facts)"
  "rule_matches
     \<lparr>r_id = i, r_decision = dcn, r_priority = prio, r_capability = cap,
      r_when_elevated = Some e, r_when_kind = None, r_path_prefix = None,
      r_program_equals = None, r_when_tag = None, r_description = Some desc\<rparr> facts \<longleftrightarrow>
     capability_match cap (f_capability facts) \<and> e = f_elevated facts"
  "rule_matches (sensitive_read_ask_rule i) facts \<longleftrightarrow>
     f_capability facts = ''filesystem.read'' \<and>
     TAG_READS_SENSITIVE_LOCATION \<in> set (f_tags facts)"
  by (auto simp: rule_matches_def sensitive_read_ask_rule_def)

lemma sensitive_read_ask_rule_decision [simp]: "r_decision (sensitive_read_ask_rule i) = Ask"
  by (simp add: sensitive_read_ask_rule_def)

lemmas preset_defs = preset_workspace_only_def preset_recommended_def preset_full_user_access_def

text \<open>What each preset decides, as a table over the facts.\<close>

definition preset_table :: "access_preset \<Rightarrow> operation_facts \<Rightarrow> decision" where
  "preset_table p facts =
     (let cap = f_capability facts; exec = cap \<in> {''command.run'', ''session.open''};
          confirm = cap = ''filesystem.write'' \<or>
            cap = ''filesystem.read'' \<and> TAG_READS_SENSITIVE_LOCATION \<in> set (f_tags facts) in
      case p of
        WorkspaceOnly \<Rightarrow> if f_elevated facts \<or> exec then Deny else if confirm then Ask else Allow
      | Recommended \<Rightarrow> if exec then Deny else if f_elevated facts \<or> confirm then Ask else Allow
      | FullUserAccess \<Rightarrow> if f_elevated facts then Ask else Allow
      | _ \<Rightarrow> Allow)"

lemma preset_decision: "v_decision (evaluate (preset_document p) facts) = preset_table p facts"
  by (cases p; simp add: evaluate_decision decides_def preset_defs preset_table_def Let_def)

text \<open>
  The presets form a chain: for every operation Workspace Only is at least as restrictive
  as Recommended, which is at least as restrictive as Full User Access, which is at least as
  restrictive as Full Access; and Full Access allows every operation.
\<close>

theorem presets_form_a_chain:
  "v_decision (evaluate (preset_document FullAccess) facts) = Allow
   \<and> v_decision (evaluate (preset_document FullUserAccess) facts)
       \<le> v_decision (evaluate (preset_document Recommended) facts)
   \<and> v_decision (evaluate (preset_document Recommended) facts)
       \<le> v_decision (evaluate (preset_document WorkspaceOnly) facts)"
  unfolding preset_decision by (simp add: preset_table_def Let_def less_eq_decision_def)

text \<open>
  A document that passes the Full Access conformance check has no hidden restriction: it
  allows every operation.
\<close>

theorem full_access_allows_everything:
  "full_access_has_no_hidden_restrictive_rules doc \<Longrightarrow> v_decision (evaluate doc facts) = Allow"
  by (auto simp: full_access_has_no_hidden_restrictive_rules_def evaluate_decision decides_def
      list_all_iff)

theorem full_access_allows_everything_witness:
  "full_access_has_no_hidden_restrictive_rules (preset_document FullAccess)
   \<and> v_decision (evaluate (preset_document FullAccess)
        \<lparr>f_capability = ''broker.elevated'', f_kind = ''elevated'', f_path = None,
         f_program = Some ''diskpart'', f_elevated = True, f_workspace_relative = False,
         f_tags = [], f_executable_identity = None, f_invocation_identity = None,
         f_workspace_id = None, f_tool = None\<rparr>) = Allow"
proof -
  have h: "full_access_has_no_hidden_restrictive_rules (preset_document FullAccess)"
    by (simp add: full_access_has_no_hidden_restrictive_rules_def)
  show ?thesis using h full_access_allows_everything [OF h] by blast
qed

text \<open>
  Combining a cloud and a local document takes the tighter of the two decisions, so neither
  document can loosen the other; the rule id reported is that of a document that reached the
  combined decision.
\<close>

theorem evaluate_combined_is_tightest:
  "v_decision (evaluate_combined cloud loc facts) =
     max (v_decision (evaluate cloud facts)) (v_decision (evaluate loc facts))
   \<and> (\<exists>doc\<in>{cloud, loc}.
        v_decision (evaluate doc facts) = v_decision (evaluate_combined cloud loc facts)
        \<and> v_matched_rule_id (evaluate doc facts)
            = v_matched_rule_id (evaluate_combined cloud loc facts))"
  by (auto simp: evaluate_combined_def tighten_def Let_def max_def)

section \<open>Path scopes and rule prefixes\<close>

lemma list_all_zip_prefix:
  "length s \<le> length c \<Longrightarrow> list_all (\<lambda>(a, b). a = b) (zip s c) \<longleftrightarrow> (\<exists>r. c = s @ r)"
proof (induction s arbitrary: c)
  case (Cons a s)
  then obtain b c' where c: "c = b # c'" by (cases c) auto
  with Cons show ?case by auto
qed simp

lemma path_scope_contains_iff:
  "path_scope_contains scope candidate \<longleftrightarrow>
     (\<exists>s r. path_components scope = Some s \<and> path_components candidate = Some (s @ r))"
  by (auto simp: path_scope_contains_def list_all_zip_prefix split: option.splits)

lemma scope_parts_filter:
  "scope_parts cs = (if ParentDir \<in> set cs then None else Some (filter (\<lambda>c. c \<noteq> CurDir) cs))"
  by (induction cs rule: scope_parts.induct) auto

lemma path_components_alt:
  "path_components v =
     (if v = [] \<or> has_parent v then None
      else let out = filter (\<lambda>c. c \<noteq> CurDir) (components v) in
           if out = [] then None else Some out)"
  by (simp add: path_components_def scope_parts_filter has_parent_def Let_def)

lemma path_components_no_parent: "path_components v = Some s \<Longrightarrow> \<not> has_parent v"
  by (auto simp: path_components_alt split: if_splits)

lemma path_scope_contains_refl:
  "path_components p \<noteq> None \<Longrightarrow> path_scope_contains p p"
  by (auto simp: path_scope_contains_iff)

text \<open>
  Grant scopes nest: containment of path scopes is transitive, fails closed as soon as
  either side has a \<open>..\<close> component, and keeps absolute and relative paths apart.
\<close>

theorem path_scope_contains_nests:
  assumes "path_scope_contains a b"
  shows "(path_scope_contains b c \<longrightarrow> path_scope_contains a c)
    \<and> \<not> has_parent a \<and> \<not> has_parent b \<and> (has_root a \<longleftrightarrow> has_root b)"
proof -
  from assms obtain s r where sr: "path_components a = Some s" "path_components b = Some (s @ r)"
    by (auto simp: path_scope_contains_iff)
  have root: "has_root v \<longleftrightarrow> hd p = RootDir" if "path_components v = Some p" for v p
  proof (cases "has_root v")
    case True
    with that show ?thesis
      by (auto simp: path_components_alt components_def Let_def split: if_splits)
  next
    case False
    from that have p: "p \<noteq> []" "set p \<subseteq> set (components v)"
      by (auto simp: path_components_alt Let_def split: if_splits)
    then have "hd p \<in> set (components v)" by (cases p) auto
    with False components_cases [of "hd p" v] show ?thesis by auto
  qed
  have "s \<noteq> []" using sr(1) by (auto simp: path_components_alt Let_def split: if_splits)
  then have "has_root a \<longleftrightarrow> has_root b" using root [OF sr(1)] root [OF sr(2)] by simp
  moreover have "path_scope_contains b c \<longrightarrow> path_scope_contains a c"
    using sr by (auto simp: path_scope_contains_iff)
  ultimately show ?thesis using sr path_components_no_parent by blast
qed

theorem path_scope_contains_nests_witness:
  "path_scope_contains ''proj'' ''./proj//src''
   \<and> path_scope_contains ''./proj//src'' ''proj/src/lib.rs''
   \<and> path_scope_contains ''proj'' ''proj/src/lib.rs''
   \<and> \<not> has_parent ''proj''"
proof -
  have h: "path_scope_contains ''proj'' ''./proj//src''"
    "path_scope_contains ''./proj//src'' ''proj/src/lib.rs''" by code_simp+
  show ?thesis using h path_scope_contains_nests [OF h(1), of "''proj/src/lib.rs''"] by blast
qed

lemma path_components_plain: "plain_name n \<Longrightarrow> path_components n = Some [Normal n]"
  by (auto simp: path_components_alt components_plain has_parent_def plain_name_def)

text \<open>
  A grant scope is component-bounded: the scope of one directory name captures a path that
  starts with a directory name only when the two names are equal, so \<open>proj\<close> never captures
  \<open>proj-secret/...\<close>.
\<close>

theorem scope_is_component_bounded:
  assumes "plain_name n" and "plain_name m"
  shows "path_scope_contains n (m @ ''/'' @ rest) \<longleftrightarrow> n = m \<and> \<not> has_parent (m @ ''/'' @ rest)"
proof -
  have "components (m @ ''/'' @ rest) =
      Normal m # List.map_filter parse_single_component (split_on CHR ''/'' rest)"
    using assms(2) by (rule components_plain_append)
  moreover have "m @ ''/'' @ rest \<noteq> []" by simp
  ultimately show ?thesis
    using assms path_components_plain [of n]
    by (auto simp: path_scope_contains_iff path_components_alt Let_def)
qed

theorem scope_is_component_bounded_witness:
  "plain_name ''proj'' \<and> plain_name ''proj-secret''
   \<and> \<not> path_scope_contains ''proj'' (''proj-secret'' @ ''/'' @ ''key.pem'')"
proof -
  have h: "plain_name ''proj''" "plain_name ''proj-secret''" by (simp_all add: plain_name_def)
  show ?thesis using h scope_is_component_bounded [OF h, of "''key.pem''"] by simp
qed

lemma components_parent_hop:
  assumes "plain_name d"
  shows "components (d @ ''/../'' @ s) =
    Normal d # ParentDir # List.map_filter parse_single_component (split_on CHR ''/'' s)"
proof -
  have "split_on CHR ''/'' (''..'' @ CHR ''/'' # s) = ''..'' # split_on CHR ''/'' s"
    by (rule split_on_append_sep) simp
  with components_plain_append [OF assms, of "''../'' @ s"] show ?thesis
    by (simp add: parse_single_component_def)
qed

lemma normalize_parts_body:
  "\<not> has_root s \<Longrightarrow>
   normalize_parts [] (components s) =
     normalize_parts [] (List.map_filter parse_single_component (split_on CHR ''/'' s))"
  by (simp add: components_def)

lemma ends_with_append: "q \<noteq> [] \<Longrightarrow> length p \<le> length q \<Longrightarrow> ends_with (r @ q) p \<longleftrightarrow> ends_with q p"
  by (simp add: ends_with_def starts_with_def)

lemma normalize_parent_hop:
  assumes "plain_name d" "\<not> has_root s" "s \<noteq> []"
  shows "normalize (d @ ''/../'' @ s) = normalize s"
proof -
  have "normalize_parts [] (components (d @ ''/../'' @ s)) = normalize_parts [] (components s)"
    using assms(2) unfolding components_parent_hop [OF assms(1)]
    by (simp add: normalize_parts_body pathbuf_push_def pathbuf_pop_def)
  moreover have "ends_with (d @ ''/../'' @ s) ''/'' \<longleftrightarrow> ends_with s ''/''"
    using ends_with_append [of s "''/''" "d @ ''/../''"] assms(3) by (simp add: Suc_leI)
  ultimately show ?thesis
    by (cases "normalize_parts [] (components s)") (simp_all add: normalize_def)
qed

text \<open>
  A traversal through a directory and back is invisible to rule prefixes: for a rule prefix
  and a relative path that are already in normal form, \<open>d/../path\<close> matches the prefix exactly
  when \<open>path\<close> does.  It can neither dodge a Deny prefix nor borrow the Allow prefix of \<open>d\<close>.
\<close>

theorem rule_prefix_sees_through_parent_hop:
  assumes "plain_name d" and "\<not> has_root s" and "s \<noteq> []"
    and "normalize s = Some s" and "normalize pre = Some pre"
    and "\<not> has_parent pre" and "\<not> has_parent s"
  shows "rule_path_prefix_matches pre (d @ ''/../'' @ s) = rule_path_prefix_matches pre s"
proof -
  have "has_parent (d @ ''/../'' @ s)"
    using components_parent_hop [OF assms(1)] by (simp add: has_parent_def)
  with assms normalize_parent_hop [OF assms(1-3)] show ?thesis
    by (simp add: rule_path_prefix_matches_def)
qed

theorem rule_prefix_sees_through_parent_hop_witness:
  "rule_path_prefix_matches ''secrets'' (''tmp'' @ ''/../'' @ ''secrets/key.pem'')
   \<and> \<not> rule_path_prefix_matches ''proj'' (''proj'' @ ''/../'' @ ''secrets/key.pem'')"
proof -
  have h: "plain_name ''tmp''" "plain_name ''proj''" "\<not> has_root ''secrets/key.pem''"
    "''secrets/key.pem'' \<noteq> []" "normalize ''secrets/key.pem'' = Some ''secrets/key.pem''"
    "normalize ''secrets'' = Some ''secrets''" "normalize ''proj'' = Some ''proj''"
    "\<not> has_parent ''secrets''" "\<not> has_parent ''proj''" "\<not> has_parent ''secrets/key.pem''"
    by code_simp+
  have "rule_path_prefix_matches ''secrets'' ''secrets/key.pem''"
    "\<not> rule_path_prefix_matches ''proj'' ''secrets/key.pem''" by code_simp+
  then show ?thesis
    using rule_prefix_sees_through_parent_hop [OF h(1,3,4,5,6,8,10)]
      rule_prefix_sees_through_parent_hop [OF h(2,3,4,5,7,9,10)]
    by blast
qed

lemma normalize_dot_slash:
  assumes "\<not> has_root s" "s \<noteq> []"
  shows "normalize (''./'' @ s) = normalize s"
proof -
  have "split_on CHR ''/'' (''.'' @ CHR ''/'' # s) = ''.'' # split_on CHR ''/'' s"
    by (rule split_on_append_sep) simp
  then have "normalize_parts [] (components (''./'' @ s)) = normalize_parts [] (components s)"
    using assms by (simp add: normalize_parts_body components_def [of "''./'' @ s"]
        has_root_def include_cur_dir_def starts_with_def parse_single_component_def)
  moreover have "ends_with (''./'' @ s) ''/'' \<longleftrightarrow> ends_with s ''/''"
    using ends_with_append [of s "''/''" "''./''"] assms(2) by (simp add: Suc_leI)
  ultimately show ?thesis
    by (cases "normalize_parts [] (components s)") (simp_all add: normalize_def)
qed

text \<open>
  C3: A leading \<open>./\<close> is not seen through.  For a relative path with no \<open>..\<close>, \<open>./path\<close> has the
  same normal form as \<open>path\<close> (the filesystem walk reaches the same file), but it matches no rule
  prefix that does not itself begin with a dot, so a Deny or Ask rule on that prefix does not
  fire.
\<close>

theorem rule_prefix_misses_dot_slash:
  assumes "\<not> has_root s" and "s \<noteq> []" and "\<not> has_parent s"
    and "\<not> has_parent pre" and "pre \<noteq> []" and "hd pre \<noteq> CHR ''.''"
  shows "normalize (''./'' @ s) = normalize s \<and> \<not> rule_path_prefix_matches pre (''./'' @ s)"
proof -
  have "filter (\<lambda>c. c \<noteq> CurDir) (components (''./'' @ s)) =
      filter (\<lambda>c. c \<noteq> CurDir) (components s)"
    using assms(1) by (rule components_dot_slash)
  from arg_cong [OF this, of "\<lambda>cs. ParentDir \<in> set cs"]
  have "\<not> has_parent (''./'' @ s)" using assms(3) by (simp add: has_parent_def)
  moreover have "\<not> starts_with (''./'' @ s) pre" using assms(5,6)
    by (cases pre) (auto simp: starts_with_def)
  ultimately show ?thesis
    using assms(4) normalize_dot_slash [OF assms(1,2)] by (simp add: rule_path_prefix_matches_def)
qed

theorem rule_prefix_misses_dot_slash_witness:
  "rule_path_prefix_matches ''secrets'' ''secrets/key.pem''
   \<and> \<not> rule_path_prefix_matches ''secrets'' (''./'' @ ''secrets/key.pem'')"
proof -
  have h: "\<not> has_root ''secrets/key.pem''" "''secrets/key.pem'' \<noteq> []"
    "\<not> has_parent ''secrets/key.pem''" "\<not> has_parent ''secrets''" "''secrets'' \<noteq> []"
    "hd ''secrets'' \<noteq> CHR ''.''"
    by code_simp+
  have "rule_path_prefix_matches ''secrets'' ''secrets/key.pem''" by code_simp
  then show ?thesis using rule_prefix_misses_dot_slash [OF h] by blast
qed

end
