(* ===== verification/Policy_Grants.thy ===== *)
theory Policy_Grants
  imports Policy
begin

text \<open>
  The grants of \<open>crates/ownmesh-policy/src/lib.rs\<close>: temporary grants (principal-scoped and
  path-scoped, never for command execution), bounded tool grants (a passkey-minted exception
  limited in time, uses, device and tools), and the evaluator that applies both.
\<close>

section \<open>Data\<close>

record temporary_grant =
  tg_id :: string
  tg_capability :: string
  tg_principal_id :: string
  tg_expires_unix :: i64
  tg_path_prefix :: "string option"
  tg_kind :: "string option"
  tg_program_equals :: "string option"
  tg_elevated :: "bool option"
  tg_executable_identity :: "executable_identity option"
  tg_workspace_id :: "string option"

definition BOUNDED_TOOL_GRANT_TOOLS :: "string list" where
  "BOUNDED_TOOL_GRANT_TOOLS =
     [''command_run'', ''command_shell'', ''fs_list'', ''fs_stat'', ''fs_read'', ''fs_write'',
      ''fs_delete'', ''logs_query'', ''git_status'', ''git_diff'']"

definition BOUNDED_TOOL_GRANT_TYPE :: string where
  "BOUNDED_TOOL_GRANT_TYPE = ''bounded_tool''"

definition MAX_BOUNDED_TOOL_GRANT_TOOLS :: nat where
  "MAX_BOUNDED_TOOL_GRANT_TOOLS = 8"

definition MAX_BOUNDED_TOOL_GRANT_USES :: u32 where
  "MAX_BOUNDED_TOOL_GRANT_USES = 10000"

datatype bounded_tool_grant_type = BoundedToolType

record bounded_tool_grant =
  bt_grant_type :: bounded_tool_grant_type
  bt_id :: string
  bt_principal_id :: string
  bt_device_id :: string
  bt_tools :: "string list"
  bt_workspace_id :: "string option"
  bt_expires_unix :: i64
  bt_max_uses :: "u32 option"
  bt_uses :: u32
  bt_minted_at_unix :: i64

datatype stored_grant = BoundedTool bounded_tool_grant | Temporary temporary_grant

fun stored_grant_id :: "stored_grant \<Rightarrow> string" where
  "stored_grant_id (BoundedTool g) = bt_id g"
| "stored_grant_id (Temporary g) = tg_id g"

fun as_temporary :: "stored_grant \<Rightarrow> temporary_grant option" where
  "as_temporary (Temporary g) = Some g"
| "as_temporary (BoundedTool g) = None"

fun as_bounded_tool :: "stored_grant \<Rightarrow> bounded_tool_grant option" where
  "as_bounded_tool (BoundedTool g) = Some g"
| "as_bounded_tool (Temporary g) = None"

section \<open>Bounded tool grants\<close>

text \<open>The aliases of older tool names.\<close>

definition tool_alias :: "string \<Rightarrow> string" where
  "tool_alias stripped =
     (if stripped = ''run_command'' then ''command_run''
      else if stripped = ''run_shell'' then ''command_shell''
      else if stripped = ''list_files'' then ''fs_list''
      else if stripped = ''read_file'' then ''fs_read''
      else if stripped = ''write_file'' then ''fs_write''
      else if stripped = ''delete_file'' then ''fs_delete''
      else stripped)"

definition canonical_bounded_tool :: "string \<Rightarrow> string option" where
  "canonical_bounded_tool raw =
     (let trimmed = trim raw in
      if trimmed = [] \<or> CHR ''*'' \<in> set trimmed \<or> CHR ''.'' \<in> set trimmed then None
      else
        let bare = (case strip_prefix ''ownmesh_'' trimmed of Some r \<Rightarrow> r | None \<Rightarrow> trimmed);
            stripped = map (\<lambda>c. if c = CHR ''-'' then CHR ''_'' else c) (to_ascii_lowercase bare)
        in List.find (\<lambda>tool. tool = tool_alias stripped) BOUNDED_TOOL_GRANT_TOOLS)"

text \<open>The loop over the listed tools, with the set of canonical names seen so far.\<close>

fun validate_tools :: "string set \<Rightarrow> string list \<Rightarrow> (string, unit) result" where
  "validate_tools seen [] = Inr ()"
| "validate_tools seen (tool # tools) =
     (case canonical_bounded_tool tool of
        None \<Rightarrow> Inl (''bounded tool grant lists unknown or wildcard tool '' @ tool)
      | Some canonical \<Rightarrow>
          if canonical \<in> seen then Inl (''bounded tool grant lists duplicate tool '' @ canonical)
          else validate_tools (insert canonical seen) tools)"

definition bounded_grant_validate :: "bounded_tool_grant \<Rightarrow> (string, unit) result" where
  "bounded_grant_validate g =
     (if bt_grant_type g \<noteq> BoundedToolType
      then Inl ''bounded tool grant requires grant_type bounded_tool''
      else if trim (bt_id g) = [] \<or> length (bt_id g) > 128
      then Inl ''bounded tool grant id is invalid''
      else if trim (bt_principal_id g) = [] \<or> length (bt_principal_id g) > 512
      then Inl ''bounded tool grant principal is invalid''
      else if trim (bt_device_id g) = [] \<or> length (bt_device_id g) > 256
      then Inl ''bounded tool grant device_id is invalid''
      else if bt_tools g = [] \<or> length (bt_tools g) > MAX_BOUNDED_TOOL_GRANT_TOOLS
      then Inl ''bounded tool grant must list 1-8 canonical tools''
      else and_then (validate_tools {} (bt_tools g)) (\<lambda>_.
        if (case bt_workspace_id g of
              None \<Rightarrow> False | Some w \<Rightarrow> trim w = [] \<or> length w > 128)
        then Inl ''bounded tool grant workspace_id is invalid''
        else if bt_expires_unix g \<le> 0
        then Inl ''bounded tool grant expiry is invalid''
        else (case bt_max_uses g of
                None \<Rightarrow> Inr ()
              | Some max_uses \<Rightarrow>
                  if max_uses = 0 \<or> max_uses > MAX_BOUNDED_TOOL_GRANT_USES
                  then Inl ''bounded tool grant max_uses is invalid''
                  else if bt_uses g > max_uses
                  then Inl ''bounded tool grant uses exceed max_uses''
                  else Inr ())))"

definition remaining_uses :: "bounded_tool_grant \<Rightarrow> u32 option" where
  "remaining_uses g = map_option (\<lambda>mx. saturating_sub mx (bt_uses g)) (bt_max_uses g)"

text \<open>
  Reading a stored row.  \<open>get_type\<close> is \<open>value.get("grant_type")\<close>, with a JSON string as
  \<open>Inr\<close> and any other JSON value as \<open>Inl\<close>; \<open>de_temp\<close> and \<open>de_bounded\<close> are the derived serde
  readers and \<open>show_value\<close> the JSON printer, all of them code outside the repository.
\<close>

definition stored_grant_deserialize ::
  "('j \<Rightarrow> ('o + string) option) \<Rightarrow> ('j \<Rightarrow> (string, temporary_grant) result) \<Rightarrow>
   ('j \<Rightarrow> (string, bounded_tool_grant) result) \<Rightarrow> ('o + string \<Rightarrow> string) \<Rightarrow>
   'j \<Rightarrow> (string, stored_grant) result" where
  "stored_grant_deserialize get_type de_temp de_bounded show_value value =
     (case get_type value of
        None \<Rightarrow> and_then (de_temp value) (\<lambda>g. Inr (Temporary g))
      | Some other \<Rightarrow>
          if other = Inr BOUNDED_TOOL_GRANT_TYPE then
            and_then (de_bounded value) (\<lambda>grant.
            and_then (bounded_grant_validate grant) (\<lambda>_. Inr (BoundedTool grant)))
          else Inl (''unknown grant_type '' @ show_value other))"

section \<open>Temporary grants\<close>

definition temporary_grant_requires_path_scope :: "string \<Rightarrow> bool" where
  "temporary_grant_requires_path_scope capability \<longleftrightarrow>
     capability = ''filesystem'' \<or> starts_with capability ''filesystem.''"

definition temporary_grant_requires_operation_binding :: "string \<Rightarrow> bool" where
  "temporary_grant_requires_operation_binding capability \<longleftrightarrow>
     capability = ''command.run'' \<or> starts_with capability ''command.''"

definition temporary_grant_forbids_kind :: "string \<Rightarrow> bool" where
  "temporary_grant_forbids_kind kind \<longleftrightarrow>
     eq_ignore_ascii_case (trim kind) ''raw_shell'' \<or> eq_ignore_ascii_case (trim kind) ''raw''"

text \<open>\<open>facts.workspace_id\<close> trimmed, with an empty result treated as absent.\<close>

definition trimmed_workspace :: "operation_facts \<Rightarrow> string option" where
  "trimmed_workspace facts =
     (case f_workspace_id facts of
        None \<Rightarrow> None
      | Some w \<Rightarrow> if trim w = [] then None else Some (trim w))"

definition grant_path_prefix :: "operation_facts \<Rightarrow> string option" where
  "grant_path_prefix facts =
     (case f_path facts of None \<Rightarrow> None | Some p \<Rightarrow> if trim p = [] then None else Some p)"

text \<open>The checks that a path-scoped capability must pass before a grant is built.\<close>

definition check_path_scope :: "operation_facts \<Rightarrow> (string, unit) result" where
  "check_path_scope facts =
     and_then (ok_or ''temporary grant for a filesystem capability requires an approved path scope''
                 (grant_path_prefix facts)) (\<lambda>scope.
     if path_components scope = None
     then Inl ''temporary grant path scope must be a normalized path without `..` traversal''
     else if \<not> f_workspace_relative facts
     then Inl ''temporary grant path scope must be workspace-relative''
     else and_then (ok_or ''temporary grant for a filesystem capability requires an approved workspace''
                 (trimmed_workspace facts)) (\<lambda>workspace_id.
     if length workspace_id > 128 \<or> \<not> starts_with workspace_id ''ws_''
        \<or> \<not> list_all (\<lambda>c. is_ascii_alphanumeric c \<or> c = CHR ''_'' \<or> c = CHR ''-'') workspace_id
     then Inl ''temporary grant workspace must be a canonical ws_... id''
     else if components scope \<noteq> [] \<and> hd (components scope) = RootDir
     then Inl ''temporary grant path scope must be workspace-relative''
     else Inr ()))"

definition temporary_grant_from_facts ::
  "string \<Rightarrow> string \<Rightarrow> i64 \<Rightarrow> operation_facts \<Rightarrow> (string, temporary_grant) result" where
  "temporary_grant_from_facts i principal_id expires_unix facts =
     (let capability = trim (f_capability facts) in
      if capability = []
      then Inl ''temporary grant requires capability from server approval facts''
      else if temporary_grant_requires_operation_binding capability
      then Inl ''temporary grant for command.run is not permitted; approve once without temporary grant''
      else and_then (if temporary_grant_requires_path_scope capability
                     then check_path_scope facts else Inr ()) (\<lambda>_.
        Inr \<lparr>tg_id = i, tg_capability = capability, tg_principal_id = principal_id,
             tg_expires_unix = expires_unix, tg_path_prefix = grant_path_prefix facts,
             tg_kind = None, tg_program_equals = None, tg_elevated = None,
             tg_executable_identity = None, tg_workspace_id = trimmed_workspace facts\<rparr>))"

definition temporary_grant_matches ::
  "temporary_grant \<Rightarrow> operation_facts \<Rightarrow> string \<Rightarrow> i64 \<Rightarrow> bool" where
  "temporary_grant_matches g facts principal_id now_unix =
     (if tg_principal_id g \<noteq> principal_id \<or> tg_expires_unix g \<le> now_unix then False
      else if \<not> capability_match (tg_capability g) (f_capability facts) then False
      else if temporary_grant_requires_operation_binding (tg_capability g)
              \<or> temporary_grant_requires_operation_binding (f_capability facts) then False
      else if temporary_grant_requires_path_scope (tg_capability g)
              \<or> temporary_grant_requires_path_scope (f_capability facts) then
        (case (tg_path_prefix g, f_path facts) of
           (Some scope, Some path) \<Rightarrow>
             if \<not> path_scope_contains scope path then False
             else (case (tg_workspace_id g, f_workspace_id facts) of
                     (Some gw, Some fw) \<Rightarrow> fw = gw
                   | _ \<Rightarrow> False)
         | _ \<Rightarrow> False)
      else (case tg_path_prefix g of
              None \<Rightarrow> True
            | Some pre \<Rightarrow> (case f_path facts of
                               Some p \<Rightarrow> path_scope_contains pre p
                             | None \<Rightarrow> False)))"

section \<open>Matching bounded grants and evaluating with grants\<close>

definition facts_bounded_tool :: "operation_facts \<Rightarrow> string option" where
  "facts_bounded_tool facts =
     (case Option.bind (f_tool facts) canonical_bounded_tool of
        None \<Rightarrow> None
      | Some tool \<Rightarrow>
          let capability = f_capability facts;
              matches_capability =
                (if tool = ''command_run''
                 then capability = ''command.run'' \<and> \<not> temporary_grant_forbids_kind (f_kind facts)
                 else if tool = ''command_shell''
                 then capability = ''command.run'' \<and> temporary_grant_forbids_kind (f_kind facts)
                 else if tool \<in> {''fs_list'', ''fs_stat'', ''fs_read'', ''git_status'', ''git_diff''}
                 then capability = ''filesystem.read''
                 else if tool \<in> {''fs_write'', ''fs_delete''} then capability = ''filesystem.write''
                 else if tool = ''logs_query'' then capability = ''logs.read''
                 else False)
          in if matches_capability then Some tool else None)"

definition bounded_tool_grant_matches ::
  "bounded_tool_grant \<Rightarrow> operation_facts \<Rightarrow> string \<Rightarrow> i64 \<Rightarrow> string option \<Rightarrow> bool" where
  "bounded_tool_grant_matches g facts principal_id now_unix device_id =
     (if bounded_grant_validate g \<noteq> Inr () then False
      else if bt_principal_id g \<noteq> principal_id \<or> bt_expires_unix g \<le> now_unix then False
      else case (case device_id of None \<Rightarrow> None
                 | Some d \<Rightarrow> if trim d = [] then None else Some (trim d)) of
        None \<Rightarrow> False
      | Some active_device \<Rightarrow>
          if trim (bt_device_id g) \<noteq> active_device then False
          else if (case bt_max_uses g of None \<Rightarrow> False | Some mx \<Rightarrow> bt_uses g \<ge> mx) then False
          else if (case bt_workspace_id g of
                     None \<Rightarrow> False
                   | Some workspace \<Rightarrow> trimmed_workspace facts \<noteq> Some workspace) then False
          else (case facts_bounded_tool facts of
                  None \<Rightarrow> False
                | Some tool \<Rightarrow>
                    list_ex (\<lambda>listed. canonical_bounded_tool listed = Some tool) (bt_tools g)))"

fun first_temporary ::
  "stored_grant list \<Rightarrow> operation_facts \<Rightarrow> string \<Rightarrow> i64 \<Rightarrow> temporary_grant option" where
  "first_temporary [] facts principal_id now_unix = None"
| "first_temporary (BoundedTool _ # gs) facts principal_id now_unix =
     first_temporary gs facts principal_id now_unix"
| "first_temporary (Temporary g # gs) facts principal_id now_unix =
     (if temporary_grant_matches g facts principal_id now_unix then Some g
      else first_temporary gs facts principal_id now_unix)"

fun first_bounded ::
  "stored_grant list \<Rightarrow> operation_facts \<Rightarrow> string \<Rightarrow> i64 \<Rightarrow> string option \<Rightarrow>
   bounded_tool_grant option" where
  "first_bounded [] facts principal_id now_unix device_id = None"
| "first_bounded (Temporary _ # gs) facts principal_id now_unix device_id =
     first_bounded gs facts principal_id now_unix device_id"
| "first_bounded (BoundedTool g # gs) facts principal_id now_unix device_id =
     (if bounded_tool_grant_matches g facts principal_id now_unix device_id then Some g
      else first_bounded gs facts principal_id now_unix device_id)"

definition evaluate_with_grants ::
  "policy_document \<Rightarrow> operation_facts \<Rightarrow> stored_grant list \<Rightarrow> i64 \<Rightarrow> string \<Rightarrow> string option \<Rightarrow>
   policy_verdict" where
  "evaluate_with_grants doc facts grants now_unix principal_id device_id =
     (let verdict = evaluate doc facts in
      if v_decision verdict = Deny then verdict
      else case first_temporary grants facts principal_id now_unix of
        Some g \<Rightarrow> \<lparr>v_decision = Allow, v_matched_rule_id = Some (tg_id g),
                   v_reason = ''temporary grant '' @ tg_id g\<rparr>
      | None \<Rightarrow>
          if v_decision verdict \<noteq> Ask then verdict
          else case first_bounded grants facts principal_id now_unix device_id of
            Some g \<Rightarrow> \<lparr>v_decision = Allow, v_matched_rule_id = Some (bt_id g),
                       v_reason = ''bounded tool grant '' @ bt_id g\<rparr>
          | None \<Rightarrow> verdict)"

section \<open>What a matching grant implies\<close>

lemma first_temporary_Some:
  "first_temporary gs facts pr now = Some g \<Longrightarrow>
   Temporary g \<in> set gs \<and> temporary_grant_matches g facts pr now"
  by (induction gs facts pr now rule: first_temporary.induct) (auto split: if_splits)

lemma first_temporary_None:
  "first_temporary gs facts pr now = None \<longleftrightarrow>
   (\<forall>g. Temporary g \<in> set gs \<longrightarrow> \<not> temporary_grant_matches g facts pr now)"
  by (induction gs facts pr now rule: first_temporary.induct) auto

lemma first_bounded_Some:
  "first_bounded gs facts pr now dev = Some g \<Longrightarrow>
   BoundedTool g \<in> set gs \<and> bounded_tool_grant_matches g facts pr now dev"
  by (induction gs facts pr now dev rule: first_bounded.induct) (auto split: if_splits)

lemma first_bounded_None:
  "first_bounded gs facts pr now dev = None \<longleftrightarrow>
   (\<forall>g. BoundedTool g \<in> set gs \<longrightarrow> \<not> bounded_tool_grant_matches g facts pr now dev)"
  by (induction gs facts pr now dev rule: first_bounded.induct) auto

lemma capability_match_refl: "capability_match c c"
proof (cases "strip_suffix ''.*'' c")
  case (Some pre)
  then have "c = pre @ ''.*''" by (simp add: strip_suffix_Some_iff)
  then have "starts_with c (pre @ ''.'')" by (simp add: starts_with_def)
  with Some show ?thesis by (simp add: capability_match_def)
qed (simp add: capability_match_def)

text \<open>
  What a grant covers, without the order of the checks: a capability pattern is a name, a family
  \<open>pre.*\<close> or \<open>*\<close>; a temporary grant covers no command, stays within its path when it has one, and
  for file operations has a path and is bound to a workspace.
\<close>

definition capability_covers :: "string \<Rightarrow> string \<Rightarrow> bool" where
  "capability_covers pattern capability \<longleftrightarrow>
     pattern = capability \<or> pattern = ''*''
   \<or> (\<exists>pre. pattern = pre @ ''.*'' \<and> (capability = pre \<or> (\<exists>rest. capability = pre @ ''.'' @ rest)))"

definition subtree :: "string \<Rightarrow> string \<Rightarrow> bool" where
  "subtree scope path \<longleftrightarrow>
     (\<exists>parts rest. path_components scope = Some parts \<and> path_components path = Some (parts @ rest))"

definition temporary_covers :: "temporary_grant \<Rightarrow> operation_facts \<Rightarrow> string \<Rightarrow> i64 \<Rightarrow> bool" where
  "temporary_covers g facts pr now \<longleftrightarrow>
     (let names = {tg_capability g, f_capability facts};
          on_files = (\<exists>c \<in> names. temporary_grant_requires_path_scope c)
      in tg_principal_id g = pr \<and> now < tg_expires_unix g
       \<and> capability_covers (tg_capability g) (f_capability facts)
       \<and> (\<forall>c \<in> names. \<not> temporary_grant_requires_operation_binding c)
       \<and> (\<forall>scope. tg_path_prefix g = Some scope \<longrightarrow> (\<exists>path. f_path facts = Some path \<and> subtree scope path))
       \<and> (on_files \<longrightarrow> tg_path_prefix g \<noteq> None \<and> tg_workspace_id g \<noteq> None \<and> f_workspace_id facts = tg_workspace_id g))"

lemma capability_match_covers: "capability_match pattern capability \<longleftrightarrow> capability_covers pattern capability"
proof (cases "strip_suffix ''.*'' pattern")
  case None
  then have "pattern \<noteq> pre @ ''.*''" for pre by (auto simp flip: strip_suffix_Some_iff)
  with None show ?thesis by (auto simp: capability_match_def capability_covers_def)
next
  case (Some pre)
  then have "pattern = pre @ ''.*''" by (simp add: strip_suffix_Some_iff)
  with Some show ?thesis by (auto simp: capability_match_def capability_covers_def starts_with_iff)
qed

lemma path_scope_subtree: "path_scope_contains scope path \<longleftrightarrow> subtree scope path"
  by (simp add: path_scope_contains_iff subtree_def)

lemma temporary_grant_matches_covers: "temporary_grant_matches g facts pr now \<longleftrightarrow> temporary_covers g facts pr now"
proof (cases "temporary_grant_requires_path_scope (tg_capability g) \<or> temporary_grant_requires_path_scope (f_capability facts)")
  case True
  then show ?thesis
    by (auto simp: temporary_grant_matches_def temporary_covers_def Let_def not_le capability_match_covers path_scope_subtree
        split: option.splits)
next
  case False
  then show ?thesis
    by (auto simp: temporary_grant_matches_def temporary_covers_def Let_def not_le capability_match_covers path_scope_subtree
        split: option.splits)
qed

text \<open>The capability each canonical tool stands for, and the operations that it serves.\<close>

fun tool_capability :: "string \<Rightarrow> string" where
  "tool_capability t =
     (if t \<in> {''command_run'', ''command_shell''} then ''command.run''
      else if t \<in> {''fs_write'', ''fs_delete''} then ''filesystem.write''
      else if t = ''logs_query'' then ''logs.read'' else ''filesystem.read'')"

definition tool_serves :: "string \<Rightarrow> operation_facts \<Rightarrow> bool" where
  "tool_serves t facts \<longleftrightarrow>
     (\<exists>named. f_tool facts = Some named \<and> canonical_bounded_tool named = Some t)
   \<and> f_capability facts = tool_capability t
   \<and> (t = ''command_run'' \<longrightarrow> \<not> temporary_grant_forbids_kind (f_kind facts))
   \<and> (t = ''command_shell'' \<longrightarrow> temporary_grant_forbids_kind (f_kind facts))"

definition bounded_covers ::
  "bounded_tool_grant \<Rightarrow> operation_facts \<Rightarrow> string \<Rightarrow> i64 \<Rightarrow> string option \<Rightarrow> bool" where
  "bounded_covers g facts pr now dev \<longleftrightarrow>
     bounded_grant_validate g = Inr () \<and> bt_principal_id g = pr \<and> now < bt_expires_unix g
     \<and> (\<exists>d. dev = Some d \<and> trim d = trim (bt_device_id g))
     \<and> (\<forall>mx. bt_max_uses g = Some mx \<longrightarrow> bt_uses g < mx)
     \<and> (bt_workspace_id g = None \<or> bt_workspace_id g = trimmed_workspace facts)
     \<and> (\<exists>listed \<in> set (bt_tools g). \<exists>t. canonical_bounded_tool listed = Some t \<and> tool_serves t facts)"

lemma canonical_in_tools: "canonical_bounded_tool raw = Some t \<Longrightarrow> t \<in> set BOUNDED_TOOL_GRANT_TOOLS"
  by (auto simp: canonical_bounded_tool_def Let_def dest: find_Some_mem split: if_splits)

lemma facts_tool_named:
  assumes "facts_bounded_tool facts = Some t"
  shows "Option.bind (f_tool facts) canonical_bounded_tool = Some t"
proof (cases "Option.bind (f_tool facts) canonical_bounded_tool")
  case None
  have "facts_bounded_tool facts = None" unfolding facts_bounded_tool_def None option.case by (rule refl)
  with assms show ?thesis by simp
next
  case (Some x)
  have pick: "(if P then Some y else None) = Some t \<Longrightarrow> y = t" for P and y :: string by (simp split: if_splits)
  from assms have "x = t" unfolding facts_bounded_tool_def Some option.case Let_def by (rule pick)
  with Some show ?thesis by simp
qed

lemma facts_bounded_tool_serves: "facts_bounded_tool facts = Some t \<longleftrightarrow> tool_serves t facts"
proof (cases "Option.bind (f_tool facts) canonical_bounded_tool = Some t")
  case True
  then obtain named where n: "f_tool facts = Some named" "canonical_bounded_tool named = Some t"
    by (auto simp: bind_eq_Some_conv)
  from canonical_in_tools [OF n(2)] show ?thesis
    unfolding BOUNDED_TOOL_GRANT_TOOLS_def list.set insert_iff empty_iff facts_bounded_tool_def True option.case Let_def tool_serves_def
    by (elim disjE FalseE) (simp_all add: n)
next
  case False
  have "facts_bounded_tool facts \<noteq> Some t" using False facts_tool_named by blast
  moreover have "\<not> tool_serves t facts"
  proof
    assume "tool_serves t facts"
    then have "\<exists>named. f_tool facts = Some named \<and> canonical_bounded_tool named = Some t"
      unfolding tool_serves_def by (rule conjunct1)
    with False show False by auto
  qed
  ultimately show ?thesis by simp
qed

lemma validated_device: "bounded_grant_validate g = Inr () \<Longrightarrow> trim (bt_device_id g) \<noteq> []"
  by (auto simp: bounded_grant_validate_def split: if_splits)

lemma bounded_tool_grant_matches_covers:
  "bounded_tool_grant_matches g facts pr now dev \<longleftrightarrow> bounded_covers g facts pr now dev"
proof (cases "bounded_grant_validate g = Inr () \<and> (\<exists>d. dev = Some d \<and> trim d = trim (bt_device_id g))")
  case True
  then obtain d where d: "bounded_grant_validate g = Inr ()" "dev = Some d" "trim d = trim (bt_device_id g)" by blast
  have w: "(case bt_workspace_id g of None \<Rightarrow> False | Some workspace \<Rightarrow> trimmed_workspace facts \<noteq> Some workspace)
      \<longleftrightarrow> \<not> (bt_workspace_id g = None \<or> bt_workspace_id g = trimmed_workspace facts)"
    by (auto split: option.splits)
  have u: "(case bt_max_uses g of None \<Rightarrow> False | Some mx \<Rightarrow> bt_uses g \<ge> mx) \<longleftrightarrow> \<not> (\<forall>mx. bt_max_uses g = Some mx \<longrightarrow> bt_uses g < mx)"
    by (auto simp: not_le split: option.splits)
  have t: "(case facts_bounded_tool facts of None \<Rightarrow> False
        | Some tool \<Rightarrow> list_ex (\<lambda>listed. canonical_bounded_tool listed = Some tool) (bt_tools g))
      \<longleftrightarrow> (\<exists>listed \<in> set (bt_tools g). \<exists>t. canonical_bounded_tool listed = Some t \<and> tool_serves t facts)"
    by (auto simp: list_ex_iff simp flip: facts_bounded_tool_serves split: option.splits)
  show ?thesis
    unfolding bounded_tool_grant_matches_def bounded_covers_def w u t
    using d validated_device [OF d(1)] by (auto simp: not_le)
next
  case False
  then show ?thesis
    by (auto simp: bounded_tool_grant_matches_def bounded_covers_def split: option.splits if_splits)
qed

lemma evaluate_with_grants_cases:
  obtains (plain) "evaluate_with_grants doc facts gs now pr dev = evaluate doc facts"
  | (temporary) g where "v_decision (evaluate doc facts) \<noteq> Deny" "Temporary g \<in> set gs"
      "temporary_grant_matches g facts pr now"
      "evaluate_with_grants doc facts gs now pr dev =
         \<lparr>v_decision = Allow, v_matched_rule_id = Some (tg_id g),
          v_reason = ''temporary grant '' @ tg_id g\<rparr>"
  | (bounded) g where "v_decision (evaluate doc facts) = Ask" "BoundedTool g \<in> set gs"
      "bounded_tool_grant_matches g facts pr now dev"
      "evaluate_with_grants doc facts gs now pr dev =
         \<lparr>v_decision = Allow, v_matched_rule_id = Some (bt_id g),
          v_reason = ''bounded tool grant '' @ bt_id g\<rparr>"
proof (cases "first_temporary gs facts pr now")
  case t: None
  show ?thesis
  proof (cases "first_bounded gs facts pr now dev")
    case None
    with t show ?thesis using plain by (simp add: evaluate_with_grants_def Let_def)
  next
    case (Some g)
    with t first_bounded_Some [OF Some] show ?thesis using plain bounded [of g]
      by (cases "v_decision (evaluate doc facts) = Ask")
        (auto simp: evaluate_with_grants_def Let_def)
  qed
next
  case (Some g)
  with first_temporary_Some [OF Some] show ?thesis using plain temporary [of g]
    by (cases "v_decision (evaluate doc facts) = Deny")
      (auto simp: evaluate_with_grants_def Let_def)
qed

section \<open>Properties of grants\<close>

text \<open>
  Command execution stays denied in the restricted presets: under Workspace Only and
  Recommended, \<open>command.run\<close> and \<open>session.open\<close> are denied for every combination of the other
  facts, every list of stored grants, every principal, device and time.
\<close>

theorem restricted_presets_deny_execution:
  assumes "p \<in> {WorkspaceOnly, Recommended}"
    and "f_capability facts \<in> {''command.run'', ''session.open''}"
  shows "v_decision (evaluate_with_grants (preset_document p) facts gs now pr dev) = Deny"
proof -
  have "v_decision (evaluate (preset_document p) facts) = Deny"
    using assms unfolding preset_decision by (auto simp: preset_table_def)
  then show ?thesis by (simp add: evaluate_with_grants_def)
qed

theorem restricted_presets_deny_execution_witness:
  "v_decision (evaluate_with_grants (preset_document Recommended)
     (facts0\<lparr>f_capability := ''session.open''\<rparr>) [] 0 ''user'' None) = Deny"
  by (rule restricted_presets_deny_execution) simp_all

text \<open>
  C1: What grants do to a verdict, exactly.  A denial stands whatever is stored.  Otherwise the
  request is allowed when the document allows it, when some stored temporary grant covers it, or
  when some stored bounded tool grant covers it, and in no other case.  A temporary grant covers a
  request of its principal before its expiry when its capability pattern covers the requested
  capability, neither is a command, the path lies in the granted subtree, and for file operations
  the workspaces are equal.  A bounded grant covers a request of its principal before its expiry, on
  the device it was minted for, with uses left, in its workspace if it names one, and for a listed
  tool that serves the requested capability and kind.  A verdict that differs from the document's
  names the grant that made the difference.
\<close>

theorem grants_decide_exactly:
  "v_decision (evaluate_with_grants doc facts gs now pr dev) =
     (if v_decision (evaluate doc facts) = Deny then Deny
      else if v_decision (evaluate doc facts) = Allow
        \<or> (\<exists>g. Temporary g \<in> set gs \<and> temporary_covers g facts pr now)
        \<or> (\<exists>g. BoundedTool g \<in> set gs \<and> bounded_covers g facts pr now dev) then Allow
      else Ask)
   \<and> (evaluate_with_grants doc facts gs now pr dev = evaluate doc facts
      \<or> (\<exists>g. Temporary g \<in> set gs \<and> temporary_covers g facts pr now
           \<and> v_matched_rule_id (evaluate_with_grants doc facts gs now pr dev) = Some (tg_id g))
      \<or> v_decision (evaluate doc facts) = Ask
        \<and> (\<exists>g. BoundedTool g \<in> set gs \<and> bounded_covers g facts pr now dev
           \<and> v_matched_rule_id (evaluate_with_grants doc facts gs now pr dev) = Some (bt_id g)))"
  (is "?decision \<and> ?named")
proof
  show ?named
    by (cases rule: evaluate_with_grants_cases [of doc facts gs now pr dev])
      (auto simp: temporary_grant_matches_covers bounded_tool_grant_matches_covers)
  have t: "(\<exists>g. Temporary g \<in> set gs \<and> temporary_covers g facts pr now) \<longleftrightarrow> first_temporary gs facts pr now \<noteq> None"
    using first_temporary_None [of gs facts pr now] by (auto simp: temporary_grant_matches_covers)
  have b: "(\<exists>g. BoundedTool g \<in> set gs \<and> bounded_covers g facts pr now dev) \<longleftrightarrow> first_bounded gs facts pr now dev \<noteq> None"
    using first_bounded_None [of gs facts pr now dev] by (auto simp: bounded_tool_grant_matches_covers)
  show ?decision
    unfolding t b
    by (cases "v_decision (evaluate doc facts)"; cases "first_temporary gs facts pr now";
        cases "first_bounded gs facts pr now dev") (simp_all add: evaluate_with_grants_def Let_def)
qed

text \<open>A write grant for \<open>proj\<close>, minted from approval facts, used by the closed instances.\<close>

definition grant0 :: temporary_grant where
  "grant0 =
     \<lparr>tg_id = ''g-1'', tg_capability = ''filesystem.write'', tg_principal_id = ''user'',
      tg_expires_unix = 100, tg_path_prefix = Some ''proj'', tg_kind = None,
      tg_program_equals = None, tg_elevated = None, tg_executable_identity = None,
      tg_workspace_id = Some ''ws_default''\<rparr>"

lemma grant0_minted:
  "temporary_grant_from_facts ''g-1'' ''user'' 100 (facts0\<lparr>f_path := Some ''proj''\<rparr>) = Inr grant0"
  by code_simp

lemma grant0_matches: "temporary_grant_matches grant0 facts0 ''user'' 99"
  by code_simp

lemma facts0_asks: "v_decision (evaluate (preset_document WorkspaceOnly) facts0) = Ask"
  unfolding preset_decision by (simp add: preset_table_def facts0_def)

theorem grants_decide_exactly_witness:
  "v_decision (evaluate_with_grants (preset_document WorkspaceOnly) facts0 [Temporary grant0] 99 ''user'' None) = Allow
   \<and> v_decision (evaluate_with_grants (preset_document WorkspaceOnly) facts0 [Temporary grant0] 99 ''mallory'' None) = Ask
   \<and> v_decision (evaluate_with_grants (preset_document WorkspaceOnly) (facts0\<lparr>f_capability := ''command.run''\<rparr>)
       [Temporary grant0] 99 ''user'' None) = Deny"
proof -
  have "temporary_covers grant0 facts0 ''user'' 99" using grant0_matches by (simp add: temporary_grant_matches_covers)
  moreover have "\<not> temporary_covers grant0 facts0 ''mallory'' 99" by (simp add: temporary_covers_def grant0_def)
  moreover have "v_decision (evaluate (preset_document WorkspaceOnly) (facts0\<lparr>f_capability := ''command.run''\<rparr>)) = Deny"
    unfolding preset_decision by (simp add: preset_table_def)
  ultimately show ?thesis
    using facts0_asks grants_decide_exactly [of "preset_document WorkspaceOnly" _ "[Temporary grant0]" 99 _ None] by simp
qed

text \<open>
  Expired grants are inert: when every stored grant has expired, the verdict is the
  document's own.
\<close>

fun stored_expiry :: "stored_grant \<Rightarrow> i64" where
  "stored_expiry (BoundedTool g) = bt_expires_unix g"
| "stored_expiry (Temporary g) = tg_expires_unix g"

theorem expired_grants_are_inert:
  assumes "\<forall>stored\<in>set gs. stored_expiry stored \<le> now"
  shows "evaluate_with_grants doc facts gs now pr dev = evaluate doc facts"
proof (cases rule: evaluate_with_grants_cases [of doc facts gs now pr dev])
  case (temporary g)
  with assms show ?thesis by (fastforce simp: temporary_grant_matches_def)
next
  case (bounded g)
  with assms show ?thesis by (fastforce simp: bounded_tool_grant_matches_covers bounded_covers_def)
qed

theorem expired_grants_are_inert_witness:
  "v_decision (evaluate_with_grants (preset_document WorkspaceOnly) facts0
      [Temporary grant0] 100 ''user'' None) = Ask"
proof -
  have h: "\<forall>stored\<in>set [Temporary grant0]. stored_expiry stored \<le> 100"
    by (simp add: grant0_def)
  show ?thesis using expired_grants_are_inert [OF h] facts0_asks by simp
qed

lemma temporary_grant_from_facts_ok:
  assumes "temporary_grant_from_facts i pr ex facts = Inr g"
  shows "tg_capability g = trim (f_capability facts)" "tg_principal_id g = pr"
    "tg_expires_unix g = ex" "tg_path_prefix g = grant_path_prefix facts"
    "tg_workspace_id g = trimmed_workspace facts"
    "\<not> temporary_grant_requires_operation_binding (tg_capability g)"
    "temporary_grant_requires_path_scope (tg_capability g) \<Longrightarrow> check_path_scope facts = Inr ()"
  using assms by (auto simp: temporary_grant_from_facts_def Let_def and_then_Inr_iff split: if_splits)

lemma check_path_scope_ok:
  assumes "check_path_scope facts = Inr ()"
  obtains scope ws where "grant_path_prefix facts = Some scope" "f_path facts = Some scope"
    "path_components scope \<noteq> None" "\<not> has_root scope" "f_workspace_relative facts"
    "trimmed_workspace facts = Some ws" "starts_with ws ''ws_''" "length ws \<le> 128"
proof -
  from assms obtain scope ws where *: "grant_path_prefix facts = Some scope"
    "path_components scope \<noteq> None" "f_workspace_relative facts" "trimmed_workspace facts = Some ws"
    "starts_with ws ''ws_''" "length ws \<le> 128"
    "components scope = [] \<or> hd (components scope) \<noteq> RootDir"
    by (auto simp: check_path_scope_def and_then_Inr_iff ok_or_Inr_iff split: if_splits)
  from *(7) have "\<not> has_root scope" by (auto simp: components_def)
  moreover from *(1) have "f_path facts = Some scope"
    by (auto simp: grant_path_prefix_def split: option.splits if_splits)
  ultimately show ?thesis using * that by blast
qed

text \<open>
  C2: A temporary filesystem grant covers exactly the approved subtree.  Whatever the approval
  facts, a grant minted from them for a \<open>filesystem\<close> capability lifts another request for the
  same capability, before its expiry, exactly when the request comes from the same principal,
  names a path inside the approved path component by component, and is bound to the approved
  workspace; the approved path is workspace-relative and has no \<open>..\<close>.
\<close>

theorem minted_grant_covers_exactly_its_subtree:
  assumes mint: "temporary_grant_from_facts i pr ex facts = Inr g"
    and fs: "temporary_grant_requires_path_scope (tg_capability g)"
    and cap: "f_capability req = tg_capability g" and live: "now < ex"
  shows "\<exists>scope ws. f_path facts = Some scope \<and> trimmed_workspace facts = Some ws
    \<and> \<not> has_root scope \<and> \<not> has_parent scope
    \<and> (temporary_grant_matches g req who now \<longleftrightarrow>
         who = pr \<and> f_workspace_id req = Some ws
         \<and> (\<exists>path. f_path req = Some path \<and> path_scope_contains scope path))"
proof -
  note ok = temporary_grant_from_facts_ok [OF mint]
  from ok(7) [OF fs] obtain scope ws where sc: "grant_path_prefix facts = Some scope"
    "f_path facts = Some scope" "path_components scope \<noteq> None" "\<not> has_root scope"
    "trimmed_workspace facts = Some ws" by (rule check_path_scope_ok)
  have "temporary_grant_matches g req who now \<longleftrightarrow>
      who = pr \<and> f_workspace_id req = Some ws
      \<and> (\<exists>path. f_path req = Some path \<and> path_scope_contains scope path)"
    using sc ok(1-6) fs cap live capability_match_refl
    by (auto simp: temporary_grant_matches_def split: option.splits)
  moreover have "\<not> has_parent scope" using sc(3) path_components_no_parent by blast
  ultimately show ?thesis using sc by blast
qed

theorem minted_grant_covers_exactly_its_subtree_witness:
  "temporary_grant_matches grant0 (facts0\<lparr>f_path := Some ''proj/a/b''\<rparr>) ''user'' 99
   \<and> \<not> temporary_grant_matches grant0 (facts0\<lparr>f_path := Some ''proj-2/a''\<rparr>) ''user'' 99"
proof -
  have h: "temporary_grant_requires_path_scope (tg_capability grant0)"
    "f_capability (facts0\<lparr>f_path := Some p\<rparr>) = tg_capability grant0" "(99 :: i64) < 100" for p
    by (simp_all add: grant0_def facts0_def temporary_grant_requires_path_scope_def
        starts_with_def)
  have ws: "trimmed_workspace (facts0\<lparr>f_path := Some ''proj''\<rparr>) = Some ''ws_default''"
    by code_simp
  have c: "path_scope_contains ''proj'' ''proj/a/b''" "\<not> path_scope_contains ''proj'' ''proj-2/a''"
    by code_simp+
  have w: "f_workspace_id facts0 = Some ''ws_default''" by (simp add: facts0_def)
  show ?thesis
    using minted_grant_covers_exactly_its_subtree [OF grant0_minted h, of _ "''user''"] ws c w
    by fastforce
qed

text \<open>
  Canonicalising a tool name lands in the fixed allowlist and is idempotent: the canonical
  name of a canonical name is itself.
\<close>

theorem canonical_bounded_tool_idempotent:
  assumes "canonical_bounded_tool raw = Some t"
  shows "t \<in> set BOUNDED_TOOL_GRANT_TOOLS \<and> canonical_bounded_tool t = Some t"
proof -
  have "t \<in> set BOUNDED_TOOL_GRANT_TOOLS" using assms by (rule canonical_in_tools)
  moreover have "list_all (\<lambda>t. canonical_bounded_tool t = Some t) BOUNDED_TOOL_GRANT_TOOLS"
    by code_simp
  ultimately show ?thesis by (simp add: list_all_iff)
qed

theorem canonical_bounded_tool_idempotent_witness:
  "canonical_bounded_tool '' ownmesh_run-command '' = Some ''command_run''
   \<and> canonical_bounded_tool ''command_run'' = Some ''command_run''"
proof -
  have h: "canonical_bounded_tool '' ownmesh_run-command '' = Some ''command_run''" by code_simp
  show ?thesis using h canonical_bounded_tool_idempotent [OF h] by blast
qed

lemma validate_tools_distinct:
  "validate_tools seen tools = Inr () \<Longrightarrow>
   (\<forall>t\<in>set tools. canonical_bounded_tool t \<noteq> None) \<and>
   distinct (map (\<lambda>t. the (canonical_bounded_tool t)) tools) \<and>
   (\<forall>t\<in>set tools. the (canonical_bounded_tool t) \<notin> seen)"
  by (induction seen tools rule: validate_tools.induct) (auto split: option.splits if_splits)

lemma bounded_grant_validate_ok:
  assumes "bounded_grant_validate g = Inr ()"
  shows "1 \<le> length (bt_tools g)" "length (bt_tools g) \<le> 8"
    "validate_tools {} (bt_tools g) = Inr ()" "0 < bt_expires_unix g"
    "bt_max_uses g = Some mx \<Longrightarrow> 0 < mx \<and> mx \<le> MAX_BOUNDED_TOOL_GRANT_USES \<and> bt_uses g \<le> mx"
  using assms
  by (auto simp: bounded_grant_validate_def MAX_BOUNDED_TOOL_GRANT_TOOLS_def and_then_Inr_iff
      not_less Suc_le_eq word_gt_0 split: if_splits)

text \<open>
  Loading a stored row fails closed.  Whatever the JSON readers return, a row loads as a
  bounded tool grant only when its \<open>grant_type\<close> is \<open>bounded_tool\<close> and the grant lists one to
  eight known tools without duplicates, expires at a positive time and, when its uses are
  capped, has a cap of 1..10000 that its use count does not exceed.
\<close>

theorem loaded_bounded_grants_are_valid:
  assumes "stored_grant_deserialize get_type de_temp de_bounded show_value v = Inr (BoundedTool g)"
  shows "get_type v = Some (Inr ''bounded_tool'') \<and> de_bounded v = Inr g
    \<and> 1 \<le> length (bt_tools g) \<and> length (bt_tools g) \<le> 8
    \<and> distinct (map canonical_bounded_tool (bt_tools g))
    \<and> None \<notin> set (map canonical_bounded_tool (bt_tools g))
    \<and> 0 < bt_expires_unix g
    \<and> (\<forall>mx. bt_max_uses g = Some mx \<longrightarrow> 0 < mx \<and> mx \<le> 10000 \<and> bt_uses g \<le> mx)"
proof -
  from assms have h: "get_type v = Some (Inr ''bounded_tool'')" "de_bounded v = Inr g"
    "bounded_grant_validate g = Inr ()"
    by (auto simp: stored_grant_deserialize_def BOUNDED_TOOL_GRANT_TYPE_def and_then_Inr_iff
        split: option.splits if_splits)
  note ok = bounded_grant_validate_ok [OF h(3)]
  from validate_tools_distinct [OF ok(3)]
  have "distinct (map canonical_bounded_tool (bt_tools g))"
    "None \<notin> set (map canonical_bounded_tool (bt_tools g))"
    by (auto simp: distinct_map inj_on_def)
  with h ok show ?thesis by (simp add: MAX_BOUNDED_TOOL_GRANT_USES_def)
qed

theorem loaded_bounded_grants_are_valid_witness:
  "let g = \<lparr>bt_grant_type = BoundedToolType, bt_id = ''bg-1'', bt_principal_id = ''user'',
     bt_device_id = ''dev_1'', bt_tools = [''command_run'', ''fs_read''], bt_workspace_id = None,
     bt_expires_unix = 50, bt_max_uses = Some 3, bt_uses = 1, bt_minted_at_unix = 0\<rparr>
   in stored_grant_deserialize (\<lambda>_. Some (Inr ''bounded_tool'' :: unit + string))
        (\<lambda>_. Inl '''') (\<lambda>_. Inr g) (\<lambda>_. '''') () = Inr (BoundedTool g)
      \<and> length (bt_tools g) \<le> 8"
proof -
  let ?g = "\<lparr>bt_grant_type = BoundedToolType, bt_id = ''bg-1'', bt_principal_id = ''user'',
     bt_device_id = ''dev_1'', bt_tools = [''command_run'', ''fs_read''], bt_workspace_id = None,
     bt_expires_unix = 50, bt_max_uses = Some 3, bt_uses = 1, bt_minted_at_unix = 0\<rparr>"
  have h: "stored_grant_deserialize (\<lambda>_. Some (Inr ''bounded_tool'' :: unit + string))
        (\<lambda>_. Inl '''') (\<lambda>_. Inr ?g) (\<lambda>_. '''') () = Inr (BoundedTool ?g)"
    by code_simp
  show ?thesis unfolding Let_def using h loaded_bounded_grants_are_valid [OF h] by blast
qed

end
