(* ===== verification/OM_Interfaces.thy ===== *)
theory OM_Interfaces
  imports OM_Prelude
begin

text \<open>
  The contracts that several components share, as locales, with what follows from each
  contract proved once.  Every locale is interpreted on the definitions of the components.
\<close>

section \<open>Generations that fence older holders\<close>

text \<open>
  A store whose holder carries a generation number.  \<open>fenced e m\<close> says that generation \<open>e\<close>
  has been superseded in \<open>m\<close>; \<open>allowed e oper\<close> that an operation does not itself bring
  generation \<open>e\<close> back.  Once superseded, a generation is never authorised again, whatever
  sequence of operations follows.
\<close>

locale generation_fence =
  fixes exec :: "'m \<Rightarrow> 'op \<Rightarrow> 'm"
    and inv :: "'m \<Rightarrow> bool"
    and fenced :: "'g \<Rightarrow> 'm \<Rightarrow> bool"
    and allowed :: "'g \<Rightarrow> 'op \<Rightarrow> bool"
    and authorized :: "'m \<Rightarrow> 'g \<Rightarrow> bool"
  assumes inv_exec: "inv m \<Longrightarrow> inv (exec m oper)"
    and fenced_exec: "inv m \<Longrightarrow> fenced e m \<Longrightarrow> allowed e oper \<Longrightarrow> fenced e (exec m oper)"
    and fenced_rejects: "inv m \<Longrightarrow> fenced e m \<Longrightarrow> \<not> authorized m e"
begin

lemma inv_run: "inv m \<Longrightarrow> inv (foldl exec m ops)"
  by (induction ops arbitrary: m) (auto intro: inv_exec)

lemma fenced_run:
  "inv m \<Longrightarrow> fenced e m \<Longrightarrow> list_all (allowed e) ops \<Longrightarrow> fenced e (foldl exec m ops)"
  by (induction ops arbitrary: m) (auto intro: inv_exec fenced_exec)

lemma fenced_forever:
  "inv m \<Longrightarrow> fenced e m \<Longrightarrow> list_all (allowed e) ops \<Longrightarrow> \<not> authorized (foldl exec m ops) e"
  using fenced_run inv_run fenced_rejects by blast

end

section \<open>Cursors that only move forward\<close>

text \<open>What a run of operations hands out, in order.\<close>

fun emitted :: "('m \<Rightarrow> 'op \<Rightarrow> 'm) \<Rightarrow> ('m \<Rightarrow> 'op \<Rightarrow> 'k option) \<Rightarrow> 'm \<Rightarrow> 'op list \<Rightarrow> 'k list" where
  "emitted step out m [] = []"
| "emitted step out m (oper # ops) =
     (case out m oper of None \<Rightarrow> [] | Some q \<Rightarrow> [q]) @ emitted step out (step m oper) ops"

text \<open>
  A state with a cursor: an admissible operation never moves it back, and handing out a
  number moves it from below that number to at least that number.  Then no number is ever
  handed out twice.
\<close>

locale monotone_cursor =
  fixes step :: "'m \<Rightarrow> 'op \<Rightarrow> 'm"
    and out :: "'m \<Rightarrow> 'op \<Rightarrow> nat option"
    and cursor :: "'m \<Rightarrow> nat"
    and inv :: "'m \<Rightarrow> bool"
    and ok :: "'op \<Rightarrow> bool"
  assumes inv_step: "inv m \<Longrightarrow> inv (step m oper)"
    and cursor_mono: "inv m \<Longrightarrow> ok oper \<Longrightarrow> cursor m \<le> cursor (step m oper)"
    and out_advances:
      "inv m \<Longrightarrow> ok oper \<Longrightarrow> out m oper = Some q \<Longrightarrow> cursor m < q \<and> q \<le> cursor (step m oper)"
begin

lemma emitted_above:
  "inv m \<Longrightarrow> list_all ok ops \<Longrightarrow> q \<in> set (emitted step out m ops) \<Longrightarrow> cursor m < q"
proof (induction ops arbitrary: m)
  case (Cons oper ops)
  then have mono: "cursor m \<le> cursor (step m oper)" by (simp add: cursor_mono)
  have "out m oper = Some q \<or> q \<in> set (emitted step out (step m oper) ops)"
    using Cons.prems(3) by (auto split: option.splits)
  then show ?case
  proof
    assume "out m oper = Some q"
    with Cons.prems out_advances show ?thesis by auto
  next
    assume "q \<in> set (emitted step out (step m oper) ops)"
    with Cons have "cursor (step m oper) < q" by (simp add: inv_step)
    with mono show ?thesis by simp
  qed
qed simp

lemma emitted_strictly_increasing:
  "inv m \<Longrightarrow> list_all ok ops \<Longrightarrow> sorted_wrt (<) (emitted step out m ops)"
proof (induction ops arbitrary: m)
  case (Cons oper ops)
  then have ok: "inv m" "ok oper" and rest: "sorted_wrt (<) (emitted step out (step m oper) ops)"
    by (simp_all add: inv_step)
  show ?case
  proof (cases "out m oper")
    case None
    with rest show ?thesis by simp
  next
    case (Some q)
    have "q < r" if "r \<in> set (emitted step out (step m oper) ops)" for r
      using emitted_above [of "step m oper" ops r] that Cons.prems out_advances [OF ok Some]
      by (simp add: inv_step)
    with Some rest show ?thesis by simp
  qed
qed simp

lemma emitted_distinct:
  "inv m \<Longrightarrow> list_all ok ops \<Longrightarrow> distinct (emitted step out m ops)"
  using emitted_strictly_increasing strict_sorted_iff by blast

end

section \<open>Credentials that work once\<close>

text \<open>
  A state that remembers which credentials were used: an admissible operation forgets none, and one
  that accepts a credential finds it unused and leaves it used.  Then no credential is accepted
  twice.
\<close>

locale single_use =
  fixes step :: "'m \<Rightarrow> 'op \<Rightarrow> 'm"
    and out :: "'m \<Rightarrow> 'op \<Rightarrow> 'k option"
    and spent :: "'k \<Rightarrow> 'm \<Rightarrow> bool"
    and inv :: "'m \<Rightarrow> bool"
    and ok :: "'op \<Rightarrow> bool"
  assumes inv_step: "inv m \<Longrightarrow> ok oper \<Longrightarrow> inv (step m oper)"
    and spent_step: "inv m \<Longrightarrow> ok oper \<Longrightarrow> spent k m \<Longrightarrow> spent k (step m oper)"
    and out_spends: "inv m \<Longrightarrow> ok oper \<Longrightarrow> out m oper = Some k \<Longrightarrow> \<not> spent k m \<and> spent k (step m oper)"
begin

lemma spent_not_emitted:
  "inv m \<Longrightarrow> list_all ok ops \<Longrightarrow> spent k m \<Longrightarrow> k \<notin> set (emitted step out m ops)"
proof (induction ops arbitrary: m)
  case (Cons oper ops)
  then have "k \<notin> set (emitted step out (step m oper) ops)" by (simp add: inv_step spent_step)
  moreover have "out m oper \<noteq> Some k" using Cons.prems out_spends [of m oper k] by auto
  ultimately show ?case by (auto split: option.splits)
qed simp

lemma emitted_once: "inv m \<Longrightarrow> list_all ok ops \<Longrightarrow> distinct (emitted step out m ops)"
proof (induction ops arbitrary: m)
  case (Cons oper ops)
  then have ok: "inv m" "ok oper" "list_all ok ops" "inv (step m oper)" by (simp_all add: inv_step)
  have "k \<notin> set (emitted step out (step m oper) ops)" if "out m oper = Some k" for k
    using spent_not_emitted [OF ok(4,3)] out_spends [OF ok(1,2) that] by blast
  moreover have "distinct (emitted step out (step m oper) ops)" by (rule Cons.IH [OF ok(4,3)])
  ultimately show ?case by (auto split: option.splits)
qed simp

end

end
