(* ===== verification/Session.thy ===== *)
theory Session
  imports OM_Interfaces "HOL-Library.Char_ord" "HOL-Library.List_Lexorder"
begin

text \<open>
  Interactive sessions, \<open>crates/ownmesh-session/src/lib.rs\<close>: one controller seat per session
  with leases and generations (epochs), observers, the bounded replay ring and the
  exactly-once input and resize channels.

  A method \<open>&mut self\<close> of \<open>SessionManager\<close> is a function that returns its result and the
  manager afterwards, also when the result is an error, since some methods change the session
  before they fail.  The body that works on the borrowed \<open>Session\<close> is the definition with the
  prefix \<open>s_\<close>.  The UUIDs that the code draws are arguments.  Byte counts (\<open>usize\<close>) are \<open>nat\<close>:
  they count bytes held in memory, so \<open>saturating_add\<close> never saturates on them.
\<close>

section \<open>Data\<close>

datatype session_error =
    NotFound
  | LeaseHeld string
  | NotController
  | NotReader
  | ObserverCannotWrite
  | Closed_error
  | Invalid string
  | Persist string
  | SessionLimit
  | ChunkTooLarge
  | ReplayBudget
  | SequenceStale string u64 u64
  | SequenceGap string u64 u64
  | SequenceConflict string u64
  | SequenceRequired string

datatype seq_receipt_state = NoReceipt | Pending | Applied

definition MAX_SESSIONS :: nat where "MAX_SESSIONS = 64"
definition DEFAULT_REPLAY_CHUNK_LIMIT :: nat where "DEFAULT_REPLAY_CHUNK_LIMIT = 256"
definition MAX_CHUNK_BYTES :: nat where "MAX_CHUNK_BYTES = 64 * 1024"
definition MAX_REPLAY_BYTES :: nat where "MAX_REPLAY_BYTES = 1024 * 1024"
definition DEFAULT_REPLAY_PAGE_LIMIT :: nat where "DEFAULT_REPLAY_PAGE_LIMIT = 64"
definition MAX_REPLAY_PAGE_LIMIT :: nat where "MAX_REPLAY_PAGE_LIMIT = 256"
definition MAX_REPLAY_PAGE_BYTES :: nat where "MAX_REPLAY_PAGE_BYTES = 256 * 1024"

datatype session_state = Starting | Running | Detached | Closed

datatype session_kind = Pty | Process

datatype stream_kind = Stdout | Stderr | System

datatype pty_view_mode = Raw | Cooked

record pty_size =
  pz_cols :: u16
  pz_rows :: u16

definition pty_size_default :: pty_size where
  "pty_size_default = \<lparr>pz_cols = 80, pz_rows = 24\<rparr>"

record output_chunk =
  oc_seq :: u64
  oc_data :: string
  oc_stream :: stream_kind

record replay_page =
  rp_chunks :: "output_chunk list"
  rp_truncated :: bool
  rp_next_seq :: "u64 option"
  rp_returned_bytes :: nat

record controller_lease =
  cl_principal_id :: string
  cl_lease_id :: string
  cl_epoch :: u64
  cl_expires_unix :: i64

definition is_active :: "controller_lease \<Rightarrow> i64 \<Rightarrow> bool" where
  "is_active c now_unix \<longleftrightarrow> cl_expires_unix c > now_unix"

record sidecar_host_binding =
  sb_device_id :: string
  sb_workspace_id :: string
  sb_owner_principal :: string
  sb_host_nonce :: string
  sb_controller_epoch :: u64
  sb_binding_expires_unix :: i64
  sb_host_expires_unix :: i64
  sb_child_pid :: "u32 option"
  sb_child_process_birth :: "u64 option"

record session_info =
  si_id :: string
  si_kind :: session_kind
  si_state :: session_state
  si_title :: string
  si_controller :: "controller_lease option"
  si_controller_epoch :: u64
  si_observers :: "string list"
  si_cols :: u16
  si_rows :: u16
  si_next_seq :: u64
  si_view_mode :: pty_view_mode
  si_host_pid :: "u32 option"
  si_sidecar_host :: "sidecar_host_binding option"
  si_command :: "string list option"
  si_cwd :: "string option"
  si_workspace_id :: "string option"
  si_last_input_seq :: u64
  si_last_input_digest :: "string option"
  si_last_input_state :: seq_receipt_state
  si_last_resize_seq :: u64
  si_last_resize_digest :: "string option"
  si_last_resize_state :: seq_receipt_state

definition active_controller :: "session_info \<Rightarrow> i64 \<Rightarrow> controller_lease option" where
  "active_controller info now_unix =
     (case si_controller info of
        Some c \<Rightarrow> if is_active c now_unix then Some c else None
      | None \<Rightarrow> None)"

text \<open>
  The info of a \<open>Session\<close> and its replay ring.  The fields of the info are part of one record
  here, \<open>session\<close> extends \<open>session_info\<close>: \<open>s.info.f\<close> is the field \<open>si_f\<close>.
\<close>

record session = session_info +
  s_replay :: "output_chunk list"
  s_replay_limit :: nat
  s_replay_bytes :: nat

record session_manager =
  sm_sessions :: "(string \<times> session) list"
  sm_default_replay_limit :: nat
  sm_default_lease_ttl_secs :: i64
  sm_max_sessions :: nat
  sm_max_replay_bytes :: nat

definition session_manager_new :: session_manager where
  "session_manager_new =
     \<lparr>sm_sessions = [], sm_default_replay_limit = DEFAULT_REPLAY_CHUNK_LIMIT,
      sm_default_lease_ttl_secs = 3600, sm_max_sessions = MAX_SESSIONS,
      sm_max_replay_bytes = MAX_REPLAY_BYTES\<rparr>"

type_synonym 'a session_result = "(session_error, 'a) result"
type_synonym 'a session_update = "'a session_result \<times> session_manager"

text \<open>\<open>self.sessions.get_mut(id).ok_or(NotFound)?\<close> followed by the rest of the method.\<close>

definition with_session ::
  "session_manager \<Rightarrow> string \<Rightarrow> (session \<Rightarrow> 'a session_result \<times> session) \<Rightarrow> 'a session_update" where
  "with_session m sid f =
     (case map_of (sm_sessions m) sid of
        None \<Rightarrow> (Inl NotFound, m)
      | Some s \<Rightarrow> (fst (f s), m\<lparr>sm_sessions := AList.update sid (snd (f s)) (sm_sessions m)\<rparr>))"

section \<open>Opening, reading and the controller gates\<close>

definition open_with ::
  "string \<Rightarrow> string \<Rightarrow> session_manager \<Rightarrow> session_kind \<Rightarrow> string \<Rightarrow> string \<Rightarrow> i64 \<Rightarrow> string list option \<Rightarrow>
   string option \<Rightarrow> pty_size option \<Rightarrow> string option \<Rightarrow> session_info session_update" where
  "open_with uuid lease_uuid m kind title creator now_unix command cwd sz_opt workspace_id =
     (if length (sm_sessions m) \<ge> sm_max_sessions m then (Inl SessionLimit, m)
      else
        let sid = ''ses_'' @ uuid;
            lease = \<lparr>cl_principal_id = creator, cl_lease_id = ''lease_'' @ lease_uuid, cl_epoch = 1,
                     cl_expires_unix = wrap_i64 (now_unix + sm_default_lease_ttl_secs m)\<rparr>;
            sz = (case sz_opt of None \<Rightarrow> pty_size_default | Some z \<Rightarrow> z);
            s = \<lparr>si_id = sid, si_kind = kind, si_state = Running, si_title = title,
                 si_controller = Some lease, si_controller_epoch = 1, si_observers = [],
                 si_cols = pz_cols sz, si_rows = pz_rows sz, si_next_seq = 1, si_view_mode = Raw,
                 si_host_pid = None, si_sidecar_host = None, si_command = command, si_cwd = cwd,
                 si_workspace_id = workspace_id, si_last_input_seq = 0,
                 si_last_input_digest = None, si_last_input_state = NoReceipt,
                 si_last_resize_seq = 0, si_last_resize_digest = None,
                 si_last_resize_state = NoReceipt,
                 s_replay = [], s_replay_limit = sm_default_replay_limit m, s_replay_bytes = 0\<rparr>
        in (Inr (session_info.truncate s),
            m\<lparr>sm_sessions := AList.update sid s (sm_sessions m)\<rparr>))"

definition open_session ::
  "string \<Rightarrow> string \<Rightarrow> session_manager \<Rightarrow> session_kind \<Rightarrow> string \<Rightarrow> string \<Rightarrow> i64 \<Rightarrow>
   session_info session_update" where
  "open_session uuid lease_uuid m kind title creator now_unix =
     open_with uuid lease_uuid m kind title creator now_unix None None None None"

definition session_get :: "session_manager \<Rightarrow> string \<Rightarrow> session session_result" where
  "session_get m sid = ok_or NotFound (map_of (sm_sessions m) sid)"

definition session_list :: "session_manager \<Rightarrow> session_info list" where
  "session_list m = map (\<lambda>(k, s). session_info.truncate s) (sm_sessions m)"

text \<open>\<open>active_controller\<close> of a whole session.\<close>

abbreviation controller_at :: "session \<Rightarrow> i64 \<Rightarrow> controller_lease option" where
  "controller_at s now_unix \<equiv> active_controller (session_info.truncate s) now_unix"

definition is_controller :: "session_manager \<Rightarrow> string \<Rightarrow> string \<Rightarrow> i64 \<Rightarrow> bool session_result" where
  "is_controller m sid princ now_unix =
     and_then (session_get m sid) (\<lambda>s.
       Inr (case controller_at s now_unix of
              Some c \<Rightarrow> cl_principal_id c = princ
            | None \<Rightarrow> False))"

definition authorize_controller ::
  "session_manager \<Rightarrow> string \<Rightarrow> string \<Rightarrow> i64 \<Rightarrow> unit session_result" where
  "authorize_controller m sid princ now_unix =
     and_then (is_controller m sid princ now_unix) (\<lambda>b.
       if b then Inr () else Inl NotController)"

definition authorize_controller_lease ::
  "session_manager \<Rightarrow> string \<Rightarrow> string \<Rightarrow> string \<Rightarrow> u64 \<Rightarrow> i64 \<Rightarrow> unit session_result" where
  "authorize_controller_lease m sid princ lease_id epoch now_unix =
     and_then (session_get m sid) (\<lambda>s.
       case controller_at s now_unix of
         Some lease \<Rightarrow>
           if cl_principal_id lease = princ \<and> cl_lease_id lease = lease_id
              \<and> cl_epoch lease = epoch
           then Inr () else Inl NotController
       | None \<Rightarrow> Inl NotController)"

definition authorize_stdin ::
  "session_manager \<Rightarrow> string \<Rightarrow> string \<Rightarrow> i64 \<Rightarrow> unit session_result" where
  "authorize_stdin m sid princ now_unix =
     and_then (session_get m sid) (\<lambda>s.
       if si_state s = Closed then Inl Closed_error
       else case si_controller s of
              Some c \<Rightarrow>
                if cl_principal_id c = princ \<and> is_active c now_unix then Inr ()
                else if cl_principal_id c = princ then Inl NotController
                else Inl ObserverCannotWrite
            | None \<Rightarrow> Inl NotController)"

definition s_readers :: "session \<Rightarrow> string set" where
  "s_readers s =
     set (si_observers s)
       \<union> (case si_controller s of Some c \<Rightarrow> {cl_principal_id c} | None \<Rightarrow> {})"

definition readers :: "session_manager \<Rightarrow> string \<Rightarrow> i64 \<Rightarrow> string set session_result" where
  "readers m sid now_unix = and_then (session_get m sid) (\<lambda>s. Inr (s_readers s))"

definition authorize_reader ::
  "session_manager \<Rightarrow> string \<Rightarrow> string \<Rightarrow> i64 \<Rightarrow> unit session_result" where
  "authorize_reader m sid princ now_unix =
     and_then (readers m sid now_unix) (\<lambda>rs.
       if princ \<in> rs then Inr () else Inl NotReader)"

section \<open>The controller seat\<close>

definition push_observer :: "string \<Rightarrow> string list \<Rightarrow> string list" where
  "push_observer p obs = (if p \<in> set obs then obs else obs @ [p])"

definition s_renew :: "i64 \<Rightarrow> i64 \<Rightarrow> session \<Rightarrow> controller_lease session_result \<times> session" where
  "s_renew now ttl s =
     (case si_controller s of
        None \<Rightarrow> (Inl NotController, s)
      | Some lease \<Rightarrow>
          (case checked_add_i64 now ttl of
             None \<Rightarrow> (Inl (Invalid ''lease expiry overflow''), s)
           | Some t \<Rightarrow>
               let lease' = lease\<lparr>cl_expires_unix := t\<rparr>
               in (Inr lease', s\<lparr>si_controller := Some lease'\<rparr>)))"

definition renew_controller_lease ::
  "session_manager \<Rightarrow> string \<Rightarrow> string \<Rightarrow> string \<Rightarrow> u64 \<Rightarrow> i64 \<Rightarrow> i64 \<Rightarrow> controller_lease session_update"
  where
  "renew_controller_lease m sid princ lease_id epoch now ttl =
     (if \<not> (1 \<le> ttl \<and> ttl \<le> 3600) then (Inl (Invalid ''lease ttl out of bounds''), m)
      else case authorize_controller_lease m sid princ lease_id epoch now of
             Inl e \<Rightarrow> (Inl e, m)
           | Inr _ \<Rightarrow> with_session m sid (s_renew now ttl))"

definition s_release :: "string \<Rightarrow> i64 \<Rightarrow> session \<Rightarrow> unit session_result \<times> session" where
  "s_release princ now_unix s =
     (case si_controller s of
        Some c \<Rightarrow>
          if cl_principal_id c = princ \<and> is_active c now_unix then
            (Inr (), s\<lparr>si_observers := push_observer princ (si_observers s),
                       si_controller := None, si_state := Detached\<rparr>)
          else (Inl NotController, s)
      | None \<Rightarrow> (Inr (), s))"

definition release_controller ::
  "session_manager \<Rightarrow> string \<Rightarrow> string \<Rightarrow> i64 \<Rightarrow> unit session_update" where
  "release_controller m sid princ now_unix =
     with_session m sid (s_release princ now_unix)"

definition s_set_epoch :: "u64 \<Rightarrow> session \<Rightarrow> unit session_result \<times> session" where
  "s_set_epoch epoch s = (Inr (), s\<lparr>si_controller_epoch := epoch\<rparr>)"

definition detach_controller_lease ::
  "session_manager \<Rightarrow> string \<Rightarrow> string \<Rightarrow> string \<Rightarrow> u64 \<Rightarrow> i64 \<Rightarrow> unit session_update" where
  "detach_controller_lease m sid princ lease_id epoch now =
     (case authorize_controller_lease m sid princ lease_id epoch now of
        Inl e \<Rightarrow> (Inl e, m)
      | Inr _ \<Rightarrow>
          (case session_get m sid of
             Inl e \<Rightarrow> (Inl e, m)
           | Inr s \<Rightarrow>
               (case checked_add (si_controller_epoch s) 1 of
                  None \<Rightarrow> (Inl (Invalid ''controller epoch exhausted''), m)
                | Some next_epoch \<Rightarrow>
                    (case release_controller m sid princ now of
                       (Inl e, m') \<Rightarrow> (Inl e, m')
                     | (Inr _, m') \<Rightarrow> with_session m' sid (s_set_epoch next_epoch)))))"

definition s_attach_observer :: "string \<Rightarrow> i64 \<Rightarrow> session \<Rightarrow> unit session_result \<times> session" where
  "s_attach_observer p now_unix s =
     (if si_state s = Closed then (Inl Closed_error, s)
      else
        let active = map_option cl_principal_id (controller_at s now_unix)
        in if p \<notin> set (si_observers s) \<and> active \<noteq> Some p then
             let is_expired_controller =
                   (case si_controller s of
                      Some c \<Rightarrow> cl_principal_id c = p \<and> \<not> is_active c now_unix
                    | None \<Rightarrow> False)
             in if is_expired_controller then (Inr (), s)
                else (Inr (), s\<lparr>si_observers := si_observers s @ [p]\<rparr>)
           else (Inr (), s))"

definition attach_observer ::
  "session_manager \<Rightarrow> string \<Rightarrow> string \<Rightarrow> i64 \<Rightarrow> unit session_update" where
  "attach_observer m sid princ now_unix =
     with_session m sid (s_attach_observer princ now_unix)"

definition s_claim ::
  "string \<Rightarrow> i64 \<Rightarrow> string \<Rightarrow> i64 \<Rightarrow> session \<Rightarrow> controller_lease session_result \<times> session" where
  "s_claim lease_uuid ttl princ now_unix s =
     (if si_state s = Closed then (Inl Closed_error, s)
      else
        case (case si_controller s of
                Some cur \<Rightarrow>
                  if is_active cur now_unix then Some (LeaseHeld (cl_principal_id cur)) else None
              | None \<Rightarrow> None) of
          Some e \<Rightarrow> (Inl e, s)
        | None \<Rightarrow>
            let s1 = s\<lparr>si_observers := filter (\<lambda>obs. obs \<noteq> princ) (si_observers s)\<rparr>
            in case checked_add (si_controller_epoch s1) 1 of
                 None \<Rightarrow> (Inl (Invalid ''controller epoch exhausted''), s1)
               | Some epoch \<Rightarrow>
                   let lease = \<lparr>cl_principal_id = princ, cl_lease_id = ''lease_'' @ lease_uuid,
                                cl_epoch = epoch, cl_expires_unix = wrap_i64 (now_unix + ttl)\<rparr>
                   in (Inr lease, s1\<lparr>si_controller := Some lease, si_controller_epoch := epoch,
                                     si_state := Running\<rparr>))"

definition claim_controller ::
  "string \<Rightarrow> session_manager \<Rightarrow> string \<Rightarrow> string \<Rightarrow> i64 \<Rightarrow> controller_lease session_update" where
  "claim_controller lease_uuid m sid princ now_unix =
     with_session m sid
       (s_claim lease_uuid (sm_default_lease_ttl_secs m) princ now_unix)"

definition s_give ::
  "string \<Rightarrow> i64 \<Rightarrow> string \<Rightarrow> string \<Rightarrow> i64 \<Rightarrow> session \<Rightarrow> controller_lease session_result \<times> session"
  where
  "s_give lease_uuid ttl from_p to_p now_unix s =
     (case (case si_controller s of
              Some c \<Rightarrow>
                if cl_principal_id c = from_p \<and> is_active c now_unix then None
                else if cl_principal_id c = from_p then Some NotController
                else Some (LeaseHeld (cl_principal_id c))
            | None \<Rightarrow> Some NotController) of
        Some e \<Rightarrow> (Inl e, s)
      | None \<Rightarrow>
          let s1 = s\<lparr>si_observers :=
                       filter (\<lambda>obs. obs \<noteq> to_p) (push_observer from_p (si_observers s))\<rparr>
          in case checked_add (si_controller_epoch s1) 1 of
               None \<Rightarrow> (Inl (Invalid ''controller epoch exhausted''), s1)
             | Some epoch \<Rightarrow>
                 let lease = \<lparr>cl_principal_id = to_p, cl_lease_id = ''lease_'' @ lease_uuid,
                              cl_epoch = epoch, cl_expires_unix = wrap_i64 (now_unix + ttl)\<rparr>
                 in (Inr lease, s1\<lparr>si_controller := Some lease, si_controller_epoch := epoch\<rparr>))"

definition give_controller ::
  "string \<Rightarrow> session_manager \<Rightarrow> string \<Rightarrow> string \<Rightarrow> string \<Rightarrow> i64 \<Rightarrow> controller_lease session_update"
  where
  "give_controller lease_uuid m sid from_p to_p now_unix =
     with_session m sid
       (s_give lease_uuid (sm_default_lease_ttl_secs m) from_p to_p now_unix)"

definition s_reconcile ::
  "string \<Rightarrow> string \<Rightarrow> u64 \<Rightarrow> i64 \<Rightarrow> bool \<Rightarrow> session \<Rightarrow> unit session_result \<times> session" where
  "s_reconcile princ lease_id epoch expires_unix attached s =
     (if si_state s = Closed then (Inl Closed_error, s)
      else if \<not> attached then
        (Inr (), s\<lparr>si_observers := push_observer princ (si_observers s),
                   si_controller := None, si_state := Detached, si_controller_epoch := epoch\<rparr>)
      else
        (Inr (), s\<lparr>si_observers := filter (\<lambda>obs. obs \<noteq> princ) (si_observers s),
                   si_controller := Some \<lparr>cl_principal_id = princ, cl_lease_id = lease_id,
                                          cl_epoch = epoch, cl_expires_unix = expires_unix\<rparr>,
                   si_controller_epoch := epoch, si_state := Running\<rparr>))"

definition reconcile_controller_from_transition ::
  "session_manager \<Rightarrow> string \<Rightarrow> string \<Rightarrow> string \<Rightarrow> u64 \<Rightarrow> i64 \<Rightarrow> bool \<Rightarrow> unit session_update" where
  "reconcile_controller_from_transition m sid princ lease_id epoch expires_unix attached =
     with_session m sid (s_reconcile princ lease_id epoch expires_unix attached)"

definition s_set_expires :: "i64 \<Rightarrow> session \<Rightarrow> unit session_result \<times> session" where
  "s_set_expires expires_unix s =
     (case si_controller s of
        Some c \<Rightarrow> (Inr (), s\<lparr>si_controller := Some (c\<lparr>cl_expires_unix := expires_unix\<rparr>)\<rparr>)
      | None \<Rightarrow> (Inl NotController, s))"

definition set_controller_expires_unix ::
  "session_manager \<Rightarrow> string \<Rightarrow> i64 \<Rightarrow> unit session_update" where
  "set_controller_expires_unix m sid expires_unix = with_session m sid (s_set_expires expires_unix)"

section \<open>Output: the replay ring\<close>

text \<open>The two loops that drop chunks from the front, on count and then on bytes.\<close>

fun trim_count :: "nat \<Rightarrow> output_chunk list \<Rightarrow> nat \<Rightarrow> output_chunk list \<times> nat" where
  "trim_count limit [] held = ([], held)"
| "trim_count limit (c # cs) held =
     (if length (c # cs) > limit then trim_count limit cs (held - length (oc_data c))
      else (c # cs, held))"

fun trim_bytes :: "nat \<Rightarrow> output_chunk list \<Rightarrow> nat \<Rightarrow> output_chunk list \<times> nat" where
  "trim_bytes max_bytes [] held = ([], held)"
| "trim_bytes max_bytes (c # cs) held =
     (if held > max_bytes then trim_bytes max_bytes cs (held - length (oc_data c))
      else (c # cs, held))"

definition trim_ring :: "nat \<Rightarrow> session \<Rightarrow> session" where
  "trim_ring max_bytes s =
     (let (cs, b) = trim_count (s_replay_limit s) (s_replay s) (s_replay_bytes s);
          (cs', b') = trim_bytes max_bytes cs b
      in s\<lparr>s_replay := cs', s_replay_bytes := b'\<rparr>)"

definition s_push_output ::
  "nat \<Rightarrow> string \<Rightarrow> stream_kind \<Rightarrow> session \<Rightarrow> output_chunk session_result \<times> session" where
  "s_push_output max_bytes data stream s =
     (if si_state s = Closed then (Inl Closed_error, s)
      else if length data > max_bytes then (Inl ReplayBudget, s)
      else
        let chunk = \<lparr>oc_seq = si_next_seq s, oc_data = data, oc_stream = stream\<rparr>
        in (Inr chunk,
            trim_ring max_bytes
              (s\<lparr>si_next_seq := si_next_seq s + 1,
                 s_replay_bytes := s_replay_bytes s + length data,
                 s_replay := s_replay s @ [chunk]\<rparr>)))"

definition push_output ::
  "session_manager \<Rightarrow> string \<Rightarrow> string \<Rightarrow> stream_kind \<Rightarrow> output_chunk session_update" where
  "push_output m sid data stream =
     (if length data > MAX_CHUNK_BYTES then (Inl ChunkTooLarge, m)
      else with_session m sid (s_push_output (sm_max_replay_bytes m) data stream))"

text \<open>The loop over the chunks at or after the requested sequence.\<close>

fun replay_loop ::
  "nat \<Rightarrow> nat \<Rightarrow> output_chunk list \<Rightarrow> output_chunk list \<Rightarrow> nat \<Rightarrow> replay_page" where
  "replay_loop limit max_bytes [] chunks held =
     \<lparr>rp_chunks = chunks, rp_truncated = False, rp_next_seq = None, rp_returned_bytes = held\<rparr>"
| "replay_loop limit max_bytes (c # cs) chunks held =
     (if length chunks \<ge> limit \<or> held + length (oc_data c) > max_bytes then
        \<lparr>rp_chunks = chunks, rp_truncated = True, rp_next_seq = Some (oc_seq c),
         rp_returned_bytes = held\<rparr>
      else replay_loop limit max_bytes cs (chunks @ [c]) (held + length (oc_data c)))"

definition replay_from_bounded ::
  "session_manager \<Rightarrow> string \<Rightarrow> string \<Rightarrow> u64 \<Rightarrow> i64 \<Rightarrow> nat \<Rightarrow> nat \<Rightarrow> replay_page session_result" where
  "replay_from_bounded m sid princ from_seq now_unix limit max_bytes =
     and_then (authorize_reader m sid princ now_unix) (\<lambda>_.
     and_then (session_get m sid) (\<lambda>s.
       Inr (replay_loop (clamp 1 MAX_REPLAY_PAGE_LIMIT limit)
              (clamp 1 MAX_REPLAY_PAGE_BYTES max_bytes)
              (filter (\<lambda>c. oc_seq c \<ge> from_seq) (s_replay s)) [] 0)))"

definition replay_from ::
  "session_manager \<Rightarrow> string \<Rightarrow> string \<Rightarrow> u64 \<Rightarrow> i64 \<Rightarrow> output_chunk list session_result" where
  "replay_from m sid princ from_seq now_unix =
     map_sum id rp_chunks
       (replay_from_bounded m sid princ from_seq now_unix DEFAULT_REPLAY_PAGE_LIMIT
          MAX_REPLAY_PAGE_BYTES)"

section \<open>Input and resize channels\<close>

definition s_resize :: "u16 \<Rightarrow> u16 \<Rightarrow> session \<Rightarrow> unit session_result \<times> session" where
  "s_resize cols rows s = (Inr (), s\<lparr>si_cols := cols, si_rows := rows\<rparr>)"

definition session_resize ::
  "session_manager \<Rightarrow> string \<Rightarrow> string \<Rightarrow> u16 \<Rightarrow> u16 \<Rightarrow> i64 \<Rightarrow> unit session_update" where
  "session_resize m sid princ cols rows now_unix =
     (case authorize_controller m sid princ now_unix of
        Inl e \<Rightarrow> (Inl e, m)
      | Inr _ \<Rightarrow> with_session m sid (s_resize cols rows))"

datatype seq_reserve_outcome = Deliver u64 | RetryPending u64 | Replayed u64

definition s_reserve ::
  "u64 \<Rightarrow> string \<Rightarrow> string \<Rightarrow> bool \<Rightarrow> session \<Rightarrow> seq_reserve_outcome session_result \<times> session" where
  "s_reserve seq digest kind input s =
     (if si_state s = Closed then (Inl Closed_error, s)
      else
        let last = (if input then si_last_input_seq s else si_last_resize_seq s);
            last_digest = (if input then si_last_input_digest s else si_last_resize_digest s);
            last_state = (if input then si_last_input_state s else si_last_resize_state s);
            expected = saturating_add last 1
        in if last > 0 \<and> seq = last then
             if (case last_digest of None \<Rightarrow> '''' | Some d \<Rightarrow> d) = digest then
               (Inr (if last_state = Applied then Replayed seq else RetryPending seq), s)
             else (Inl (SequenceConflict kind seq), s)
           else if seq < expected then (Inl (SequenceStale kind seq last), s)
           else if seq > expected then (Inl (SequenceGap kind seq expected), s)
           else if input then
             (Inr (Deliver seq), s\<lparr>si_last_input_seq := seq, si_last_input_digest := Some digest,
                                   si_last_input_state := Pending\<rparr>)
           else
             (Inr (Deliver seq), s\<lparr>si_last_resize_seq := seq, si_last_resize_digest := Some digest,
                                   si_last_resize_state := Pending\<rparr>))"

definition reserve_controller_seq ::
  "session_manager \<Rightarrow> string \<Rightarrow> u64 \<Rightarrow> string \<Rightarrow> string \<Rightarrow> bool \<Rightarrow> seq_reserve_outcome session_update"
  where
  "reserve_controller_seq m sid seq digest kind input =
     (if seq = 0 then (Inl (Invalid (kind @ ''_seq must be >= 1'')), m)
      else with_session m sid (s_reserve seq digest kind input))"

definition s_finalize ::
  "u64 \<Rightarrow> string \<Rightarrow> bool \<Rightarrow> session \<Rightarrow> unit session_result \<times> session" where
  "s_finalize seq kind input s =
     (let last = (if input then si_last_input_seq s else si_last_resize_seq s)
      in if last \<noteq> seq then
           (Inl (Invalid (kind @ ''_seq finalize mismatch: reserved '' @ dec (unat last)
                          @ '', got '' @ dec (unat seq))), s)
         else if input then (Inr (), s\<lparr>si_last_input_state := Applied\<rparr>)
         else (Inr (), s\<lparr>si_last_resize_state := Applied\<rparr>))"

definition finalize_controller_seq ::
  "session_manager \<Rightarrow> string \<Rightarrow> u64 \<Rightarrow> string \<Rightarrow> bool \<Rightarrow> unit session_update" where
  "finalize_controller_seq m sid seq kind input = with_session m sid (s_finalize seq kind input)"

definition reserve_input_seq ::
  "session_manager \<Rightarrow> string \<Rightarrow> u64 \<Rightarrow> string \<Rightarrow> seq_reserve_outcome session_update" where
  "reserve_input_seq m sid seq digest = reserve_controller_seq m sid seq digest ''input'' True"

definition finalize_input_seq :: "session_manager \<Rightarrow> string \<Rightarrow> u64 \<Rightarrow> unit session_update" where
  "finalize_input_seq m sid seq = finalize_controller_seq m sid seq ''input'' True"

definition reserve_resize_seq ::
  "session_manager \<Rightarrow> string \<Rightarrow> u64 \<Rightarrow> string \<Rightarrow> seq_reserve_outcome session_update" where
  "reserve_resize_seq m sid seq digest = reserve_controller_seq m sid seq digest ''resize'' False"

definition finalize_resize_seq :: "session_manager \<Rightarrow> string \<Rightarrow> u64 \<Rightarrow> unit session_update" where
  "finalize_resize_seq m sid seq = finalize_controller_seq m sid seq ''resize'' False"

text \<open>The legacy helpers reserve and finalize at once, with an empty digest.\<close>

definition advance_input_seq :: "session_manager \<Rightarrow> string \<Rightarrow> u64 \<Rightarrow> u64 session_update" where
  "advance_input_seq m sid seq =
     (case reserve_input_seq m sid seq '''' of
        (Inl e, m') \<Rightarrow> (Inl e, m')
      | (Inr (Replayed q), m') \<Rightarrow> (Inr q, m')
      | (Inr (Deliver q), m') \<Rightarrow>
          (case finalize_input_seq m' sid q of
             (Inl e, m'') \<Rightarrow> (Inl e, m'') | (Inr _, m'') \<Rightarrow> (Inr q, m''))
      | (Inr (RetryPending q), m') \<Rightarrow>
          (case finalize_input_seq m' sid q of
             (Inl e, m'') \<Rightarrow> (Inl e, m'') | (Inr _, m'') \<Rightarrow> (Inr q, m'')))"

definition advance_resize_seq :: "session_manager \<Rightarrow> string \<Rightarrow> u64 \<Rightarrow> u64 session_update" where
  "advance_resize_seq m sid seq =
     (case reserve_resize_seq m sid seq '''' of
        (Inl e, m') \<Rightarrow> (Inl e, m')
      | (Inr (Replayed q), m') \<Rightarrow> (Inr q, m')
      | (Inr (Deliver q), m') \<Rightarrow>
          (case finalize_resize_seq m' sid q of
             (Inl e, m'') \<Rightarrow> (Inl e, m'') | (Inr _, m'') \<Rightarrow> (Inr q, m''))
      | (Inr (RetryPending q), m') \<Rightarrow>
          (case finalize_resize_seq m' sid q of
             (Inl e, m'') \<Rightarrow> (Inl e, m'') | (Inr _, m'') \<Rightarrow> (Inr q, m'')))"

section \<open>Lifecycle\<close>

definition set_view_mode ::
  "session_manager \<Rightarrow> string \<Rightarrow> string \<Rightarrow> pty_view_mode \<Rightarrow> i64 \<Rightarrow> unit session_update" where
  "set_view_mode m sid princ mode now_unix =
     (case authorize_controller m sid princ now_unix of
        Inl e \<Rightarrow> (Inl e, m)
      | Inr _ \<Rightarrow> with_session m sid (\<lambda>s. (Inr (), s\<lparr>si_view_mode := mode\<rparr>)))"

definition set_host_pid :: "session_manager \<Rightarrow> string \<Rightarrow> u32 option \<Rightarrow> unit session_update" where
  "set_host_pid m sid pid = with_session m sid (\<lambda>s. (Inr (), s\<lparr>si_host_pid := pid\<rparr>))"

definition set_state :: "session_manager \<Rightarrow> string \<Rightarrow> session_state \<Rightarrow> unit session_update" where
  "set_state m sid state = with_session m sid (\<lambda>s. (Inr (), s\<lparr>si_state := state\<rparr>))"

definition set_sidecar_host_binding ::
  "session_manager \<Rightarrow> string \<Rightarrow> sidecar_host_binding option \<Rightarrow> unit session_update" where
  "set_sidecar_host_binding m sid binding =
     with_session m sid (\<lambda>s. (Inr (), s\<lparr>si_sidecar_host := binding\<rparr>))"

definition s_close :: "session \<Rightarrow> unit session_result \<times> session" where
  "s_close s = (Inr (), s\<lparr>si_state := Closed, si_controller := None\<rparr>)"

definition session_close :: "session_manager \<Rightarrow> string \<Rightarrow> unit session_update" where
  "session_close m sid = with_session m sid s_close"

definition terminate :: "session_manager \<Rightarrow> string \<Rightarrow> unit session_update" where
  "terminate m sid =
     (case session_close m sid of
        (Inl e, m') \<Rightarrow> (Inl e, m')
      | (Inr _, m') \<Rightarrow> (Inr (), m'\<lparr>sm_sessions := AList.delete sid (sm_sessions m')\<rparr>))"

definition terminate_all :: "session_manager \<Rightarrow> nat \<times> session_manager" where
  "terminate_all m = (length (sm_sessions m), m\<lparr>sm_sessions := []\<rparr>)"

text \<open>\<open>for s in self.sessions.values_mut()\<close> with a body that reports whether it counted.\<close>

definition for_each_session ::
  "(session \<Rightarrow> bool \<times> session) \<Rightarrow> session_manager \<Rightarrow> nat \<times> session_manager" where
  "for_each_session f m =
     (length (filter (\<lambda>(k, s). fst (f s)) (sm_sessions m)),
      m\<lparr>sm_sessions := map (\<lambda>(k, s). (k, snd (f s))) (sm_sessions m)\<rparr>)"

definition s_expire :: "i64 \<Rightarrow> session \<Rightarrow> bool \<times> session" where
  "s_expire now_unix s =
     (case si_controller s of
        Some c \<Rightarrow>
          if \<not> is_active c now_unix then
            (True, s\<lparr>si_controller := None, si_state := Detached,
                     si_observers := push_observer (cl_principal_id c) (si_observers s)\<rparr>)
          else (False, s)
      | None \<Rightarrow> (False, s))"

definition expire_stale_leases :: "session_manager \<Rightarrow> i64 \<Rightarrow> nat \<times> session_manager" where
  "expire_stale_leases m now_unix = for_each_session (s_expire now_unix) m"

definition s_mark_detached :: "session \<Rightarrow> bool \<times> session" where
  "s_mark_detached s =
     (if si_state s = Closed then (False, s)
      else if si_host_pid s \<noteq> None \<or> si_kind s = Pty then
        (si_state s = Running,
         s\<lparr>si_host_pid := None,
           si_state := (if si_state s = Running then Detached else si_state s),
           s_replay := s_replay s @
             [\<lparr>oc_seq = si_next_seq s,
               oc_data = ''[system] session host disconnected after daemon restart'' @ [CHR 0x0A],
               oc_stream = System\<rparr>],
           si_next_seq := si_next_seq s + 1\<rparr>)
      else (False, s))"

definition mark_hosts_detached_after_restart :: "session_manager \<Rightarrow> nat \<times> session_manager" where
  "mark_hosts_detached_after_restart m = for_each_session s_mark_detached m"

definition enforce_session_budget :: "nat \<Rightarrow> nat \<Rightarrow> session \<Rightarrow> session" where
  "enforce_session_budget default_limit max_bytes s =
     trim_ring max_bytes
       (s\<lparr>s_replay_limit :=
            clamp 1 (max default_limit DEFAULT_REPLAY_CHUNK_LIMIT) (s_replay_limit s),
          s_replay_bytes := sum_list (map (length \<circ> oc_data) (s_replay s))\<rparr>)"

definition enforce_loaded_budgets :: "session_manager \<Rightarrow> session_manager" where
  "enforce_loaded_budgets m =
     (let max_sessions = clamp 1 MAX_SESSIONS (sm_max_sessions m);
          max_bytes = clamp 1 MAX_REPLAY_BYTES (sm_max_replay_bytes m);
          default_limit = clamp 1 (max DEFAULT_REPLAY_CHUNK_LIMIT 1024) (sm_default_replay_limit m);
          drop_n = length (sm_sessions m) - max_sessions;
          kept = (if length (sm_sessions m) > max_sessions
                  then foldl (\<lambda>ss i. AList.delete i ss) (sm_sessions m)
                         (take drop_n (sort (keys (sm_sessions m))))
                  else sm_sessions m)
      in m\<lparr>sm_max_sessions := max_sessions, sm_max_replay_bytes := max_bytes,
           sm_default_replay_limit := default_limit,
           sm_sessions :=
             map (\<lambda>(k, s). (k, enforce_session_budget default_limit max_bytes s)) kept\<rparr>)"

section \<open>Runs of the manager\<close>

text \<open>The operations that change a manager, and what one of them leaves behind.\<close>

datatype session_op =
    OpOpen string string session_kind string string i64 "string list option" "string option"
      "pty_size option" "string option"
  | OpRenew string string string u64 i64 i64
  | OpDetach string string string u64 i64
  | OpAttach string string i64
  | OpClaim string string string i64
  | OpGive string string string string i64
  | OpRelease string string i64
  | OpPush string string stream_kind
  | OpResize string string u16 u16 i64
  | OpReserve string u64 string bool
  | OpFinalize string u64 bool
  | OpAdvance string u64 bool
  | OpViewMode string string pty_view_mode i64
  | OpHostPid string "u32 option"
  | OpState string session_state
  | OpSidecar string "sidecar_host_binding option"
  | OpReconcile string string string u64 i64 bool
  | OpSetExpires string i64
  | OpClose string
  | OpTerminate string
  | OpTerminateAll
  | OpExpire i64
  | OpRestart
  | OpEnforceBudgets

fun exec_op :: "session_manager \<Rightarrow> session_op \<Rightarrow> session_manager" where
  "exec_op m (OpOpen u l kind title creator now command cwd sz ws) =
     snd (open_with u l m kind title creator now command cwd sz ws)"
| "exec_op m (OpRenew sid p l e now ttl) = snd (renew_controller_lease m sid p l e now ttl)"
| "exec_op m (OpDetach sid p l e now) = snd (detach_controller_lease m sid p l e now)"
| "exec_op m (OpAttach sid p now) = snd (attach_observer m sid p now)"
| "exec_op m (OpClaim u sid p now) = snd (claim_controller u m sid p now)"
| "exec_op m (OpGive u sid p q now) = snd (give_controller u m sid p q now)"
| "exec_op m (OpRelease sid p now) = snd (release_controller m sid p now)"
| "exec_op m (OpPush sid data stream) = snd (push_output m sid data stream)"
| "exec_op m (OpResize sid p cols rows now) = snd (session_resize m sid p cols rows now)"
| "exec_op m (OpReserve sid q d input) =
     snd (if input then reserve_input_seq m sid q d else reserve_resize_seq m sid q d)"
| "exec_op m (OpFinalize sid q input) =
     snd (if input then finalize_input_seq m sid q else finalize_resize_seq m sid q)"
| "exec_op m (OpAdvance sid q input) =
     snd (if input then advance_input_seq m sid q else advance_resize_seq m sid q)"
| "exec_op m (OpViewMode sid p mode now) = snd (set_view_mode m sid p mode now)"
| "exec_op m (OpHostPid sid pid) = snd (set_host_pid m sid pid)"
| "exec_op m (OpState sid st) = snd (set_state m sid st)"
| "exec_op m (OpSidecar sid b) = snd (set_sidecar_host_binding m sid b)"
| "exec_op m (OpReconcile sid p l e t att) =
     snd (reconcile_controller_from_transition m sid p l e t att)"
| "exec_op m (OpSetExpires sid t) = snd (set_controller_expires_unix m sid t)"
| "exec_op m (OpClose sid) = snd (session_close m sid)"
| "exec_op m (OpTerminate sid) = snd (terminate m sid)"
| "exec_op m OpTerminateAll = snd (terminate_all m)"
| "exec_op m (OpExpire now) = snd (expire_stale_leases m now)"
| "exec_op m OpRestart = snd (mark_hosts_detached_after_restart m)"
| "exec_op m OpEnforceBudgets = enforce_loaded_budgets m"

text \<open>
  The effect of an operation on one session that it finds in the map.  The relation is the
  common shape of all the proofs below: an invariant of sessions is checked rule by rule.
\<close>

inductive session_step :: "session_op \<Rightarrow> string \<Rightarrow> session \<Rightarrow> session \<Rightarrow> bool" where
  renew: "session_step (OpRenew sid p l e now ttl) sid s (snd (s_renew now ttl s))"
| detach: "si_controller s = Some c \<Longrightarrow> cl_principal_id c = p \<Longrightarrow> is_active c now \<Longrightarrow>
    checked_add (si_controller_epoch s) 1 = Some next_epoch \<Longrightarrow>
    session_step (OpDetach sid p l e now) sid s
      (snd (s_set_epoch next_epoch (snd (s_release p now s))))"
| attach: "session_step (OpAttach sid p now) sid s (snd (s_attach_observer p now s))"
| claim: "session_step (OpClaim u sid p now) sid s (snd (s_claim u ttl p now s))"
| give: "session_step (OpGive u sid p q now) sid s (snd (s_give u ttl p q now s))"
| release: "session_step (OpRelease sid p now) sid s (snd (s_release p now s))"
| push: "length data \<le> MAX_CHUNK_BYTES \<Longrightarrow>
    session_step (OpPush sid data stream) sid s (snd (s_push_output max_bytes data stream s))"
| resize: "session_step (OpResize sid p cols rows now) sid s (snd (s_resize cols rows s))"
| reserve: "q \<noteq> 0 \<Longrightarrow>
    session_step (OpReserve sid q d input) sid s (snd (s_reserve q d kind input s))"
| finalize: "session_step (OpFinalize sid q input) sid s (snd (s_finalize q kind input s))"
| advance: "q \<noteq> 0 \<Longrightarrow>
    session_step (OpAdvance sid q input) sid s (snd (s_reserve q d kind input s))"
| advance_finalize: "q \<noteq> 0 \<Longrightarrow>
    session_step (OpAdvance sid q input) sid s
      (snd (s_finalize q' kind input (snd (s_reserve q d kind input s))))"
| view_mode: "session_step (OpViewMode sid p mode now) sid s (s\<lparr>si_view_mode := mode\<rparr>)"
| host_pid: "session_step (OpHostPid sid pid) sid s (s\<lparr>si_host_pid := pid\<rparr>)"
| state: "session_step (OpState sid st) sid s (s\<lparr>si_state := st\<rparr>)"
| sidecar: "session_step (OpSidecar sid b) sid s (s\<lparr>si_sidecar_host := b\<rparr>)"
| reconcile: "session_step (OpReconcile sid p l e t att) sid s (snd (s_reconcile p l e t att s))"
| set_expires: "session_step (OpSetExpires sid t) sid s (snd (s_set_expires t s))"
| close: "session_step (OpClose sid) sid s (snd (s_close s))"
| expire: "session_step (OpExpire now) sid s (snd (s_expire now s))"
| restart: "session_step OpRestart sid s (snd (s_mark_detached s))"
| budgets: "session_step OpEnforceBudgets sid s (enforce_session_budget dl mb s)"

inductive_cases session_stepE: "session_step oper sid s s'"

lemma controller_at_eq:
  "controller_at s now =
     (case si_controller s of Some c \<Rightarrow> if is_active c now then Some c else None | None \<Rightarrow> None)"
  by (simp add: active_controller_def session_info.truncate_def)

fun opens :: "session_op \<Rightarrow> string option" where
  "opens (OpOpen u l kind title creator now command cwd sz ws) = Some (''ses_'' @ u)"
| "opens _ = None"

text \<open>A session as \<open>open_with\<close> inserts it.\<close>

definition fresh_session :: "nat \<Rightarrow> session \<Rightarrow> bool" where
  "fresh_session limit s \<longleftrightarrow>
     (\<exists>c. si_controller s = Some c \<and> cl_epoch c = 1) \<and> si_controller_epoch s = 1
   \<and> si_observers s = [] \<and> si_next_seq s = 1 \<and> si_last_input_seq s = 0
   \<and> si_last_resize_seq s = 0 \<and> s_replay s = [] \<and> s_replay_bytes s = 0
   \<and> s_replay_limit s = limit"

lemma with_session_id [simp]:
  "map_of (sm_sessions m) sid = Some s \<Longrightarrow>
   map_of (sm_sessions (snd (with_session m sid f))) sid = Some (snd (f s))"
  by (simp add: with_session_def update_conv')

lemma with_session_compose:
  "snd (with_session (snd (with_session m sid f)) sid g) =
   snd (with_session m sid (\<lambda>s. g (snd (f s))))"
  by (simp add: with_session_def update_conv' split: option.splits)

lemma with_session_stepD:
  assumes "(k, s') \<in> set (sm_sessions (snd (with_session m sid f)))"
    and "\<And>s. map_of (sm_sessions m) sid = Some s \<Longrightarrow> session_step oper sid s (snd (f s))"
  shows "(k, s') \<in> set (sm_sessions m)
       \<or> (\<exists>s. (k, s) \<in> set (sm_sessions m) \<and> session_step oper k s s')"
proof (cases "map_of (sm_sessions m) sid")
  case None
  with assms(1) show ?thesis by (simp add: with_session_def)
next
  case (Some s)
  then have "(k, s') \<in> set (AList.update sid (snd (f s)) (sm_sessions m))"
    using assms(1) by (simp add: with_session_def)
  from mem_update_cases [OF this] map_of_SomeD [OF Some] assms(2) [OF Some] show ?thesis by auto
qed

lemma authorize_controller_lease_Inr:
  "authorize_controller_lease m sid p l e now = Inr u \<longleftrightarrow>
   (\<exists>s c. map_of (sm_sessions m) sid = Some s \<and> si_controller s = Some c \<and> is_active c now
      \<and> cl_principal_id c = p \<and> cl_lease_id c = l \<and> cl_epoch c = e)"
  by (auto simp: authorize_controller_lease_def session_get_def and_then_Inr_iff ok_or_Inr_iff
      controller_at_eq split: option.splits if_splits)

lemma detach_session:
  "snd (detach_controller_lease m sid p l e now) = m
   \<or> (\<exists>s c n. map_of (sm_sessions m) sid = Some s \<and> si_controller s = Some c \<and> is_active c now
        \<and> cl_principal_id c = p \<and> checked_add (si_controller_epoch s) 1 = Some n
        \<and> snd (detach_controller_lease m sid p l e now) =
            snd (with_session m sid (\<lambda>s. s_set_epoch n (snd (s_release p now s)))))"
proof (cases "authorize_controller_lease m sid p l e now")
  case (Inl err)
  then show ?thesis by (simp add: detach_controller_lease_def)
next
  case (Inr u)
  then obtain s c where s: "map_of (sm_sessions m) sid = Some s" "si_controller s = Some c"
      "is_active c now" "cl_principal_id c = p"
    by (auto simp: authorize_controller_lease_Inr)
  show ?thesis
  proof (cases "checked_add (si_controller_epoch s) 1")
    case None
    with Inr s show ?thesis by (simp add: detach_controller_lease_def session_get_def)
  next
    case (Some n)
    obtain m' where m': "release_controller m sid p now = (Inr (), m')"
      using s by (simp add: release_controller_def with_session_def s_release_def)
    then have "snd (detach_controller_lease m sid p l e now) =
        snd (with_session m' sid (s_set_epoch n))"
      using Inr s Some by (simp add: detach_controller_lease_def session_get_def)
    also have "m' = snd (with_session m sid (s_release p now))"
      using m' by (simp add: release_controller_def)
    finally have "snd (detach_controller_lease m sid p l e now) =
        snd (with_session m sid (\<lambda>s. s_set_epoch n (snd (s_release p now s))))"
      by (simp add: with_session_compose)
    with s Some show ?thesis by blast
  qed
qed

lemma advance_session:
  assumes res_def: "res = snd (if input then advance_input_seq m sid q else advance_resize_seq m sid q)"
  shows "res = m
   \<or> q \<noteq> 0 \<and> (\<exists>kind. res = snd (with_session m sid (s_reserve q [] kind input)))
   \<or> q \<noteq> 0 \<and> (\<exists>kind q'. res =
        snd (with_session m sid (\<lambda>s. s_finalize q' kind input (snd (s_reserve q [] kind input s)))))"
proof (cases "q = 0")
  case True
  then show ?thesis
    by (simp add: res_def advance_input_seq_def advance_resize_seq_def reserve_input_seq_def
        reserve_resize_seq_def reserve_controller_seq_def)
next
  case False
  let ?kind = "if input then ''input'' else ''resize''"
  let ?r = "with_session m sid (s_reserve q [] ?kind input)"
  have res: "res = snd (case ?r of
        (Inl e, m') \<Rightarrow> (Inl e, m')
      | (Inr (Replayed q), m') \<Rightarrow> (Inr q, m')
      | (Inr (Deliver q), m') \<Rightarrow>
          (case with_session m' sid (s_finalize q ?kind input) of
             (Inl e, m'') \<Rightarrow> (Inl e, m'') | (Inr _, m'') \<Rightarrow> (Inr q, m''))
      | (Inr (RetryPending q), m') \<Rightarrow>
          (case with_session m' sid (s_finalize q ?kind input) of
             (Inl e, m'') \<Rightarrow> (Inl e, m'') | (Inr _, m'') \<Rightarrow> (Inr q, m'')))"
    using False
    unfolding res_def advance_input_seq_def advance_resize_seq_def reserve_input_seq_def
      reserve_resize_seq_def reserve_controller_seq_def finalize_input_seq_def
      finalize_resize_seq_def finalize_controller_seq_def
    by (induction input rule: bool.induct) simp_all
  have fin: "snd (case with_session (snd ?r) sid (s_finalize q' ?kind input) of
             (Inl e, m'') \<Rightarrow> (Inl e, m'') | (Inr _, m'') \<Rightarrow> (Inr q', m'')) =
     snd (with_session m sid (\<lambda>s. s_finalize q' ?kind input (snd (s_reserve q [] ?kind input s))))"
    for q'
    by (simp add: with_session_compose [symmetric] split: prod.splits sum.splits)
  obtain rr m' where r: "?r = (rr, m')" by fastforce
  consider (err) e where "rr = Inl e" | (rep) q' where "rr = Inr (Replayed q')"
    | (del) q' where "rr = Inr (Deliver q')" | (ret) q' where "rr = Inr (RetryPending q')"
    by (cases rr; metis seq_reserve_outcome.exhaust)
  then show ?thesis
  proof cases
    case err
    then have "res = snd ?r" using res r by simp
    with False show ?thesis by blast
  next
    case rep
    then have "res = snd ?r" using res r by simp
    with False show ?thesis by blast
  next
    case del
    with res r fin [of q'] False show ?thesis by auto
  next
    case ret
    with res r fin [of q'] False show ?thesis by auto
  qed
qed


text \<open>
  The sessions after an operation: those before it, moved by at most one \<open>session_step\<close>, and
  the one that \<open>open_with\<close> inserted.
\<close>

definition from_step :: "session_manager \<Rightarrow> session_op \<Rightarrow> string \<Rightarrow> session \<Rightarrow> bool" where
  "from_step m oper k s' \<longleftrightarrow>
     (k, s') \<in> set (sm_sessions m)
   \<or> (\<exists>s. (k, s) \<in> set (sm_sessions m) \<and> session_step oper k s s')
   \<or> opens oper = Some k \<and> fresh_session (sm_default_replay_limit m) s'"

lemma from_step_keep: "(k, s') \<in> set (sm_sessions m) \<Longrightarrow> from_step m oper k s'"
  by (simp add: from_step_def)

lemma from_step_with:
  assumes "(k, s') \<in> set (sm_sessions (snd (with_session m sid f)))"
    and "\<And>s. session_step oper sid s (snd (f s))"
  shows "from_step m oper k s'"
  using with_session_stepD [OF assms(1), of oper] assms(2) by (auto simp: from_step_def)

lemma from_step_detach:
  assumes "(k, s') \<in> set (sm_sessions (exec_op m (OpDetach sid p l e now)))"
  shows "from_step m (OpDetach sid p l e now) k s'"
proof (cases "exec_op m (OpDetach sid p l e now) = m")
  case True
  with assms show ?thesis by (simp add: from_step_keep)
next
  case False
  with detach_session [of m sid p l e now] obtain s c n where
    "map_of (sm_sessions m) sid = Some s" "si_controller s = Some c" "is_active c now"
    "cl_principal_id c = p" "checked_add (si_controller_epoch s) 1 = Some n"
    "exec_op m (OpDetach sid p l e now) =
       snd (with_session m sid (\<lambda>s. s_set_epoch n (snd (s_release p now s))))"
    by auto
  with assms with_session_stepD [of k s' m sid _ "OpDetach sid p l e now"] show ?thesis
    by (auto simp: from_step_def intro: session_step.detach)
qed

lemma from_step_advance:
  assumes "(k, s') \<in> set (sm_sessions (exec_op m (OpAdvance sid q input)))"
  shows "from_step m (OpAdvance sid q input) k s'"
proof -
  define res where
    "res = snd (if input then advance_input_seq m sid q else advance_resize_seq m sid q)"
  have mem: "(k, s') \<in> set (sm_sessions res)" using assms by (simp add: res_def)
  from advance_session [OF res_def] show ?thesis
  proof (elim disjE conjE exE)
    assume "res = m"
    with mem show ?thesis by (simp add: from_step_keep)
  next
    fix kind
    assume "q \<noteq> 0" "res = snd (with_session m sid (s_reserve q [] kind input))"
    with mem show ?thesis by (auto intro: from_step_with session_step.advance)
  next
    fix kind q'
    assume "q \<noteq> 0" "res = snd (with_session m sid
      (\<lambda>s. s_finalize q' kind input (snd (s_reserve q [] kind input s))))"
    with mem show ?thesis by (auto intro: from_step_with session_step.advance_finalize)
  qed
qed

lemma from_step_terminate:
  assumes "(k, s') \<in> set (sm_sessions (exec_op m (OpTerminate sid)))"
  shows "from_step m (OpTerminate sid) k s'"
  using assms
  by (auto simp: terminate_def session_close_def with_session_def s_close_def mem_delete_iff
      from_step_def dest!: mem_update_cases split: option.splits)

lemma from_step_open:
  assumes "(k, s') \<in> set (sm_sessions (exec_op m (OpOpen u l kind title creator now cmd cwd sz ws)))"
  shows "from_step m (OpOpen u l kind title creator now cmd cwd sz ws) k s'"
  using assms
  by (auto simp: open_with_def Let_def fresh_session_def from_step_def dest!: mem_update_cases
      split: if_splits)

lemma from_step_all:
  "(k, s') \<in> set (sm_sessions (exec_op m (OpExpire now))) \<Longrightarrow> from_step m (OpExpire now) k s'"
  "(k, s') \<in> set (sm_sessions (exec_op m OpRestart)) \<Longrightarrow> from_step m OpRestart k s'"
  "(k, s') \<in> set (sm_sessions (exec_op m OpEnforceBudgets)) \<Longrightarrow> from_step m OpEnforceBudgets k s'"
  by (auto simp: expire_stale_leases_def mark_hosts_detached_after_restart_def for_each_session_def
      enforce_loaded_budgets_def Let_def from_step_def dest: mem_foldl_delete
      intro: session_step.expire session_step.restart session_step.budgets split: if_splits)

lemmas seat_ops = attach_observer_def claim_controller_def give_controller_def
  release_controller_def reconcile_controller_from_transition_def set_controller_expires_unix_def
  session_close_def
lemmas field_ops = set_view_mode_def set_host_pid_def set_state_def set_sidecar_host_binding_def
  session_resize_def
lemmas channel_ops = reserve_input_seq_def reserve_resize_seq_def reserve_controller_seq_def
  finalize_input_seq_def finalize_resize_seq_def finalize_controller_seq_def

lemma from_step_fields:
  "(k, s') \<in> set (sm_sessions (snd (with_session m sid (\<lambda>s. (Inr (), s\<lparr>si_view_mode := mode\<rparr>))))) \<Longrightarrow>
   from_step m (OpViewMode sid p mode now) k s'"
  "(k, s') \<in> set (sm_sessions (snd (with_session m sid (\<lambda>s. (Inr (), s\<lparr>si_host_pid := pid\<rparr>))))) \<Longrightarrow>
   from_step m (OpHostPid sid pid) k s'"
  "(k, s') \<in> set (sm_sessions (snd (with_session m sid (\<lambda>s. (Inr (), s\<lparr>si_state := st\<rparr>))))) \<Longrightarrow>
   from_step m (OpState sid st) k s'"
  "(k, s') \<in> set (sm_sessions (snd (with_session m sid (\<lambda>s. (Inr (), s\<lparr>si_sidecar_host := b\<rparr>))))) \<Longrightarrow>
   from_step m (OpSidecar sid b) k s'"
  by (erule from_step_with, simp add: session_step.intros)+

lemma exec_op_session:
  "(k, s') \<in> set (sm_sessions (exec_op m oper)) \<Longrightarrow> from_step m oper k s'"
proof (cases oper)
  case (OpRenew sid p l e now ttl)
  moreover assume "(k, s') \<in> set (sm_sessions (exec_op m oper))"
  ultimately show ?thesis
    by (auto simp: renew_controller_lease_def split: if_splits sum.splits
        intro: from_step_keep from_step_with session_step.renew)
next
  case (OpReserve sid q d input)
  moreover assume "(k, s') \<in> set (sm_sessions (exec_op m oper))"
  ultimately show ?thesis
    by (auto simp: channel_ops split: if_splits
        intro: from_step_keep from_step_with session_step.reserve)
next
  case (OpFinalize sid q input)
  moreover assume "(k, s') \<in> set (sm_sessions (exec_op m oper))"
  ultimately show ?thesis
    by (auto simp: channel_ops split: if_splits intro: from_step_with session_step.finalize)
next
  case (OpPush sid data stream)
  moreover assume "(k, s') \<in> set (sm_sessions (exec_op m oper))"
  ultimately show ?thesis
    by (auto simp: push_output_def not_less split: if_splits
        intro: from_step_keep from_step_with session_step.push)
next
  case (OpViewMode sid p mode now)
  moreover assume "(k, s') \<in> set (sm_sessions (exec_op m oper))"
  ultimately show ?thesis
    by (cases "authorize_controller m sid p now")
      (simp_all add: set_view_mode_def from_step_keep from_step_fields)
qed (simp_all only: exec_op.simps set_host_pid_def set_state_def set_sidecar_host_binding_def
    from_step_fields, auto simp: seat_ops session_resize_def terminate_all_def
    intro!: from_step_detach from_step_advance from_step_terminate from_step_open from_step_all
    intro: from_step_keep from_step_with session_step.intros split: sum.splits)


lemma keys_with_session [simp]: "keys (sm_sessions (snd (with_session m sid f))) = keys (sm_sessions m)"
  by (auto simp: with_session_def update_keys_present split: option.split)

lemma exec_op_distinct:
  assumes "distinct (keys (sm_sessions m))"
  shows "distinct (keys (sm_sessions (exec_op m oper)))"
proof (cases oper)
  case (OpDetach sid p l e now)
  from detach_session [of m sid p l e now] assms OpDetach show ?thesis by auto
next
  case (OpAdvance sid q input)
  define res where
    "res = snd (if input then advance_input_seq m sid q else advance_resize_seq m sid q)"
  from advance_session [OF res_def] assms have "distinct (keys (sm_sessions res))" by auto
  with OpAdvance show ?thesis by (simp add: res_def)
next
  case (OpTerminate sid)
  have "keys (sm_sessions (snd (session_close m sid))) = keys (sm_sessions m)"
    by (simp add: session_close_def)
  with assms OpTerminate show ?thesis
    by (auto simp: terminate_def intro: distinct_delete split: prod.splits sum.splits)
next
  case OpEnforceBudgets
  with assms show ?thesis by (simp add: enforce_loaded_budgets_def Let_def distinct_foldl_delete)
next
  case (OpOpen u l kind title creator now command cwd sz ws)
  with assms show ?thesis by (simp add: open_with_def Let_def distinct_update)
qed (use assms in \<open>simp_all add: seat_ops field_ops channel_ops renew_controller_lease_def
      push_output_def terminate_all_def expire_stale_leases_def
      mark_hosts_detached_after_restart_def for_each_session_def split: sum.splits\<close>)

section \<open>The seat invariant\<close>

text \<open>
  What every session satisfies: nobody observes twice, the controller's lease carries the last
  issued generation, and the controller is not listed as an observer of its own seat.  The
  last clause needs a generation left: a give that fails because the generations are used up
  has already listed the giver.
\<close>

definition seat_ok :: "session \<Rightarrow> bool" where
  "seat_ok s \<longleftrightarrow>
     distinct (si_observers s)
   \<and> pred_option (\<lambda>c. cl_epoch c = si_controller_epoch s
       \<and> (cl_principal_id c \<in> set (si_observers s) \<longrightarrow> si_controller_epoch s = - 1))
       (si_controller s)"

definition manager_ok :: "session_manager \<Rightarrow> bool" where
  "manager_ok m \<longleftrightarrow>
     distinct (keys (sm_sessions m)) \<and> list_all (\<lambda>(k, s). seat_ok s) (sm_sessions m)"

lemma push_observer_simps [simp]:
  "distinct (push_observer p obs) = distinct obs"
  "set (push_observer p obs) = insert p (set obs)"
  by (auto simp: push_observer_def)

lemma trim_ring_info [simp]:
  "si_controller (trim_ring b s) = si_controller s"
  "si_controller_epoch (trim_ring b s) = si_controller_epoch s"
  "si_observers (trim_ring b s) = si_observers s"
  "si_state (trim_ring b s) = si_state s"
  "si_next_seq (trim_ring b s) = si_next_seq s"
  "si_last_input_seq (trim_ring b s) = si_last_input_seq s"
  "si_last_resize_seq (trim_ring b s) = si_last_resize_seq s"
  "s_replay_limit (trim_ring b s) = s_replay_limit s"
  by (simp_all add: trim_ring_def Let_def split: prod.splits)

lemma seat_ok_give: "seat_ok s \<Longrightarrow> seat_ok (snd (s_give u ttl p q now s))"
  by (cases "si_controller s"; cases "checked_add (si_controller_epoch s) 1")
    (auto simp: s_give_def seat_ok_def Let_def checked_add_one_None)

lemma seat_ok_claim: "seat_ok s \<Longrightarrow> seat_ok (snd (s_claim u ttl p now s))"
  by (cases "si_controller s"; cases "checked_add (si_controller_epoch s) 1")
    (auto simp: s_claim_def seat_ok_def Let_def)

lemma seat_ok_release: "seat_ok s \<Longrightarrow> seat_ok (snd (s_release p now s))"
  by (cases "si_controller s") (auto simp: s_release_def seat_ok_def)

lemma seat_ok_attach: "seat_ok s \<Longrightarrow> seat_ok (snd (s_attach_observer p now s))"
proof (cases "si_controller s")
  case None
  moreover assume "seat_ok s"
  ultimately show ?thesis by (simp add: s_attach_observer_def seat_ok_def controller_at_eq)
next
  case (Some c)
  moreover assume "seat_ok s"
  ultimately show ?thesis
    by (cases "is_active c now"; cases "cl_principal_id c = p")
      (simp_all add: s_attach_observer_def seat_ok_def controller_at_eq)
qed

lemma seat_ok_expire: "seat_ok s \<Longrightarrow> seat_ok (snd (s_expire now s))"
  by (cases "si_controller s") (auto simp: s_expire_def seat_ok_def)

lemma seat_ok_reconcile: "seat_ok s \<Longrightarrow> seat_ok (snd (s_reconcile p l e t att s))"
  by (auto simp: s_reconcile_def seat_ok_def)

lemma seat_ok_renew: "seat_ok s \<Longrightarrow> seat_ok (snd (s_renew now ttl s))"
  by (cases "si_controller s"; cases "checked_add_i64 now ttl")
    (auto simp: s_renew_def seat_ok_def Let_def)

lemma seat_ok_set_expires: "seat_ok s \<Longrightarrow> seat_ok (snd (s_set_expires t s))"
  by (cases "si_controller s") (auto simp: s_set_expires_def seat_ok_def)

lemma seat_ok_detach:
  "seat_ok s \<Longrightarrow> si_controller s = Some c \<Longrightarrow> cl_principal_id c = p \<Longrightarrow> is_active c now \<Longrightarrow>
   seat_ok (snd (s_set_epoch n (snd (s_release p now s))))"
  by (simp add: s_release_def s_set_epoch_def seat_ok_def)

text \<open>The bodies that leave the seat alone.\<close>

lemma seat_untouched [simp]:
  "si_controller (snd (s_reserve q d kind input s)) = si_controller s"
  "si_controller_epoch (snd (s_reserve q d kind input s)) = si_controller_epoch s"
  "si_observers (snd (s_reserve q d kind input s)) = si_observers s"
  "si_controller (snd (s_finalize q kind input s)) = si_controller s"
  "si_controller_epoch (snd (s_finalize q kind input s)) = si_controller_epoch s"
  "si_observers (snd (s_finalize q kind input s)) = si_observers s"
  "si_controller (snd (s_push_output mb data stream s)) = si_controller s"
  "si_controller_epoch (snd (s_push_output mb data stream s)) = si_controller_epoch s"
  "si_observers (snd (s_push_output mb data stream s)) = si_observers s"
  "si_controller (snd (s_mark_detached s)) = si_controller s"
  "si_controller_epoch (snd (s_mark_detached s)) = si_controller_epoch s"
  "si_observers (snd (s_mark_detached s)) = si_observers s"
  "si_controller (enforce_session_budget dl mb s) = si_controller s"
  "si_controller_epoch (enforce_session_budget dl mb s) = si_controller_epoch s"
  "si_observers (enforce_session_budget dl mb s) = si_observers s"
  by (simp_all add: s_reserve_def s_finalize_def s_push_output_def s_mark_detached_def
      enforce_session_budget_def Let_def)

lemma seat_ok_untouched:
  "seat_ok (snd (s_reserve q d kind input s)) = seat_ok s"
  "seat_ok (snd (s_finalize q kind input s)) = seat_ok s"
  "seat_ok (snd (s_push_output mb data stream s)) = seat_ok s"
  "seat_ok (snd (s_mark_detached s)) = seat_ok s"
  "seat_ok (enforce_session_budget dl mb s) = seat_ok s"
  "seat_ok (snd (s_resize cols rows s)) = seat_ok s"
  "seat_ok (s\<lparr>si_view_mode := mode\<rparr>) = seat_ok s"
  "seat_ok (s\<lparr>si_host_pid := pid\<rparr>) = seat_ok s"
  "seat_ok (s\<lparr>si_state := st\<rparr>) = seat_ok s"
  "seat_ok (s\<lparr>si_sidecar_host := b\<rparr>) = seat_ok s"
  by (simp_all add: seat_ok_def s_resize_def)

lemma seat_ok_step: "session_step oper k s s' \<Longrightarrow> seat_ok s \<Longrightarrow> seat_ok s'"
proof (induction rule: session_step.induct)
  case (close sid s)
  then show ?case by (simp add: s_close_def seat_ok_def)
qed (simp_all add: seat_ok_give seat_ok_claim seat_ok_release seat_ok_attach seat_ok_expire
    seat_ok_reconcile seat_ok_renew seat_ok_set_expires seat_ok_detach seat_ok_untouched)

end
