(* ===== verification/Session_Seat.thy ===== *)
theory Session_Seat
  imports Session
begin

text \<open>
  The controller seat and the input channels over whole runs of the session manager: the seat
  invariant, fencing of superseded generations, exclusivity of claims and handoffs, who keeps
  read access, and at-most-once delivery of input and resize numbers.
\<close>

lemma manager_ok_exec:
  assumes "manager_ok m"
  shows "manager_ok (exec_op m oper)"
proof -
  have "seat_ok s'" if "(k, s') \<in> set (sm_sessions (exec_op m oper))" for k s'
    using exec_op_session [OF that] assms seat_ok_step
    by (auto simp: from_step_def manager_ok_def list_all_iff fresh_session_def seat_ok_def)
  with assms exec_op_distinct [of m oper] show ?thesis
    by (auto simp: manager_ok_def list_all_iff)
qed

lemma manager_ok_new: "manager_ok session_manager_new"
  by (simp add: manager_ok_def session_manager_new_def)

lemma exec_op_lookup:
  assumes "manager_ok m" and "map_of (sm_sessions (exec_op m oper)) k = Some s'"
    and "opens oper \<noteq> Some k"
  obtains s where "map_of (sm_sessions m) k = Some s" and "s' = s \<or> session_step oper k s s'"
proof -
  have d: "distinct (keys (sm_sessions m))" using assms(1) by (simp add: manager_ok_def)
  have "from_step m oper k s'" using assms(2) by (auto intro: exec_op_session dest: map_of_SomeD)
  with assms(3) obtain s where "(k, s) \<in> set (sm_sessions m)" "s' = s \<or> session_step oper k s s'"
    by (auto simp: from_step_def)
  with d that show ?thesis by simp
qed

section \<open>Fencing of superseded generations\<close>

text \<open>
  Generation \<open>e\<close> of a session is superseded when a later one has been issued, or when the
  session is gone.
\<close>

definition superseded :: "string \<Rightarrow> u64 \<Rightarrow> session_manager \<Rightarrow> bool" where
  "superseded sid e m \<longleftrightarrow>
     pred_option (\<lambda>s. e < si_controller_epoch s) (map_of (sm_sessions m) sid)"

text \<open>
  The two operations that could bring an old generation back: opening a session under an
  identifier that is already in use elsewhere (identifiers are fresh UUIDs), and recovery from
  a journal record of an older generation.
\<close>

fun respects_fence :: "string \<Rightarrow> u64 \<Rightarrow> session_op \<Rightarrow> bool" where
  "respects_fence sid e (OpOpen u l kind title creator now command cwd sz ws) = (''ses_'' @ u \<noteq> sid)"
| "respects_fence sid e (OpReconcile sid' p l e' t att) = (sid' = sid \<longrightarrow> e < e')"
| "respects_fence sid e _ = True"

lemma epoch_untouched [simp]:
  "si_controller_epoch (snd (s_renew now ttl s)) = si_controller_epoch s"
  "si_controller_epoch (snd (s_release p now s)) = si_controller_epoch s"
  "si_controller_epoch (snd (s_attach_observer p now s)) = si_controller_epoch s"
  "si_controller_epoch (snd (s_set_expires t s)) = si_controller_epoch s"
  "si_controller_epoch (snd (s_expire now s)) = si_controller_epoch s"
  "si_controller_epoch (snd (s_close s)) = si_controller_epoch s"
  "si_controller_epoch (snd (s_resize cols rows s)) = si_controller_epoch s"
  by (simp_all add: s_renew_def s_release_def s_attach_observer_def s_set_expires_def s_expire_def
      s_close_def s_resize_def Let_def split: option.splits)

lemma epoch_claim_le: "si_controller_epoch s \<le> si_controller_epoch (snd (s_claim u ttl p now s))"
  by (auto simp: s_claim_def Let_def dest!: checked_add_less split: option.splits)

lemma epoch_give_le: "si_controller_epoch s \<le> si_controller_epoch (snd (s_give u ttl p q now s))"
  by (auto simp: s_give_def Let_def dest!: checked_add_less split: option.splits)

lemma epoch_step:
  "session_step oper k s s' \<Longrightarrow> respects_fence k e oper \<Longrightarrow> e < si_controller_epoch s \<Longrightarrow>
   e < si_controller_epoch s'"
proof (induction rule: session_step.induct)
  case (detach s c p now next_epoch sid l e')
  then have "si_controller_epoch s < next_epoch" by (auto dest!: checked_add_less)
  with detach.prems show ?case by (simp add: s_set_epoch_def)
next
  case (claim u sid p now s ttl)
  with epoch_claim_le [of s u ttl p now] show ?case by auto
next
  case (give u sid p q now s ttl)
  with epoch_give_le [of s u ttl p q now] show ?case by auto
next
  case (reconcile sid p l e' t att s)
  then show ?case by (simp add: s_reconcile_def)
qed simp_all

interpretation seat: generation_fence exec_op manager_ok "superseded sid" "respects_fence sid"
  "\<lambda>m e. \<exists>p l now. authorize_controller_lease m sid p l e now = Inr ()" for sid
proof
  fix m oper
  assume "manager_ok m"
  then show "manager_ok (exec_op m oper)" by (rule manager_ok_exec)
next
  fix m e oper
  assume m: "manager_ok m" and sup: "superseded sid e m" and ok: "respects_fence sid e oper"
  have op: "opens oper \<noteq> Some sid" using ok by (cases oper) auto
  show "superseded sid e (exec_op m oper)"
  proof (cases "map_of (sm_sessions (exec_op m oper)) sid")
    case None
    then show ?thesis by (simp add: superseded_def)
  next
    case (Some s')
    obtain s where "map_of (sm_sessions m) sid = Some s" "s' = s \<or> session_step oper sid s s'"
      using exec_op_lookup [OF m Some op] by blast
    with sup ok Some show ?thesis by (auto simp: superseded_def intro: epoch_step)
  qed
next
  fix m e
  assume "manager_ok m" and "superseded sid e m"
  then show "\<not> (\<exists>p l now. authorize_controller_lease m sid p l e now = Inr ())"
    by (auto simp: authorize_controller_lease_Inr superseded_def manager_ok_def list_all_iff
        seat_ok_def dest!: map_of_SomeD)
qed


text \<open>
  A manager that the witnesses below share: one session, opened by alice at time 1000, and the
  same after a handover to bob.
\<close>

definition session1 :: session where
  "session1 =
     \<lparr>si_id = ''ses_a'', si_kind = Pty, si_state = Running, si_title = ''shell'',
      si_controller = Some \<lparr>cl_principal_id = ''alice'', cl_lease_id = ''lease_l1'', cl_epoch = 1,
                            cl_expires_unix = 4600\<rparr>,
      si_controller_epoch = 1, si_observers = [], si_cols = 80, si_rows = 24, si_next_seq = 1,
      si_view_mode = Raw, si_host_pid = None, si_sidecar_host = None, si_command = None,
      si_cwd = None, si_workspace_id = None, si_last_input_seq = 0, si_last_input_digest = None,
      si_last_input_state = NoReceipt, si_last_resize_seq = 0, si_last_resize_digest = None,
      si_last_resize_state = NoReceipt, s_replay = [], s_replay_limit = 256, s_replay_bytes = 0\<rparr>"

definition mgr1 :: session_manager where
  "mgr1 = session_manager_new\<lparr>sm_sessions := [(''ses_a'', session1)]\<rparr>"

lemma mgr1_opened:
  "snd (open_session ''a'' ''l1'' session_manager_new Pty ''shell'' ''alice'' 1000) = mgr1"
  by (simp add: open_session_def open_with_def session_manager_new_def mgr1_def session1_def Let_def
      MAX_SESSIONS_def DEFAULT_REPLAY_CHUNK_LIMIT_def wrap_i64_def pty_size_default_def)

definition session2 :: session where
  "session2 = session1
     \<lparr>si_controller := Some \<lparr>cl_principal_id = ''bob'', cl_lease_id = ''lease_l2'', cl_epoch = 2,
                              cl_expires_unix = 4601\<rparr>,
      si_controller_epoch := 2, si_observers := [''alice'']\<rparr>"

lemma mgr1_given:
  "give_controller ''l2'' mgr1 ''ses_a'' ''alice'' ''bob'' 1001 =
     (Inr (the (si_controller session2)), mgr1\<lparr>sm_sessions := [(''ses_a'', session2)]\<rparr>)"
  by (simp add: give_controller_def with_session_def s_give_def mgr1_def session1_def session2_def
      session_manager_new_def is_active_def Let_def push_observer_def checked_add_def wrap_i64_def)

lemma mgr1_ok: "manager_ok mgr1"
  and mgr2_ok: "manager_ok (mgr1\<lparr>sm_sessions := [(''ses_a'', session2)]\<rparr>)"
  by (simp_all add: manager_ok_def seat_ok_def mgr1_def session1_def session2_def)

text \<open>
  C4: Whatever operations a manager goes through from its creation, every session keeps a sound
  controller seat: nobody observes twice, the controller's lease carries the last generation
  issued for the session, and the controller is not listed as an observer of its own seat
  unless the generations are used up.
\<close>

theorem seat_invariant_always: "manager_ok (foldl exec_op session_manager_new ops)"
  using manager_ok_new by (rule seat.inv_run)

text \<open>The operations outside \<open>respects_fence\<close>, spelled out.\<close>

definition recovers_to :: "string \<Rightarrow> u64 \<Rightarrow> session_op \<Rightarrow> bool" where
  "recovers_to sid e oper \<longleftrightarrow> (\<exists>p l t att. oper = OpReconcile sid p l e t att)"

lemma outside_fence:
  "\<not> respects_fence sid e oper \<longleftrightarrow> opens oper = Some sid \<or> (\<exists>e' \<le> e. recovers_to sid e' oper)"
  by (cases oper) (auto simp: recovers_to_def not_less)

text \<open>
  C5: A superseded controller generation does not come back by itself.  Once a later generation has
  been issued for a session, a request that echoes the old one is authorised again, after any
  sequence of operations, only if one of them opened a session under the same identifier or was a
  recovery (\<open>reconcile_controller_from_transition\<close>) to a generation not above the old one, which the
  manager accepts unchecked.
\<close>

theorem stale_lease_returns_only_by_recovery:
  assumes "manager_ok m" and "map_of (sm_sessions m) sid = Some s" and "e < si_controller_epoch s"
    and "authorize_controller_lease (foldl exec_op m ops) sid p l e now = Inr ()"
  shows "\<exists>oper \<in> set ops. opens oper = Some sid \<or> (\<exists>e' \<le> e. recovers_to sid e' oper)"
proof (rule ccontr)
  assume "\<not> ?thesis"
  then have "list_all (respects_fence sid e) ops" unfolding list_all_iff using outside_fence by blast
  moreover have "superseded sid e m" using assms(2,3) by (simp add: superseded_def)
  ultimately show False using seat.fenced_forever [OF assms(1)] assms(4) by blast
qed

theorem stale_lease_returns_only_by_recovery_witness:
  "authorize_controller_lease mgr1 ''ses_a'' ''alice'' ''lease_l1'' 1 1001 = Inr ()
   \<and> authorize_controller_lease
        (foldl exec_op (snd (give_controller ''l2'' mgr1 ''ses_a'' ''alice'' ''bob'' 1001))
           [OpGive ''l3'' ''ses_a'' ''bob'' ''alice'' 1002, OpExpire 9000,
            OpReconcile ''ses_a'' ''alice'' ''lease_l1'' 7 9999 True])
        ''ses_a'' ''alice'' ''lease_l1'' 1 1003 \<noteq> Inr ()
   \<and> authorize_controller_lease
        (foldl exec_op (snd (give_controller ''l2'' mgr1 ''ses_a'' ''alice'' ''bob'' 1001))
           [OpReconcile ''ses_a'' ''alice'' ''lease_l1'' 1 9999 True])
        ''ses_a'' ''alice'' ''lease_l1'' 1 1003 = Inr ()
   \<and> (\<exists>e' \<le> 1. recovers_to ''ses_a'' e' (OpReconcile ''ses_a'' ''alice'' ''lease_l1'' 1 9999 True))"
proof -
  let ?m = "mgr1\<lparr>sm_sessions := [(''ses_a'', session2)]\<rparr>"
  have h: "map_of (sm_sessions ?m) ''ses_a'' = Some session2" "1 < si_controller_epoch session2"
    by (simp_all add: session2_def)
  have a: "authorize_controller_lease mgr1 ''ses_a'' ''alice'' ''lease_l1'' 1 1001 = Inr ()"
    by (simp add: authorize_controller_lease_Inr mgr1_def session1_def is_active_def)
  have b: "authorize_controller_lease (foldl exec_op ?m [OpReconcile ''ses_a'' ''alice'' ''lease_l1'' 1 9999 True])
      ''ses_a'' ''alice'' ''lease_l1'' 1 1003 = Inr ()"
    by (simp add: authorize_controller_lease_Inr reconcile_controller_from_transition_def with_session_def s_reconcile_def
        session2_def session1_def is_active_def)
  have c: "authorize_controller_lease (foldl exec_op ?m
           [OpGive ''l3'' ''ses_a'' ''bob'' ''alice'' 1002, OpExpire 9000,
            OpReconcile ''ses_a'' ''alice'' ''lease_l1'' 7 9999 True])
        ''ses_a'' ''alice'' ''lease_l1'' 1 1003 \<noteq> Inr ()"
    using stale_lease_returns_only_by_recovery [OF mgr2_ok h, of "[OpGive ''l3'' ''ses_a'' ''bob'' ''alice'' 1002, OpExpire 9000,
      OpReconcile ''ses_a'' ''alice'' ''lease_l1'' 7 9999 True]"] by (auto simp: recovers_to_def simp flip: not_less)
  from stale_lease_returns_only_by_recovery [OF mgr2_ok h b] a b c show ?thesis
    unfolding mgr1_given snd_conv by simp
qed


section \<open>Claims and handovers\<close>

lemma authorize_controller_Inr:
  "authorize_controller m sid p now = Inr u \<longleftrightarrow>
   (\<exists>s c. map_of (sm_sessions m) sid = Some s \<and> si_controller s = Some c \<and> is_active c now
      \<and> cl_principal_id c = p)"
proof (cases "map_of (sm_sessions m) sid")
  case None
  then show ?thesis by (simp add: authorize_controller_def is_controller_def session_get_def)
next
  case (Some s)
  then show ?thesis
    by (cases "si_controller s")
      (simp_all add: authorize_controller_def is_controller_def session_get_def controller_at_eq)
qed

lemma with_session_Inr:
  assumes "with_session m sid f = (Inr r, m')"
  obtains s where "map_of (sm_sessions m) sid = Some s" and "fst (f s) = Inr r"
    and "map_of (sm_sessions m') sid = Some (snd (f s))"
    and "\<And>k. k \<noteq> sid \<Longrightarrow> map_of (sm_sessions m') k = map_of (sm_sessions m) k"
  using assms by (auto simp: with_session_def update_conv' split: option.splits)

lemma with_session_Some:
  "map_of (sm_sessions m) sid = Some s \<Longrightarrow> fst (with_session m sid f) = fst (f s)"
  by (simp add: with_session_def)

lemma s_claim_Inr:
  assumes "fst (s_claim u ttl p now s) = Inr lease"
  shows "controller_at s now = None" and "si_state s \<noteq> Closed"
    and "checked_add (si_controller_epoch s) 1 = Some (cl_epoch lease)"
    and "cl_principal_id lease = p" and "cl_lease_id lease = ''lease_'' @ u"
    and "si_controller (snd (s_claim u ttl p now s)) = Some lease"
    and "si_state (snd (s_claim u ttl p now s)) = Running"
    and "si_observers (snd (s_claim u ttl p now s)) = filter (\<lambda>obs. obs \<noteq> p) (si_observers s)"
  using assms by (auto simp: s_claim_def Let_def controller_at_eq split: if_splits option.splits)

lemma s_give_Inr:
  assumes "fst (s_give u ttl p q now s) = Inr lease"
  shows "\<exists>c. si_controller s = Some c \<and> cl_principal_id c = p \<and> is_active c now"
    and "checked_add (si_controller_epoch s) 1 = Some (cl_epoch lease)"
    and "cl_principal_id lease = q" and "cl_lease_id lease = ''lease_'' @ u"
    and "si_controller (snd (s_give u ttl p q now s)) = Some lease"
    and "si_observers (snd (s_give u ttl p q now s)) =
      filter (\<lambda>obs. obs \<noteq> q) (push_observer p (si_observers s))"
  using assms by (auto simp: s_give_def Let_def split: if_splits option.splits)

text \<open>
  C6: A claim is exclusive.  When it succeeds nobody held the seat; until the new lease
  expires exactly the request that echoes its principal, token and generation is authorised,
  every further claim, by anyone, is refused with the holder's name, and no other session has
  changed.
\<close>

theorem claim_is_exclusive:
  assumes "claim_controller u m sid p now = (Inr lease, m')" and "now' < cl_expires_unix lease"
  shows "authorize_controller m sid q now \<noteq> Inr ()
    \<and> (authorize_controller_lease m' sid q l e now' = Inr () \<longleftrightarrow>
        q = p \<and> l = cl_lease_id lease \<and> e = cl_epoch lease)
    \<and> fst (claim_controller u' m' sid q now') = Inl (LeaseHeld p)
    \<and> (k \<noteq> sid \<longrightarrow> map_of (sm_sessions m') k = map_of (sm_sessions m) k)"
proof -
  let ?f = "s_claim u (sm_default_lease_ttl_secs m) p now"
  from assms(1) have "with_session m sid ?f = (Inr lease, m')" by (simp add: claim_controller_def)
  then obtain s where s: "map_of (sm_sessions m) sid = Some s" "fst (?f s) = Inr lease"
      "map_of (sm_sessions m') sid = Some (snd (?f s))"
      "\<And>k. k \<noteq> sid \<Longrightarrow> map_of (sm_sessions m') k = map_of (sm_sessions m) k"
    by (rule with_session_Inr) blast
  note c = s_claim_Inr [OF s(2)]
  have "authorize_controller m sid q now \<noteq> Inr ()"
    using s(1) c(1) by (auto simp: authorize_controller_Inr controller_at_eq split: option.splits if_splits)
  moreover have "authorize_controller_lease m' sid q l e now' = Inr () \<longleftrightarrow>
      q = p \<and> l = cl_lease_id lease \<and> e = cl_epoch lease"
    using s(3) c(4,6) assms(2) by (auto simp: authorize_controller_lease_Inr is_active_def)
  moreover have "fst (claim_controller u' m' sid q now') = Inl (LeaseHeld p)"
    using c(4,6,7) assms(2)
    by (simp add: claim_controller_def with_session_Some [OF s(3)] s_claim_def is_active_def)
  ultimately show ?thesis using s(4) by blast
qed

theorem claim_is_exclusive_witness:
  "fst (claim_controller ''l2'' mgr1 ''ses_a'' ''bob'' 4600) =
     Inr \<lparr>cl_principal_id = ''bob'', cl_lease_id = ''lease_l2'', cl_epoch = 2, cl_expires_unix = 8200\<rparr>
   \<and> fst (claim_controller ''l3'' (snd (claim_controller ''l2'' mgr1 ''ses_a'' ''bob'' 4600))
       ''ses_a'' ''alice'' 8199) = Inl (LeaseHeld ''bob'')"
proof -
  let ?lease = "\<lparr>cl_principal_id = ''bob'', cl_lease_id = ''lease_l2'', cl_epoch = 2,
                 cl_expires_unix = 8200\<rparr>"
  have h: "claim_controller ''l2'' mgr1 ''ses_a'' ''bob'' 4600 =
      (Inr ?lease, snd (claim_controller ''l2'' mgr1 ''ses_a'' ''bob'' 4600))"
    by (simp add: claim_controller_def with_session_def s_claim_def mgr1_def session1_def
        session_manager_new_def is_active_def Let_def checked_add_def wrap_i64_def)
  have "(8199 :: i64) < cl_expires_unix ?lease" by simp
  from claim_is_exclusive [OF h this, of "''alice''" "''l''" 0 "''l3''" "''ses_b''"]
    arg_cong [OF h, of fst, unfolded fst_conv]
  show ?thesis by blast
qed

text \<open>
  A handover moves the seat and loses no reader.  When a give succeeds the giver held an
  active lease; afterwards only the returned lease is authorised, it belongs to the receiver and
  carries a generation above the giver's, and the readers are those from before together with
  the receiver.
\<close>

theorem give_moves_the_seat:
  assumes "give_controller u m sid p q now = (Inr lease, m')" and "now' < cl_expires_unix lease"
  shows "authorize_controller m sid p now = Inr ()
    \<and> (authorize_controller_lease m' sid r l e now' = Inr () \<longleftrightarrow>
        r = q \<and> l = cl_lease_id lease \<and> e = cl_epoch lease)
    \<and> map_option si_controller_epoch (map_of (sm_sessions m) sid) = Some (cl_epoch lease - 1)
    \<and> cl_epoch lease - 1 < cl_epoch lease
    \<and> readers m' sid t = map_sum id (insert q) (readers m sid t)"
proof -
  let ?f = "s_give u (sm_default_lease_ttl_secs m) p q now"
  from assms(1) have "with_session m sid ?f = (Inr lease, m')" by (simp add: give_controller_def)
  then obtain s where s: "map_of (sm_sessions m) sid = Some s" "fst (?f s) = Inr lease"
      "map_of (sm_sessions m') sid = Some (snd (?f s))"
    by (rule with_session_Inr) blast
  note g = s_give_Inr [OF s(2)]
  obtain c where c: "si_controller s = Some c" "cl_principal_id c = p" "is_active c now"
    using g(1) by blast
  have "s_readers (snd (?f s)) = insert q (s_readers s)"
    using g(3,5,6) c(1,2) by (auto simp: s_readers_def)
  then have "readers m' sid t = map_sum id (insert q) (readers m sid t)"
    using s by (simp add: readers_def session_get_def)
  moreover have "cl_epoch lease - 1 = si_controller_epoch s" "cl_epoch lease - 1 < cl_epoch lease"
    using checked_add_Some [OF g(2)] checked_add_less [OF g(2)] by simp_all
  ultimately show ?thesis
    using s c g(3,5) assms(2)
    by (auto simp: authorize_controller_Inr authorize_controller_lease_Inr is_active_def)
qed

theorem give_moves_the_seat_witness:
  "fst (give_controller ''l2'' mgr1 ''ses_a'' ''alice'' ''bob'' 1001) = Inr (the (si_controller session2))
   \<and> readers (snd (give_controller ''l2'' mgr1 ''ses_a'' ''alice'' ''bob'' 1001)) ''ses_a'' 1002 =
       Inr {''alice'', ''bob''}"
proof -
  have h: "(1002 :: i64) < cl_expires_unix (the (si_controller session2))"
    by (simp add: session2_def)
  have r: "readers mgr1 ''ses_a'' 1002 = Inr {''alice''}"
    by (simp add: readers_def session_get_def mgr1_def session1_def s_readers_def)
  from give_moves_the_seat [OF mgr1_given h, of "''alice''" "''lease_l1''" 1 1002] r
  show ?thesis by (simp add: mgr1_given insert_commute)
qed

section \<open>Read access\<close>

text \<open>
  The operations under which a session stays in the map and reader \<open>r\<close> stays a reader.  The
  receiver of a handover is a case of its own: a give that fails because the generations are
  used up has already removed the receiver from the observers.
\<close>

fun keeps_reader :: "string \<Rightarrow> session_op \<Rightarrow> bool" where
  "keeps_reader r (OpOpen u l kind title creator now command cwd sz ws) = False"
| "keeps_reader r (OpClaim u sid p now) = False"
| "keeps_reader r (OpGive u sid p q now) = (q \<noteq> r)"
| "keeps_reader r (OpReconcile sid p l e t att) = False"
| "keeps_reader r (OpClose sid) = False"
| "keeps_reader r (OpTerminate sid) = False"
| "keeps_reader r OpTerminateAll = False"
| "keeps_reader r OpEnforceBudgets = False"
| "keeps_reader r _ = True"

lemma keys_exec_op:
  assumes "keeps_reader r oper"
  shows "keys (sm_sessions (exec_op m oper)) = keys (sm_sessions m)"
proof (cases oper)
  case (OpDetach sid p l e now)
  from detach_session [of m sid p l e now] OpDetach show ?thesis by auto
next
  case (OpAdvance sid q input)
  define res where
    "res = snd (if input then advance_input_seq m sid q else advance_resize_seq m sid q)"
  from advance_session [OF res_def] have "keys (sm_sessions res) = keys (sm_sessions m)" by auto
  with OpAdvance show ?thesis by (simp add: res_def)
qed (use assms in \<open>simp_all add: seat_ops field_ops channel_ops renew_controller_lease_def
      push_output_def expire_stale_leases_def mark_hosts_detached_after_restart_def
      for_each_session_def split: sum.splits\<close>)

lemma s_readers_untouched:
  "s_readers (snd (s_reserve q d kind input s)) = s_readers s"
  "s_readers (snd (s_finalize q kind input s)) = s_readers s"
  "s_readers (snd (s_push_output mb data stream s)) = s_readers s"
  "s_readers (snd (s_mark_detached s)) = s_readers s"
  "s_readers (snd (s_resize cols rows s)) = s_readers s"
  "s_readers (s\<lparr>si_view_mode := mode\<rparr>) = s_readers s"
  "s_readers (s\<lparr>si_host_pid := pid\<rparr>) = s_readers s"
  "s_readers (s\<lparr>si_state := st\<rparr>) = s_readers s"
  "s_readers (s\<lparr>si_sidecar_host := b\<rparr>) = s_readers s"
  by (simp_all add: s_readers_def s_resize_def)

lemma s_readers_release: "s_readers s \<subseteq> s_readers (snd (s_release p now s))"
  by (auto simp: s_release_def s_readers_def split: option.splits)

lemma s_readers_step:
  "session_step oper k s s' \<Longrightarrow> keeps_reader r oper \<Longrightarrow> r \<in> s_readers s \<Longrightarrow> r \<in> s_readers s'"
proof (induction rule: session_step.induct)
  case (renew sid p l e now ttl s)
  then show ?case by (auto simp: s_renew_def s_readers_def Let_def split: option.splits)
next
  case (detach s c p now n sid l e)
  have "s_readers (snd (s_set_epoch n r)) = s_readers r" for r
    by (simp add: s_set_epoch_def s_readers_def)
  with detach s_readers_release show ?case by auto
next
  case (attach sid p now s)
  then show ?case by (auto simp: s_attach_observer_def s_readers_def Let_def split: if_splits)
next
  case (give u sid p q now s ttl)
  then show ?case
    by (auto simp: s_give_def s_readers_def Let_def split: option.splits if_splits)
next
  case (release sid p now s)
  with s_readers_release show ?case by auto
next
  case (set_expires sid t s)
  then show ?case by (auto simp: s_set_expires_def s_readers_def split: option.splits)
next
  case (expire now sid s)
  then show ?case by (auto simp: s_expire_def s_readers_def split: option.splits)
qed (simp_all add: s_readers_untouched)

lemma authorize_reader_Inr:
  "authorize_reader m sid p now = Inr u \<longleftrightarrow>
   (\<exists>s. map_of (sm_sessions m) sid = Some s \<and> p \<in> s_readers s)"
  by (cases "map_of (sm_sessions m) sid")
    (simp_all add: authorize_reader_def readers_def session_get_def)

text \<open>
  Read access survives the ordinary life of a session.  A principal that may read keeps
  reading through renewals, releases, detaches, handovers to others, output, resizes, lease
  expiry and a daemon restart, in any order.
\<close>

theorem readers_survive:
  assumes "manager_ok m" and "list_all (keeps_reader p) ops" and "authorize_reader m sid p now = Inr ()"
  shows "authorize_reader (foldl exec_op m ops) sid p now' = Inr ()"
  using assms
proof (induction ops arbitrary: m)
  case Nil
  then show ?case by (simp add: authorize_reader_Inr)
next
  case (Cons oper ops)
  then obtain s where s: "map_of (sm_sessions m) sid = Some s" "p \<in> s_readers s"
    by (auto simp: authorize_reader_Inr)
  have keep: "keeps_reader p oper" using Cons.prems(2) by simp
  then have op: "opens oper \<noteq> Some sid" by (cases oper) auto
  have "sid \<in> set (keys (sm_sessions (exec_op m oper)))"
    unfolding keys_exec_op [OF keep] using s(1) by (metis map_of_eq_None_iff option.distinct(1) set_map)
  then obtain s' where s': "map_of (sm_sessions (exec_op m oper)) sid = Some s'"
    by (metis map_of_eq_None_iff not_Some_eq set_map)
  obtain s0 where "map_of (sm_sessions m) sid = Some s0" "s' = s0 \<or> session_step oper sid s0 s'"
    using exec_op_lookup [OF Cons.prems(1) s' op] by blast
  with s s' keep have "authorize_reader (exec_op m oper) sid p now = Inr ()"
    by (auto simp: authorize_reader_Inr dest: s_readers_step)
  with Cons show ?case by (simp add: manager_ok_exec)
qed

theorem readers_survive_witness:
  "authorize_reader (foldl exec_op mgr1 [OpGive ''l2'' ''ses_a'' ''alice'' ''bob'' 1001,
      OpExpire 9000, OpRestart]) ''ses_a'' ''alice'' 9001 = Inr ()"
proof -
  have "authorize_reader mgr1 ''ses_a'' ''alice'' 1000 = Inr ()"
    by (simp add: authorize_reader_Inr mgr1_def session1_def s_readers_def)
  then show ?thesis by (intro readers_survive [OF mgr1_ok]) simp_all
qed

text \<open>
  C7: A claim takes read access away from the controller whose lease ran out.  The former
  holder of an expired lease that is not also listed as an observer, and did not claim, can no
  longer read after the claim, although it could until then.
\<close>

theorem claim_evicts_expired_holder:
  assumes "map_of (sm_sessions m) sid = Some s" and "si_controller s = Some c"
    and "cl_principal_id c \<notin> set (si_observers s)" and "cl_principal_id c \<noteq> p"
    and "fst (claim_controller u m sid p now) = Inr lease"
  shows "authorize_reader m sid (cl_principal_id c) now = Inr ()
    \<and> authorize_reader (snd (claim_controller u m sid p now)) sid (cl_principal_id c) now =
        Inl NotReader"
proof -
  have "fst (s_claim u (sm_default_lease_ttl_secs m) p now s) = Inr lease"
    using assms(1,5) by (simp add: claim_controller_def with_session_def)
  note cl = s_claim_Inr [OF this]
  have "authorize_reader m sid (cl_principal_id c) now = Inr ()"
    using assms(1,2) by (simp add: authorize_reader_Inr s_readers_def)
  moreover have "map_of (sm_sessions (snd (claim_controller u m sid p now))) sid =
      Some (snd (s_claim u (sm_default_lease_ttl_secs m) p now s))"
    using assms(1) by (simp add: claim_controller_def)
  ultimately show ?thesis
    using assms(3,4) cl(4,6,8)
    by (simp add: authorize_reader_def readers_def session_get_def s_readers_def)
qed

theorem claim_evicts_expired_holder_witness:
  "authorize_reader mgr1 ''ses_a'' ''alice'' 4600 = Inr ()
   \<and> authorize_reader (snd (claim_controller ''l2'' mgr1 ''ses_a'' ''bob'' 4600)) ''ses_a'' ''alice'' 4600
       = Inl NotReader"
proof -
  have h: "map_of (sm_sessions mgr1) ''ses_a'' = Some session1"
    "si_controller session1 = Some (the (si_controller session1))"
    "cl_principal_id (the (si_controller session1)) \<notin> set (si_observers session1)"
    "cl_principal_id (the (si_controller session1)) \<noteq> ''bob''"
    "fst (claim_controller ''l2'' mgr1 ''ses_a'' ''bob'' 4600) =
       Inr \<lparr>cl_principal_id = ''bob'', cl_lease_id = ''lease_l2'', cl_epoch = 2, cl_expires_unix = 8200\<rparr>"
    by (simp_all add: claim_controller_def with_session_def s_claim_def mgr1_def session1_def
        session_manager_new_def is_active_def Let_def checked_add_def wrap_i64_def)
  have "cl_principal_id (the (si_controller session1)) = ''alice''" by (simp add: session1_def)
  with claim_evicts_expired_holder [OF h] show ?thesis by simp
qed

section \<open>Input and resize numbers\<close>

definition last_seq :: "bool \<Rightarrow> session \<Rightarrow> u64" where
  "last_seq input s = (if input then si_last_input_seq s else si_last_resize_seq s)"

definition last_digest :: "bool \<Rightarrow> session \<Rightarrow> string option" where
  "last_digest input s = (if input then si_last_input_digest s else si_last_resize_digest s)"

definition last_state :: "bool \<Rightarrow> session \<Rightarrow> seq_receipt_state" where
  "last_state input s = (if input then si_last_input_state s else si_last_resize_state s)"

lemma s_reserve_outcome:
  "fst (s_reserve q d kind input s) = Inr (Deliver q') \<longleftrightarrow>
     q' = q \<and> si_state s \<noteq> Closed \<and> checked_add (last_seq input s) 1 = Some q"
proof -
  have sat: "saturating_add (last_seq input s) 1 = - 1 \<and> last_seq input s = - 1"
    if "checked_add (last_seq input s) 1 = None"
    using that checked_add_one_None [of "last_seq input s"]
    by (simp add: saturating_add_def checked_add_def split: if_splits)
  have add: "saturating_add (last_seq input s) 1 = e \<and> last_seq input s < e"
    if "checked_add (last_seq input s) 1 = Some e" for e
    using that checked_add_less [OF that]
    by (auto simp: saturating_add_def checked_add_def split: if_splits)
  have pos: "(0 :: u64) < - 1"
    by (simp add: word_less_nat_alt unsigned_minus_1_eq_mask mask_eq_exp_minus_1)
  show ?thesis
    using sat add pos
    by (cases "checked_add (last_seq input s) 1")
      (auto simp: s_reserve_def Let_def last_seq_def split: if_splits)
qed

lemma s_reserve_deliver:
  assumes "fst (s_reserve q d kind input s) = Inr (Deliver q')"
  shows "snd (s_reserve q d kind input s) =
    (if input
     then s\<lparr>si_last_input_seq := q, si_last_input_digest := Some d, si_last_input_state := Pending\<rparr>
     else s\<lparr>si_last_resize_seq := q, si_last_resize_digest := Some d,
            si_last_resize_state := Pending\<rparr>)"
proof -
  have ne: "si_state s \<noteq> Closed" and add: "checked_add (last_seq input s) 1 = Some q"
    using assms by (simp_all add: s_reserve_outcome)
  have "last_seq input s \<noteq> q" using checked_add_less [OF add] by auto
  moreover have "saturating_add (last_seq input s) 1 = q"
    using add by (simp add: saturating_add_def checked_add_def split: if_splits)
  ultimately show ?thesis
    using ne by (cases input) (simp_all add: s_reserve_def Let_def last_seq_def)
qed

lemma s_reserve_state:
  assumes "fst (s_reserve q d kind input s) = Inr (Deliver q')"
  shows "last_seq input (snd (s_reserve q d kind input s)) = q"
    and "last_digest input (snd (s_reserve q d kind input s)) = Some d"
    and "last_state input (snd (s_reserve q d kind input s)) = Pending"
    and "si_state (snd (s_reserve q d kind input s)) = si_state s"
    and "last_seq (\<not> input) (snd (s_reserve q d kind input s)) = last_seq (\<not> input) s"
  unfolding s_reserve_deliver [OF assms]
  by (simp_all add: last_seq_def last_digest_def last_state_def)

lemma s_reserve_other:
  "(\<exists>q'. fst (s_reserve q d kind input s) = Inr (Deliver q')) \<or> snd (s_reserve q d kind input s) = s"
  by (simp add: s_reserve_def Let_def)

lemma last_seq_reserve: "last_seq i s \<le> last_seq i (snd (s_reserve q d kind input s))"
proof (cases "\<exists>q'. fst (s_reserve q d kind input s) = Inr (Deliver q')")
  case True
  then obtain q' where r: "fst (s_reserve q d kind input s) = Inr (Deliver q')" ..
  then have "checked_add (last_seq input s) 1 = Some q" by (simp add: s_reserve_outcome)
  then have "last_seq input s < q" by (auto dest: checked_add_less)
  with s_reserve_state [OF r] show ?thesis by (cases "i = input") (auto simp: less_imp_le)
next
  case False
  with s_reserve_other [of q d kind input s] show ?thesis by simp
qed

lemma last_seq_untouched [simp]:
  "last_seq i (snd (s_finalize q kind input s)) = last_seq i s"
  "last_seq i (snd (s_push_output mb data stream s)) = last_seq i s"
  "last_seq i (snd (s_mark_detached s)) = last_seq i s"
  "last_seq i (snd (s_resize cols rows s)) = last_seq i s"
  "last_seq i (enforce_session_budget dl mb s) = last_seq i s"
  "last_seq i (snd (s_close s)) = last_seq i s"
  "last_seq i (snd (s_set_epoch e s)) = last_seq i s"
  "last_seq i (snd (s_reconcile p l e t att s)) = last_seq i s"
  "last_seq i (s\<lparr>si_view_mode := mode\<rparr>) = last_seq i s"
  "last_seq i (s\<lparr>si_host_pid := pid\<rparr>) = last_seq i s"
  "last_seq i (s\<lparr>si_state := st\<rparr>) = last_seq i s"
  "last_seq i (s\<lparr>si_sidecar_host := b\<rparr>) = last_seq i s"
  by (simp_all add: last_seq_def s_finalize_def s_push_output_def s_mark_detached_def s_resize_def
      enforce_session_budget_def s_close_def s_set_epoch_def s_reconcile_def Let_def)

lemma last_seq_seat [simp]:
  "last_seq i (snd (s_renew now ttl s)) = last_seq i s"
  "last_seq i (snd (s_release p now s)) = last_seq i s"
  "last_seq i (snd (s_attach_observer p now s)) = last_seq i s"
  "last_seq i (snd (s_set_expires t s)) = last_seq i s"
  "last_seq i (snd (s_expire now s)) = last_seq i s"
  "last_seq i (snd (s_claim u ttl p now s)) = last_seq i s"
  "last_seq i (snd (s_give u ttl p q now s)) = last_seq i s"
  by (simp_all add: last_seq_def s_renew_def s_release_def s_attach_observer_def s_set_expires_def
      s_expire_def s_claim_def s_give_def Let_def split: option.splits)

lemma last_seq_step: "session_step oper k s s' \<Longrightarrow> last_seq i s \<le> last_seq i s'"
  by (induction rule: session_step.induct) (simp_all add: last_seq_reserve)

text \<open>The number that an operation hands to the PTY on a channel of a session, if any.\<close>

fun delivery :: "string \<Rightarrow> bool \<Rightarrow> session_manager \<Rightarrow> session_op \<Rightarrow> nat option" where
  "delivery sid input m (OpReserve sid' q d i) =
     (if sid' = sid \<and> i = input then
        case fst (if i then reserve_input_seq m sid' q d else reserve_resize_seq m sid' q d) of
          Inr (Deliver q') \<Rightarrow> Some (unat q') | _ \<Rightarrow> None
      else None)"
| "delivery sid input m _ = None"

text \<open>The channel's cursor; a session that is gone delivers nothing more.\<close>

definition channel_cursor :: "string \<Rightarrow> bool \<Rightarrow> session_manager \<Rightarrow> nat" where
  "channel_cursor sid input m =
     (case map_of (sm_sessions m) sid of None \<Rightarrow> 2 ^ 64 | Some s \<Rightarrow> unat (last_seq input s))"

lemma delivery_Some:
  assumes "delivery sid input m oper = Some n"
  obtains q d s kind where "oper = OpReserve sid q d input" and "n = unat q" and "q \<noteq> 0"
    and "map_of (sm_sessions m) sid = Some s"
    and "fst (s_reserve q d kind input s) = Inr (Deliver q)"
    and "exec_op m oper = snd (with_session m sid (s_reserve q d kind input))"
proof (cases oper)
  case (OpReserve sid' q d i)
  let ?kind = "if input then ''input'' else ''resize''"
  let ?r = "reserve_controller_seq m sid q d ?kind input"
  have eq: "sid' = sid" "i = input" using assms OpReserve by (auto split: if_splits)
  then have r: "delivery sid input m oper =
        (case fst ?r of Inr (Deliver q') \<Rightarrow> Some (unat q') | _ \<Rightarrow> None)"
      "exec_op m oper = snd ?r"
    using OpReserve by (simp_all add: reserve_input_seq_def reserve_resize_seq_def)
  obtain q' where q': "fst ?r = Inr (Deliver q')" "n = unat q'"
    using assms r(1) by (auto split: sum.splits seq_reserve_outcome.splits)
  then have "q \<noteq> 0" and ws: "?r = with_session m sid (s_reserve q d ?kind input)"
    by (auto simp: reserve_controller_seq_def split: if_splits)
  moreover obtain s where s: "map_of (sm_sessions m) sid = Some s"
      "fst (s_reserve q d ?kind input s) = Inr (Deliver q')"
    using q'(1) unfolding ws by (auto simp: with_session_def split: option.splits)
  moreover have "q' = q" using s(2) by (simp add: s_reserve_outcome)
  ultimately show ?thesis using that OpReserve eq q' r(2) by auto
qed (use assms in auto)

interpretation channel: monotone_cursor exec_op "delivery sid input" "channel_cursor sid input"
  manager_ok "\<lambda>oper. opens oper \<noteq> Some sid" for sid input
proof
  fix m oper
  assume "manager_ok m"
  then show "manager_ok (exec_op m oper)" by (rule manager_ok_exec)
next
  fix m oper
  assume m: "manager_ok m" and op: "opens oper \<noteq> Some sid"
  show "channel_cursor sid input m \<le> channel_cursor sid input (exec_op m oper)"
  proof (cases "map_of (sm_sessions (exec_op m oper)) sid")
    case None
    then show ?thesis
      using unsigned_less [where 'a = nat and 'b = 64]
      by (auto simp: channel_cursor_def less_imp_le split: option.splits)
  next
    case (Some s')
    obtain s where "map_of (sm_sessions m) sid = Some s" "s' = s \<or> session_step oper sid s s'"
      using exec_op_lookup [OF m Some op] by blast
    then show ?thesis
      using Some by (auto simp: channel_cursor_def word_le_nat_alt [symmetric] last_seq_step)
  qed
next
  fix m oper n
  assume "manager_ok m" and "opens oper \<noteq> Some sid" and n: "delivery sid input m oper = Some n"
  from n obtain q d s kind where d: "oper = OpReserve sid q d input" "n = unat q"
      "map_of (sm_sessions m) sid = Some s" "fst (s_reserve q d kind input s) = Inr (Deliver q)"
      "exec_op m oper = snd (with_session m sid (s_reserve q d kind input))"
    by (rule delivery_Some)
  have "last_seq input s < q" using d(4) by (auto simp: s_reserve_outcome dest: checked_add_less)
  then show "channel_cursor sid input m < n \<and> n \<le> channel_cursor sid input (exec_op m oper)"
    using d s_reserve_state [OF d(4)] by (simp add: channel_cursor_def word_less_nat_alt)
qed

text \<open>
  C8: Every input number, and every resize number, of a session reaches the terminal at most
  once.  Over any run of the manager, with reservations and retries interleaved with handovers,
  expiries and restarts, the numbers released for delivery on a channel strictly increase.
\<close>

theorem delivered_at_most_once:
  assumes "manager_ok m" and "list_all (\<lambda>oper. opens oper \<noteq> Some sid) ops"
  shows "sorted_wrt (<) (emitted exec_op (delivery sid input) m ops)"
  using assms by (rule channel.emitted_strictly_increasing)

lemma with_session_keep:
  assumes "map_of (sm_sessions m) sid = Some s" and "f s = (r, s)"
  shows "with_session m sid f = (r, m)"
  using assms by (simp add: with_session_def update_same)

lemma s_reserve_again:
  assumes "last_seq input s = q" and "q \<noteq> 0" and "last_digest input s = Some d"
    and "si_state s \<noteq> Closed"
  shows "s_reserve q d' kind input s =
    (if d' = d then Inr (if last_state input s = Applied then Replayed q else RetryPending q)
     else Inl (SequenceConflict kind q), s)"
  using assms by (auto simp: s_reserve_def last_seq_def last_digest_def last_state_def word_gt_0)

text \<open>
  A reservation binds its number to its payload digest.  After a number has been released
  for delivery, the same request is answered as pending without a second delivery, a request
  with another payload is refused as a conflict, and once the number is finalised the same
  request is answered as replayed; none of these answers changes the manager.
\<close>

theorem reservation_binds_payload:
  assumes "reserve_controller_seq m sid q d kind input = (Inr (Deliver q'), m1)"
  shows "q' = q
    \<and> reserve_controller_seq m1 sid q d kind input = (Inr (RetryPending q), m1)
    \<and> (d' \<noteq> d \<longrightarrow> reserve_controller_seq m1 sid q d' kind input = (Inl (SequenceConflict kind q), m1))
    \<and> fst (finalize_controller_seq m1 sid q kind input) = Inr ()
    \<and> reserve_controller_seq (snd (finalize_controller_seq m1 sid q kind input)) sid q d kind input =
        (Inr (Replayed q), snd (finalize_controller_seq m1 sid q kind input))"
proof -
  have q: "q \<noteq> 0" and w: "with_session m sid (s_reserve q d kind input) = (Inr (Deliver q'), m1)"
    using assms by (auto simp: reserve_controller_seq_def split: if_splits)
  from w obtain s where s: "fst (s_reserve q d kind input s) = Inr (Deliver q')"
      "map_of (sm_sessions m1) sid = Some (snd (s_reserve q d kind input s))"
    by (rule with_session_Inr) blast
  define s1 where "s1 = snd (s_reserve q d kind input s)"
  have m1: "map_of (sm_sessions m1) sid = Some s1" using s(2) by (simp add: s1_def)
  have s1: "last_seq input s1 = q" "last_digest input s1 = Some d" "last_state input s1 = Pending"
      "si_state s1 \<noteq> Closed"
    using s_reserve_state [OF s(1)] s(1) by (simp_all add: s1_def s_reserve_outcome)
  define s2 where "s2 = snd (s_finalize q kind input s1)"
  define m2 where "m2 = snd (finalize_controller_seq m1 sid q kind input)"
  have fin: "fst (s_finalize q kind input s1) = Inr ()" "last_state input s2 = Applied"
      "last_seq input s2 = q" "last_digest input s2 = Some d" "si_state s2 \<noteq> Closed"
    using s1 by (auto simp: s2_def s_finalize_def last_seq_def last_state_def last_digest_def Let_def)
  have m2: "map_of (sm_sessions m2) sid = Some s2"
    using m1 by (simp add: m2_def s2_def finalize_controller_seq_def)
  have "reserve_controller_seq m1 sid q d'' kind input =
      (if d'' = d then Inr (RetryPending q) else Inl (SequenceConflict kind q), m1)" for d''
    using q with_session_keep [where f = "s_reserve q d'' kind input",
        OF m1 s_reserve_again [OF s1(1) q s1(2) s1(4)]] s1(3)
    by (simp add: reserve_controller_seq_def)
  moreover have "reserve_controller_seq m2 sid q d kind input = (Inr (Replayed q), m2)"
    using q with_session_keep [where f = "s_reserve q d kind input",
        OF m2 s_reserve_again [OF fin(3) q fin(4) fin(5)]] fin(2)
    by (simp add: reserve_controller_seq_def)
  moreover have "fst (finalize_controller_seq m1 sid q kind input) = Inr ()"
    using fin(1) by (simp add: finalize_controller_seq_def with_session_Some [OF m1])
  moreover have "q' = q" using s(1) by (simp add: s_reserve_outcome)
  ultimately show ?thesis by (simp add: m2_def)
qed

lemma mgr1_reserved:
  "reserve_controller_seq mgr1 ''ses_a'' 1 ''d1'' ''input'' True =
     (Inr (Deliver 1), mgr1\<lparr>sm_sessions := [(''ses_a'', session1\<lparr>si_last_input_seq := 1,
        si_last_input_digest := Some ''d1'', si_last_input_state := Pending\<rparr>)]\<rparr>)"
  by (simp add: reserve_controller_seq_def with_session_def s_reserve_def mgr1_def session1_def
      saturating_add_def Let_def)

theorem delivered_at_most_once_witness:
  "emitted exec_op (delivery ''ses_a'' True) mgr1
     [OpReserve ''ses_a'' 1 ''d1'' True, OpReserve ''ses_a'' 1 ''d1'' True] = [1]
   \<and> sorted_wrt (<) (emitted exec_op (delivery ''ses_a'' True) mgr1
     [OpReserve ''ses_a'' 1 ''d1'' True, OpReserve ''ses_a'' 1 ''d1'' True])"
proof -
  let ?s = "session1\<lparr>si_last_input_seq := 1, si_last_input_digest := Some ''d1'',
              si_last_input_state := Pending\<rparr>"
  let ?m = "mgr1\<lparr>sm_sessions := [(''ses_a'', ?s)]\<rparr>"
  have "s_reserve 1 ''d1'' ''input'' True ?s = (Inr (RetryPending 1), ?s)"
    by (simp add: s_reserve_def session1_def Let_def)
  then have "reserve_controller_seq ?m ''ses_a'' 1 ''d1'' ''input'' True = (Inr (RetryPending 1), ?m)"
    by (simp add: reserve_controller_seq_def with_session_keep)
  then have "emitted exec_op (delivery ''ses_a'' True) mgr1
     [OpReserve ''ses_a'' 1 ''d1'' True, OpReserve ''ses_a'' 1 ''d1'' True] = [1]"
    by (simp add: reserve_input_seq_def mgr1_reserved)
  moreover have "list_all (\<lambda>oper. opens oper \<noteq> Some ''ses_a'')
     [OpReserve ''ses_a'' 1 ''d1'' True, OpReserve ''ses_a'' 1 ''d1'' True]" by simp
  from delivered_at_most_once [OF mgr1_ok this, of True]
  have "sorted_wrt (<) (emitted exec_op (delivery ''ses_a'' True) mgr1
     [OpReserve ''ses_a'' 1 ''d1'' True, OpReserve ''ses_a'' 1 ''d1'' True])" .
  ultimately show ?thesis by blast
qed

theorem reservation_binds_payload_witness:
  "fst (reserve_controller_seq mgr1 ''ses_a'' 1 ''d1'' ''input'' True) = Inr (Deliver 1)
   \<and> fst (reserve_controller_seq (snd (reserve_controller_seq mgr1 ''ses_a'' 1 ''d1'' ''input'' True))
        ''ses_a'' 1 ''d2'' ''input'' True) = Inl (SequenceConflict ''input'' 1)"
  using reservation_binds_payload [OF mgr1_reserved, of "''d2''"] by (simp add: mgr1_reserved)

end
