(* ===== verification/Session_Replay.thy ===== *)
theory Session_Replay
  imports Session_Seat
begin

text \<open>
  The replay ring of a session: the two trimming loops keep the longest suffix within the
  budgets, the byte counter is exact, pages lose nothing, and loading enforces the budgets on
  untrusted state.
\<close>

section \<open>The trimming loops\<close>

definition chunk_bytes :: "output_chunk list \<Rightarrow> nat" where
  "chunk_bytes cs = sum_list (map (length \<circ> oc_data) cs)"

lemma chunk_bytes_simps [simp]:
  "chunk_bytes [] = 0"
  "chunk_bytes (c # cs) = length (oc_data c) + chunk_bytes cs"
  "chunk_bytes (cs @ ds) = chunk_bytes cs + chunk_bytes ds"
  by (simp_all add: chunk_bytes_def)

text \<open>The longest suffix with at most \<open>limit\<close> chunks and at most \<open>max_bytes\<close> bytes.\<close>

fun longest_fit :: "nat \<Rightarrow> nat \<Rightarrow> output_chunk list \<Rightarrow> output_chunk list" where
  "longest_fit limit max_bytes [] = []"
| "longest_fit limit max_bytes (c # cs) =
     (if length (c # cs) \<le> limit \<and> chunk_bytes (c # cs) \<le> max_bytes then c # cs
      else longest_fit limit max_bytes cs)"

lemma trim_count_eq:
  "trim_count limit cs (chunk_bytes cs) =
     (drop (length cs - limit) cs, chunk_bytes (drop (length cs - limit) cs))"
  by (induction cs) (auto simp: Suc_diff_le)

lemma trim_bytes_eq:
  "length cs \<le> limit \<Longrightarrow>
   trim_bytes mb cs (chunk_bytes cs) = (longest_fit limit mb cs, chunk_bytes (longest_fit limit mb cs))"
  by (induction cs) auto

lemma longest_fit_drop:
  "longest_fit limit mb (drop (length cs - limit) cs) = longest_fit limit mb cs"
proof (induction cs)
  case (Cons c cs)
  then show ?case by (cases "length (c # cs) \<le> limit") (simp_all add: Suc_diff_le)
qed simp

lemma longest_fit_bounds:
  "length (longest_fit limit mb cs) \<le> limit" "chunk_bytes (longest_fit limit mb cs) \<le> mb"
  by (induction cs) auto

lemma longest_fit_suffix: "\<exists>dropped. cs = dropped @ longest_fit limit mb cs"
proof (induction cs)
  case (Cons c cs)
  then obtain d where "cs = d @ longest_fit limit mb cs" ..
  then have "c # cs = (c # d) @ longest_fit limit mb cs" by simp
  then show ?case by (metis append_Nil longest_fit.simps(2))
qed simp

lemma longest_fit_id: "length cs \<le> limit \<Longrightarrow> chunk_bytes cs \<le> mb \<Longrightarrow> longest_fit limit mb cs = cs"
  by (cases cs) auto

lemma longest_fit_snoc:
  "1 \<le> limit \<Longrightarrow> length (oc_data c) \<le> mb \<Longrightarrow> \<exists>kept. longest_fit limit mb (cs @ [c]) = kept @ [c]"
  by (induction cs) auto

lemma trim_ring_eq:
  assumes "s_replay_bytes s = chunk_bytes (s_replay s)"
  shows "s_replay (trim_ring mb s) = longest_fit (s_replay_limit s) mb (s_replay s)"
    and "s_replay_bytes (trim_ring mb s) = chunk_bytes (s_replay (trim_ring mb s))"
proof -
  let ?d = "drop (length (s_replay s) - s_replay_limit s) (s_replay s)"
  have "trim_bytes mb ?d (chunk_bytes ?d) =
      (longest_fit (s_replay_limit s) mb (s_replay s),
       chunk_bytes (longest_fit (s_replay_limit s) mb (s_replay s)))"
    using trim_bytes_eq [of ?d "s_replay_limit s" mb] by (simp add: longest_fit_drop)
  with assms show "s_replay (trim_ring mb s) = longest_fit (s_replay_limit s) mb (s_replay s)"
    and "s_replay_bytes (trim_ring mb s) = chunk_bytes (s_replay (trim_ring mb s))"
    by (simp_all add: trim_ring_def trim_count_eq)
qed

section \<open>The ring invariant\<close>

definition ring_ok :: "nat \<Rightarrow> session \<Rightarrow> bool" where
  "ring_ok mb s \<longleftrightarrow>
     s_replay_bytes s = chunk_bytes (s_replay s) \<and> length (s_replay s) \<le> s_replay_limit s
   \<and> chunk_bytes (s_replay s) \<le> mb \<and> 1 \<le> s_replay_limit s"

definition rings_ok :: "session_manager \<Rightarrow> bool" where
  "rings_ok m \<longleftrightarrow>
     distinct (keys (sm_sessions m)) \<and> 1 \<le> sm_default_replay_limit m
   \<and> list_all (\<lambda>(k, s). ring_ok (sm_max_replay_bytes m) s) (sm_sessions m)"

lemma ring_ok_trim:
  assumes "s_replay_bytes s = chunk_bytes (s_replay s)" and "1 \<le> s_replay_limit s"
  shows "ring_ok mb (trim_ring mb s)"
  using trim_ring_eq [OF assms(1)] assms(2) longest_fit_bounds by (simp add: ring_ok_def)

lemma s_push_output_ring:
  assumes "ring_ok mb s" and "fst (s_push_output mb data stream s) = Inr chunk"
  shows "chunk = \<lparr>oc_seq = si_next_seq s, oc_data = data, oc_stream = stream\<rparr>"
    and "s_replay (snd (s_push_output mb data stream s)) =
      longest_fit (s_replay_limit s) mb (s_replay s @ [chunk])"
    and "\<exists>kept. s_replay (snd (s_push_output mb data stream s)) = kept @ [chunk]"
    and "ring_ok mb (snd (s_push_output mb data stream s))"
    and "si_next_seq (snd (s_push_output mb data stream s)) = si_next_seq s + 1"
proof -
  let ?c = "\<lparr>oc_seq = si_next_seq s, oc_data = data, oc_stream = stream\<rparr>"
  let ?s = "s\<lparr>si_next_seq := si_next_seq s + 1, s_replay_bytes := s_replay_bytes s + length data,
              s_replay := s_replay s @ [?c]\<rparr>"
  have e: "snd (s_push_output mb data stream s) = trim_ring mb ?s" "chunk = ?c" "length data \<le> mb"
    using assms(2) by (auto simp: s_push_output_def Let_def split: if_splits)
  then show "chunk = ?c" by simp
  have b: "s_replay_bytes ?s = chunk_bytes (s_replay ?s)" "1 \<le> s_replay_limit ?s"
    using assms(1) by (simp_all add: ring_ok_def)
  show "s_replay (snd (s_push_output mb data stream s)) =
      longest_fit (s_replay_limit s) mb (s_replay s @ [chunk])"
    using trim_ring_eq(1) [OF b(1), of mb] e by simp
  then show "\<exists>kept. s_replay (snd (s_push_output mb data stream s)) = kept @ [chunk]"
    using longest_fit_snoc [of "s_replay_limit s" chunk mb "s_replay s"] b(2) e by simp
  show "ring_ok mb (snd (s_push_output mb data stream s))"
    unfolding e(1) using b by (rule ring_ok_trim)
  show "si_next_seq (snd (s_push_output mb data stream s)) = si_next_seq s + 1"
    unfolding e(1) by simp
qed



section \<open>Budgets over runs\<close>

lemma config_with_session [simp]:
  "sm_max_replay_bytes (snd (with_session m sid f)) = sm_max_replay_bytes m"
  "sm_default_replay_limit (snd (with_session m sid f)) = sm_default_replay_limit m"
  by (simp_all add: with_session_def split: option.split)

lemma config_exec_op:
  assumes "oper \<noteq> OpEnforceBudgets"
  shows "sm_max_replay_bytes (exec_op m oper) = sm_max_replay_bytes m
    \<and> sm_default_replay_limit (exec_op m oper) = sm_default_replay_limit m"
proof (cases oper)
  case (OpDetach sid p l e now)
  from detach_session [of m sid p l e now] OpDetach show ?thesis by auto
next
  case (OpAdvance sid q input)
  define res where
    "res = snd (if input then advance_input_seq m sid q else advance_resize_seq m sid q)"
  have "exec_op m oper = res" using OpAdvance by (simp add: res_def)
  with advance_session [OF res_def] show ?thesis by auto
next
  case (OpTerminate sid)
  have "sm_max_replay_bytes (snd (session_close m sid)) = sm_max_replay_bytes m"
    "sm_default_replay_limit (snd (session_close m sid)) = sm_default_replay_limit m"
    by (simp_all add: session_close_def)
  with OpTerminate show ?thesis by (auto simp: terminate_def split: prod.splits sum.splits)
qed (use assms in \<open>simp_all add: open_with_def Let_def seat_ops field_ops channel_ops
      renew_controller_lease_def push_output_def terminate_all_def expire_stale_leases_def
      mark_hosts_detached_after_restart_def for_each_session_def split: sum.splits\<close>)

lemma ring_untouched [simp]:
  "ring_ok mb (snd (s_renew now ttl s)) = ring_ok mb s"
  "ring_ok mb (snd (s_release p now s)) = ring_ok mb s"
  "ring_ok mb (snd (s_set_epoch e s)) = ring_ok mb s"
  "ring_ok mb (snd (s_attach_observer p now s)) = ring_ok mb s"
  "ring_ok mb (snd (s_claim u ttl p now s)) = ring_ok mb s"
  "ring_ok mb (snd (s_give u ttl p q now s)) = ring_ok mb s"
  "ring_ok mb (snd (s_set_expires t s)) = ring_ok mb s"
  "ring_ok mb (snd (s_expire now s)) = ring_ok mb s"
  by (simp_all add: ring_ok_def s_renew_def s_release_def s_set_epoch_def s_attach_observer_def
      s_claim_def s_give_def s_set_expires_def s_expire_def Let_def split: option.splits)

lemma ring_untouched_fields [simp]:
  "ring_ok mb (snd (s_reserve q d kind input s)) = ring_ok mb s"
  "ring_ok mb (snd (s_finalize q kind input s)) = ring_ok mb s"
  "ring_ok mb (snd (s_resize cols rows s)) = ring_ok mb s"
  "ring_ok mb (snd (s_reconcile p l e t att s)) = ring_ok mb s"
  "ring_ok mb (snd (s_close s)) = ring_ok mb s"
  "ring_ok mb (s\<lparr>si_view_mode := mode\<rparr>) = ring_ok mb s"
  "ring_ok mb (s\<lparr>si_host_pid := pid\<rparr>) = ring_ok mb s"
  "ring_ok mb (s\<lparr>si_state := st\<rparr>) = ring_ok mb s"
  "ring_ok mb (s\<lparr>si_sidecar_host := b\<rparr>) = ring_ok mb s"
  by (simp_all add: ring_ok_def s_reserve_def s_finalize_def s_resize_def s_reconcile_def s_close_def
      Let_def)

fun touches_ring :: "session_op \<Rightarrow> bool" where
  "touches_ring (OpPush sid data stream) = True"
| "touches_ring OpRestart = True"
| "touches_ring OpEnforceBudgets = True"
| "touches_ring _ = False"

lemma ring_ok_step: "session_step oper k s s' \<Longrightarrow> \<not> touches_ring oper \<Longrightarrow> ring_ok mb s' = ring_ok mb s"
  by (induction rule: session_step.induct) simp_all

lemma ring_ok_fresh: "fresh_session limit s \<Longrightarrow> Suc 0 \<le> limit \<Longrightarrow> ring_ok mb s"
  by (simp add: fresh_session_def ring_ok_def)

lemma ring_ok_push:
  assumes "ring_ok mb s"
  shows "ring_ok mb (snd (s_push_output mb data stream s))"
proof (cases "fst (s_push_output mb data stream s)")
  case (Inl e)
  then have "snd (s_push_output mb data stream s) = s"
    by (auto simp: s_push_output_def Let_def split: if_splits)
  with assms show ?thesis by simp
next
  case (Inr chunk)
  with assms show ?thesis by (rule s_push_output_ring(4))
qed

lemma ring_ok_enforce: "ring_ok mb (enforce_session_budget dl mb s)"
  unfolding enforce_session_budget_def
  by (rule ring_ok_trim)
    (auto simp: chunk_bytes_def clamp_def DEFAULT_REPLAY_CHUNK_LIMIT_def max_def)

lemma rings_ok_enforce:
  assumes "distinct (keys (sm_sessions m))"
  shows "rings_ok (enforce_loaded_budgets m)"
  using assms clamp_bounds [of 1 "max DEFAULT_REPLAY_CHUNK_LIMIT 1024"]
  by (auto simp: rings_ok_def enforce_loaded_budgets_def Let_def list_all_iff ring_ok_enforce
      distinct_foldl_delete DEFAULT_REPLAY_CHUNK_LIMIT_def)

lemma rings_ok_exec:
  assumes "rings_ok m" and "oper \<noteq> OpRestart"
  shows "rings_ok (exec_op m oper)"
proof -
  have d: "distinct (keys (sm_sessions m))" using assms(1) by (simp add: rings_ok_def)
  consider "oper = OpEnforceBudgets" | sid data stream where "oper = OpPush sid data stream"
    | "\<not> touches_ring oper" "oper \<noteq> OpEnforceBudgets"
    using assms(2) by (cases oper) auto
  then show ?thesis
  proof cases
    case 1
    with d show ?thesis by (simp add: rings_ok_enforce)
  next
    case 2
    have "ring_ok (sm_max_replay_bytes m) s'" if "(k, s') \<in> set (sm_sessions (exec_op m oper))" for k s'
      using that assms(1) 2 ring_ok_push
      by (auto simp: push_output_def with_session_def rings_ok_def list_all_iff
          dest!: mem_update_cases map_of_SomeD split: if_splits option.splits)
    with assms(1) exec_op_distinct [OF d, of oper] config_exec_op [of oper m] 2 show ?thesis
      by (auto simp: rings_ok_def list_all_iff)
  next
    case 3
    have "ring_ok (sm_max_replay_bytes m) s'" if "(k, s') \<in> set (sm_sessions (exec_op m oper))" for k s'
      using exec_op_session [OF that] assms(1) ring_ok_step [OF _ 3(1)]
      by (auto simp: from_step_def rings_ok_def list_all_iff intro: ring_ok_fresh)
    with assms(1) exec_op_distinct [OF d, of oper] config_exec_op [OF 3(2), of m] show ?thesis
      by (auto simp: rings_ok_def list_all_iff)
  qed
qed

text \<open>
  The replay budgets hold on every run without a daemon restart: whatever the operations,
  every ring has at most its number of chunks and the manager's number of bytes, and its byte
  counter is exact.
\<close>

theorem replay_budgets_hold:
  assumes "rings_ok m" and "OpRestart \<notin> set ops"
  shows "rings_ok (foldl exec_op m ops)"
  using assms by (induction ops arbitrary: m) (auto simp: rings_ok_exec)

theorem replay_budgets_hold_witness:
  "rings_ok (foldl exec_op session_manager_new
     [OpOpen ''a'' ''l1'' Pty ''shell'' ''alice'' 1000 None None None None,
      OpPush ''ses_a'' ''hello'' Stdout, OpExpire 5000, OpEnforceBudgets])"
proof -
  have "rings_ok session_manager_new"
    by (simp add: rings_ok_def session_manager_new_def DEFAULT_REPLAY_CHUNK_LIMIT_def)
  then show ?thesis by (rule replay_budgets_hold) simp
qed

text \<open>
  C10: A daemon restart breaks the accounting.  On a running terminal session with a sound
  ring, the notice that the restart appends is not counted in the byte total and is not trimmed,
  so the ring is unsound afterwards: the counter is short by the notice, and a full ring exceeds
  its chunk limit.
\<close>

theorem restart_breaks_ring_accounting:
  assumes "ring_ok mb s" and "si_state s \<noteq> Closed" and "si_kind s = Pty"
  shows "\<not> ring_ok mb (snd (s_mark_detached s))
    \<and> chunk_bytes (s_replay (snd (s_mark_detached s))) = s_replay_bytes (snd (s_mark_detached s)) + 56
    \<and> length (s_replay (snd (s_mark_detached s))) = length (s_replay s) + 1
    \<and> s_replay_limit (snd (s_mark_detached s)) = s_replay_limit s"
  using assms by (simp add: s_mark_detached_def ring_ok_def)

theorem restart_breaks_ring_accounting_witness:
  "ring_ok MAX_REPLAY_BYTES session1 \<and> \<not> ring_ok MAX_REPLAY_BYTES (snd (s_mark_detached session1))"
proof -
  have h: "ring_ok MAX_REPLAY_BYTES session1" "si_state session1 \<noteq> Closed" "si_kind session1 = Pty"
    by (simp_all add: ring_ok_def session1_def)
  from restart_breaks_ring_accounting [OF h] h(1) show ?thesis by blast
qed

section \<open>Loading untrusted state\<close>

lemma foldl_delete_eq:
  "foldl (\<lambda>m k. AList.delete k m) m ks = filter (\<lambda>(k, v). k \<notin> set ks) m"
proof (induction ks arbitrary: m)
  case (Cons k ks)
  then show ?case by (auto simp: AList.delete_eq case_prod_beta intro: filter_cong)
qed simp

lemma length_without_keys:
  assumes "distinct (keys m)" and "distinct ks" and "set ks \<subseteq> set (keys m)"
  shows "length (filter (\<lambda>(k, v). k \<notin> set ks) m) = length m - length ks"
proof -
  have "keys (filter (\<lambda>(k, v). k \<notin> set ks) m) = filter (\<lambda>k. k \<notin> set ks) (keys m)"
    by (induction m) auto
  then have "length (filter (\<lambda>(k, v). k \<notin> set ks) m) = length (filter (\<lambda>k. k \<notin> set ks) (keys m))"
    by (metis length_map)
  also have "\<dots> = card (set (keys m) - set ks)"
    using assms(1) distinct_card [of "filter (\<lambda>k. k \<notin> set ks) (keys m)"]
    by (simp add: set_diff_eq Collect_conj_eq [symmetric] Int_def)
  also have "\<dots> = card (set (keys m)) - card (set ks)"
    using assms(3) by (simp add: card_Diff_subset)
  also have "\<dots> = length m - length ks"
    using distinct_card [OF assms(1)] distinct_card [OF assms(2)] by simp
  finally show ?thesis .
qed

text \<open>The sessions that loading keeps: the ones with the greatest identifiers.\<close>

definition kept_sessions :: "nat \<Rightarrow> (string \<times> session) list \<Rightarrow> (string \<times> session) list" where
  "kept_sessions cap ss =
     filter (\<lambda>(k, s). k \<notin> set (take (length ss - cap) (sort (keys ss)))) ss"

lemma enforce_sessions:
  "sm_sessions (enforce_loaded_budgets m) =
     map (\<lambda>(k, s). (k, enforce_session_budget (sm_default_replay_limit (enforce_loaded_budgets m))
                       (sm_max_replay_bytes (enforce_loaded_budgets m)) s))
       (kept_sessions (sm_max_sessions (enforce_loaded_budgets m)) (sm_sessions m))"
  by (simp add: enforce_loaded_budgets_def Let_def kept_sessions_def foldl_delete_eq)

lemma length_kept_sessions:
  assumes "distinct (keys ss)"
  shows "length (kept_sessions cap ss) = min cap (length ss)"
proof -
  have "set (take n (sort (keys ss))) \<subseteq> set (keys ss)" for n
    using set_take_subset [of n "sort (keys ss)"] by simp
  moreover have "length (take (length ss - cap) (sort (keys ss))) = length ss - cap" by simp
  ultimately have "length (kept_sessions cap ss) = length ss - (length ss - cap)"
    using length_without_keys [OF assms, of "take (length ss - cap) (sort (keys ss))"] assms
    by (simp only: kept_sessions_def) simp
  then show ?thesis by simp
qed

lemma kept_sessions_all: "length ss \<le> cap \<Longrightarrow> kept_sessions cap ss = ss"
  by (simp add: kept_sessions_def)

lemma enforce_session_budget_idem:
  "enforce_session_budget dl mb (enforce_session_budget dl mb s) = enforce_session_budget dl mb s"
proof -
  let ?s = "enforce_session_budget dl mb s"
  have ok: "ring_ok mb ?s" by (rule ring_ok_enforce)
  have lim: "clamp 1 (max dl DEFAULT_REPLAY_CHUNK_LIMIT) (s_replay_limit ?s) = s_replay_limit ?s"
    by (auto simp: enforce_session_budget_def clamp_def DEFAULT_REPLAY_CHUNK_LIMIT_def max_def)
  have b: "sum_list (map (length \<circ> oc_data) (s_replay ?s)) = s_replay_bytes ?s"
    using ok by (simp add: ring_ok_def chunk_bytes_def)
  have "trim_ring mb ?s = ?s"
    using ok trim_ring_eq [of ?s mb] longest_fit_id [of "s_replay ?s" "s_replay_limit ?s" mb]
    by (auto simp: ring_ok_def trim_ring_def Let_def split: prod.splits)
  then show ?thesis by (subst enforce_session_budget_def) (simp add: lim [unfolded One_nat_def] b)
qed

lemma enforce_config:
  "sm_max_sessions (enforce_loaded_budgets m) = clamp 1 MAX_SESSIONS (sm_max_sessions m)"
  "sm_max_replay_bytes (enforce_loaded_budgets m) = clamp 1 MAX_REPLAY_BYTES (sm_max_replay_bytes m)"
  "sm_default_replay_limit (enforce_loaded_budgets m) =
     clamp 1 (max DEFAULT_REPLAY_CHUNK_LIMIT 1024) (sm_default_replay_limit m)"
  "sm_default_lease_ttl_secs (enforce_loaded_budgets m) = sm_default_lease_ttl_secs m"
  by (simp_all add: enforce_loaded_budgets_def Let_def)

text \<open>
  Loading enforces the budgets on state from disk, whatever it says.  Afterwards there are
  at most 64 sessions and as many of the loaded ones as fit, every ring is sound within one
  mebibyte, no dropped session has a greater identifier than a kept one, and loading again
  changes nothing.
\<close>

theorem loading_enforces_budgets:
  assumes "distinct (keys (sm_sessions m))"
  defines "m' \<equiv> enforce_loaded_budgets m"
  shows "rings_ok m' \<and> sm_max_replay_bytes m' \<le> 1048576
    \<and> length (sm_sessions m') = min (sm_max_sessions m') (length (sm_sessions m))
    \<and> length (sm_sessions m') \<le> 64
    \<and> (k \<in> set (keys (sm_sessions m')) \<longrightarrow>
        d \<in> set (keys (sm_sessions m)) - set (keys (sm_sessions m')) \<longrightarrow> d \<le> k)
    \<and> enforce_loaded_budgets m' = m'"
proof -
  let ?cap = "sm_max_sessions m'"
  have cap: "?cap \<le> 64" using clamp_bounds [of 1 MAX_SESSIONS]
    by (simp add: m'_def enforce_config MAX_SESSIONS_def)
  have len: "length (sm_sessions m') = min ?cap (length (sm_sessions m))"
    unfolding m'_def by (subst enforce_sessions) (simp add: length_kept_sessions assms)
  have keys: "keys (sm_sessions m') = keys (kept_sessions ?cap (sm_sessions m))"
    unfolding m'_def by (subst enforce_sessions) simp
  have order: "d \<le> k" if k: "k \<in> set (keys (sm_sessions m'))"
    and d: "d \<in> set (keys (sm_sessions m)) - set (keys (sm_sessions m'))"
  proof -
    let ?n = "length (sm_sessions m) - ?cap" and ?ks = "sort (keys (sm_sessions m))"
    have "d \<in> set (take ?n ?ks)" and kt: "k \<notin> set (take ?n ?ks)" "k \<in> set ?ks"
      using k d unfolding keys by (auto simp: kept_sessions_def)
    moreover have "k \<in> set (drop ?n ?ks)"
      using kt by (metis Un_iff append_take_drop_id set_append)
    moreover have "sorted (take ?n ?ks @ drop ?n ?ks)" by simp
    ultimately show ?thesis unfolding sorted_append by blast
  qed
  have cfg: "sm_max_sessions (enforce_loaded_budgets m') = ?cap"
      "sm_max_replay_bytes (enforce_loaded_budgets m') = sm_max_replay_bytes m'"
      "sm_default_replay_limit (enforce_loaded_budgets m') = sm_default_replay_limit m'"
      "sm_default_lease_ttl_secs (enforce_loaded_budgets m') = sm_default_lease_ttl_secs m'"
    by (simp_all add: m'_def enforce_config clamp_idem MAX_SESSIONS_def MAX_REPLAY_BYTES_def
        DEFAULT_REPLAY_CHUNK_LIMIT_def)
  have fixed: "enforce_session_budget (sm_default_replay_limit m') (sm_max_replay_bytes m') s = s"
    if "(k, s) \<in> set (sm_sessions m')" for k s
    using that unfolding m'_def
    by (subst (asm) enforce_sessions) (auto simp: enforce_session_budget_idem)
  have "sm_sessions (enforce_loaded_budgets m') = map (\<lambda>(k, s). (k, enforce_session_budget
      (sm_default_replay_limit m') (sm_max_replay_bytes m') s)) (sm_sessions m')"
    using len by (subst enforce_sessions) (simp add: cfg kept_sessions_all)
  also have "\<dots> = sm_sessions m'" by (rule map_idI) (auto simp: fixed)
  finally have "enforce_loaded_budgets m' = m'" using cfg by simp
  then show ?thesis
    using order len cap rings_ok_enforce [OF assms(1)] clamp_bounds [of 1 MAX_REPLAY_BYTES]
    by (auto simp: m'_def enforce_config MAX_REPLAY_BYTES_def)
qed


theorem loading_enforces_budgets_witness:
  "rings_ok (enforce_loaded_budgets (mgr1\<lparr>sm_max_sessions := 1,
      sm_sessions := [(''ses_b'', session1), (''ses_a'', session1)]\<rparr>))
   \<and> length (sm_sessions (enforce_loaded_budgets (mgr1\<lparr>sm_max_sessions := 1,
      sm_sessions := [(''ses_b'', session1), (''ses_a'', session1)]\<rparr>))) = 1"
proof -
  let ?m = "mgr1\<lparr>sm_max_sessions := 1, sm_sessions := [(''ses_b'', session1), (''ses_a'', session1)]\<rparr>"
  have "distinct (keys (sm_sessions ?m))" by simp
  from loading_enforces_budgets [OF this] show ?thesis
    by (simp add: enforce_config clamp_def MAX_SESSIONS_def)
qed

section \<open>Paging\<close>

text \<open>What the loop has collected: the longest prefix within the page limits.\<close>

lemma replay_loop_split:
  assumes "page = replay_loop limit mb cs acc held" and "held = chunk_bytes acc"
    and "length acc \<le> limit" and "held \<le> mb"
  shows "\<exists>taken rest. cs = taken @ rest \<and> rp_chunks page = acc @ taken
    \<and> rp_returned_bytes page = chunk_bytes (rp_chunks page)
    \<and> length (rp_chunks page) \<le> limit \<and> rp_returned_bytes page \<le> mb
    \<and> rp_next_seq page = map_option oc_seq (case rest of [] \<Rightarrow> None | r # _ \<Rightarrow> Some r)
    \<and> (rp_truncated page \<longleftrightarrow> rest \<noteq> [])
    \<and> (taken = [] \<and> rest \<noteq> [] \<longrightarrow> limit \<le> length acc \<or> mb < held + length (oc_data (hd rest)))"
  using assms
proof (induction cs arbitrary: acc held)
  case Nil
  then show ?case by simp
next
  case (Cons c cs)
  show ?case
  proof (cases "limit \<le> length acc \<or> mb < held + length (oc_data c)")
    case True
    with Cons.prems have "page = \<lparr>rp_chunks = acc, rp_truncated = True, rp_next_seq = Some (oc_seq c),
         rp_returned_bytes = held\<rparr>" by simp
    with Cons.prems True show ?thesis
      by (intro exI [of _ "[]"] exI [of _ "c # cs"]) auto
  next
    case False
    with Cons.prems have "page = replay_loop limit mb cs (acc @ [c]) (held + length (oc_data c))"
      "held + length (oc_data c) = chunk_bytes (acc @ [c])" "length (acc @ [c]) \<le> limit"
      "held + length (oc_data c) \<le> mb" by auto
    from Cons.IH [OF this] obtain taken rest where
      tr: "cs = taken @ rest" "rp_chunks page = (acc @ [c]) @ taken"
        "rp_returned_bytes page = chunk_bytes (rp_chunks page)" "length (rp_chunks page) \<le> limit"
        "rp_returned_bytes page \<le> mb"
        "rp_next_seq page = map_option oc_seq (case rest of [] \<Rightarrow> None | r # _ \<Rightarrow> Some r)"
        "rp_truncated page \<longleftrightarrow> rest \<noteq> []"
      by blast
    then show ?thesis by (intro exI [of _ "c # taken"] exI [of _ rest]) auto
  qed
qed

lemma filter_from_cursor:
  assumes "sorted_wrt (<) (map oc_seq (taken @ r # rest))"
  shows "filter (\<lambda>c. oc_seq r \<le> oc_seq c) (taken @ r # rest) = r # rest"
  using assms by (auto simp: sorted_wrt_append filter_empty_conv filter_id_conv not_le less_imp_le)

text \<open>
  One page: it answers only readers, and its chunks followed by what the ring holds from the
  returned cursor on are what the ring holds from the requested number on.
\<close>

lemma replay_page_lossless:
  assumes "map_of (sm_sessions m) sid = Some s"
    and "sorted_wrt (<) (map oc_seq (s_replay s))"
    and "replay_from_bounded m sid p from_seq now limit max_bytes = Inr page"
  shows "p \<in> s_readers s
    \<and> length (rp_chunks page) \<le> 256 \<and> chunk_bytes (rp_chunks page) \<le> 262144
    \<and> rp_chunks page @ (case rp_next_seq page of
          None \<Rightarrow> [] | Some n \<Rightarrow> filter (\<lambda>c. n \<le> oc_seq c) (s_replay s)) =
        filter (\<lambda>c. from_seq \<le> oc_seq c) (s_replay s)
    \<and> (rp_truncated page \<longleftrightarrow> rp_next_seq page \<noteq> None)
    \<and> (list_all (\<lambda>c. length (oc_data c) \<le> MAX_CHUNK_BYTES) (s_replay s)
        \<longrightarrow> MAX_CHUNK_BYTES \<le> max_bytes \<longrightarrow> rp_truncated page \<longrightarrow> rp_chunks page \<noteq> [])"
proof -
  let ?tail = "filter (\<lambda>c. from_seq \<le> oc_seq c) (s_replay s)"
  let ?lim = "clamp 1 MAX_REPLAY_PAGE_LIMIT limit" and ?mb = "clamp 1 MAX_REPLAY_PAGE_BYTES max_bytes"
  have page: "page = replay_loop ?lim ?mb ?tail [] 0" and reader: "p \<in> s_readers s"
    using assms(1,3)
    by (auto simp: replay_from_bounded_def and_then_Inr_iff authorize_reader_Inr session_get_def)
  have bounds: "1 \<le> ?lim" "?lim \<le> 256" "?mb \<le> 262144"
    using clamp_bounds [of 1 MAX_REPLAY_PAGE_LIMIT limit] clamp_bounds [of 1 MAX_REPLAY_PAGE_BYTES max_bytes]
    by (simp_all add: MAX_REPLAY_PAGE_LIMIT_def MAX_REPLAY_PAGE_BYTES_def)
  have "0 = chunk_bytes []" "length ([] :: output_chunk list) \<le> ?lim" "0 \<le> ?mb" by simp_all
  from replay_loop_split [OF page this] obtain taken rest where
    tr: "?tail = taken @ rest" "rp_chunks page = [] @ taken"
      "rp_returned_bytes page = chunk_bytes (rp_chunks page)" "length (rp_chunks page) \<le> ?lim"
      "rp_returned_bytes page \<le> ?mb"
      "rp_next_seq page = map_option oc_seq (case rest of [] \<Rightarrow> None | r # _ \<Rightarrow> Some r)"
      "rp_truncated page \<longleftrightarrow> rest \<noteq> []"
      "taken = [] \<and> rest \<noteq> [] \<longrightarrow> ?lim \<le> length ([] :: output_chunk list)
         \<or> ?mb < 0 + length (oc_data (hd rest))"
    by blast
  have "taken @ (case rp_next_seq page of
      None \<Rightarrow> [] | Some n \<Rightarrow> filter (\<lambda>c. n \<le> oc_seq c) (s_replay s)) = ?tail"
  proof (cases rest)
    case (Cons r rs)
    have "from_seq \<le> oc_seq r" using arg_cong [OF tr(1), of set] Cons by auto
    then have "filter (\<lambda>c. oc_seq r \<le> oc_seq c) (s_replay s) = filter (\<lambda>c. oc_seq r \<le> oc_seq c) ?tail"
      by (auto intro: filter_cong)
    also have "\<dots> = r # rs"
      using sorted_wrt_filter [OF assms(2)[unfolded sorted_wrt_map], of "\<lambda>c. from_seq \<le> oc_seq c"]
      unfolding tr(1) Cons by (intro filter_from_cursor) (simp only: sorted_wrt_map)
    finally show ?thesis using tr(1,6) Cons by simp
  qed (use tr in simp)
  moreover have "rp_truncated page \<longrightarrow> taken \<noteq> []"
    if "list_all (\<lambda>c. length (oc_data c) \<le> MAX_CHUNK_BYTES) (s_replay s)" "MAX_CHUNK_BYTES \<le> max_bytes"
  proof -
    have "length (oc_data (hd rest)) \<le> ?mb" if "rest \<noteq> []"
    proof -
      have "hd rest \<in> set ?tail" unfolding tr(1) using that by simp
      then have "hd rest \<in> set (s_replay s)" by simp
      with \<open>list_all _ _\<close> have "length (oc_data (hd rest)) \<le> MAX_CHUNK_BYTES"
        by (auto simp: list_all_iff)
      then show ?thesis
        using \<open>MAX_CHUNK_BYTES \<le> max_bytes\<close>
        by (auto simp: clamp_def MAX_CHUNK_BYTES_def MAX_REPLAY_PAGE_BYTES_def)
    qed
    with tr(7,8) bounds(1) show ?thesis by auto
  qed
  ultimately show ?thesis
    using reader bounds tr by (auto split: list.splits)
qed

section \<open>The numbers of the ring\<close>

text \<open>After \<open>n\<close> operations: the numbers increase and are below the next one, which has not wrapped.\<close>

definition numbered :: "nat \<Rightarrow> session \<Rightarrow> bool" where
  "numbered n s \<longleftrightarrow>
     sorted_wrt (<) (map oc_seq (s_replay s))
   \<and> list_all (\<lambda>c. oc_seq c < si_next_seq s \<and> length (oc_data c) \<le> MAX_CHUNK_BYTES) (s_replay s)
   \<and> unat (si_next_seq s) \<le> n + 1"

lemma trim_bytes_suffix: "\<exists>dropped. cs = dropped @ fst (trim_bytes mb cs held)"
  by (induction mb cs held rule: trim_bytes.induct) (auto simp: Cons_eq_append_conv)

lemma trim_count_suffix: "\<exists>dropped. cs = dropped @ fst (trim_count limit cs held)"
  by (induction limit cs held rule: trim_count.induct) (auto simp: Cons_eq_append_conv)

lemma trim_ring_suffix: "\<exists>dropped. s_replay s = dropped @ s_replay (trim_ring mb s)"
  and trim_ring_next: "si_next_seq (trim_ring mb s) = si_next_seq s"
proof -
  obtain cs b where c: "trim_count (s_replay_limit s) (s_replay s) (s_replay_bytes s) = (cs, b)" by fastforce
  obtain cs' b' where d: "trim_bytes mb cs b = (cs', b')" by fastforce
  obtain x y where "s_replay s = x @ cs" "cs = y @ cs'"
    using trim_count_suffix [of "s_replay s" "s_replay_limit s" "s_replay_bytes s"] trim_bytes_suffix [of cs mb b] c d by auto
  then show "\<exists>dropped. s_replay s = dropped @ s_replay (trim_ring mb s)" "si_next_seq (trim_ring mb s) = si_next_seq s"
    using c d by (auto simp: trim_ring_def)
qed

lemma numbered_trim: "numbered n s \<Longrightarrow> numbered n (trim_ring mb s)"
  using trim_ring_suffix [of s mb] trim_ring_next [of mb s]
  by (auto simp: numbered_def sorted_wrt_append)

lemma numbered_mono: "numbered n s \<Longrightarrow> n \<le> n' \<Longrightarrow> numbered n' s"
  by (auto simp: numbered_def)

lemma numbered_snoc:
  assumes "numbered n s" and "n + 2 < 2 ^ 64" and "length data \<le> MAX_CHUNK_BYTES"
    and "s_replay s' = s_replay s @ [\<lparr>oc_seq = si_next_seq s, oc_data = data, oc_stream = k\<rparr>]"
    and "si_next_seq s' = si_next_seq s + 1"
  shows "numbered (Suc n) s'"
proof -
  have u: "unat (si_next_seq s) + 1 < 2 ^ 64" using assms(1,2) by (simp add: numbered_def)
  then have inc: "unat (si_next_seq s + 1) = unat (si_next_seq s) + 1" by (simp add: unat_word_ariths)
  have "c < si_next_seq s + 1" if "c < si_next_seq s \<or> c = si_next_seq s" for c
    using that inc by (auto simp: word_less_nat_alt)
  with assms inc show ?thesis by (auto simp: numbered_def sorted_wrt_append list_all_iff)
qed

lemma numbered_untouched:
  "numbered n (snd (s_renew now ttl s)) = numbered n s"
  "numbered n (snd (s_release p now s)) = numbered n s"
  "numbered n (snd (s_set_epoch e s)) = numbered n s"
  "numbered n (snd (s_attach_observer p now s)) = numbered n s"
  "numbered n (snd (s_claim u ttl p now s)) = numbered n s"
  "numbered n (snd (s_give u ttl p q now s)) = numbered n s"
  "numbered n (snd (s_set_expires t s)) = numbered n s"
  "numbered n (snd (s_expire now s)) = numbered n s"
  by (simp_all add: numbered_def s_renew_def s_release_def s_set_epoch_def s_attach_observer_def
      s_claim_def s_give_def s_set_expires_def s_expire_def Let_def split: option.splits)

lemma numbered_untouched_fields:
  "numbered n (snd (s_reserve q d kind input s)) = numbered n s"
  "numbered n (snd (s_finalize q kind input s)) = numbered n s"
  "numbered n (snd (s_resize cols rows s)) = numbered n s"
  "numbered n (snd (s_reconcile p l e t att s)) = numbered n s"
  "numbered n (snd (s_close s)) = numbered n s"
  "numbered n (s\<lparr>si_view_mode := mode\<rparr>) = numbered n s"
  "numbered n (s\<lparr>si_host_pid := pid\<rparr>) = numbered n s"
  "numbered n (s\<lparr>si_state := st\<rparr>) = numbered n s"
  "numbered n (s\<lparr>si_sidecar_host := b\<rparr>) = numbered n s"
  by (simp_all add: numbered_def s_reserve_def s_finalize_def s_resize_def s_reconcile_def s_close_def
      Let_def)

lemma numbered_push:
  assumes "numbered n s" and "n + 2 < 2 ^ 64" and "length data \<le> MAX_CHUNK_BYTES"
  shows "numbered (Suc n) (snd (s_push_output mb data stream s))"
proof (cases "si_state s = Closed \<or> length data > mb")
  case True
  then show ?thesis using numbered_mono [OF assms(1)] by (auto simp: s_push_output_def)
next
  case False
  then show ?thesis by (auto simp: s_push_output_def Let_def intro!: numbered_trim numbered_snoc [OF assms])
qed

lemma numbered_restart:
  assumes "numbered n s" and "n + 2 < 2 ^ 64"
  shows "numbered (Suc n) (snd (s_mark_detached s))"
proof (cases "si_state s \<noteq> Closed \<and> (si_host_pid s \<noteq> None \<or> si_kind s = Pty)")
  case True
  have "length (''[system] session host disconnected after daemon restart'' @ [CHR 0x0A]) \<le> MAX_CHUNK_BYTES"
    by (simp add: MAX_CHUNK_BYTES_def)
  from numbered_snoc [OF assms this] True show ?thesis by (auto simp: s_mark_detached_def)
next
  case False
  with numbered_mono [OF assms(1)] show ?thesis by (auto simp: s_mark_detached_def)
qed

lemma numbered_enforce: "numbered n s \<Longrightarrow> numbered n (enforce_session_budget dl mb s)"
  unfolding enforce_session_budget_def by (rule numbered_trim) (simp add: numbered_def)

lemma numbered_step:
  "session_step oper k s s' \<Longrightarrow> numbered n s \<Longrightarrow> n + 2 < 2 ^ 64 \<Longrightarrow> numbered (Suc n) s'"
proof (induction rule: session_step.induct)
  case (push data sid stream s max_bytes)
  then show ?case by (rule_tac numbered_push)
next
  case (restart sid s)
  then show ?case by (rule_tac numbered_restart)
next
  case (budgets sid s dl mb)
  then show ?case using numbered_enforce numbered_mono by (meson le_SucI order_refl)
qed (simp_all add: numbered_untouched numbered_untouched_fields, (erule numbered_mono, simp)+)

lemma numbered_run:
  assumes "length ops < 2 ^ 64 - 1" and "(k, s) \<in> set (sm_sessions (foldl exec_op session_manager_new ops))"
  shows "numbered (length ops) s"
  using assms
proof (induction ops arbitrary: k s rule: rev_induct)
  case Nil
  then show ?case by (simp add: session_manager_new_def)
next
  case (snoc oper ops)
  have n: "length ops + 2 < 2 ^ 64" "length ops < 2 ^ 64 - 1" using snoc.prems(1) by simp_all
  have "(k, s) \<in> set (sm_sessions (exec_op (foldl exec_op session_manager_new ops) oper))" using snoc.prems(2) by simp
  from exec_op_session [OF this] show ?case
    unfolding from_step_def
  proof (elim disjE exE conjE)
    assume "(k, s) \<in> set (sm_sessions (foldl exec_op session_manager_new ops))"
    from numbered_mono [OF snoc.IH [OF n(2) this]] show ?thesis by simp
  next
    fix s0
    assume "(k, s0) \<in> set (sm_sessions (foldl exec_op session_manager_new ops))" and st: "session_step oper k s0 s"
    from numbered_step [OF st snoc.IH [OF n(2) this(1)] n(1)] show ?thesis by simp
  next
    assume "fresh_session (sm_default_replay_limit (foldl exec_op session_manager_new ops)) s"
    then show ?thesis by (simp add: fresh_session_def numbered_def)
  qed
qed

section \<open>Following the cursor\<close>

text \<open>
  A client that follows the cursor: it asks from a number on, and goes on from the cursor of each
  page until a page has none.
\<close>

inductive paged :: "(u64 \<Rightarrow> replay_page session_result) \<Rightarrow> u64 \<Rightarrow> replay_page list \<Rightarrow> bool" for ask where
  last: "ask n = Inr page \<Longrightarrow> rp_next_seq page = None \<Longrightarrow> paged ask n [page]"
| more: "ask n = Inr page \<Longrightarrow> rp_next_seq page = Some n' \<Longrightarrow> paged ask n' pages \<Longrightarrow> paged ask n (page # pages)"

lemma paged_unique: "paged ask n pages \<Longrightarrow> paged ask n pages' \<Longrightarrow> pages' = pages"
proof (induction arbitrary: pages' rule: paged.induct)
  case (last n page)
  from last.prems last.hyps show ?case by (cases rule: paged.cases) auto
next
  case (more n page n' pages)
  from more.prems more.hyps(1,2) obtain rest where "pages' = page # rest" "paged ask n' rest" by (cases rule: paged.cases) auto
  with more.IH show ?case by simp
qed

lemma replay_answers:
  assumes "map_of (sm_sessions m) sid = Some s" and "p \<in> s_readers s"
  shows "\<exists>page. replay_from_bounded m sid p n now limit max_bytes = Inr page"
proof -
  have "authorize_reader m sid p now = Inr ()" using assms by (simp add: authorize_reader_Inr)
  with assms(1) show ?thesis by (simp add: replay_from_bounded_def session_get_def)
qed

lemma follow_cursor:
  assumes s: "map_of (sm_sessions m) sid = Some s" "p \<in> s_readers s"
    and ring: "sorted_wrt (<) (map oc_seq (s_replay s))" "list_all (\<lambda>c. length (oc_data c) \<le> MAX_CHUNK_BYTES) (s_replay s)"
    and mb: "MAX_CHUNK_BYTES \<le> max_bytes"
  shows "\<exists>pages. paged (\<lambda>n. replay_from_bounded m sid p n now limit max_bytes) n pages
    \<and> concat (map rp_chunks pages) = filter (\<lambda>c. n \<le> oc_seq c) (s_replay s)
    \<and> list_all (\<lambda>page. length (rp_chunks page) \<le> 256 \<and> chunk_bytes (rp_chunks page) \<le> 262144) pages
    \<and> length pages \<le> Suc (length (filter (\<lambda>c. n \<le> oc_seq c) (s_replay s)))"
proof (induction "length (filter (\<lambda>c. n \<le> oc_seq c) (s_replay s))" arbitrary: n rule: less_induct)
  case less
  let ?ask = "\<lambda>n. replay_from_bounded m sid p n now limit max_bytes"
  let ?from = "\<lambda>n. filter (\<lambda>c. n \<le> oc_seq c) (s_replay s)"
  obtain page where pg: "?ask n = Inr page" using replay_answers [OF s] by blast
  note one = replay_page_lossless [OF s(1) ring(1) pg]
  show ?case
  proof (cases "rp_next_seq page")
    case None
    with one pg show ?thesis by (intro exI [of _ "[page]"]) (auto intro: paged.last)
  next
    case (Some n')
    have split: "rp_chunks page @ ?from n' = ?from n" using one Some by simp
    have "rp_chunks page \<noteq> []" using one Some ring(2) mb by blast
    then have "0 < length (rp_chunks page)" by simp
    with arg_cong [OF split, of length] have shorter: "length (?from n') < length (?from n)" unfolding length_append by linarith
    from less [OF this] obtain pages where pages: "paged ?ask n' pages" "concat (map rp_chunks pages) = ?from n'"
      "list_all (\<lambda>page. length (rp_chunks page) \<le> 256 \<and> chunk_bytes (rp_chunks page) \<le> 262144) pages"
      "length pages \<le> Suc (length (?from n'))" by blast
    have "paged ?ask n (page # pages)" by (rule paged.more [OF pg Some pages(1)])
    moreover have "concat (map rp_chunks (page # pages)) = ?from n" using pages(2) split by simp
    ultimately show ?thesis
      using one pages(3,4) shorter by (intro exI [of _ "page # pages"]) auto
  qed
qed

text \<open>
  C11: Paging through a replay returns everything once.  Take any manager reached from a new one by
  fewer than \<open>2 ^ 64 - 1\<close> operations, a session of it and a reader.  A client that asks from any
  number on with a byte limit of at least one maximal chunk (64 KiB), and follows the cursor of each
  page, comes to an end after at most one page more than there are chunks; the pages, each of at
  most 256 chunks and 256 KiB, together hold exactly the chunks that the ring retains from that number
  on, in order.
\<close>

theorem paging_returns_the_whole_ring:
  assumes "length ops < 2 ^ 64 - 1" and "m = foldl exec_op session_manager_new ops"
    and "map_of (sm_sessions m) sid = Some s" and "p \<in> s_readers s" and "MAX_CHUNK_BYTES \<le> max_bytes"
  shows "\<exists>pages. (\<forall>pages'. paged (\<lambda>n. replay_from_bounded m sid p n now limit max_bytes) from_seq pages' \<longleftrightarrow> pages' = pages)
    \<and> concat (map rp_chunks pages) = filter (\<lambda>c. from_seq \<le> oc_seq c) (s_replay s)
    \<and> list_all (\<lambda>page. length (rp_chunks page) \<le> 256 \<and> chunk_bytes (rp_chunks page) \<le> 262144) pages
    \<and> length pages \<le> Suc (length (filter (\<lambda>c. from_seq \<le> oc_seq c) (s_replay s)))"
proof -
  have "numbered (length ops) s" using numbered_run [OF assms(1)] assms(2,3) by (blast dest: map_of_SomeD)
  then have "sorted_wrt (<) (map oc_seq (s_replay s))" "list_all (\<lambda>c. length (oc_data c) \<le> MAX_CHUNK_BYTES) (s_replay s)"
    by (auto simp: numbered_def list_all_iff)
  from follow_cursor [OF assms(3,4) this assms(5), of now limit from_seq] obtain pages where p:
    "paged (\<lambda>n. replay_from_bounded m sid p n now limit max_bytes) from_seq pages"
    "concat (map rp_chunks pages) = filter (\<lambda>c. from_seq \<le> oc_seq c) (s_replay s)"
    "list_all (\<lambda>page. length (rp_chunks page) \<le> 256 \<and> chunk_bytes (rp_chunks page) \<le> 262144) pages"
    "length pages \<le> Suc (length (filter (\<lambda>c. from_seq \<le> oc_seq c) (s_replay s)))" by blast
  then show ?thesis using paged_unique [OF p(1)] by (intro exI [of _ pages]) blast
qed

definition talk_ops :: "session_op list" where
  "talk_ops =
     [OpOpen ''a'' ''l1'' Pty ''shell'' ''alice'' 1000 None None None None,
      OpPush ''ses_a'' ''xy'' Stdout, OpPush ''ses_a'' ''ab'' Stdout, OpPush ''ses_a'' ''cd'' Stdout]"

definition talk_session :: session where
  "talk_session = session1\<lparr>si_next_seq := 4, s_replay_bytes := 6,
     s_replay := [\<lparr>oc_seq = 1, oc_data = ''xy'', oc_stream = Stdout\<rparr>, \<lparr>oc_seq = 2, oc_data = ''ab'', oc_stream = Stdout\<rparr>,
       \<lparr>oc_seq = 3, oc_data = ''cd'', oc_stream = Stdout\<rparr>]\<rparr>"

lemma talked: "foldl exec_op session_manager_new talk_ops = mgr1\<lparr>sm_sessions := [(''ses_a'', talk_session)]\<rparr>"
proof -
  have 1: "exec_op session_manager_new (OpOpen ''a'' ''l1'' Pty ''shell'' ''alice'' 1000 None None None None) = mgr1"
    using mgr1_opened by (simp add: open_session_def)
  show ?thesis unfolding talk_ops_def foldl.simps 1
    by (simp add: talk_session_def push_output_def MAX_CHUNK_BYTES_def with_session_def s_push_output_def
        mgr1_def session1_def session_manager_new_def MAX_REPLAY_BYTES_def trim_ring_def Let_def)
qed

theorem paging_returns_the_whole_ring_witness:
  "\<exists>pages. paged (\<lambda>n. replay_from_bounded (foldl exec_op session_manager_new talk_ops) ''ses_a'' ''alice'' n 1000 1 65536) 2 pages
     \<and> concat (map oc_data (concat (map rp_chunks pages))) = ''abcd'' \<and> length pages \<le> 3"
proof -
  let ?m = "foldl exec_op session_manager_new talk_ops"
  have s: "map_of (sm_sessions ?m) ''ses_a'' = Some talk_session" "''alice'' \<in> s_readers talk_session"
    "map oc_data (filter (\<lambda>c. 2 \<le> oc_seq c) (s_replay talk_session)) = [''ab'', ''cd'']"
    unfolding talked by (simp_all add: talk_session_def session1_def s_readers_def word_le_nat_alt)
  have len: "length (filter (\<lambda>c. 2 \<le> oc_seq c) (s_replay talk_session)) = 2" using arg_cong [OF s(3), of length] by simp
  have n: "length talk_ops < 2 ^ 64 - 1" by (simp add: talk_ops_def)
  have mb: "MAX_CHUNK_BYTES \<le> 65536" by (simp add: MAX_CHUNK_BYTES_def)
  from paging_returns_the_whole_ring [OF n refl s(1,2) mb, of 1000 1 2] obtain pages where
    "paged (\<lambda>n. replay_from_bounded ?m ''ses_a'' ''alice'' n 1000 1 65536) 2 pages"
    "concat (map rp_chunks pages) = filter (\<lambda>c. 2 \<le> oc_seq c) (s_replay talk_session)" "length pages \<le> 3"
    unfolding len by auto
  with s(3) show ?thesis by (intro exI [of _ pages]) simp
qed

end
