(* ===== verification/OM_Bytes.thy ===== *)
theory OM_Bytes
  imports OM_Prelude
begin

text \<open>
  Byte-level encodings of the standard library: big-endian integers (\<open>to_be_bytes\<close>,
  \<open>from_be_bytes\<close>), decimal rendering, and strings as bytes.
\<close>

section \<open>Big-endian integers\<close>

fun be_encode :: "nat \<Rightarrow> nat \<Rightarrow> bytes" where
  "be_encode 0 x = []"
| "be_encode (Suc k) x = be_encode k (x div 256) @ [of_nat (x mod 256)]"

definition be_decode :: "bytes \<Rightarrow> nat" where
  "be_decode bs = foldl (\<lambda>a b. a * 256 + unat b) 0 bs"

lemma length_be_encode [simp]: "length (be_encode k x) = k"
  by (induction k arbitrary: x) auto

lemma be_decode_snoc [simp]: "be_decode (bs @ [b]) = be_decode bs * 256 + unat b"
  by (simp add: be_decode_def)

lemma be_decode_Nil [simp]: "be_decode [] = 0"
  by (simp add: be_decode_def)

lemma unat_byte [simp]: "unat (of_nat (x mod 256) :: u8) = x mod 256"
  by (simp add: unat_of_nat)

lemma be_decode_encode: "x < 256 ^ k \<Longrightarrow> be_decode (be_encode k x) = x"
proof (induction k arbitrary: x)
  case (Suc k)
  then have "x div 256 < 256 ^ k" by (simp add: less_mult_imp_div_less mult.commute)
  with Suc.IH show ?case by simp
qed simp

lemma be_encode_decode: "be_encode (length bs) (be_decode bs) = bs"
proof (induction bs rule: rev_induct)
  case (snoc b bs)
  have b: "unat b < 256" using unsigned_less [of b, where 'a = nat] by simp
  then have "(be_decode bs * 256 + unat b) div 256 = be_decode bs"
    "(be_decode bs * 256 + unat b) mod 256 = unat b" by simp_all
  with snoc show ?case by simp
qed simp

lemma be_decode_less: "be_decode bs < 256 ^ length bs"
proof (induction bs rule: rev_induct)
  case (snoc b bs)
  have "unat b < 256" using unsigned_less [of b, where 'a = nat] by simp
  with snoc have "be_decode bs * 256 + unat b < (be_decode bs + 1) * 256" by simp
  also have "\<dots> \<le> 256 ^ length bs * 256" using snoc by (intro mult_right_mono) simp_all
  finally show ?case by (simp add: mult.commute)
qed simp

section \<open>Decimal rendering\<close>

lemma dec_step: "dec n = (if n < 10 then [] else dec (n div 10)) @ [char_of (n mod 10 + 48)]"
  by (subst dec.simps) simp

lemma dec_not_Nil [simp]: "dec n \<noteq> []"
  by (subst dec_step) simp

lemma dec_digits: "c \<in> set (dec n) \<Longrightarrow> is_ascii_digit c"
proof (induction n rule: dec.induct)
  case (1 n)
  have "n mod 10 < 10" by simp
  then have "is_ascii_digit (char_of (n mod 10 + 48))" by (simp add: is_ascii_digit_def)
  with 1 show ?case by (subst (asm) dec_step) (auto split: if_splits)
qed

fun undec :: "string \<Rightarrow> nat" where
  "undec s = foldl (\<lambda>a c. a * 10 + (of_char c - 48)) 0 s"

lemma undec_dec [simp]: "undec (dec n) = n"
proof (induction n rule: dec.induct)
  case (1 n)
  have "n mod 10 < 10" by simp
  then have "of_char (char_of (n mod 10 + 48) :: char) = n mod 10 + 48" by simp
  with 1 show ?case by (subst dec_step) (auto simp: div_mult_mod_eq)
qed

lemma dec_inj [simp]: "dec m = dec n \<longleftrightarrow> m = n"
  by (metis undec_dec)

section \<open>Strings as bytes\<close>

definition as_bytes :: "string \<Rightarrow> bytes" where
  "as_bytes = map of_char"

lemma unat_of_char: "unat (of_char c :: u8) = of_char c"
proof -
  have "(of_char c :: u8) = of_nat (of_char c)" by (simp add: of_nat_of_char)
  then show ?thesis by (simp add: unat_of_nat of_char_mod_256)
qed

lemma of_char_word_inj: "(of_char c :: u8) = of_char d \<longleftrightarrow> c = d"
  by (metis of_char_eq_iff unat_of_char)

lemma as_bytes_inj: "as_bytes s = as_bytes t \<longleftrightarrow> s = t"
  unfolding as_bytes_def by (metis (mono_tags, lifting) inj_map_eq_map inj_onI of_char_word_inj)

lemma split_at_colon:
  assumes "a @ CHR '':'' # r = b @ CHR '':'' # s"
    and "\<And>c. c \<in> set a \<Longrightarrow> c \<noteq> CHR '':''" and "\<And>c. c \<in> set b \<Longrightarrow> c \<noteq> CHR '':''"
  shows "a = b \<and> r = s"
  using assms
proof (induction a arbitrary: b)
  case Nil
  then show ?case by (cases b) auto
next
  case (Cons x a)
  then show ?case by (cases b) auto
qed

lemma dec_no_colon: "c \<in> set (dec n) \<Longrightarrow> c \<noteq> CHR '':''"
  using dec_digits [of c n] by (auto simp: is_ascii_digit_def)

end
