(* ===== verification/Transfer_Data.thy ===== *)
theory Transfer_Data
  imports OM_Bytes OM_Path OM_Interfaces
begin

text \<open>
  File transfer, \<open>crates/ownmesh-transfer/src/lib.rs\<close>: bindings, grants, immutable plans, the
  chunk frame, and the sender and receiver of one transfer.

  \<^item> The functions of the \<open>sha2\<close> and \<open>hex\<close> crates are the fields of a record \<open>crypto\<close> that the
    definitions take as an argument; \<open>crypto_laws\<close> is what their documentation promises.  A
    rolling \<open>Sha256\<close> hasher is the list of bytes it has been fed, since \<open>finalize\<close> is the
    digest of the concatenation.
  \<^item> \<open>now_unix()\<close> is an argument.
  \<^item> A \<open>File\<close> is its content, its position, whether it is a regular file, and the I/O error the
    device reports, if any.
\<close>

section \<open>Errors and the libraries\<close>

datatype transfer_error =
    LegacySurfaceDisabled
  | InvalidBinding string
  | InvalidPlan string
  | SourceChanged
  | CustodyUnavailable
  | PlatformUnsupported
  | QuotaExceeded
  | ChunkTooLarge
  | MalformedChunk
  | ChunkHashMismatch
  | Replay
  | Gap
  | Overflow
  | HashMismatch
  | DestinationExists
  | DestinationMissing
  | DestinationHashMismatch string string
  | Terminal
  | LeaseBusy
  | CorruptJournal
  | JournalQuotaExceeded
  | StaleFence
  | Io string
  | Sink string

text \<open>The text of an error, \<open>Display\<close> as derived by \<open>thiserror\<close> from the attributes.\<close>

fun error_text :: "transfer_error \<Rightarrow> string" where
  "error_text LegacySurfaceDisabled = ''legacy transfer surface is disabled''"
| "error_text (InvalidBinding m) = ''invalid transfer binding: '' @ m"
| "error_text (InvalidPlan m) = ''invalid transfer plan: '' @ m"
| "error_text SourceChanged = ''source changed while transfer was being prepared or read''"
| "error_text CustodyUnavailable =
     ''source or destination custody is unavailable on this platform''"
| "error_text PlatformUnsupported =
     ''restricted transfer publication is unsupported on this platform''"
| "error_text QuotaExceeded = ''source exceeds the configured transfer quota''"
| "error_text ChunkTooLarge = ''chunk exceeds the 64 KiB limit''"
| "error_text MalformedChunk = ''malformed chunk''"
| "error_text ChunkHashMismatch = ''chunk hash mismatch''"
| "error_text Replay = ''chunk sequence replayed''"
| "error_text Gap = ''chunk sequence or offset has a gap''"
| "error_text Overflow = ''checked arithmetic overflow''"
| "error_text HashMismatch = ''final content hash mismatch''"
| "error_text DestinationExists = ''destination already exists''"
| "error_text DestinationMissing =
     ''destination is missing; overwrite_expected_sha256 requires an existing file''"
| "error_text (DestinationHashMismatch expected actual) =
     ''destination hash mismatch: expected '' @ expected @ '', observed '' @ actual"
| "error_text Terminal = ''transfer is in a terminal state''"
| "error_text LeaseBusy = ''transfer lease is held by another owner''"
| "error_text CorruptJournal = ''journal is corrupt or exceeds its byte budget''"
| "error_text JournalQuotaExceeded = ''journal quota exceeded''"
| "error_text StaleFence = ''journal lease or fence is stale''"
| "error_text (Io m) = ''io: '' @ m"
| "error_text (Sink m) = ''sink: '' @ m"

type_synonym 'a transfer_result = "(transfer_error, 'a) result"

record crypto =
  cr_sha256 :: "bytes \<Rightarrow> bytes"
  cr_hex_encode :: "bytes \<Rightarrow> string"
  cr_hex_decode :: "string \<Rightarrow> bytes option"

text \<open>
  \<open>Sha256::digest\<close> returns 32 bytes; \<open>hex::encode\<close> writes two lower-case hexadecimal digits per
  byte and \<open>hex::decode\<close> reads them back.
\<close>

definition lower_hex :: "char \<Rightarrow> bool" where
  "lower_hex c \<longleftrightarrow> is_ascii_hexdigit c \<and> \<not> is_ascii_uppercase c"

definition crypto_laws :: "crypto \<Rightarrow> bool" where
  "crypto_laws H \<longleftrightarrow>
     (\<forall>b. length (cr_sha256 H b) = 32)
   \<and> (\<forall>b. length (cr_hex_encode H b) = 2 * length b)
   \<and> (\<forall>b. list_all lower_hex (cr_hex_encode H b))
   \<and> (\<forall>b. cr_hex_decode H (cr_hex_encode H b) = Some b)"

definition hash_bytes :: "crypto \<Rightarrow> bytes \<Rightarrow> string" where
  "hash_bytes H b = cr_hex_encode H (cr_sha256 H b)"

definition MAX_CHUNK_BYTES :: nat where "MAX_CHUNK_BYTES = 64 * 1024"

definition SHA256_HEX_LEN :: nat where "SHA256_HEX_LEN = 64"

definition JOURNAL_SCHEMA :: u8 where "JOURNAL_SCHEMA = 1"

section \<open>Validation of fields\<close>

definition valid_id :: "string \<Rightarrow> string \<Rightarrow> unit transfer_result" where
  "valid_id value field =
     (if value = [] \<or> length value > 256 \<or> list_ex is_ascii_control value
      then Inl (InvalidBinding field) else Inr ())"

definition validate_hash :: "string \<Rightarrow> string \<Rightarrow> unit transfer_result" where
  "validate_hash value field =
     (if length value \<noteq> SHA256_HEX_LEN \<or> \<not> list_all is_ascii_hexdigit value
         \<or> list_ex is_ascii_uppercase value
      then Inl (InvalidPlan field) else Inr ())"

definition validate_relative_path :: "string \<Rightarrow> string \<Rightarrow> unit transfer_result" where
  "validate_relative_path value field =
     (if value = [] \<or> length value > 4096 \<or> CHR 0x00 \<in> set value then Inl (InvalidBinding field)
      else if is_absolute value
           \<or> list_ex (\<lambda>c. c = ParentDir \<or> c = RootDir) (components value)
      then Inl (InvalidBinding field)
      else Inr ())"

text \<open>
  A reader is the list of what its successive \<open>read\<close> calls return: an error, or some bytes,
  with no bytes at the end of the input.
\<close>

type_synonym reader = "(string, bytes) result list"

fun hash_reader :: "crypto \<Rightarrow> u64 \<Rightarrow> u64 \<Rightarrow> bytes \<Rightarrow> reader \<Rightarrow> (u64 \<times> string) transfer_result" where
  "hash_reader H max_bytes sofar fed [] = Inr (sofar, hash_bytes H fed)"
| "hash_reader H max_bytes sofar fed (Inl e # rest) = Inl (Io e)"
| "hash_reader H max_bytes sofar fed (Inr piece # rest) =
     (if piece = [] then Inr (sofar, hash_bytes H fed)
      else if length piece \<ge> 2 ^ 64 then Inl Overflow
      else case checked_add sofar (of_nat (length piece)) of
             None \<Rightarrow> Inl Overflow
           | Some n \<Rightarrow>
               if n > max_bytes then Inl QuotaExceeded
               else hash_reader H max_bytes n (fed @ piece) rest)"

section \<open>Bindings, grants and plans\<close>

record transfer_binding =
  tb_tenant_id :: string
  tb_source_principal_id :: string
  tb_destination_principal_id :: string
  tb_source_device_id :: string
  tb_destination_device_id :: string
  tb_source_workspace_id :: string
  tb_destination_workspace_id :: string
  tb_source_relative_path :: string
  tb_destination_relative_path :: string

definition binding_validate :: "transfer_binding \<Rightarrow> unit transfer_result" where
  "binding_validate b =
     and_then (try_each (\<lambda>(v, n). valid_id v n)
       [(tb_tenant_id b, ''tenant_id''),
        (tb_source_principal_id b, ''source_principal_id''),
        (tb_destination_principal_id b, ''destination_principal_id''),
        (tb_source_device_id b, ''source_device_id''),
        (tb_destination_device_id b, ''destination_device_id''),
        (tb_source_workspace_id b, ''source_workspace_id''),
        (tb_destination_workspace_id b, ''destination_workspace_id'')]) (\<lambda>_.
     if tb_source_device_id b = tb_destination_device_id b
        \<and> tb_source_workspace_id b = tb_destination_workspace_id b
        \<and> tb_source_relative_path b = tb_destination_relative_path b
     then Inl (InvalidBinding ''source and destination are identical'')
     else
       and_then (validate_relative_path (tb_source_relative_path b) ''source_relative_path'') (\<lambda>_.
       validate_relative_path (tb_destination_relative_path b) ''destination_relative_path''))"

record transfer_grant =
  xg_grant_id :: string
  xg_operation_id :: string
  xg_payload_sha256 :: string
  xg_expires_at_unix :: u64

definition grant_validate :: "transfer_grant \<Rightarrow> unit transfer_result" where
  "grant_validate g =
     and_then (valid_id (xg_grant_id g) ''grant_id'') (\<lambda>_.
     and_then (valid_id (xg_operation_id g) ''operation_id'') (\<lambda>_.
     and_then (validate_hash (xg_payload_sha256 g) ''grant payload_sha256'') (\<lambda>_.
     if xg_expires_at_unix g = 0 then Inl (InvalidBinding ''grant expiry'') else Inr ())))"

definition grant_validate_at :: "transfer_grant \<Rightarrow> u64 \<Rightarrow> unit transfer_result" where
  "grant_validate_at g now_unix =
     and_then (grant_validate g) (\<lambda>_.
     if xg_expires_at_unix g \<le> now_unix then Inl (InvalidPlan ''expired transfer grant'')
     else Inr ())"

record transfer_plan =
  tp_id :: string
  tp_binding :: transfer_binding
  tp_grant :: transfer_grant
  tp_size_bytes :: u64
  tp_sha256 :: string
  tp_plan_sha256 :: string
  tp_overwrite_expected_sha256 :: "string option"

text \<open>The canonical string: every field with its length in front, then the expiry.\<close>

definition length_prefixed :: "string \<Rightarrow> string" where
  "length_prefixed v = dec (length v) @ '':'' @ v @ ''|''"

definition canonical_fields ::
  "transfer_binding \<Rightarrow> transfer_grant \<Rightarrow> u64 \<Rightarrow> string \<Rightarrow> string list" where
  "canonical_fields b g size_bytes sha256 =
     [tb_tenant_id b, tb_source_principal_id b, tb_destination_principal_id b,
      tb_source_device_id b, tb_destination_device_id b, tb_source_workspace_id b,
      tb_destination_workspace_id b, tb_source_relative_path b, tb_destination_relative_path b,
      xg_grant_id g, xg_operation_id g, xg_payload_sha256 g, dec (unat size_bytes), sha256]"

definition canonical ::
  "transfer_binding \<Rightarrow> transfer_grant \<Rightarrow> u64 \<Rightarrow> string \<Rightarrow> string" where
  "canonical b g size_bytes sha256 =
     concat (map length_prefixed (canonical_fields b g size_bytes sha256))
       @ dec (unat (xg_expires_at_unix g))"

definition from_verified ::
  "crypto \<Rightarrow> transfer_binding \<Rightarrow> transfer_grant \<Rightarrow> u64 \<Rightarrow> string \<Rightarrow> transfer_plan transfer_result" where
  "from_verified H b g size_bytes sha256 =
     and_then (binding_validate b) (\<lambda>_.
     and_then (grant_validate g) (\<lambda>_.
     and_then (validate_hash sha256 ''content sha256'') (\<lambda>_.
     let plan_sha256 = hash_bytes H (as_bytes (canonical b g size_bytes sha256))
     in Inr \<lparr>tp_id = ''xfer_'' @ take 32 plan_sha256, tp_binding = b, tp_grant = g,
             tp_size_bytes = size_bytes, tp_sha256 = sha256, tp_plan_sha256 = plan_sha256,
             tp_overwrite_expected_sha256 = None\<rparr>)))"

definition plan_validate :: "crypto \<Rightarrow> transfer_plan \<Rightarrow> unit transfer_result" where
  "plan_validate H p =
     and_then (from_verified H (tp_binding p) (tp_grant p) (tp_size_bytes p) (tp_sha256 p)) (\<lambda>expected.
     if tp_id p \<noteq> tp_id expected \<or> tp_plan_sha256 p \<noteq> tp_plan_sha256 expected
     then Inl (InvalidPlan ''plan binding digest'')
     else case tp_overwrite_expected_sha256 p of
            Some hash \<Rightarrow> validate_hash hash ''overwrite_expected_sha256''
          | None \<Rightarrow> Inr ())"

definition plan_validate_at :: "crypto \<Rightarrow> transfer_plan \<Rightarrow> u64 \<Rightarrow> unit transfer_result" where
  "plan_validate_at H p now_unix =
     and_then (plan_validate H p) (\<lambda>_. grant_validate_at (tp_grant p) now_unix)"

definition with_overwrite_expected_sha256 ::
  "transfer_plan \<Rightarrow> string option \<Rightarrow> transfer_plan transfer_result" where
  "with_overwrite_expected_sha256 p hash =
     and_then (case hash of Some v \<Rightarrow> validate_hash v ''overwrite_expected_sha256'' | None \<Rightarrow> Inr ())
       (\<lambda>_. Inr (p\<lparr>tp_overwrite_expected_sha256 := hash\<rparr>))"

section \<open>Files\<close>

record fs_file =
  fl_data :: bytes
  fl_pos :: nat
  fl_regular :: bool
  fl_fault :: "string option"

text \<open>A read into a 64 KiB buffer returns the next block of the content.\<close>

function pieces :: "bytes \<Rightarrow> bytes list" where
  "pieces bs = (if bs = [] then [] else take MAX_CHUNK_BYTES bs # pieces (drop MAX_CHUNK_BYTES bs))"
  by pat_completeness auto
termination
  by (relation "measure length") (auto simp: MAX_CHUNK_BYTES_def)

declare pieces.simps [simp del]

definition file_reader :: "fs_file \<Rightarrow> reader" where
  "file_reader f =
     (case fl_fault f of
        Some e \<Rightarrow> [Inl e]
      | None \<Rightarrow> map Inr (pieces (drop (fl_pos f) (fl_data f))))"

definition metadata_len :: "fs_file \<Rightarrow> u64 transfer_result" where
  "metadata_len f =
     (case fl_fault f of Some e \<Rightarrow> Inl (Io e) | None \<Rightarrow> Inr (of_nat (length (fl_data f))))"

definition validate_retained_file :: "fs_file \<Rightarrow> unit transfer_result" where
  "validate_retained_file f =
     (case fl_fault f of
        Some e \<Rightarrow> Inl (Io e)
      | None \<Rightarrow> if fl_regular f then Inr () else Inl CustodyUnavailable)"

definition read_exact :: "nat \<Rightarrow> fs_file \<Rightarrow> (string option, bytes) result \<times> fs_file" where
  "read_exact n f =
     (case fl_fault f of
        Some e \<Rightarrow> (Inl (Some e), f)
      | None \<Rightarrow>
          let rest = drop (fl_pos f) (fl_data f)
          in if length rest < n then (Inl None, f\<lparr>fl_pos := length (fl_data f)\<rparr>)
             else (Inr (take n rest), f\<lparr>fl_pos := fl_pos f + n\<rparr>))"

text \<open>
  \<open>TransferPlan::for_workspace_source\<close> on the file of an already pinned source handle.
\<close>

definition for_workspace_source ::
  "crypto \<Rightarrow> fs_file \<Rightarrow> transfer_binding \<Rightarrow> transfer_grant \<Rightarrow> u64 \<Rightarrow> u64 \<Rightarrow> transfer_plan transfer_result"
  where
  "for_workspace_source H f b g max_bytes now_unix =
     and_then (binding_validate b) (\<lambda>_.
     and_then (grant_validate g) (\<lambda>_.
     if xg_expires_at_unix g \<le> now_unix \<or> max_bytes = 0
     then Inl (InvalidPlan ''expired grant or zero quota'')
     else
       and_then (hash_reader H max_bytes 0 [] (file_reader f)) (\<lambda>(size_bytes, sha256).
       and_then (metadata_len f) (\<lambda>len.
       if len \<noteq> size_bytes then Inl SourceChanged
       else from_verified H b g size_bytes sha256))))"

section \<open>Chunks\<close>

record transfer_chunk =
  tc_sequence :: u64
  tc_offset :: u64
  tc_bytes :: bytes
  tc_sha256 :: string

definition chunk_validate :: "crypto \<Rightarrow> transfer_chunk \<Rightarrow> unit transfer_result" where
  "chunk_validate H c =
     (if tc_bytes c = [] \<or> length (tc_bytes c) > MAX_CHUNK_BYTES then Inl ChunkTooLarge
      else
        and_then (validate_hash (tc_sha256 c) ''chunk sha256'') (\<lambda>_.
        if tc_sha256 c \<noteq> hash_bytes H (tc_bytes c) then Inl ChunkHashMismatch
        else case checked_add (tc_offset c) (of_nat (length (tc_bytes c))) of
               None \<Rightarrow> Inl Overflow
             | Some _ \<Rightarrow> Inr ()))"

definition chunk_new :: "crypto \<Rightarrow> u64 \<Rightarrow> u64 \<Rightarrow> bytes \<Rightarrow> transfer_chunk transfer_result" where
  "chunk_new H sequence offset b =
     (if b = [] \<or> length b > MAX_CHUNK_BYTES then Inl ChunkTooLarge
      else
        let chunk = \<lparr>tc_sequence = sequence, tc_offset = offset, tc_bytes = b,
                     tc_sha256 = hash_bytes H b\<rparr>
        in and_then (chunk_validate H chunk) (\<lambda>_. Inr chunk))"

definition chunk_encode :: "crypto \<Rightarrow> transfer_chunk \<Rightarrow> bytes transfer_result" where
  "chunk_encode H c =
     and_then (chunk_validate H c) (\<lambda>_.
     if length (tc_bytes c) \<ge> 2 ^ 32 then Inl ChunkTooLarge
     else
       and_then (ok_or MalformedChunk (cr_hex_decode H (tc_sha256 c))) (\<lambda>digest.
       Inr (be_encode 8 (unat (tc_sequence c)) @ be_encode 8 (unat (tc_offset c))
            @ be_encode 4 (length (tc_bytes c)) @ digest @ tc_bytes c)))"

definition chunk_decode :: "crypto \<Rightarrow> bytes \<Rightarrow> transfer_chunk transfer_result" where
  "chunk_decode H frame =
     (if length frame < 52 then Inl MalformedChunk
      else
        let sequence = of_nat (be_decode (take 8 frame));
            offset = of_nat (be_decode (take 8 (drop 8 frame)));
            len = be_decode (take 4 (drop 16 frame))
        in if len = 0 \<or> len > MAX_CHUNK_BYTES \<or> length frame \<noteq> 52 + len then Inl MalformedChunk
           else
             let chunk = \<lparr>tc_sequence = sequence, tc_offset = offset, tc_bytes = drop 52 frame,
                          tc_sha256 = cr_hex_encode H (take 32 (drop 20 frame))\<rparr>
             in and_then (chunk_validate H chunk) (\<lambda>_. Inr chunk))"

section \<open>The sender\<close>

record transfer_sender =
  ts_plan :: transfer_plan
  ts_file :: fs_file
  ts_sequence :: u64
  ts_offset :: u64
  ts_remaining :: u64
  ts_hasher :: bytes
  ts_done :: bool

text \<open>The loop that feeds the hasher with the first \<open>remaining\<close> bytes, a block at a time.\<close>

function hash_prefix :: "nat \<Rightarrow> bytes \<Rightarrow> fs_file \<Rightarrow> (bytes \<times> fs_file) transfer_result" where
  "hash_prefix remaining fed f =
     (if remaining = 0 then Inr (fed, f)
      else
        let want = min remaining MAX_CHUNK_BYTES
        in case read_exact want f of
             (Inl (Some e), f') \<Rightarrow> Inl (Io e)
           | (Inl None, f') \<Rightarrow> Inl (Io ''failed to fill whole buffer'')
           | (Inr b, f') \<Rightarrow> hash_prefix (remaining - want) (fed @ b) f')"
  by pat_completeness auto
termination
  by (relation "measure (\<lambda>(r, fed, f). r)") (auto simp: MAX_CHUNK_BYTES_def)

declare hash_prefix.simps [simp del]

definition from_retained_file ::
  "crypto \<Rightarrow> u64 \<Rightarrow> transfer_plan \<Rightarrow> fs_file \<Rightarrow> u64 \<Rightarrow> u64 \<Rightarrow> transfer_sender transfer_result" where
  "from_retained_file H now plan f sequence offset =
     and_then (plan_validate_at H plan now) (\<lambda>_.
     and_then (validate_retained_file f) (\<lambda>_.
     if offset > tp_size_bytes plan then Inl Overflow
     else
       and_then (hash_reader H (tp_size_bytes plan) 0 [] (file_reader f)) (\<lambda>(size_bytes, digest).
       if size_bytes \<noteq> tp_size_bytes plan \<or> digest \<noteq> tp_sha256 plan then Inl SourceChanged
       else
         and_then (hash_prefix (unat offset) [] (f\<lparr>fl_pos := 0\<rparr>)) (\<lambda>(fed, f').
         and_then (ok_or Overflow (checked_sub (tp_size_bytes plan) offset)) (\<lambda>remaining.
         Inr \<lparr>ts_plan = plan, ts_file = f', ts_sequence = sequence, ts_offset = offset,
              ts_remaining = remaining, ts_hasher = fed, ts_done = False\<rparr>)))))"

text \<open>
  \<open>next_chunk\<close> changes the sender as it goes, so a sender that reported an error has kept what
  it did before the error.
\<close>

definition next_chunk ::
  "crypto \<Rightarrow> u64 \<Rightarrow> transfer_sender \<Rightarrow> transfer_chunk option transfer_result \<times> transfer_sender" where
  "next_chunk H now s =
     (case plan_validate_at H (ts_plan s) now of
        Inl e \<Rightarrow> (Inl e, s)
      | Inr _ \<Rightarrow>
          if ts_done s then (Inr None, s)
          else if ts_remaining s = 0 then
            (if hash_bytes H (ts_hasher s) \<noteq> tp_sha256 (ts_plan s)
             then (Inl SourceChanged, s\<lparr>ts_done := True\<rparr>)
             else (Inr None, s\<lparr>ts_done := True\<rparr>))
          else
            let expected = min (unat (ts_remaining s)) MAX_CHUNK_BYTES;
                (r, f') = read_exact expected (ts_file s);
                s1 = s\<lparr>ts_file := f'\<rparr>
            in case r of
                 Inl None \<Rightarrow> (Inl SourceChanged, s1)
               | Inl (Some e) \<Rightarrow> (Inl (Io e), s1)
               | Inr b \<Rightarrow>
                   let s2 = s1\<lparr>ts_hasher := ts_hasher s @ b\<rparr>
                   in case checked_sub (ts_remaining s) (of_nat expected) of
                        None \<Rightarrow> (Inl Overflow, s2)
                      | Some next_remaining \<Rightarrow>
                          (case chunk_new H (ts_sequence s) (ts_offset s) b of
                             Inl e \<Rightarrow> (Inl e, s2)
                           | Inr chunk \<Rightarrow>
                               (case checked_add (ts_sequence s) 1 of
                                  None \<Rightarrow> (Inl Overflow, s2)
                                | Some q \<Rightarrow>
                                    let s3 = s2\<lparr>ts_sequence := q\<rparr>
                                    in case checked_add (ts_offset s) (of_nat expected) of
                                         None \<Rightarrow> (Inl Overflow, s3)
                                       | Some off \<Rightarrow>
                                           let s4 = s3\<lparr>ts_offset := off, ts_remaining := next_remaining\<rparr>
                                           in if next_remaining = 0
                                                 \<and> hash_bytes H (ts_hasher s4) \<noteq> tp_sha256 (ts_plan s4)
                                              then (Inl SourceChanged, s4)
                                              else (Inr (Some chunk), s4))))"

end
