(* ===== verification/Transfer_Receiver.thy ===== *)
theory Transfer_Receiver
  imports Transfer_Data
begin

text \<open>
  The receiving side of a transfer: the journal, the receiver that accepts one chunk at a time,
  the contract of the sink it writes to, and the private part file that implements it.
\<close>

section \<open>The journal\<close>

datatype journal_state = Pending | Receiving | Cancelled | Failed | Completed | Published

definition terminal :: "journal_state \<Rightarrow> bool" where
  "terminal st \<longleftrightarrow> st \<in> {Cancelled, Failed, Completed, Published}"

record transfer_journal =
  tj_schema :: u8
  tj_plan_id :: string
  tj_plan_sha256 :: string
  tj_owner_id :: string
  tj_epoch :: u64
  tj_fence :: u64
  tj_state :: journal_state
  tj_contiguous_ack :: "u64 option"
  tj_bytes_received :: u64
  tj_expires_at_unix :: u64
  tj_published_size :: "u64 option"
  tj_published_sha256 :: "string option"

definition journal_fresh ::
  "transfer_plan \<Rightarrow> string \<Rightarrow> u64 \<Rightarrow> u64 \<Rightarrow> u64 \<Rightarrow> transfer_journal transfer_result" where
  "journal_fresh plan owner_id epoch fence expires_at_unix =
     and_then (valid_id owner_id ''journal owner'') (\<lambda>_.
     if epoch = 0 \<or> fence = 0 then Inl StaleFence
     else Inr \<lparr>tj_schema = JOURNAL_SCHEMA, tj_plan_id = tp_id plan,
               tj_plan_sha256 = tp_plan_sha256 plan, tj_owner_id = owner_id, tj_epoch = epoch,
               tj_fence = fence, tj_state = Pending, tj_contiguous_ack = None,
               tj_bytes_received = 0, tj_expires_at_unix = expires_at_unix,
               tj_published_size = None, tj_published_sha256 = None\<rparr>)"

definition validate_for :: "transfer_journal \<Rightarrow> transfer_plan \<Rightarrow> unit transfer_result" where
  "validate_for j plan =
     (if tj_schema j \<noteq> JOURNAL_SCHEMA \<or> tj_plan_id j \<noteq> tp_id plan
         \<or> tj_plan_sha256 j \<noteq> tp_plan_sha256 plan \<or> tj_epoch j = 0 \<or> tj_fence j = 0
      then Inl CorruptJournal
      else if tj_state j = Published then
        (if tj_published_size j = Some (tp_size_bytes plan)
            \<and> tj_published_sha256 j = Some (tp_sha256 plan)
         then Inr () else Inl CorruptJournal)
      else if tj_published_size j \<noteq> None \<or> tj_published_sha256 j \<noteq> None
      then Inl CorruptJournal
      else Inr ())"

definition mark_published ::
  "transfer_plan \<Rightarrow> transfer_journal \<Rightarrow> unit transfer_result \<times> transfer_journal" where
  "mark_published plan j =
     (if tj_state j \<noteq> Completed \<or> tj_bytes_received j \<noteq> tp_size_bytes plan then (Inl Terminal, j)
      else
        let j' = j\<lparr>tj_state := Published, tj_published_size := Some (tp_size_bytes plan),
                   tj_published_sha256 := Some (tp_sha256 plan)\<rparr>
        in (validate_for j' plan, j'))"

definition validate_room_cursor ::
  "transfer_plan \<Rightarrow> u64 \<Rightarrow> u64 \<Rightarrow> unit transfer_result" where
  "validate_room_cursor plan next_sequence next_offset =
     (if next_offset > tp_size_bytes plan then Inl Gap
      else
        let chunk_bytes = of_nat MAX_CHUNK_BYTES
        in if next_offset < tp_size_bytes plan \<and> next_offset mod chunk_bytes \<noteq> 0 then Inl Gap
           else
             and_then
               (if next_offset = 0 then Inr 0
                else
                  and_then (ok_or Overflow (checked_add next_offset (chunk_bytes - 1))) (\<lambda>n.
                  Inr (n div chunk_bytes)))
               (\<lambda>expected_sequence.
                  if next_sequence \<noteq> expected_sequence then Inl Gap else Inr ()))"

section \<open>Sinks\<close>

text \<open>The trait \<open>ChunkSink\<close>: the methods of a sink with state \<open>'s\<close>.\<close>

record 's chunk_sink =
  so_write_chunk :: "u64 \<Rightarrow> bytes \<Rightarrow> 's \<Rightarrow> (string, unit) result \<times> 's"
  so_finalize :: "'s \<Rightarrow> (string, unit) result \<times> 's"
  so_cancel :: "'s \<Rightarrow> (string, unit) result \<times> 's"

section \<open>The receiver\<close>

record transfer_receiver =
  tr_plan :: transfer_plan
  tr_journal :: transfer_journal
  tr_next_sequence :: u64
  tr_next_offset :: u64
  tr_hasher :: bytes
  tr_in_flight :: bool

definition receiver_new ::
  "crypto \<Rightarrow> u64 \<Rightarrow> transfer_plan \<Rightarrow> string \<Rightarrow> u64 \<Rightarrow> u64 \<Rightarrow> u64 \<Rightarrow> transfer_receiver transfer_result"
  where
  "receiver_new H now plan owner_id epoch fence expires_at_unix =
     and_then (plan_validate_at H plan now) (\<lambda>_.
     and_then (journal_fresh plan owner_id epoch fence expires_at_unix) (\<lambda>journal.
     Inr \<lparr>tr_plan = plan, tr_journal = journal, tr_next_sequence = 0, tr_next_offset = 0,
          tr_hasher = [], tr_in_flight = False\<rparr>))"

definition resume_sequence :: "transfer_journal \<Rightarrow> u64 transfer_result" where
  "resume_sequence j =
     (case tj_contiguous_ack j of
        Some ack \<Rightarrow> ok_or Overflow (checked_add ack 1)
      | None \<Rightarrow> Inr 0)"

definition resume_from_reader ::
  "crypto \<Rightarrow> u64 \<Rightarrow> transfer_plan \<Rightarrow> transfer_journal \<Rightarrow> reader \<Rightarrow> transfer_receiver transfer_result" where
  "resume_from_reader H now plan j rd =
     and_then (plan_validate_at H plan now) (\<lambda>_.
     and_then (validate_for j plan) (\<lambda>_.
     if terminal (tj_state j) then Inl Terminal
     else
       and_then (hash_reader H (tp_size_bytes plan) 0 [] rd) (\<lambda>(n, digest).
       if n \<noteq> tj_bytes_received j then Inl CorruptJournal
       else if n \<noteq> 0 then Inl (InvalidPlan ''resume requires a seekable custody reader'')
       else
         and_then (resume_sequence j) (\<lambda>next_sequence.
         Inr \<lparr>tr_plan = plan, tr_journal = j, tr_next_sequence = next_sequence,
              tr_next_offset = tj_bytes_received j, tr_hasher = [], tr_in_flight = False\<rparr>))))"

text \<open>The part file as \<open>open_owner_only_file_read\<close> finds it, if it does.\<close>

definition resume_from_part ::
  "crypto \<Rightarrow> u64 \<Rightarrow> transfer_plan \<Rightarrow> transfer_journal \<Rightarrow> fs_file option \<Rightarrow> transfer_receiver transfer_result"
  where
  "resume_from_part H now plan j part =
     and_then (plan_validate_at H plan now) (\<lambda>_.
     and_then (ok_or CustodyUnavailable part) (\<lambda>f.
     and_then (metadata_len f) (\<lambda>n.
     if n \<noteq> tj_bytes_received j then Inl CorruptJournal
     else
       and_then (validate_for j plan) (\<lambda>_.
       if terminal (tj_state j) then Inl Terminal
       else
         and_then (resume_sequence j) (\<lambda>next_sequence.
         Inr \<lparr>tr_plan = plan, tr_journal = j, tr_next_sequence = next_sequence,
              tr_next_offset = tj_bytes_received j, tr_hasher = fl_data f,
              tr_in_flight = False\<rparr>)))))"

definition set_state :: "journal_state \<Rightarrow> transfer_receiver \<Rightarrow> transfer_receiver" where
  "set_state st r = r\<lparr>tr_journal := (tr_journal r)\<lparr>tj_state := st\<rparr>\<rparr>"

definition receive ::
  "crypto \<Rightarrow> u64 \<Rightarrow> 's chunk_sink \<Rightarrow> transfer_chunk \<Rightarrow> transfer_receiver \<times> 's \<Rightarrow>
   unit transfer_result \<times> transfer_receiver \<times> 's" where
  "receive H now ops chunk rs =
     (let (r, s) = rs
      in case plan_validate_at H (tr_plan r) now of
           Inl e \<Rightarrow> (Inl e, r, s)
         | Inr _ \<Rightarrow>
      if terminal (tj_state (tr_journal r)) \<or> tr_in_flight r then (Inl Terminal, r, s)
      else case chunk_validate H chunk of
             Inl e \<Rightarrow> (Inl e, r, s)
           | Inr _ \<Rightarrow>
      if tc_sequence chunk < tr_next_sequence r \<or> tc_offset chunk < tr_next_offset r
      then (Inl Replay, r, s)
      else if tc_sequence chunk \<noteq> tr_next_sequence r \<or> tc_offset chunk \<noteq> tr_next_offset r
      then (Inl Gap, r, s)
      else case checked_add (tc_offset chunk) (of_nat (length (tc_bytes chunk))) of
             None \<Rightarrow> (Inl Overflow, r, s)
           | Some end_off \<Rightarrow>
      if end_off > tp_size_bytes (tr_plan r) then (Inl Overflow, r, s)
      else case so_write_chunk ops (tc_offset chunk) (tc_bytes chunk) s of
             (Inl error, s1) \<Rightarrow> (Inl (Sink error), set_state Failed r, snd (so_cancel ops s1))
           | (Inr _, s1) \<Rightarrow>
      let r1 = r\<lparr>tr_in_flight := True, tr_hasher := tr_hasher r @ tc_bytes chunk\<rparr>
      in case checked_add (tr_next_sequence r) 1 of
           None \<Rightarrow> (Inl Overflow, r1, s1)
         | Some q \<Rightarrow>
      let r2 = r1\<lparr>tr_next_sequence := q, tr_next_offset := end_off,
                  tr_journal := (tr_journal r)\<lparr>tj_contiguous_ack := Some (tc_sequence chunk),
                    tj_bytes_received := end_off, tj_state := Receiving\<rparr>,
                  tr_in_flight := False\<rparr>
      in if end_off = tp_size_bytes (tr_plan r) then
           if hash_bytes H (tr_hasher r2) \<noteq> tp_sha256 (tr_plan r)
           then (Inl HashMismatch, set_state Failed r2, snd (so_cancel ops s1))
           else case so_finalize ops s1 of
                  (Inl error, s2) \<Rightarrow>
                    (Inl (Sink error), set_state Failed r2, snd (so_cancel ops s2))
                | (Inr _, s2) \<Rightarrow> (Inr (), set_state Completed r2, s2)
         else (Inr (), r2, s1))"

definition complete_empty ::
  "crypto \<Rightarrow> u64 \<Rightarrow> 's chunk_sink \<Rightarrow> transfer_receiver \<times> 's \<Rightarrow>
   unit transfer_result \<times> transfer_receiver \<times> 's" where
  "complete_empty H now ops rs =
     (let (r, s) = rs
      in case plan_validate_at H (tr_plan r) now of
           Inl e \<Rightarrow> (Inl e, r, s)
         | Inr _ \<Rightarrow>
      if tp_size_bytes (tr_plan r) \<noteq> 0 \<or> terminal (tj_state (tr_journal r))
         \<or> tj_bytes_received (tr_journal r) \<noteq> 0
      then (Inl (InvalidPlan ''empty completion binding''), r, s)
      else if hash_bytes H (tr_hasher r) \<noteq> tp_sha256 (tr_plan r)
      then (Inl HashMismatch, set_state Failed r, s)
      else case so_finalize ops s of
             (Inl error, s1) \<Rightarrow> (Inl (Sink error), set_state Failed r, snd (so_cancel ops s1))
           | (Inr _, s1) \<Rightarrow> (Inr (), set_state Completed r, s1))"

definition receiver_cancel ::
  "crypto \<Rightarrow> u64 \<Rightarrow> 's chunk_sink \<Rightarrow> transfer_receiver \<times> 's \<Rightarrow>
   unit transfer_result \<times> transfer_receiver \<times> 's" where
  "receiver_cancel H now ops rs =
     (let (r, s) = rs
      in case plan_validate_at H (tr_plan r) now of
           Inl e \<Rightarrow> (Inl e, r, s)
         | Inr _ \<Rightarrow>
      if terminal (tj_state (tr_journal r)) then (Inl Terminal, r, s)
      else case so_cancel ops s of
             (Inl error, s1) \<Rightarrow> (Inl (Sink error), r, s1)
           | (Inr _, s1) \<Rightarrow> (Inr (), set_state Cancelled r, s1))"

section \<open>The part file\<close>

text \<open>
  \<open>PartFileSink\<close>.  \<open>pf_part\<close> is the content of the part file, \<open>pf_open\<close> whether the sink still
  has its handle, \<open>pf_removed\<close> whether the file has been removed from the directory;
  \<open>pf_fault\<close> is the error that the next device operation reports and, for a write, how many
  bytes reach the file before it.
\<close>

record part_file_sink =
  pf_part :: bytes
  pf_open :: bool
  pf_removed :: bool
  pf_expected_offset :: u64
  pf_expected_size :: u64
  pf_expected_sha256 :: string
  pf_expires_at_unix :: u64
  pf_closed :: bool
  pf_verified :: bool
  pf_fault :: "(string \<times> nat) option"

definition part_write_chunk ::
  "u64 \<Rightarrow> bytes \<Rightarrow> part_file_sink \<Rightarrow> (string, unit) result \<times> part_file_sink" where
  "part_write_chunk offset b s =
     (if pf_closed s \<or> offset \<noteq> pf_expected_offset s \<or> length b > MAX_CHUNK_BYTES
      then (Inl ''invalid part write'', s)
      else if \<not> pf_open s then (Inl ''closed part'', s)
      else case pf_fault s of
             Some (e, n) \<Rightarrow> (Inl e, s\<lparr>pf_part := pf_part s @ take n b\<rparr>)
           | None \<Rightarrow>
               let s1 = s\<lparr>pf_part := pf_part s @ b\<rparr>
               in case checked_add (pf_expected_offset s) (of_nat (length b)) of
                    None \<Rightarrow> (Inl ''overflow'', s1)
                  | Some off \<Rightarrow> (Inr (), s1\<lparr>pf_expected_offset := off\<rparr>))"

definition part_finalize ::
  "crypto \<Rightarrow> u64 \<Rightarrow> part_file_sink \<Rightarrow> (string, unit) result \<times> part_file_sink" where
  "part_finalize H now s =
     (if pf_expires_at_unix s \<le> now then (Inl ''expired transfer grant'', s)
      else if pf_expected_offset s \<noteq> pf_expected_size s then (Inl ''incomplete part'', s)
      else if \<not> pf_open s then (Inl ''closed part'', s)
      else case pf_fault s of
             Some (e, n) \<Rightarrow> (Inl e, s)
           | None \<Rightarrow>
               (case hash_reader H (pf_expected_size s) 0 [] (map Inr (pieces (pf_part s))) of
                  Inl e \<Rightarrow> (Inl (error_text e), s)
                | Inr (n, sha256) \<Rightarrow>
                    if n \<noteq> pf_expected_size s \<or> sha256 \<noteq> pf_expected_sha256 s
                    then (Inl ''part hash mismatch'', s)
                    else (Inr (), s\<lparr>pf_verified := True\<rparr>)))"

definition part_cancel :: "part_file_sink \<Rightarrow> (string, unit) result \<times> part_file_sink" where
  "part_cancel s =
     (let s1 = s\<lparr>pf_closed := True, pf_open := False\<rparr>
      in if \<not> pf_open s then (Inl ''closed part'', s1)
         else case pf_fault s of
                Some (e, n) \<Rightarrow> (Inl e, s1)
              | None \<Rightarrow> (Inr (), s1\<lparr>pf_removed := True\<rparr>))"

definition part_sink :: "crypto \<Rightarrow> u64 \<Rightarrow> part_file_sink chunk_sink" where
  "part_sink H now =
     \<lparr>so_write_chunk = part_write_chunk, so_finalize = part_finalize H now, so_cancel = part_cancel\<rparr>"

definition validate_cached_position :: "part_file_sink \<Rightarrow> u64 \<Rightarrow> unit transfer_result" where
  "validate_cached_position s expected_offset =
     (if pf_closed s \<or> pf_expected_offset s \<noteq> expected_offset then Inl CorruptJournal
      else if \<not> pf_open s then Inl CustodyUnavailable
      else case pf_fault s of
             Some (e, n) \<Rightarrow> Inl (Io e)
           | None \<Rightarrow>
               if of_nat (length (pf_part s)) \<noteq> expected_offset then Inl CorruptJournal
               else Inr ())"

text \<open>The sink that \<open>PartFileSink::create\<close> returns once the generation's file is staged.\<close>

definition part_opened :: "transfer_plan \<Rightarrow> bytes \<Rightarrow> part_file_sink" where
  "part_opened plan prefix =
     \<lparr>pf_part = prefix, pf_open = True, pf_removed = False,
      pf_expected_offset = of_nat (length prefix), pf_expected_size = tp_size_bytes plan,
      pf_expected_sha256 = tp_sha256 plan,
      pf_expires_at_unix = xg_expires_at_unix (tp_grant plan),
      pf_closed = False, pf_verified = False, pf_fault = None\<rparr>"

end
