(* ===== verification/Transfer_Frames.thy ===== *)
theory Transfer_Frames
  imports Transfer_Data
begin

text \<open>
  The two encodings of a transfer: the binary chunk frame, which decodes to exactly what was
  encoded and has no second encoding, and the canonical string of a plan, which determines
  every field the plan's digest covers.
\<close>

section \<open>The chunk frame\<close>

lemma hash_bytes_valid:
  assumes "crypto_laws H"
  shows "validate_hash (hash_bytes H b) field = Inr ()"
proof -
  have "length (hash_bytes H b) = 64" "list_all lower_hex (hash_bytes H b)"
    using assms by (simp_all add: crypto_laws_def hash_bytes_def)
  then show ?thesis
    by (auto simp: validate_hash_def SHA256_HEX_LEN_def lower_hex_def list_all_iff list_ex_iff)
qed

lemma chunk_validate_ok:
  "chunk_validate H c = Inr () \<longleftrightarrow>
     tc_bytes c \<noteq> [] \<and> length (tc_bytes c) \<le> MAX_CHUNK_BYTES
   \<and> validate_hash (tc_sha256 c) ''chunk sha256'' = Inr ()
   \<and> tc_sha256 c = hash_bytes H (tc_bytes c)
   \<and> checked_add (tc_offset c) (of_nat (length (tc_bytes c))) \<noteq> None"
  by (auto simp: chunk_validate_def and_then_Inr_iff split: option.splits)

lemma chunk_new_ok: "chunk_new H q off b = Inr c \<Longrightarrow> chunk_validate H c = Inr ()"
  by (auto simp: chunk_new_def Let_def and_then_Inr_iff split: if_splits)

lemma chunk_encode_ok:
  assumes "crypto_laws H" and "chunk_validate H c = Inr ()"
  shows "chunk_encode H c =
    Inr (be_encode 8 (unat (tc_sequence c)) @ be_encode 8 (unat (tc_offset c))
         @ be_encode 4 (length (tc_bytes c)) @ cr_sha256 H (tc_bytes c) @ tc_bytes c)"
proof -
  have "cr_hex_decode H (tc_sha256 c) = Some (cr_sha256 H (tc_bytes c))"
    using assms by (simp add: chunk_validate_ok hash_bytes_def crypto_laws_def)
  moreover have "length (tc_bytes c) < 2 ^ 32"
    using assms(2) by (simp add: chunk_validate_ok MAX_CHUNK_BYTES_def)
  ultimately show ?thesis by (simp add: chunk_encode_def assms(2))
qed

lemma be_u64 [simp]: "of_nat (be_decode (be_encode 8 (unat (x :: u64)))) = x"
proof -
  have "unat x < 256 ^ 8" using unsigned_less [of x, where 'a = nat] by simp
  then show ?thesis by (simp add: be_decode_encode)
qed

lemma be_u64_back: "length bs = 8 \<Longrightarrow> be_encode 8 (unat (of_nat (be_decode bs) :: u64)) = bs"
proof -
  assume l: "length bs = 8"
  have "be_decode bs < 2 ^ 64" using be_decode_less [of bs] l by simp
  then have "unat (of_nat (be_decode bs) :: u64) = be_decode bs" by (simp add: unat_of_nat)
  with be_encode_decode [of bs] l show ?thesis by simp
qed

lemma chunk_decode_frame:
  assumes "length (a :: bytes) = 8" and "length b = 8" and "length l = 4" and "length d = 32"
    and "be_decode l = length p" and "p \<noteq> []" and "length p \<le> MAX_CHUNK_BYTES"
  shows "chunk_decode H (a @ b @ l @ d @ p) =
    (let c = \<lparr>tc_sequence = of_nat (be_decode a), tc_offset = of_nat (be_decode b), tc_bytes = p,
              tc_sha256 = cr_hex_encode H d\<rparr>
     in and_then (chunk_validate H c) (\<lambda>_. Inr c))"
  using assms by (simp add: chunk_decode_def Let_def)

lemma frame_split:
  "frame = take 8 frame @ take 8 (drop 8 frame) @ take 4 (drop 16 frame)
     @ take 32 (drop 20 frame) @ drop 52 frame"
proof -
  have "drop 20 frame = take 32 (drop 20 frame) @ drop 52 frame"
    using append_take_drop_id [of 32 "drop 20 frame"] by simp
  moreover have "drop 16 frame = take 4 (drop 16 frame) @ drop 20 frame"
    using append_take_drop_id [of 4 "drop 16 frame"] by simp
  moreover have "drop 8 frame = take 8 (drop 8 frame) @ drop 16 frame"
    using append_take_drop_id [of 8 "drop 8 frame"] by simp
  ultimately show ?thesis using append_take_drop_id [of 8 frame] by metis
qed

lemma chunk_decode_shape:
  assumes "chunk_decode H frame = Inr c"
  obtains a b l d p where "frame = a @ b @ l @ d @ p" and "length a = 8" and "length b = 8"
    and "length l = 4" and "length d = 32" and "be_decode l = length p"
    and "c = \<lparr>tc_sequence = of_nat (be_decode a), tc_offset = of_nat (be_decode b), tc_bytes = p,
              tc_sha256 = cr_hex_encode H d\<rparr>"
    and "chunk_validate H c = Inr ()"
proof
  let ?a = "take 8 frame" and ?b = "take 8 (drop 8 frame)" and ?l = "take 4 (drop 16 frame)"
    and ?d = "take 32 (drop 20 frame)" and ?p = "drop 52 frame"
  let ?c = "\<lparr>tc_sequence = of_nat (be_decode ?a), tc_offset = of_nat (be_decode ?b), tc_bytes = ?p,
             tc_sha256 = cr_hex_encode H ?d\<rparr>"
  have len: "52 \<le> length frame"
    using assms by (cases "length frame < 52") (simp_all add: chunk_decode_def)
  have ok: "\<not> (be_decode ?l = 0 \<or> be_decode ?l > MAX_CHUNK_BYTES \<or> length frame \<noteq> 52 + be_decode ?l)"
  proof
    assume "be_decode ?l = 0 \<or> be_decode ?l > MAX_CHUNK_BYTES \<or> length frame \<noteq> 52 + be_decode ?l"
    with len have "chunk_decode H frame = Inl MalformedChunk"
      unfolding chunk_decode_def Let_def by simp
    with assms show False by simp
  qed
  then have l: "length frame = 52 + be_decode ?l" by blast
  have "\<not> length frame < 52" using len by (simp only: not_less)
  then have "chunk_decode H frame = and_then (chunk_validate H ?c) (\<lambda>_. Inr ?c)"
    unfolding chunk_decode_def Let_def by (simp only: if_not_P [OF ok] if_False)
  moreover define ch where "ch = ?c"
  ultimately have "chunk_validate H ch = Inr () \<and> ch = c"
    using assms by (cases "chunk_validate H ch") auto
  then have c: "c = ?c" "chunk_validate H c = Inr ()" by (auto simp: ch_def)
  show "frame = ?a @ ?b @ ?l @ ?d @ ?p" by (rule frame_split)
  show "length ?a = 8" "length ?b = 8" "length ?l = 4" "length ?d = 32" using len by simp_all
  show "be_decode ?l = length ?p" using l by (metis add_diff_cancel_left' length_drop)
  show "c = ?c" "chunk_validate H c = Inr ()" by (fact c)+
qed

lemma chunk_decode_encode:
  assumes "crypto_laws H" and v: "chunk_validate H c = Inr ()"
  shows "\<exists>frame. chunk_encode H c = Inr frame \<and> chunk_decode H frame = Inr c"
proof -
  let ?f = "be_encode 8 (unat (tc_sequence c)) @ be_encode 8 (unat (tc_offset c))
         @ be_encode 4 (length (tc_bytes c)) @ cr_sha256 H (tc_bytes c) @ tc_bytes c"
  have p: "tc_bytes c \<noteq> []" "length (tc_bytes c) \<le> MAX_CHUNK_BYTES"
    and sha: "tc_sha256 c = cr_hex_encode H (cr_sha256 H (tc_bytes c))"
    using v by (simp_all add: chunk_validate_ok hash_bytes_def)
  have "length (cr_sha256 H (tc_bytes c)) = 32" using assms by (simp add: crypto_laws_def)
  moreover have "be_decode (be_encode 4 (length (tc_bytes c))) = length (tc_bytes c)"
    using p(2) by (intro be_decode_encode) (simp add: MAX_CHUNK_BYTES_def)
  moreover have "\<lparr>tc_sequence = tc_sequence c, tc_offset = tc_offset c, tc_bytes = tc_bytes c,
      tc_sha256 = cr_hex_encode H (cr_sha256 H (tc_bytes c))\<rparr> = c"
    using sha by (metis transfer_chunk.surjective old.unit.exhaust)
  ultimately have "chunk_decode H ?f = Inr c"
    using p v by (subst chunk_decode_frame) (simp_all add: Let_def)
  with chunk_encode_ok [OF assms] show ?thesis by blast
qed

text \<open>
  C15: The chunk frame is a faithful encoding.  For hash and hex functions as documented, every
  valid chunk encodes, its frame decodes to the same chunk, and a frame that decodes is the
  only frame of the chunk it decodes to; what decodes is within 64 KiB and matches its digest.
\<close>

theorem chunk_frame_roundtrip:
  assumes "crypto_laws H"
  shows "(chunk_validate H c = Inr () \<longrightarrow> (\<exists>frame. chunk_encode H c = Inr frame \<and> chunk_decode H frame = Inr c))
    \<and> (chunk_decode H frame = Inr c \<longrightarrow> chunk_encode H c = Inr frame \<and> length (tc_bytes c) \<le> 65536
        \<and> tc_sha256 c = hash_bytes H (tc_bytes c))"
proof (intro conjI impI)
  assume "chunk_validate H c = Inr ()"
  with assms show "\<exists>frame. chunk_encode H c = Inr frame \<and> chunk_decode H frame = Inr c"
    by (rule chunk_decode_encode)
next
  assume "chunk_decode H frame = Inr c"
  then obtain a b l d p where f: "frame = a @ b @ l @ d @ p" "length a = 8" "length b = 8"
      "length l = 4" "length d = 32" "be_decode l = length p"
      "c = \<lparr>tc_sequence = of_nat (be_decode a), tc_offset = of_nat (be_decode b), tc_bytes = p,
              tc_sha256 = cr_hex_encode H d\<rparr>"
      "chunk_validate H c = Inr ()"
    by (rule chunk_decode_shape)
  have "cr_hex_encode H d = cr_hex_encode H (cr_sha256 H p)"
    using f(7,8) by (simp add: chunk_validate_ok hash_bytes_def)
  then have "d = cr_sha256 H p" using assms by (metis crypto_laws_def option.inject)
  moreover have "be_encode 4 (length p) = l" using be_encode_decode [of l] f(4,6) by simp
  ultimately show "chunk_encode H c = Inr frame"
    using chunk_encode_ok [OF assms f(8)] f by (simp add: be_u64_back)
  show "length (tc_bytes c) \<le> 65536" "tc_sha256 c = hash_bytes H (tc_bytes c)"
    using f(8) by (simp_all add: chunk_validate_ok MAX_CHUNK_BYTES_def)
qed

text \<open>Hash and hex functions that satisfy the laws: the real hex digits, and a checksum.\<close>

definition hex_digit :: "nat \<Rightarrow> char" where
  "hex_digit n = (if n < 10 then char_of (n + 48) else char_of (n + 87))"

definition hex_value :: "char \<Rightarrow> nat" where
  "hex_value c = (if of_char c < (58 :: nat) then of_char c - 48 else of_char c - 87)"

fun unhex :: "string \<Rightarrow> bytes option" where
  "unhex [] = Some []"
| "unhex [c] = None"
| "unhex (c # d # s) =
     (if lower_hex c \<and> lower_hex d
      then map_option (Cons (of_nat (hex_value c * 16 + hex_value d))) (unhex s) else None)"

definition crypto0 :: crypto where
  "crypto0 =
     \<lparr>cr_sha256 = (\<lambda>b. replicate 31 0 @ [foldl (+) 0 b]),
      cr_hex_encode = (\<lambda>b. concat (map (\<lambda>x. [hex_digit (unat x div 16), hex_digit (unat x mod 16)]) b)),
      cr_hex_decode = unhex\<rparr>"

lemma hex_digit_lower: "n < 16 \<Longrightarrow> lower_hex (hex_digit n) \<and> hex_value (hex_digit n) = n"
  by (auto simp: hex_digit_def hex_value_def lower_hex_def is_ascii_hexdigit_def is_ascii_digit_def
      is_ascii_uppercase_def)

lemma crypto0_laws: "crypto_laws crypto0"
proof -
  have b: "unat (x :: u8) div 16 < 16" "unat x mod 16 < 16" for x
    using unsigned_less [of x, where 'a = nat] by simp_all
  have "unhex (concat (map (\<lambda>x :: u8. [hex_digit (unat x div 16), hex_digit (unat x mod 16)]) bs)) = Some bs"
    for bs
    by (induction bs) (simp_all add: hex_digit_lower b)
  moreover have "list_all lower_hex (concat (map (\<lambda>x :: u8. [hex_digit (unat x div 16), hex_digit (unat x mod 16)]) bs))"
    for bs
    by (induction bs) (simp_all add: hex_digit_lower b)
  moreover have "length (concat (map (\<lambda>x :: u8. [hex_digit (unat x div 16), hex_digit (unat x mod 16)]) bs)) = 2 * length bs"
    for bs
    by (induction bs) simp_all
  ultimately show ?thesis by (simp add: crypto_laws_def crypto0_def)
qed

theorem chunk_frame_roundtrip_witness:
  "\<exists>frame c. chunk_new crypto0 3 131072 [104, 105] = Inr c \<and> chunk_encode crypto0 c = Inr frame
    \<and> chunk_decode crypto0 frame = Inr c"
proof -
  let ?c = "\<lparr>tc_sequence = 3, tc_offset = 131072, tc_bytes = [104, 105],
             tc_sha256 = hash_bytes crypto0 [104, 105]\<rparr>"
  have "chunk_validate crypto0 ?c = Inr ()"
    using hash_bytes_valid [OF crypto0_laws]
    by (simp add: chunk_validate_ok MAX_CHUNK_BYTES_def checked_add_def)
  moreover from this have "chunk_new crypto0 3 131072 [104, 105] = Inr ?c"
    by (simp add: chunk_new_def MAX_CHUNK_BYTES_def)
  ultimately show ?thesis using chunk_frame_roundtrip [OF crypto0_laws, of ?c] by blast
qed

section \<open>The canonical string of a plan\<close>

lemma length_prefixed_inj:
  assumes "length_prefixed v @ x = length_prefixed w @ y"
  shows "v = w \<and> x = y"
proof -
  have "dec (length v) @ CHR '':'' # (v @ ''|'' @ x) = dec (length w) @ CHR '':'' # (w @ ''|'' @ y)"
    using assms by (simp add: length_prefixed_def)
  from split_at_colon [OF this dec_no_colon dec_no_colon]
  have "length v = length w" "v @ ''|'' @ x = w @ ''|'' @ y" by simp_all
  then show ?thesis by simp
qed

lemma length_prefixed_list_inj:
  "length vs = length ws \<Longrightarrow>
   concat (map length_prefixed vs) @ x = concat (map length_prefixed ws) @ y \<Longrightarrow> vs = ws \<and> x = y"
proof (induction vs ws rule: list_induct2)
  case (Cons v vs w ws)
  then have "length_prefixed v @ (concat (map length_prefixed vs) @ x) =
      length_prefixed w @ (concat (map length_prefixed ws) @ y)" by simp
  from length_prefixed_inj [OF this] Cons.IH show ?case by simp
qed simp

lemma canonical_inj:
  assumes "canonical b g n h = canonical b' g' n' h'"
  shows "b = b' \<and> g = g' \<and> n = n' \<and> h = h'"
proof -
  have "canonical_fields b g n h = canonical_fields b' g' n' h'
      \<and> dec (unat (xg_expires_at_unix g)) = dec (unat (xg_expires_at_unix g'))"
    using assms unfolding canonical_def
    by (intro length_prefixed_list_inj) (simp_all add: canonical_fields_def)
  then show ?thesis
    by (auto simp: canonical_fields_def word_unat_eq_iff intro: transfer_binding.equality
        transfer_grant.equality)
qed

lemma plan_validate_digest:
  "plan_validate H p = Inr () \<Longrightarrow>
     tp_plan_sha256 p = hash_bytes H (as_bytes (canonical (tp_binding p) (tp_grant p) (tp_size_bytes p) (tp_sha256 p)))
   \<and> tp_id p = ''xfer_'' @ take 32 (tp_plan_sha256 p)"
  by (auto simp: plan_validate_def from_verified_def and_then_Inr_iff Let_def split: if_splits)

lemma from_verified_fields:
  assumes "from_verified H b g n h = Inr p"
  shows "tp_binding p = b" and "tp_grant p = g" and "tp_size_bytes p = n" and "tp_sha256 p = h"
    and "tp_overwrite_expected_sha256 p = None"
  using assms by (auto simp: from_verified_def and_then_Inr_iff Let_def)

lemma from_verified_validates:
  assumes "from_verified H b g n h = Inr p"
  shows "plan_validate H p = Inr ()"
  using assms from_verified_fields [OF assms] by (simp add: plan_validate_def)

text \<open>
  C16: The digest of a plan binds every field of it but one.  Two plans that pass validation and
  carry the same digest are equal, identifier, tenant, principals, devices, workspaces, paths, grant
  with its expiry, size and content hash, except perhaps in the hash of the file to overwrite, which
  the canonical string leaves out; provided only that the hash function does not collide on their two
  canonical strings.  No choice of field contents makes two different sets of the covered fields
  render to the same string.
\<close>

theorem plan_digest_binds_all_but_overwrite:
  assumes "plan_validate H p = Inr ()" and "plan_validate H q = Inr ()"
    and "tp_plan_sha256 p = tp_plan_sha256 q"
    and "\<And>x y. x = as_bytes (canonical (tp_binding p) (tp_grant p) (tp_size_bytes p) (tp_sha256 p)) \<Longrightarrow>
        y = as_bytes (canonical (tp_binding q) (tp_grant q) (tp_size_bytes q) (tp_sha256 q)) \<Longrightarrow>
        hash_bytes H x = hash_bytes H y \<Longrightarrow> x = y"
  shows "p = q\<lparr>tp_overwrite_expected_sha256 := tp_overwrite_expected_sha256 p\<rparr>"
proof -
  note d = plan_validate_digest [OF assms(1)] plan_validate_digest [OF assms(2)]
  have "canonical (tp_binding p) (tp_grant p) (tp_size_bytes p) (tp_sha256 p) =
      canonical (tp_binding q) (tp_grant q) (tp_size_bytes q) (tp_sha256 q)"
    using assms(3,4) d by (simp add: as_bytes_inj)
  from canonical_inj [OF this] d assms(3) show ?thesis by (cases p; cases q) simp
qed

definition binding0 :: transfer_binding where
  "binding0 =
     \<lparr>tb_tenant_id = ''t'', tb_source_principal_id = ''alice'', tb_destination_principal_id = ''alice'',
      tb_source_device_id = ''dev_a'', tb_destination_device_id = ''dev_b'',
      tb_source_workspace_id = ''ws_a'', tb_destination_workspace_id = ''ws_b'',
      tb_source_relative_path = ''in/a.bin'', tb_destination_relative_path = ''out/a.bin''\<rparr>"

definition xgrant0 :: transfer_grant where
  "xgrant0 = \<lparr>xg_grant_id = ''g1'', xg_operation_id = ''op1'',
              xg_payload_sha256 = hash_bytes crypto0 [], xg_expires_at_unix = 2000\<rparr>"

definition plan_for :: "bytes \<Rightarrow> transfer_plan" where
  "plan_for data =
     (case from_verified crypto0 binding0 xgrant0 (of_nat (length data)) (hash_bytes crypto0 data) of
        Inr p \<Rightarrow> p | Inl _ \<Rightarrow> undefined)"

lemma binding0_valid: "binding_validate binding0 = Inr ()"
  by code_simp

lemma xgrant0_valid: "grant_validate xgrant0 = Inr ()"
  using hash_bytes_valid [OF crypto0_laws, of "[]"]
  by (simp add: grant_validate_def xgrant0_def valid_id_def is_ascii_control_def)

lemma plan_for_verified:
  "from_verified crypto0 binding0 xgrant0 (of_nat (length data)) (hash_bytes crypto0 data) =
     Inr (plan_for data)"
  by (simp add: plan_for_def from_verified_def binding0_valid xgrant0_valid
      hash_bytes_valid [OF crypto0_laws] Let_def)

lemma plan_for_fields:
  "tp_binding (plan_for data) = binding0" "tp_grant (plan_for data) = xgrant0"
  "tp_size_bytes (plan_for data) = of_nat (length data)"
  "tp_sha256 (plan_for data) = hash_bytes crypto0 data"
  by (rule from_verified_fields [OF plan_for_verified])+

lemma plan_for_valid: "plan_validate crypto0 (plan_for data) = Inr ()"
  using plan_for_verified by (rule from_verified_validates)

theorem plan_digest_binds_all_but_overwrite_witness:
  "plan_validate crypto0 ((plan_for [1, 2])\<lparr>tp_overwrite_expected_sha256 := Some (hash_bytes crypto0 [9])\<rparr>) = Inr ()
   \<and> plan_for [1, 2] = (plan_for [1, 2])\<lparr>tp_overwrite_expected_sha256 := Some (hash_bytes crypto0 [9])\<rparr>
       \<lparr>tp_overwrite_expected_sha256 := tp_overwrite_expected_sha256 (plan_for [1, 2])\<rparr>"
proof -
  let ?p = "plan_for [1, 2]"
  let ?q = "?p\<lparr>tp_overwrite_expected_sha256 := Some (hash_bytes crypto0 [9])\<rparr>"
  have q: "plan_validate crypto0 ?q = Inr ()"
    using plan_for_valid [of "[1, 2]"] hash_bytes_valid [OF crypto0_laws, of "[9]"]
    by (auto simp: plan_validate_def and_then_Inr_iff split: if_splits option.splits)
  have e: "tp_plan_sha256 ?p = tp_plan_sha256 ?q" by simp
  show ?thesis
    using q plan_digest_binds_all_but_overwrite [OF plan_for_valid q e] by simp
qed

end
