(* ===== verification/Transfer_Flow.thy ===== *)
theory Transfer_Flow
  imports Transfer_Receiver Transfer_Frames
begin

text \<open>
  What a transfer guarantees: the contract between the receiver and its sink, that the part
  file meets it, that a completed journal means a complete and verified part, that terminal
  states are final, which relay cursors are accepted, and that a sender that feeds a receiver
  reaches completion.
\<close>

section \<open>The contract of a sink\<close>

text \<open>
  \<open>staged s\<close> is what the sink holds while it is open, and \<open>sound\<close> an invariant of its own.  A successful write appends exactly the
  given bytes, a successful finalisation keeps the content, and a cancelled sink is closed for
  good: it refuses both.
\<close>

locale sink_contract =
  fixes ops :: "u64 \<Rightarrow> 's chunk_sink"
    and staged :: "'s \<Rightarrow> bytes option"
    and sound :: "'s \<Rightarrow> bool"
  assumes write_appends: "staged s = Some c \<Longrightarrow>
      so_write_chunk (ops now) off b s = (Inr u, s') \<Longrightarrow> staged s' = Some (c @ b)"
    and finalize_keeps: "staged s = Some c \<Longrightarrow> so_finalize (ops now) s = (Inr u, s') \<Longrightarrow> staged s' = Some c"
    and closed_refuses: "staged s = None \<Longrightarrow>
      fst (so_write_chunk (ops now) off b s) \<noteq> Inr () \<and> fst (so_finalize (ops now) s) \<noteq> Inr ()"
    and cancel_closes: "staged (snd (so_cancel (ops now) s)) = None"
    and sound_write: "sound s \<Longrightarrow> sound (snd (so_write_chunk (ops now) off b s))"
    and sound_finalize: "sound s \<Longrightarrow> sound (snd (so_finalize (ops now) s))"
    and sound_cancel: "sound s \<Longrightarrow> sound (snd (so_cancel (ops now) s))"

section \<open>Accepting a chunk\<close>

text \<open>The guards of \<open>receive\<close> as one condition; \<open>end_off\<close> is the offset after the chunk.\<close>

definition accepts :: "crypto \<Rightarrow> u64 \<Rightarrow> transfer_receiver \<Rightarrow> transfer_chunk \<Rightarrow> u64 \<Rightarrow> bool" where
  "accepts H now r c end_off \<longleftrightarrow>
     plan_validate_at H (tr_plan r) now = Inr () \<and> \<not> terminal (tj_state (tr_journal r))
   \<and> \<not> tr_in_flight r \<and> chunk_validate H c = Inr ()
   \<and> tc_sequence c = tr_next_sequence r \<and> tc_offset c = tr_next_offset r
   \<and> checked_add (tc_offset c) (of_nat (length (tc_bytes c))) = Some end_off
   \<and> end_off \<le> tp_size_bytes (tr_plan r)"

definition advance :: "transfer_receiver \<Rightarrow> transfer_chunk \<Rightarrow> u64 \<Rightarrow> u64 \<Rightarrow> transfer_receiver" where
  "advance r c q end_off =
     r\<lparr>tr_hasher := tr_hasher r @ tc_bytes c, tr_next_sequence := q, tr_next_offset := end_off,
       tr_journal := (tr_journal r)\<lparr>tj_contiguous_ack := Some (tc_sequence c),
         tj_bytes_received := end_off, tj_state := Receiving\<rparr>,
       tr_in_flight := False\<rparr>"

lemma advance_fields:
  "tr_plan (advance r c q e) = tr_plan r" "tr_next_offset (advance r c q e) = e"
  "tr_hasher (advance r c q e) = tr_hasher r @ tc_bytes c"
  "tj_state (tr_journal (advance r c q e)) = Receiving"
  by (simp_all add: advance_def)

lemma receive_rejects:
  assumes "\<nexists>end_off. accepts H now r c end_off"
  shows "\<exists>e. receive H now ops c (r, s) = (Inl e, r, s)"
proof (cases "plan_validate_at H (tr_plan r) now")
  case (Inl e)
  then show ?thesis by (simp add: receive_def)
next
  case p: (Inr u)
  show ?thesis
  proof (cases "terminal (tj_state (tr_journal r)) \<or> tr_in_flight r")
    case True
    with p show ?thesis by (simp add: receive_def)
  next
    case nt: False
    show ?thesis
    proof (cases "chunk_validate H c")
      case (Inl e)
      with p nt show ?thesis by (simp add: receive_def)
    next
      case v: (Inr u')
      show ?thesis
      proof (cases "tc_sequence c = tr_next_sequence r \<and> tc_offset c = tr_next_offset r")
        case False
        with p nt v show ?thesis by (auto simp: receive_def)
      next
        case True
        with assms p nt v show ?thesis
          by (cases "checked_add (tc_offset c) (of_nat (length (tc_bytes c)))")
            (auto simp: receive_def accepts_def)
      qed
    qed
  qed
qed

lemma receive_accepts:
  assumes "accepts H now r c end_off" and "checked_add (tr_next_sequence r) 1 = Some q"
  shows "receive H now ops c (r, s) =
    (case so_write_chunk ops (tc_offset c) (tc_bytes c) s of
       (Inl error, s1) \<Rightarrow> (Inl (Sink error), set_state Failed r, snd (so_cancel ops s1))
     | (Inr _, s1) \<Rightarrow>
         let r2 = advance r c q end_off
         in if end_off = tp_size_bytes (tr_plan r) then
              if hash_bytes H (tr_hasher r2) \<noteq> tp_sha256 (tr_plan r)
              then (Inl HashMismatch, set_state Failed r2, snd (so_cancel ops s1))
              else case so_finalize ops s1 of
                     (Inl error, s2) \<Rightarrow> (Inl (Sink error), set_state Failed r2, snd (so_cancel ops s2))
                   | (Inr _, s2) \<Rightarrow> (Inr (), set_state Completed r2, s2)
            else (Inr (), r2, s1))"
proof -
  obtain w s1 where w: "so_write_chunk ops (tc_offset c) (tc_bytes c) s = (w, s1)" by fastforce
  obtain f s2 where f: "so_finalize ops s1 = (f, s2)" by fastforce
  note guards = assms(1) [unfolded accepts_def]
  show ?thesis
    using guards assms(2) w f
    by (cases w; cases f) (auto simp: receive_def advance_def Let_def)
qed

lemma chunk_length:
  assumes "chunk_validate H c = Inr ()"
  shows "0 < length (tc_bytes c)" and "length (tc_bytes c) \<le> 65536"
    and "unat (of_nat (length (tc_bytes c)) :: u64) = length (tc_bytes c)"
proof -
  show l: "0 < length (tc_bytes c)" "length (tc_bytes c) \<le> 65536"
    using assms by (simp_all add: chunk_validate_ok MAX_CHUNK_BYTES_def)
  then show "unat (of_nat (length (tc_bytes c)) :: u64) = length (tc_bytes c)"
    by (simp add: unat_of_nat)
qed

lemma sequence_never_overflows:
  assumes "accepts H now r c end_off" and "tr_next_sequence r \<le> tr_next_offset r"
  obtains q where "checked_add (tr_next_sequence r) 1 = Some q" and "q \<le> end_off"
    and "q \<noteq> 0" and "q - 1 = tr_next_sequence r"
    and "unat end_off = unat (tr_next_offset r) + length (tc_bytes c)"
proof -
  have v: "chunk_validate H c = Inr ()"
    and e: "checked_add (tr_next_offset r) (of_nat (length (tc_bytes c))) = Some end_off"
    using assms(1) by (auto simp: accepts_def)
  have u: "unat end_off = unat (tr_next_offset r) + length (tc_bytes c)"
    using conjunct2 [OF checked_add_Some [OF e]] unfolding chunk_length(3) [OF v] .
  have le: "unat (tr_next_sequence r) \<le> unat (tr_next_offset r)"
    using assms(2) by (simp add: word_le_nat_alt)
  have "unat end_off < 2 ^ 64" using unsigned_less [of end_off, where 'a = nat] by simp
  then have "unat (tr_next_sequence r) + 1 < 2 ^ 64" using u le chunk_length(1) [OF v] by linarith
  then have "checked_add (tr_next_sequence r) 1 \<noteq> None" by (simp add: checked_add_None)
  then obtain q where q: "checked_add (tr_next_sequence r) 1 = Some q" by blast
  have uq: "unat q = unat (tr_next_sequence r) + 1"
    using conjunct2 [OF checked_add_Some [OF q]] unfolding unat_1 .
  have "q = tr_next_sequence r + 1" using checked_add_Some [OF q] by blast
  then have "q - 1 = tr_next_sequence r" by simp
  moreover have "unat q \<le> unat end_off" using uq u le chunk_length(1) [OF v] by linarith
  then have "q \<le> end_off" by (simp add: word_le_nat_alt)
  moreover have "q \<noteq> 0" using uq by (metis Suc_eq_plus1 nat.distinct(1) unat_0)
  ultimately show ?thesis using q u that by blast
qed

section \<open>The receiver's invariant\<close>

definition recv_inv ::
  "crypto \<Rightarrow> transfer_plan \<Rightarrow> ('s \<Rightarrow> bytes option) \<Rightarrow> ('s \<Rightarrow> bool) \<Rightarrow> transfer_receiver \<times> 's \<Rightarrow> bool" where
  "recv_inv H plan staged sound rs \<longleftrightarrow>
     (case rs of (r, s) \<Rightarrow>
         sound s \<and> tr_plan r = plan \<and> validate_for (tr_journal r) plan = Inr ()
       \<and> \<not> tr_in_flight r \<and> tr_next_sequence r \<le> tr_next_offset r
       \<and> tj_bytes_received (tr_journal r) = tr_next_offset r
       \<and> tj_contiguous_ack (tr_journal r) =
           (if tr_next_sequence r = 0 then None else Some (tr_next_sequence r - 1))
       \<and> tr_next_offset r \<le> tp_size_bytes (tr_plan r)
       \<and> length (tr_hasher r) = unat (tr_next_offset r)
       \<and> (\<not> terminal (tj_state (tr_journal r)) \<longrightarrow> staged s = None \<or> staged s = Some (tr_hasher r))
       \<and> (tj_state (tr_journal r) = Completed \<longrightarrow> staged s = Some (tr_hasher r)
            \<and> tr_next_offset r = tp_size_bytes (tr_plan r)
            \<and> hash_bytes H (tr_hasher r) = tp_sha256 (tr_plan r))
       \<and> tj_state (tr_journal r) \<noteq> Published)"

text \<open>The calls a receiver may get, with the clock at each.\<close>

datatype recv_call = CallReceive u64 transfer_chunk | CallEmpty u64 | CallCancel u64

fun recv_exec ::
  "crypto \<Rightarrow> (u64 \<Rightarrow> 's chunk_sink) \<Rightarrow> transfer_receiver \<times> 's \<Rightarrow> recv_call \<Rightarrow> transfer_receiver \<times> 's" where
  "recv_exec H ops rs (CallReceive now c) = snd (receive H now (ops now) c rs)"
| "recv_exec H ops rs (CallEmpty now) = snd (complete_empty H now (ops now) rs)"
| "recv_exec H ops rs (CallCancel now) = snd (receiver_cancel H now (ops now) rs)"

lemma terminal_simps [simp]:
  "terminal Failed" "terminal Completed" "terminal Cancelled" "terminal Published"
  "\<not> terminal Pending" "\<not> terminal Receiving"
  by (simp_all add: terminal_def)

lemma set_state_simps [simp]:
  "tr_plan (set_state st r) = tr_plan r" "tr_next_sequence (set_state st r) = tr_next_sequence r"
  "tr_next_offset (set_state st r) = tr_next_offset r" "tr_hasher (set_state st r) = tr_hasher r"
  "tr_in_flight (set_state st r) = tr_in_flight r"
  "tr_journal (set_state st r) = (tr_journal r)\<lparr>tj_state := st\<rparr>"
  by (simp_all add: set_state_def)

lemma validate_for_state:
  assumes "validate_for j plan = Inr ()" and "tj_state j \<noteq> Published" and "st \<noteq> Published"
  shows "validate_for (j\<lparr>tj_state := st\<rparr>) plan = Inr ()"
    and "validate_for (j\<lparr>tj_contiguous_ack := a, tj_bytes_received := b, tj_state := st\<rparr>) plan = Inr ()"
  using assms by (auto simp: validate_for_def split: if_splits)

lemma recv_inv_failed:
  "recv_inv H plan staged sound (r, s) \<Longrightarrow> st \<in> {Failed, Cancelled} \<Longrightarrow> sound s' \<Longrightarrow>
   recv_inv H plan staged sound (set_state st r, s')"
  by (auto simp: recv_inv_def validate_for_state)

lemma recv_inv_advance:
  assumes "recv_inv H plan staged sound (r, s)" and "accepts H now r c end_off"
    and "checked_add (tr_next_sequence r) 1 = Some q" and "staged s' = Some (tr_hasher r @ tc_bytes c)"
    and "sound s'"
  shows "recv_inv H plan staged sound (advance r c q end_off, s')"
proof -
  have "tr_next_sequence r \<le> tr_next_offset r" using assms(1) by (simp add: recv_inv_def)
  from sequence_never_overflows [OF assms(2) this] assms(3)
  have "q \<le> end_off" "q \<noteq> 0" "q - 1 = tr_next_sequence r"
    "unat end_off = unat (tr_next_offset r) + length (tc_bytes c)" by auto
  with assms show ?thesis by (auto simp: recv_inv_def advance_def accepts_def validate_for_state)
qed

context sink_contract
begin

lemma recv_inv_receive:
  assumes "recv_inv H plan staged sound (r, s)"
  shows "recv_inv H plan staged sound (snd (receive H now (ops now) c (r, s)))"
proof (cases "\<exists>end_off. accepts H now r c end_off")
  case False
  with receive_rejects [of H now r c "ops now" s] assms show ?thesis by auto
next
  case True
  then obtain end_off where a: "accepts H now r c end_off" ..
  have "tr_next_sequence r \<le> tr_next_offset r" using assms by (simp add: recv_inv_def)
  from sequence_never_overflows [OF a this]
  obtain q where q: "checked_add (tr_next_sequence r) 1 = Some q" by blast
  have st: "staged s = None \<or> staged s = Some (tr_hasher r)"
    using assms a by (simp add: recv_inv_def accepts_def)
  obtain w s1 where w: "so_write_chunk (ops now) (tc_offset c) (tc_bytes c) s = (w, s1)" by fastforce
  obtain f s2 where f: "so_finalize (ops now) s1 = (f, s2)" by fastforce
  have ok: "sound s" "sound s1" "sound s2"
    using assms sound_write [of s now "tc_offset c" "tc_bytes c"] sound_finalize [of s1 now] w f
    by (auto simp: recv_inv_def)
  show ?thesis
  proof (cases w)
    case (Inl e)
    then show ?thesis
      using assms ok by (simp add: receive_accepts [OF a q] w recv_inv_failed sound_cancel)
  next
    case (Inr u)
    with st w closed_refuses [of s now "tc_offset c" "tc_bytes c"]
    have "staged s = Some (tr_hasher r)" by auto
    from write_appends [OF this w [unfolded Inr]]
    have s1: "staged s1 = Some (tr_hasher r @ tc_bytes c)" .
    let ?r2 = "advance r c q end_off"
    have inv: "recv_inv H plan staged sound (?r2, s1)" using assms a q s1 ok(2) by (rule recv_inv_advance)
    have fin: "recv_inv H plan staged sound (set_state Completed ?r2, s2)"
      if "f = Inr ()" "end_off = tp_size_bytes (tr_plan r)"
        "hash_bytes H (tr_hasher ?r2) = tp_sha256 (tr_plan r)"
      using inv that ok finalize_keeps [OF s1 f [unfolded that(1)]]
      by (auto simp: recv_inv_def advance_fields validate_for_state)
    show ?thesis
      using inv fin ok recv_inv_failed [OF inv, of Failed] sound_cancel
      by (cases f) (auto simp: receive_accepts [OF a q] w f Inr Let_def)
  qed
qed

lemma recv_inv_empty:
  assumes "recv_inv H plan staged sound (r, s)"
  shows "recv_inv H plan staged sound (snd (complete_empty H now (ops now) (r, s)))"
proof -
  obtain f s1 where f: "so_finalize (ops now) s = (f, s1)" by fastforce
  have ok: "sound s" "sound s1"
    using assms sound_finalize [of s now] f by (auto simp: recv_inv_def)
  have fin: "recv_inv H plan staged sound (set_state Completed r, s1)"
    if "f = Inr ()" "tp_size_bytes (tr_plan r) = 0" "\<not> terminal (tj_state (tr_journal r))"
      "hash_bytes H (tr_hasher r) = tp_sha256 (tr_plan r)"
  proof -
    have "staged s = Some (tr_hasher r)"
      using assms that(1,3) closed_refuses [of s now] f by (auto simp: recv_inv_def)
    from finalize_keeps [OF this f [unfolded that(1)]] that assms ok show ?thesis
      by (auto simp: recv_inv_def validate_for_state)
  qed
  show ?thesis
    using assms fin ok recv_inv_failed [OF assms, of Failed] sound_cancel
    by (cases "plan_validate_at H (tr_plan r) now"; cases f) (auto simp: complete_empty_def f)
qed

lemma recv_inv_cancel:
  assumes "recv_inv H plan staged sound (r, s)"
  shows "recv_inv H plan staged sound (snd (receiver_cancel H now (ops now) (r, s)))"
proof -
  obtain f s1 where f: "so_cancel (ops now) s = (f, s1)" by fastforce
  have ok: "sound s1" using assms sound_cancel [of s now] f by (auto simp: recv_inv_def)
  have "staged s1 = None" using cancel_closes [of now s] f by simp
  with assms have "recv_inv H plan staged sound (r, s1)" if "\<not> terminal (tj_state (tr_journal r))"
    using that ok by (auto simp: recv_inv_def)
  then show ?thesis
    using assms ok recv_inv_failed [OF assms, of Cancelled]
    by (cases "plan_validate_at H (tr_plan r) now"; cases f) (auto simp: receiver_cancel_def f)
qed

lemma recv_inv_exec:
  assumes "recv_inv H plan staged sound rs"
  shows "recv_inv H plan staged sound (recv_exec H ops rs call)"
proof -
  obtain r s where "rs = (r, s)" by fastforce
  with assms show ?thesis
    by (cases call) (simp_all add: recv_inv_receive recv_inv_empty recv_inv_cancel)
qed

end

lemma checked_add_pred: "q \<noteq> 0 \<Longrightarrow> checked_add (q - 1) 1 = Some (q :: u64)"
proof -
  assume "q \<noteq> 0"
  then have "q - 1 \<noteq> - 1" by simp
  then have "checked_add (q - 1) 1 \<noteq> None" by (simp add: checked_add_one_None)
  then show ?thesis by (auto simp: checked_add_def split: if_splits)
qed

section \<open>The part file meets the contract\<close>

definition part_staged :: "part_file_sink \<Rightarrow> bytes option" where
  "part_staged s = (if pf_open s then Some (pf_part s) else None)"

definition part_sound :: "part_file_sink \<Rightarrow> bool" where
  "part_sound s \<longleftrightarrow> (pf_open s \<longrightarrow> \<not> pf_removed s)"

interpretation part: sink_contract "part_sink H" part_staged part_sound for H
proof
  fix s c now off b and u :: unit and s'
  assume c: "part_staged s = Some c"
  show "part_staged s' = Some (c @ b)" if "so_write_chunk (part_sink H now) off b s = (Inr u, s')"
    using c that by (auto simp: part_sink_def part_write_chunk_def part_staged_def Let_def
        split: if_splits option.splits)
  show "part_staged s' = Some c" if "so_finalize (part_sink H now) s = (Inr u, s')"
    using c that by (auto simp: part_sink_def part_finalize_def part_staged_def
        split: if_splits option.splits sum.splits)
next
  fix s now off b
  assume "part_staged s = None"
  then show "fst (so_write_chunk (part_sink H now) off b s) \<noteq> Inr ()
      \<and> fst (so_finalize (part_sink H now) s) \<noteq> Inr ()"
    by (auto simp: part_sink_def part_write_chunk_def part_finalize_def part_staged_def
        split: if_splits)
next
  fix s now
  show "part_staged (snd (so_cancel (part_sink H now) s)) = None"
    by (auto simp: part_sink_def part_cancel_def part_staged_def Let_def split: option.splits)
next
  fix s now off b
  assume s: "part_sound s"
  show "part_sound (snd (so_write_chunk (part_sink H now) off b s))"
    using s by (auto simp: part_sink_def part_write_chunk_def part_sound_def Let_def
        split: option.splits)
  show "part_sound (snd (so_finalize (part_sink H now) s))"
    using s by (auto simp: part_sink_def part_finalize_def part_sound_def
        split: option.splits sum.splits)
  show "part_sound (snd (so_cancel (part_sink H now) s))"
    using s by (auto simp: part_sink_def part_cancel_def part_sound_def Let_def
        split: option.splits)
qed

text \<open>
  A call on a receiver with a part file; the device may fail during the call, after any number
  of bytes of a write.
\<close>

definition part_exec ::
  "crypto \<Rightarrow> transfer_receiver \<times> part_file_sink \<Rightarrow> (string \<times> nat) option \<times> recv_call \<Rightarrow>
   transfer_receiver \<times> part_file_sink" where
  "part_exec H rs call =
     (case rs of (r, s) \<Rightarrow> recv_exec H (part_sink H) (r, s\<lparr>pf_fault := fst call\<rparr>) (snd call))"

lemma recv_inv_fault:
  "recv_inv H plan part_staged part_sound (r, s\<lparr>pf_fault := e\<rparr>) = recv_inv H plan part_staged part_sound (r, s)"
  by (simp add: recv_inv_def part_staged_def part_sound_def)

lemma part_run:
  assumes "recv_inv H plan part_staged part_sound rs"
  shows "recv_inv H plan part_staged part_sound (foldl (part_exec H) rs calls)"
  using assms
proof (induction calls arbitrary: rs)
  case (Cons call calls)
  obtain r s where rs: "rs = (r, s)" by fastforce
  have "recv_inv H plan part_staged part_sound (part_exec H rs call)"
    using Cons.prems unfolding rs part_exec_def prod.case
    by (intro part.recv_inv_exec) (simp add: recv_inv_fault)
  with Cons.IH show ?case by simp
qed simp

lemma recv_inv_new:
  assumes "receiver_new H now plan owner epoch fence expires = Inr r"
  shows "recv_inv H plan part_staged part_sound (r, part_opened plan [])"
  using assms
  by (auto simp: receiver_new_def journal_fresh_def and_then_Inr_iff recv_inv_def validate_for_def
      part_opened_def part_staged_def part_sound_def split: if_splits)

text \<open>
  C12: A completed transfer is complete and verified.  Whatever chunks, empty completions and
  cancellations a fresh receiver gets, in any order and at any time, and whichever calls the
  device fails in, if its journal says completed then the part file is still there, has exactly the planned
  size, and its hash is the one in the plan.
\<close>

theorem completed_means_verified:
  assumes "receiver_new H now plan owner epoch fence expires = Inr r"
    and "foldl (part_exec H) (r, part_opened plan []) calls = (r', s')"
    and "tj_state (tr_journal r') = Completed"
  shows "\<not> pf_removed s' \<and> hash_bytes H (pf_part s') = tp_sha256 plan
    \<and> length (pf_part s') = unat (tp_size_bytes plan)
    \<and> tj_bytes_received (tr_journal r') = tp_size_bytes plan"
proof -
  have "recv_inv H plan part_staged part_sound (r', s')"
    using part_run [OF recv_inv_new [OF assms(1)], of calls] assms(2) by simp
  with assms(3) show ?thesis
    by (auto simp: recv_inv_def part_staged_def part_sound_def split: if_splits)
qed

text \<open>
  C14: A crash loses nothing that was acknowledged.  At every point of a run at which the
  transfer is still open, a receiver rebuilt from the journal and the part file alone is the
  receiver that was lost: same next number, same offset, same rolling hash.
\<close>

theorem resume_after_crash_is_exact:
  assumes "receiver_new H now plan owner epoch fence expires = Inr r"
    and "foldl (part_exec H) (r, part_opened plan []) calls = (r', s')"
    and "\<not> terminal (tj_state (tr_journal r'))" and "pf_open s'"
    and "plan_validate_at H plan now' = Inr ()"
  shows "resume_from_part H now' plan (tr_journal r')
    (Some \<lparr>fl_data = pf_part s', fl_pos = 0, fl_regular = True, fl_fault = None\<rparr>) = Inr r'"
proof -
  have inv: "recv_inv H plan part_staged part_sound (r', s')"
    using part_run [OF recv_inv_new [OF assms(1)], of calls] assms(2) by simp
  then have f: "tr_plan r' = plan" "validate_for (tr_journal r') plan = Inr ()" "\<not> tr_in_flight r'"
      "tj_bytes_received (tr_journal r') = tr_next_offset r'"
      "tj_contiguous_ack (tr_journal r') =
         (if tr_next_sequence r' = 0 then None else Some (tr_next_sequence r' - 1))"
      "pf_part s' = tr_hasher r'" "length (tr_hasher r') = unat (tr_next_offset r')"
    using assms(3,4) by (auto simp: recv_inv_def part_staged_def)
  have "resume_sequence (tr_journal r') = Inr (tr_next_sequence r')"
    using f(5) by (auto simp: resume_sequence_def checked_add_pred)
  then show ?thesis
    using f assms(3,5) by (simp add: resume_from_part_def metadata_len_def transfer_receiver.equality)
qed

section \<open>From sender to receiver\<close>

lemma hash_reader_pieces:
  assumes "unat sofar + length bs \<le> unat limit"
  shows "hash_reader H limit sofar fed (map Inr (pieces bs)) =
    Inr (sofar + of_nat (length bs), hash_bytes H (fed @ bs))"
  using assms
proof (induction bs arbitrary: sofar fed rule: pieces.induct)
  case (1 bs)
  show ?case
  proof (cases "bs = []")
    case True
    then show ?thesis by (simp add: pieces.simps)
  next
    case False
    let ?p = "take MAX_CHUNK_BYTES bs" and ?r = "drop MAX_CHUNK_BYTES bs"
    have lim: "unat limit < 2 ^ 64" using unsigned_less [of limit, where 'a = nat] by simp
    have len: "length ?p + length ?r = length bs" by simp
    have p: "?p \<noteq> []" using False by (simp add: MAX_CHUNK_BYTES_def)
    have up: "unat (of_nat (length ?p) :: u64) = length ?p"
      using "1.prems" lim len by (simp add: unat_of_nat)
    have "unat sofar + unat (of_nat (length ?p) :: u64) < 2 ^ LENGTH(64)"
      unfolding up using "1.prems" lim len by simp
    then have add: "checked_add sofar (of_nat (length ?p)) = Some (sofar + of_nat (length ?p))"
      by (simp only: checked_add_def if_True)
    have us: "unat (sofar + of_nat (length ?p)) = unat sofar + length ?p"
      using conjunct2 [OF checked_add_Some [OF add]] unfolding up .
    have le: "\<not> limit < sofar + of_nat (length ?p)"
      unfolding word_less_nat_alt us using "1.prems" len by linarith
    have small: "\<not> 2 ^ 64 \<le> length ?p" using "1.prems" lim len by linarith
    have "unat (sofar + of_nat (length ?p)) + length ?r \<le> unat limit"
      unfolding us using "1.prems" len by linarith
    from "1.IH" [OF False this, of "fed @ ?p"]
    have "hash_reader H limit sofar fed (map Inr (pieces bs)) =
        Inr (sofar + of_nat (length ?p) + of_nat (length ?r), hash_bytes H ((fed @ ?p) @ ?r))"
      using False p add le small by (subst pieces.simps) simp
    moreover have "sofar + of_nat (length ?p) + of_nat (length ?r) = sofar + of_nat (length bs)"
      unfolding len [symmetric] of_nat_add by (simp add: add.assoc)
    ultimately show ?thesis by simp
  qed
qed

text \<open>A driver: the sender's chunks go through their frames to the receiver, one at a time.\<close>

fun pump ::
  "crypto \<Rightarrow> u64 \<Rightarrow> nat \<Rightarrow> transfer_sender \<Rightarrow> transfer_receiver \<times> part_file_sink \<Rightarrow>
   (unit transfer_result \<times> transfer_receiver \<times> part_file_sink) option" where
  "pump H now 0 sd rs = None"
| "pump H now (Suc n) sd rs =
     (case next_chunk H now sd of
        (Inl e, _) \<Rightarrow> Some (Inl e, rs)
      | (Inr None, _) \<Rightarrow> Some (Inr (), rs)
      | (Inr (Some c), sd') \<Rightarrow>
          (case and_then (chunk_encode H c) (chunk_decode H) of
             Inl e \<Rightarrow> Some (Inl e, rs)
           | Inr c' \<Rightarrow>
               (case receive H now (part_sink H now) c' rs of
                  (Inl e, rs') \<Rightarrow> Some (Inl e, rs')
                | (Inr _, rs') \<Rightarrow> pump H now n sd' rs')))"

text \<open>The two ends after \<open>k\<close> of the bytes \<open>D\<close> have been moved in \<open>q\<close> chunks.\<close>

definition sent :: "crypto \<Rightarrow> transfer_plan \<Rightarrow> bytes \<Rightarrow> nat \<Rightarrow> u64 \<Rightarrow> transfer_sender \<Rightarrow> bool" where
  "sent H plan D k q sd \<longleftrightarrow>
     ts_plan sd = plan \<and> fl_data (ts_file sd) = D \<and> fl_pos (ts_file sd) = k
   \<and> fl_fault (ts_file sd) = None \<and> ts_sequence sd = q \<and> ts_offset sd = of_nat k
   \<and> ts_remaining sd = of_nat (length D - k) \<and> ts_hasher sd = take k D \<and> \<not> ts_done sd"

definition received :: "transfer_plan \<Rightarrow> bytes \<Rightarrow> nat \<Rightarrow> u64 \<Rightarrow> transfer_receiver \<Rightarrow> part_file_sink \<Rightarrow> bool" where
  "received plan D k q r s \<longleftrightarrow>
     tr_plan r = plan \<and> \<not> tr_in_flight r \<and> tr_next_sequence r = q \<and> tr_next_offset r = of_nat k
   \<and> tr_hasher r = take k D \<and> pf_part s = take k D \<and> pf_open s \<and> \<not> pf_closed s
   \<and> pf_expected_offset s = of_nat k \<and> pf_expected_size s = tp_size_bytes plan
   \<and> pf_expected_sha256 s = tp_sha256 plan
   \<and> pf_expires_at_unix s = xg_expires_at_unix (tp_grant plan) \<and> pf_fault s = None"

text \<open>A plan for the content \<open>D\<close> that is live now.\<close>

definition plan_of :: "crypto \<Rightarrow> u64 \<Rightarrow> transfer_plan \<Rightarrow> bytes \<Rightarrow> bool" where
  "plan_of H now plan D \<longleftrightarrow>
     plan_validate_at H plan now = Inr () \<and> length D < 2 ^ 64
   \<and> tp_size_bytes plan = of_nat (length D) \<and> tp_sha256 plan = hash_bytes H D"

definition block :: "bytes \<Rightarrow> nat \<Rightarrow> nat" where
  "block D k = min (length D - k) MAX_CHUNK_BYTES"

lemma u64_of_nat: "n < 2 ^ 64 \<Longrightarrow> unat (of_nat n :: u64) = n"
  by (simp add: unat_of_nat)

lemma u64_of_nat_eq: "m < 2 ^ 64 \<Longrightarrow> n < 2 ^ 64 \<Longrightarrow> (of_nat m :: u64) = of_nat n \<longleftrightarrow> m = n"
  using u64_of_nat by metis

lemma checked_add_of_nat:
  "a + b < 2 ^ 64 \<Longrightarrow> checked_add (of_nat a :: u64) (of_nat b) = Some (of_nat (a + b))"
  by (simp add: checked_add_def unat_of_nat)

lemma checked_sub_of_nat:
  "b \<le> a \<Longrightarrow> a < 2 ^ 64 \<Longrightarrow> checked_sub (of_nat a :: u64) (of_nat b) = Some (of_nat (a - b))"
  by (simp add: checked_sub_def word_le_nat_alt unat_of_nat of_nat_diff)

definition block_chunk :: "crypto \<Rightarrow> bytes \<Rightarrow> nat \<Rightarrow> u64 \<Rightarrow> transfer_chunk" where
  "block_chunk H D k q =
     \<lparr>tc_sequence = q, tc_offset = of_nat k, tc_bytes = take (block D k) (drop k D),
      tc_sha256 = hash_bytes H (take (block D k) (drop k D))\<rparr>"

lemma chunk_of_block:
  assumes "crypto_laws H" and "plan_of H now plan D" and "k < length D"
  shows "chunk_validate H (block_chunk H D k q) = Inr ()"
    and "chunk_new H q (of_nat k) (take (block D k) (drop k D)) = Inr (block_chunk H D k q)"
    and "and_then (chunk_encode H (block_chunk H D k q)) (chunk_decode H) = Inr (block_chunk H D k q)"
proof -
  let ?b = "take (block D k) (drop k D)"
  have b: "?b \<noteq> []" "length ?b \<le> MAX_CHUNK_BYTES" "length ?b = block D k" "k + block D k \<le> length D"
    using assms(3) by (auto simp: block_def MAX_CHUNK_BYTES_def)
  have D: "length D < 2 ^ 64" using assms(2) by (simp add: plan_of_def)
  show v: "chunk_validate H (block_chunk H D k q) = Inr ()"
    using b D hash_bytes_valid [OF assms(1)] checked_add_of_nat [of k "block D k"]
    by (simp add: chunk_validate_ok block_chunk_def)
  then show "chunk_new H q (of_nat k) ?b = Inr (block_chunk H D k q)"
    using b by (simp add: chunk_new_def block_chunk_def)
  from chunk_decode_encode [OF assms(1) v]
  show "and_then (chunk_encode H (block_chunk H D k q)) (chunk_decode H) = Inr (block_chunk H D k q)"
    by auto
qed

lemma next_chunk_block:
  assumes "crypto_laws H" and p: "plan_of H now plan D" and "k < length D" and "sent H plan D k q sd"
    and q: "unat q \<le> k"
  shows "\<exists>sd'. next_chunk H now sd = (Inr (Some (block_chunk H D k q)), sd')
    \<and> sent H plan D (k + block D k) (q + 1) sd'"
proof -
  have D: "length D < 2 ^ 64" and v: "plan_validate_at H plan now = Inr ()"
    and sha: "tp_sha256 plan = hash_bytes H D" using p by (auto simp: plan_of_def)
  have b: "block D k \<le> length D - k" "0 < block D k" "k + block D k \<le> length D"
    using assms(3) by (auto simp: block_def MAX_CHUNK_BYTES_def)
  have e: "min (unat (of_nat (length D - k) :: u64)) MAX_CHUNK_BYTES = block D k"
    using D by (simp add: u64_of_nat block_def)
  have nz: "(of_nat (length D - k) :: u64) \<noteq> 0"
    using u64_of_nat [of "length D - k"] D assms(3) by (metis diff_is_0_eq less_imp_diff_less not_less unat_0)
  have rd: "read_exact (block D k) (ts_file sd) =
      (Inr (take (block D k) (drop k D)), (ts_file sd)\<lparr>fl_pos := k + block D k\<rparr>)"
    using assms(4) b by (simp add: read_exact_def sent_def)
  have sub: "checked_sub (of_nat (length D - k) :: u64) (of_nat (block D k)) = Some (of_nat (length D - (k + block D k)))"
    using checked_sub_of_nat [of "block D k" "length D - k"] b D by (simp add: diff_diff_eq)
  have add: "checked_add (of_nat k :: u64) (of_nat (block D k)) = Some (of_nat (k + block D k))"
    using checked_add_of_nat [of k "block D k"] b D by simp
  have "unat q + 1 < 2 ^ 64" using q assms(3) D by linarith
  then have qs: "checked_add q 1 = Some (q + 1)" by (simp add: checked_add_def)
  have fed: "take k D @ take (block D k) (drop k D) = take (k + block D k) D" by (simp add: take_add)
  have last: "hash_bytes H (take (k + block D k) D) = tp_sha256 plan"
    if "(of_nat (length D - (k + block D k)) :: u64) = 0"
  proof -
    have "unat (of_nat (length D - (k + block D k)) :: u64) = 0" using that by simp
    then have "length D - (k + block D k) = 0" using u64_of_nat [of "length D - (k + block D k)"] D by simp
    then show ?thesis using sha by simp
  qed
  show ?thesis
    using assms(4) v nz e rd sub add qs fed last chunk_of_block(2) [OF assms(1,2,3), of q]
    by (simp add: sent_def next_chunk_def Let_def)
qed

lemma next_chunk_end:
  assumes "plan_of H now plan D" and "sent H plan D (length D) q sd"
  shows "\<exists>sd'. next_chunk H now sd = (Inr None, sd')"
  using assms by (simp add: plan_of_def sent_def next_chunk_def)

lemma accepts_block:
  assumes "crypto_laws H" and p: "plan_of H now plan D" and "k < length D" and r: "received plan D k q r s"
    and "\<not> terminal (tj_state (tr_journal r))"
  shows "accepts H now r (block_chunk H D k q) (of_nat (k + block D k))"
proof -
  have D: "length D < 2 ^ 64" using p by (simp add: plan_of_def)
  have b: "k + block D k \<le> length D" "length (take (block D k) (drop k D)) = block D k"
    using assms(3) by (auto simp: block_def)
  have add: "checked_add (of_nat k :: u64) (of_nat (block D k)) = Some (of_nat (k + block D k))"
    using checked_add_of_nat [of k "block D k"] b(1) D by simp
  have "(of_nat (k + block D k) :: u64) \<le> of_nat (length D)"
    unfolding word_le_nat_alt using b(1) D by (simp only: u64_of_nat)
  with add b(2) p r assms(5) chunk_of_block(1) [OF assms(1,2,3), of q] show ?thesis
    by (simp add: accepts_def received_def plan_of_def block_chunk_def)
qed

lemma part_write_block:
  assumes "length D < 2 ^ 64" and "k < length D" and "received plan D k q r s"
  defines "s1 \<equiv> s\<lparr>pf_part := take (k + block D k) D, pf_expected_offset := of_nat (k + block D k)\<rparr>"
  shows "part_write_chunk (of_nat k) (take (block D k) (drop k D)) s = (Inr (), s1)"
proof -
  have b: "k + block D k \<le> length D" "length (take (block D k) (drop k D)) = block D k"
    "\<not> MAX_CHUNK_BYTES < block D k"
    using assms(2) by (auto simp: block_def)
  have "checked_add (of_nat k :: u64) (of_nat (block D k)) = Some (of_nat (k + block D k))"
    using checked_add_of_nat [of k "block D k"] b(1) assms(1) by simp
  with b assms(3) show ?thesis
    by (simp add: part_write_chunk_def received_def s1_def take_add del: length_take length_drop)
qed

lemma part_finalize_full:
  assumes p: "plan_of H now plan D" and "pf_part s = D" and "pf_open s" and "pf_fault s = None"
    and "pf_expected_offset s = of_nat (length D)" and "pf_expected_size s = tp_size_bytes plan"
    and "pf_expected_sha256 s = tp_sha256 plan" and "pf_expires_at_unix s = xg_expires_at_unix (tp_grant plan)"
  shows "part_finalize H now s = (Inr (), s\<lparr>pf_verified := True\<rparr>)"
proof -
  have "\<not> xg_expires_at_unix (tp_grant plan) \<le> now"
    using p by (auto simp: plan_of_def plan_validate_at_def grant_validate_at_def and_then_Inr_iff
        split: if_splits)
  moreover have "hash_reader H (of_nat (length D)) 0 [] (map Inr (pieces D)) = Inr (of_nat (length D), hash_bytes H D)"
    using p hash_reader_pieces [of 0 D "of_nat (length D)" H "[]"]
    by (simp add: plan_of_def u64_of_nat)
  ultimately show ?thesis using assms by (simp add: part_finalize_def plan_of_def)
qed

lemma receive_block:
  assumes "crypto_laws H" and p: "plan_of H now plan D" and "k < length D" and r: "received plan D k q r s"
    and nt: "\<not> terminal (tj_state (tr_journal r))" and q: "unat q \<le> k"
  shows "\<exists>r' s'. receive H now (part_sink H now) (block_chunk H D k q) (r, s) = (Inr (), r', s')
    \<and> received plan D (k + block D k) (q + 1) r' s'
    \<and> tj_state (tr_journal r') = (if k + block D k = length D then Completed else Receiving)"
proof -
  let ?k = "k + block D k" and ?c = "block_chunk H D k q"
  let ?s1 = "s\<lparr>pf_part := take ?k D, pf_expected_offset := of_nat ?k\<rparr>"
  let ?r2 = "advance r ?c (q + 1) (of_nat ?k)"
  have D: "length D < 2 ^ 64" and sz: "tp_size_bytes plan = of_nat (length D)"
    and sha: "tp_sha256 plan = hash_bytes H D" using p by (auto simp: plan_of_def)
  have le: "?k \<le> length D" using assms(3) by (auto simp: block_def)
  have "unat q + 1 < 2 ^ 64" using q assms(3) D by linarith
  then have qs: "checked_add (tr_next_sequence r) 1 = Some (q + 1)"
    using r by (simp add: checked_add_def received_def)
  have w: "so_write_chunk (part_sink H now) (tc_offset ?c) (tc_bytes ?c) s = (Inr (), ?s1)"
    using part_write_block [OF D assms(3) r] by (simp add: part_sink_def block_chunk_def)
  have h: "tr_hasher ?r2 = take ?k D"
    using r by (simp add: advance_def block_chunk_def received_def take_add)
  have inv: "received plan D ?k (q + 1) ?r2 ?s1"
    using r h by (simp add: received_def advance_def)
  have eq: "(of_nat ?k :: u64) = tp_size_bytes (tr_plan r) \<longleftrightarrow> ?k = length D"
    using r sz u64_of_nat_eq [of ?k "length D"] D le by (simp only: received_def)
  note rec = receive_accepts [OF accepts_block [OF assms(1,2,3) r nt] qs, of "part_sink H now" s]
  show ?thesis
  proof (cases "?k = length D")
    case False
    then show ?thesis using inv eq by (simp add: rec w Let_def advance_def)
  next
    case True
    have "part_finalize H now ?s1 = (Inr (), ?s1\<lparr>pf_verified := True\<rparr>)"
      using p r True by (intro part_finalize_full) (auto simp: received_def)
    then have f: "so_finalize (part_sink H now) ?s1 = (Inr (), ?s1\<lparr>pf_verified := True\<rparr>)"
      by (simp add: part_sink_def)
    have "hash_bytes H (tr_hasher ?r2) = tp_sha256 (tr_plan r)"
      using h True sha r by (simp add: received_def)
    then have "receive H now (part_sink H now) ?c (r, s) =
        (Inr (), set_state Completed ?r2, ?s1\<lparr>pf_verified := True\<rparr>)"
      using eq True f by (simp add: rec w Let_def)
    moreover have "received plan D ?k (q + 1) (set_state Completed ?r2) (?s1\<lparr>pf_verified := True\<rparr>)"
      using inv by (simp add: received_def set_state_def)
    ultimately show ?thesis using True by (simp add: set_state_def)
  qed
qed

lemma pump_completes:
  assumes "crypto_laws H" and "plan_of H now plan D" and "k < length D"
    and "sent H plan D k q sd" and "received plan D k q r s"
    and "\<not> terminal (tj_state (tr_journal r))" and "unat q \<le> k" and "length D - k < n"
  shows "\<exists>r' s'. pump H now n sd (r, s) = Some (Inr (), r', s')
    \<and> tj_state (tr_journal r') = Completed \<and> pf_part s' = D"
  using assms(3-8)
proof (induction n arbitrary: k q sd r s)
  case (Suc n)
  let ?k = "k + block D k"
  have b: "0 < block D k" "?k \<le> length D"
    using Suc.prems(1) by (auto simp: block_def MAX_CHUNK_BYTES_def)
  from next_chunk_block [OF assms(1,2) Suc.prems(1,2,5)]
  obtain sd' where sd': "next_chunk H now sd = (Inr (Some (block_chunk H D k q)), sd')"
    "sent H plan D ?k (q + 1) sd'" by blast
  from receive_block [OF assms(1,2) Suc.prems(1,3,4,5)]
  obtain r' s' where r': "receive H now (part_sink H now) (block_chunk H D k q) (r, s) = (Inr (), r', s')"
    "received plan D ?k (q + 1) r' s'"
    "tj_state (tr_journal r') = (if ?k = length D then Completed else Receiving)" by blast
  have step: "pump H now (Suc n) sd (r, s) = pump H now n sd' (r', s')"
    using sd'(1) r'(1) chunk_of_block(3) [OF assms(1,2) Suc.prems(1), of q] by simp
  show ?case
  proof (cases "?k = length D")
    case True
    then obtain m where m: "n = Suc m" using Suc.prems(6) b by (cases n) auto
    from next_chunk_end [OF assms(2)] sd'(2) True
    obtain sd'' where "next_chunk H now sd' = (Inr None, sd'')" by fastforce
    then show ?thesis using step m r'(2,3) True by (simp add: received_def)
  next
    case False
    have "unat (q + 1) \<le> unat q + 1"
      by (simp add: unat_word_ariths)
    then have "unat (q + 1) \<le> ?k" using Suc.prems(5) b(1) by linarith
    with Suc.IH [OF _ sd'(2) r'(2)] False b r'(3) Suc.prems(6) show ?thesis
      unfolding step by simp
  qed
qed simp

lemma from_retained_file_start:
  assumes "plan_of H now plan (fl_data f)" and "fl_regular f" and "fl_fault f = None" and "fl_pos f = 0"
  shows "\<exists>sd. from_retained_file H now plan f 0 0 = Inr sd \<and> sent H plan (fl_data f) 0 0 sd"
proof -
  let ?D = "fl_data f"
  have "hash_reader H (of_nat (length ?D)) 0 [] (map Inr (pieces ?D)) = Inr (of_nat (length ?D), hash_bytes H ?D)"
    using assms(1) hash_reader_pieces [of 0 ?D "of_nat (length ?D)" H "[]"]
    by (simp add: plan_of_def u64_of_nat)
  then show ?thesis
    using assms
    by (simp add: from_retained_file_def plan_of_def validate_retained_file_def file_reader_def
        hash_prefix.simps checked_sub_def ok_or_def sent_def)
qed

text \<open>
  C13: A transfer between two healthy ends completes.  For a plan that describes the content of
  a nonempty regular file and is live, and a fresh receiver, the sender is constructed, and feeding its
  chunks through their frames to the receiver ends after finitely many steps, without an error,
  with a completed journal and a part file that is the sender's file, byte for byte.
\<close>

theorem transfer_completes:
  assumes "crypto_laws H" and "plan_of H now plan (fl_data f)" and "fl_data f \<noteq> []"
    and "fl_regular f" and "fl_fault f = None" and "fl_pos f = 0"
    and "receiver_new H now plan owner epoch fence expires = Inr r" and "length (fl_data f) < n"
  shows "\<exists>sd r' s'. from_retained_file H now plan f 0 0 = Inr sd
    \<and> pump H now n sd (r, part_opened plan []) = Some (Inr (), r', s')
    \<and> tj_state (tr_journal r') = Completed \<and> pf_part s' = fl_data f"
proof -
  obtain sd where sd: "from_retained_file H now plan f 0 0 = Inr sd" "sent H plan (fl_data f) 0 0 sd"
    using from_retained_file_start [OF assms(2,4-6)] by blast
  have r: "received plan (fl_data f) 0 0 r (part_opened plan [])" "\<not> terminal (tj_state (tr_journal r))"
    using assms(7) by (auto simp: receiver_new_def journal_fresh_def and_then_Inr_iff received_def
        part_opened_def split: if_splits)
  have "0 < length (fl_data f)" "unat (0 :: u64) \<le> 0" "length (fl_data f) - 0 < n"
    using assms(3,8) by simp_all
  from pump_completes [OF assms(1,2) this(1) sd(2) r this(2,3)] sd(1) show ?thesis by blast
qed

section \<open>Relay cursors\<close>

lemma chunk_position:
  fixes q n m d :: nat
  shows "n \<le> m \<and> (n < m \<longrightarrow> n mod Suc d = 0) \<and> q = (n + d) div Suc d \<longleftrightarrow>
    n = min (q * Suc d) m \<and> q \<le> (m + d) div Suc d" (is "?l \<longleftrightarrow> ?r")
proof
  have full: "(k * Suc d + d) div Suc d = k" for k :: nat
    by (metis add.commute add_0_right div_less div_mult_self1 lessI nat.distinct(1))
  have cover: "m \<le> (m + d) div Suc d * Suc d"
  proof -
    have "(m + d) div Suc d * Suc d + (m + d) mod Suc d = m + d" by (rule div_mult_mod_eq)
    moreover have "(m + d) mod Suc d < Suc d" by (rule mod_less_divisor) simp
    ultimately show ?thesis by linarith
  qed
  show ?r if l: ?l
  proof (cases "n < m")
    case True
    then have n: "n div Suc d * Suc d = n" using l div_mult_mod_eq [of n "Suc d"] by simp
    have "(n + d) div Suc d = n div Suc d" using full [of "n div Suc d"] unfolding n .
    moreover have "(n + d) div Suc d \<le> (m + d) div Suc d" by (rule div_le_mono) (use True in simp)
    ultimately show ?thesis using l n True by (metis min.strict_order_iff)
  next
    case False
    then have "n = m" using l by simp
    with l cover show ?thesis by (simp add: min_absorb2)
  qed
  show ?l if r: ?r
  proof (cases "n < m")
    case True
    then have n: "n = q * Suc d" using r by (auto simp: min_def split: if_splits)
    then have "(n + d) div Suc d = q" "n mod Suc d = 0" by (simp_all only: full mod_mult_self2_is_0)
    with True show ?thesis by simp
  next
    case False
    then have e: "n = m" "m \<le> q * Suc d" using r by auto
    have "(m + d) div Suc d \<le> (q * Suc d + d) div Suc d" by (rule div_le_mono) (use e in simp)
    then have "(m + d) div Suc d \<le> q" unfolding full .
    with r e show ?thesis by simp
  qed
qed

lemma Suc_65535: "Suc 65535 = 65536"
  by simp

lemmas chunk_position_64k = chunk_position [where d = 65535, unfolded Suc_65535]

text \<open>
  The relay's cursor check accepts exactly the positions of a sender that sends full 64 KiB
  chunks: the pair is accepted just when the offset is that many chunks into the content, or
  its end, with no spare sequence number.
\<close>

theorem room_cursor_is_sender_position:
  assumes "unat (tp_size_bytes plan) + 65535 < 2 ^ 64"
  shows "validate_room_cursor plan q off = Inr () \<longleftrightarrow>
    unat off = min (unat q * 65536) (unat (tp_size_bytes plan))
    \<and> unat q \<le> (unat (tp_size_bytes plan) + 65535) div 65536"
proof -
  let ?c = "of_nat MAX_CHUNK_BYTES :: u64"
  have c: "unat ?c = 65536" "unat (?c - 1) = 65535" by (simp_all add: MAX_CHUNK_BYTES_def)
  show ?thesis
  proof (cases "off \<le> tp_size_bytes plan")
    case False
    then have "tp_size_bytes plan < off" "unat (tp_size_bytes plan) < unat off"
      by (simp_all add: word_less_nat_alt word_le_nat_alt)
    then show ?thesis by (auto simp: validate_room_cursor_def)
  next
    case True
    then have le: "unat off \<le> unat (tp_size_bytes plan)" by (simp add: word_le_nat_alt)
    with assms have "unat off + 65535 < 2 ^ LENGTH(64)" by simp
    then have add: "checked_add off (?c - 1) = Some (off + (?c - 1))"
      unfolding checked_add_def c(2) by (rule if_P)
    then have "unat (off + (?c - 1)) = unat off + 65535"
      using conjunct2 [OF checked_add_Some [OF add]] unfolding c(2) by simp
    then have d: "unat ((off + (?c - 1)) div ?c) = (unat off + 65535) div 65536"
      unfolding unat_div_distrib c(1) by simp
    have m: "off mod ?c = 0 \<longleftrightarrow> unat off mod 65536 = 0"
      unfolding word_unat_eq_iff unat_mod_distrib c(1) by simp
    have z: "off = 0 \<longleftrightarrow> unat off = 0" by (simp add: unat_eq_zero)
    have "validate_room_cursor plan q off = Inr () \<longleftrightarrow>
        (off < tp_size_bytes plan \<longrightarrow> off mod ?c = 0)
        \<and> q = (if off = 0 then 0 else (off + (?c - 1)) div ?c)"
      using True add by (auto simp: validate_room_cursor_def Let_def ok_or_def)
    also have "\<dots> \<longleftrightarrow> (unat off < unat (tp_size_bytes plan) \<longrightarrow> unat off mod 65536 = 0)
        \<and> unat q = (unat off + 65535) div 65536"
      unfolding m word_less_nat_alt word_unat_eq_iff [of q] z by (cases "unat off = 0") (simp_all add: d)
    finally show ?thesis by (simp only: chunk_position_64k [symmetric] le simp_thms)
  qed
qed

theorem room_cursor_is_sender_position_witness:
  "validate_room_cursor (plan_for (replicate 5 7)) 1 5 = Inr ()"
proof -
  have "tp_size_bytes (plan_for (replicate 5 7)) = 5" by (simp add: plan_for_fields)
  then show ?thesis using room_cursor_is_sender_position [of "plan_for (replicate 5 7)" 1 5] by simp
qed

section \<open>A transfer of a concrete content\<close>

lemma plan_for_live: "length D < 2 ^ 64 \<Longrightarrow> plan_of crypto0 1000 (plan_for D) D"
proof -
  assume "length D < 2 ^ 64"
  moreover have "xg_expires_at_unix xgrant0 = 2000" by (simp add: xgrant0_def)
  ultimately show ?thesis
    by (simp add: plan_of_def plan_for_fields plan_validate_at_def plan_for_valid grant_validate_at_def
        xgrant0_valid)
qed

lemma receiver_for:
  assumes "length D < 2 ^ 64"
  shows "\<exists>r. receiver_new crypto0 1000 (plan_for D) ''owner'' 1 1 2000 = Inr r
    \<and> received (plan_for D) D 0 0 r (part_opened (plan_for D) []) \<and> \<not> terminal (tj_state (tr_journal r))"
proof -
  have "valid_id ''owner'' ''journal owner'' = Inr ()" by code_simp
  with plan_for_live [OF assms] show ?thesis
    by (simp add: receiver_new_def journal_fresh_def plan_of_def received_def part_opened_def)
qed

lemma first_block:
  assumes "0 < length D" and "length D < 2 ^ 64"
  shows "\<exists>r r' s'. receiver_new crypto0 1000 (plan_for D) ''owner'' 1 1 2000 = Inr r
    \<and> foldl (part_exec crypto0) (r, part_opened (plan_for D) [])
        [(None, CallReceive 1000 (block_chunk crypto0 D 0 0))] = (r', s')
    \<and> received (plan_for D) D (block D 0) 1 r' s'
    \<and> tj_state (tr_journal r') = (if block D 0 = length D then Completed else Receiving)"
proof -
  obtain r where r: "receiver_new crypto0 1000 (plan_for D) ''owner'' 1 1 2000 = Inr r"
    "received (plan_for D) D 0 0 r (part_opened (plan_for D) [])" "\<not> terminal (tj_state (tr_journal r))"
    using receiver_for [OF assms(2)] by blast
  have "(part_opened (plan_for D) [])\<lparr>pf_fault := None\<rparr> = part_opened (plan_for D) []"
    by (simp add: part_opened_def)
  with receive_block [OF crypto0_laws plan_for_live [OF assms(2)] assms(1) r(2,3)] r(1)
  show ?thesis by (auto simp: part_exec_def)
qed

theorem completed_means_verified_witness:
  "\<exists>r r' s'. receiver_new crypto0 1000 (plan_for [7, 8, 9]) ''owner'' 1 1 2000 = Inr r
    \<and> foldl (part_exec crypto0) (r, part_opened (plan_for [7, 8, 9]) [])
        [(None, CallReceive 1000 (block_chunk crypto0 [7, 8, 9] 0 0))] = (r', s')
    \<and> tj_state (tr_journal r') = Completed
    \<and> hash_bytes crypto0 (pf_part s') = hash_bytes crypto0 [7, 8, 9] \<and> length (pf_part s') = 3"
proof -
  have "block [7, 8, 9 :: u8] 0 = 3" by (simp add: block_def MAX_CHUNK_BYTES_def)
  with first_block [of "[7, 8, 9]"] obtain r r' s' where
    r: "receiver_new crypto0 1000 (plan_for [7, 8, 9]) ''owner'' 1 1 2000 = Inr r"
    "foldl (part_exec crypto0) (r, part_opened (plan_for [7, 8, 9]) [])
        [(None, CallReceive 1000 (block_chunk crypto0 [7, 8, 9] 0 0))] = (r', s')"
    "tj_state (tr_journal r') = Completed" by (auto simp del: foldl_Cons)
  from completed_means_verified [OF r] r show ?thesis
    by (simp add: plan_for_fields del: foldl_Cons)
qed

theorem resume_after_crash_is_exact_witness:
  "\<exists>r r' s'. receiver_new crypto0 1000 (plan_for (replicate 70000 7)) ''owner'' 1 1 2000 = Inr r
    \<and> foldl (part_exec crypto0) (r, part_opened (plan_for (replicate 70000 7)) [])
        [(None, CallReceive 1000 (block_chunk crypto0 (replicate 70000 7) 0 0))] = (r', s')
    \<and> length (pf_part s') = 65536
    \<and> resume_from_part crypto0 1000 (plan_for (replicate 70000 7)) (tr_journal r')
        (Some \<lparr>fl_data = pf_part s', fl_pos = 0, fl_regular = True, fl_fault = None\<rparr>) = Inr r'"
proof -
  let ?D = "replicate 70000 (7 :: u8)"
  have b: "block ?D 0 = 65536" by (simp add: block_def MAX_CHUNK_BYTES_def)
  have n: "length ?D = 70000" by (rule length_replicate)
  from first_block [of ?D, unfolded n b] obtain r r' s' where
    r: "receiver_new crypto0 1000 (plan_for ?D) ''owner'' 1 1 2000 = Inr r"
    "foldl (part_exec crypto0) (r, part_opened (plan_for ?D) [])
        [(None, CallReceive 1000 (block_chunk crypto0 ?D 0 0))] = (r', s')"
    and s': "received (plan_for ?D) ?D 65536 1 r' s'" "tj_state (tr_journal r') = Receiving" by auto
  have "\<not> terminal (tj_state (tr_journal r'))" "pf_open s'" "length (pf_part s') = 65536"
    using s' by (simp_all add: received_def)
  moreover have "plan_validate_at crypto0 (plan_for ?D) 1000 = Inr ()"
    using plan_for_live [of ?D] n by (simp add: plan_of_def)
  ultimately show ?thesis using r resume_after_crash_is_exact [OF r] by blast
qed

theorem transfer_completes_witness:
  "\<exists>r sd r' s'. receiver_new crypto0 1000 (plan_for [7, 8, 9]) ''owner'' 1 1 2000 = Inr r
    \<and> from_retained_file crypto0 1000 (plan_for [7, 8, 9])
        \<lparr>fl_data = [7, 8, 9], fl_pos = 0, fl_regular = True, fl_fault = None\<rparr> 0 0 = Inr sd
    \<and> pump crypto0 1000 5 sd (r, part_opened (plan_for [7, 8, 9]) []) = Some (Inr (), r', s')
    \<and> pf_part s' = [7, 8, 9]"
proof -
  let ?D = "[7, 8, 9] :: bytes"
  obtain r where r: "receiver_new crypto0 1000 (plan_for ?D) ''owner'' 1 1 2000 = Inr r"
    using receiver_for [of ?D] by auto
  have "plan_of crypto0 1000 (plan_for ?D) ?D" by (rule plan_for_live) simp
  with transfer_completes [OF crypto0_laws, of 1000 "plan_for ?D"
      "\<lparr>fl_data = ?D, fl_pos = 0, fl_regular = True, fl_fault = None\<rparr>", OF _ _ _ _ _ r, of 5] r
  show ?thesis by auto
qed

end
