(* ===== verification/OM_Json.thy ===== *)
theory OM_Json
  imports OM_Bytes "HOL-Library.Char_ord" "HOL-Library.List_Lexorder"
begin

text \<open>
  JSON documents as the crates read and write them through serde.

  A value is a tree; \<open>jt_render\<close> and \<open>jt_parse\<close> stand for \<open>serde_json\<close>'s printer and reader and
  \<open>jt_error\<close> for the message of a text that does not deserialise.  The tree keeps duplicate
  keys, as the deserialisers generated by serde see them.  What serde generates for a type is
  written out where the type is modelled, from the combinators below.
\<close>

datatype json =
    JNull
  | JBool bool
  | JInt int
  | JFloat string
  | JStr string
  | JArr "json list"
  | JObj "(string \<times> json) list"

record json_text =
  jt_render :: "json \<Rightarrow> bytes"
  jt_parse :: "bytes \<Rightarrow> json option"
  jt_error :: "bytes \<Rightarrow> string"

text \<open>What the printer and the reader promise: what was printed is read back.\<close>

definition json_laws :: "json_text \<Rightarrow> bool" where
  "json_laws J \<longleftrightarrow> (\<forall>v. jt_parse J (jt_render J v) = Some v)"

lemma json_lawsD: "json_laws J \<Longrightarrow> jt_parse J (jt_render J v) = Some v"
  by (simp add: json_laws_def)

section \<open>Reading\<close>

text \<open>
  The fields of a \<open>struct\<close> with \<open>deny_unknown_fields\<close>: an object without unknown and duplicate
  keys, or an array of the fields in their order.
\<close>

definition struct_fields :: "string list \<Rightarrow> json \<Rightarrow> (string \<Rightarrow> json option) option" where
  "struct_fields names j =
     (case j of
        JObj kvs \<Rightarrow> if distinct (keys kvs) \<and> list_all (\<lambda>k. k \<in> set names) (keys kvs)
                    then Some (map_of kvs) else None
      | JArr vs \<Rightarrow> if length vs \<le> length names then Some (map_of (zip names vs)) else None
      | _ \<Rightarrow> None)"

text \<open>Without \<open>deny_unknown_fields\<close> an unknown key is skipped.\<close>

definition open_struct_fields :: "string list \<Rightarrow> json \<Rightarrow> (string \<Rightarrow> json option) option" where
  "open_struct_fields names j =
     (case j of
        JObj kvs \<Rightarrow> struct_fields names (JObj (filter (\<lambda>(k, v). k \<in> set names) kvs))
      | _ \<Rightarrow> struct_fields names j)"

definition field :: "(json \<Rightarrow> 'a option) \<Rightarrow> (string \<Rightarrow> json option) \<Rightarrow> string \<Rightarrow> 'a option" where
  "field f fs k = Option.bind (fs k) f"

definition field_or :: "'a \<Rightarrow> (json \<Rightarrow> 'a option) \<Rightarrow> (string \<Rightarrow> json option) \<Rightarrow> string \<Rightarrow> 'a option" where
  "field_or d f fs k = (case fs k of None \<Rightarrow> Some d | Some v \<Rightarrow> f v)"

definition json_str :: "json \<Rightarrow> string option" where
  "json_str j = (case j of JStr s \<Rightarrow> Some s | _ \<Rightarrow> None)"

text \<open>The name of a variant without fields: a string, or an object from the name to null.\<close>

definition json_variant :: "json \<Rightarrow> string option" where
  "json_variant j =
     (case j of JStr s \<Rightarrow> Some s | JObj [(s, JNull)] \<Rightarrow> Some s | _ \<Rightarrow> None)"

definition json_bool :: "json \<Rightarrow> bool option" where
  "json_bool j = (case j of JBool b \<Rightarrow> Some b | _ \<Rightarrow> None)"

definition in_i64 :: "int \<Rightarrow> bool" where
  "in_i64 n \<longleftrightarrow> - (2 ^ 63) \<le> n \<and> n < 2 ^ 63"

definition json_i64 :: "json \<Rightarrow> i64 option" where
  "json_i64 j = (case j of JInt n \<Rightarrow> if in_i64 n then Some n else None | _ \<Rightarrow> None)"

definition json_word :: "json \<Rightarrow> 'a::len word option" where
  "json_word j =
     (case j of
        JInt n \<Rightarrow> if 0 \<le> n \<and> n < 2 ^ LENGTH('a) then Some (word_of_int n) else None
      | _ \<Rightarrow> None)"

definition json_option :: "(json \<Rightarrow> 'a option) \<Rightarrow> json \<Rightarrow> 'a option option" where
  "json_option f j = (case j of JNull \<Rightarrow> Some None | _ \<Rightarrow> map_option Some (f j))"

text \<open>A \<open>BTreeMap\<close> with string keys; a repeated key replaces the earlier value.\<close>

fun btree_insert :: "'k::linorder \<Rightarrow> 'v \<Rightarrow> ('k \<times> 'v) list \<Rightarrow> ('k \<times> 'v) list" where
  "btree_insert k v [] = [(k, v)]"
| "btree_insert k v ((k', v') # m) =
     (if k < k' then (k, v) # (k', v') # m
      else if k = k' then (k, v) # m
      else (k', v') # btree_insert k v m)"

fun json_entries :: "(json \<Rightarrow> 'v option) \<Rightarrow> (string \<times> json) list \<Rightarrow> (string \<times> 'v) list \<Rightarrow> (string \<times> 'v) list option" where
  "json_entries f [] acc = Some acc"
| "json_entries f ((k, j) # kvs) acc =
     (case f j of None \<Rightarrow> None | Some v \<Rightarrow> json_entries f kvs (btree_insert k v acc))"

definition json_map :: "(json \<Rightarrow> 'v option) \<Rightarrow> json \<Rightarrow> (string \<times> 'v) list option" where
  "json_map f j = (case j of JObj kvs \<Rightarrow> json_entries f kvs [] | _ \<Rightarrow> None)"

section \<open>Writing\<close>

definition opt_field :: "string \<Rightarrow> ('a \<Rightarrow> json) \<Rightarrow> 'a option \<Rightarrow> (string \<times> json) list" where
  "opt_field k f v = (case v of None \<Rightarrow> [] | Some x \<Rightarrow> [(k, f x)])"

definition of_word :: "'a::len word \<Rightarrow> json" where
  "of_word w = JInt (uint w)"

definition of_entries :: "('v \<Rightarrow> json) \<Rightarrow> (string \<times> 'v) list \<Rightarrow> json" where
  "of_entries f m = JObj (map (\<lambda>(k, v). (k, f v)) m)"

section \<open>Reading back what was written\<close>

named_theorems json_simps

lemma json_str_of [json_simps]: "json_str (JStr s) = Some s"
  by (simp add: json_str_def)

lemma json_variant_of [json_simps]: "json_variant (JStr s) = Some s"
  by (simp add: json_variant_def)

lemma json_bool_of [json_simps]: "json_bool (JBool b) = Some b"
  by (simp add: json_bool_def)

lemma json_i64_of [json_simps]: "in_i64 n \<Longrightarrow> json_i64 (JInt n) = Some n"
  by (simp add: json_i64_def)

lemma json_word_of [json_simps]: "json_word (of_word w) = Some w"
  using uint_lt2p [of w] by (simp add: json_word_def of_word_def)

lemma json_option_str [json_simps]: "json_option json_str (JStr s) = Some (Some s)"
  by (simp add: json_option_def json_str_def)

lemma json_option_word [json_simps]: "json_option json_word (of_word w) = Some (Some w)"
  using json_word_of [of w] by (simp add: json_option_def of_word_def)

lemma map_of_opt_field [json_simps]:
  "map_of (opt_field k f v @ kvs) x = (if x = k \<and> v \<noteq> None then map_option f v else map_of kvs x)"
  "map_of (opt_field k f v) x = (if x = k then map_option f v else None)"
  by (auto simp: opt_field_def split: option.splits)

lemma keys_opt_field [json_simps]:
  "keys (opt_field k f v @ kvs) = (if v = None then [] else [k]) @ keys kvs"
  "keys (opt_field k f v) = (if v = None then [] else [k])"
  by (auto simp: opt_field_def split: option.splits)

section \<open>Ordered maps\<close>

definition btree :: "('k::linorder \<times> 'v) list \<Rightarrow> bool" where
  "btree m \<longleftrightarrow> sorted_wrt (<) (keys m)"

lemma btree_Nil [simp, intro]: "btree []"
  by (simp add: btree_def)

lemma btree_distinct: "btree m \<Longrightarrow> distinct (keys m)"
  by (auto simp: btree_def strict_sorted_iff)

lemma map_of_btree_insert [simp]: "map_of (btree_insert k v m) = (map_of m)(k \<mapsto> v)"
  by (induction m) (auto simp: fun_eq_iff)

lemma keys_btree_insert: "set (keys (btree_insert k v m)) = insert k (set (keys m))"
proof (induction m)
  case (Cons kv m)
  then show ?case by (cases kv) (simp add: insert_commute)
qed simp

lemma btree_Cons: "btree ((k, v) # m) \<longleftrightarrow> btree m \<and> (\<forall>x \<in> set (keys m). k < x)"
  by (auto simp: btree_def)

lemma btree_insert_btree [simp, intro]: "btree m \<Longrightarrow> btree (btree_insert k v m)"
proof (induction m)
  case (Cons kv m)
  obtain k' v' where kv: "kv = (k', v')" by (cases kv)
  with Cons show ?case
    using keys_btree_insert [of k v m] by (auto simp: btree_Cons intro: less_trans)
qed (simp add: btree_def)

lemma btree_filter [intro]: "btree m \<Longrightarrow> btree (filter P m)"
  by (auto simp: btree_def intro: sorted_wrt_filter)
    (metis (no_types, lifting) filter_map sorted_wrt_filter sorted_wrt_map)

lemma btree_delete [intro]: "btree m \<Longrightarrow> btree (AList.delete k m)"
  unfolding AList.delete_eq by (rule btree_filter)

lemma length_btree_insert_new:
  "btree m \<Longrightarrow> map_of m k = None \<Longrightarrow> length (btree_insert k v m) = Suc (length m)"
  by (induction m) (auto simp: btree_def split: if_splits)

lemma length_btree_insert_old:
  "btree m \<Longrightarrow> map_of m k \<noteq> None \<Longrightarrow> length (btree_insert k v m) = length m"
proof (induction m)
  case (Cons kv m)
  obtain k' v' where kv: "kv = (k', v')" by (cases kv)
  have "\<not> k < k'"
  proof
    assume "k < k'"
    with Cons.prems(1) kv have "k \<notin> set (keys ((k', v') # m))" by (auto simp: btree_Cons)
    then have "map_of (kv # m) k = None" unfolding kv by (simp only: map_of_eq_None_iff set_map) simp
    with Cons.prems(2) show False by simp
  qed
  with Cons kv show ?case by (auto simp: btree_Cons split: if_splits)
qed simp

lemma btree_insert_last:
  "(\<And>x. x \<in> set (keys m) \<Longrightarrow> x < k) \<Longrightarrow> btree_insert k v m = m @ [(k, v)]"
proof (induction m)
  case (Cons kv m)
  obtain k' v' where kv: "kv = (k', v')" by (cases kv)
  with Cons.prems [of k'] have "k' < k" by simp
  with Cons kv show ?case by (auto dest: less_asym)
qed simp

lemma json_entries_append:
  assumes "btree (acc @ m)" and "\<And>k v. (k, v) \<in> set m \<Longrightarrow> f (g v) = Some v"
  shows "json_entries f (map (\<lambda>(k, v). (k, g v)) m) acc = Some (acc @ m)"
  using assms
proof (induction m arbitrary: acc)
  case (Cons kv m)
  obtain k v where kv: "kv = (k, v)" by (cases kv)
  have "btree_insert k v acc = acc @ [(k, v)]"
    using Cons.prems(1) kv by (intro btree_insert_last) (auto simp: btree_def sorted_wrt_append)
  moreover have "json_entries f (map (\<lambda>(k, v). (k, g v)) m) (acc @ [(k, v)]) = Some ((acc @ [(k, v)]) @ m)"
    using Cons.prems kv by (intro Cons.IH) auto
  moreover have "f (g v) = Some v" using Cons.prems(2) [of k v] kv by simp
  ultimately show ?case using kv by simp
qed simp

lemma json_map_of_entries:
  "btree m \<Longrightarrow> (\<And>k v. (k, v) \<in> set m \<Longrightarrow> f (g v) = Some v) \<Longrightarrow> json_map f (of_entries g m) = Some m"
  using json_entries_append [of "[]" m f g] by (simp add: json_map_def of_entries_def)

lemma json_entries_btree: "btree acc \<Longrightarrow> json_entries f kvs acc = Some m \<Longrightarrow> btree m"
  by (induction f kvs acc rule: json_entries.induct) (auto split: option.splits)

lemma json_map_btree: "json_map f j = Some m \<Longrightarrow> btree m"
  by (auto simp: json_map_def split: json.splits intro: json_entries_btree)

lemma mem_btree_insert: "x \<in> set (btree_insert k v m) \<Longrightarrow> x = (k, v) \<or> x \<in> set m"
  by (induction m) (auto split: if_splits)

lemma json_entries_values:
  "json_entries f kvs acc = Some m \<Longrightarrow> (k, v) \<in> set m \<Longrightarrow> (k, v) \<in> set acc \<or> (\<exists>j. f j = Some v)"
  by (induction f kvs acc rule: json_entries.induct) (auto split: option.splits dest!: mem_btree_insert)

lemma json_map_values: "json_map f j = Some m \<Longrightarrow> (k, v) \<in> set m \<Longrightarrow> \<exists>j'. f j' = Some v"
  by (auto simp: json_map_def split: json.splits dest: json_entries_values)

section \<open>A text codec\<close>

text \<open>
  A printer and a reader that satisfy the laws: every string is preceded by its length, as in a
  netstring.
\<close>

definition netstring :: "string \<Rightarrow> string" where
  "netstring v = dec (length v) @ '':'' @ v"

definition take_netstring :: "string \<Rightarrow> string \<times> string" where
  "take_netstring s =
     (let d = takeWhile (\<lambda>c. c \<noteq> CHR '':'') s; r = drop (length d + 1) s; n = undec d
      in (take n r, drop n r))"

lemma take_netstring [simp]: "take_netstring (netstring v @ x) = (v, x)"
proof -
  have "takeWhile (\<lambda>c. c \<noteq> CHR '':'') (dec (length v) @ CHR '':'' # (v @ x)) = dec (length v)"
    by (subst takeWhile_append2) (auto dest: dec_no_colon)
  then show ?thesis by (simp add: take_netstring_def netstring_def Let_def del: undec.simps)
qed

fun split_netstrings :: "nat \<Rightarrow> string \<Rightarrow> string list" where
  "split_netstrings 0 s = []"
| "split_netstrings (Suc k) s =
     (if s = [] then [] else let (v, r) = take_netstring s in v # split_netstrings k r)"

lemma length_netstring: "length v < length (netstring v)"
  by (simp add: netstring_def)

lemma netstring_not_Nil [simp]: "netstring v \<noteq> []"
  by (simp add: netstring_def)

lemma split_netstrings [simp]:
  "length (concat (map netstring vs)) \<le> k \<Longrightarrow> split_netstrings k (concat (map netstring vs)) = vs"
proof (induction k arbitrary: vs)
  case 0
  then show ?case by (cases vs) auto
next
  case (Suc k)
  show ?case
  proof (cases vs)
    case (Cons v ws)
    with Suc.prems length_netstring [of v] have "length (concat (map netstring ws)) \<le> k" by simp
    with Suc.IH Cons show ?thesis by simp
  qed simp
qed

fun json_show :: "json \<Rightarrow> string" where
  "json_show JNull = ''n''"
| "json_show (JBool b) = (if b then ''t'' else ''f'')"
| "json_show (JInt n) = (if n < 0 then ''-'' else ''+'') @ dec (nat \<bar>n\<bar>)"
| "json_show (JFloat s) = ''d'' @ s"
| "json_show (JStr s) = ''s'' @ s"
| "json_show (JArr vs) = ''a'' @ concat (map netstring (map json_show vs))"
| "json_show (JObj kvs) = ''o'' @ concat (map netstring (map (\<lambda>kv. netstring (fst kv) @ json_show (snd kv)) kvs))"

fun json_read :: "nat \<Rightarrow> string \<Rightarrow> json" where
  "json_read 0 s = JNull"
| "json_read (Suc k) s =
     (let r = tl s; c = hd s in
      if c = CHR ''t'' then JBool True
      else if c = CHR ''f'' then JBool False
      else if c = CHR ''+'' then JInt (int (undec r))
      else if c = CHR ''-'' then JInt (- int (undec r))
      else if c = CHR ''d'' then JFloat r
      else if c = CHR ''s'' then JStr r
      else if c = CHR ''a'' then JArr (map (json_read k) (split_netstrings (length r) r))
      else if c = CHR ''o''
      then JObj (map (\<lambda>e. let (key, v) = take_netstring e in (key, json_read k v)) (split_netstrings (length r) r))
      else JNull)"

lemma length_netstrings: "v \<in> set vs \<Longrightarrow> length v < length (concat (map netstring vs))"
proof (induction vs)
  case (Cons w vs)
  then show ?case using length_netstring [of w] by auto
qed simp

lemma json_read_show: "length (json_show v) \<le> k \<Longrightarrow> json_read k (json_show v) = v"
proof (induction v arbitrary: k)
  case (JArr vs)
  then obtain k' where k: "k = Suc k'" by (cases k) auto
  have "json_read k' (json_show v) = v" if "v \<in> set vs" for v
    using that JArr.prems length_netstrings [of "json_show v" "map json_show vs"]
    by (intro JArr.IH) (auto simp: k)
  then have "map (json_read k') (map json_show vs) = vs" by (simp add: map_idI)
  with k show ?case by (simp del: map_map)
next
  case (JObj kvs)
  then obtain k' where k: "k = Suc k'" by (cases k) auto
  let ?f = "\<lambda>kv. netstring (fst kv) @ json_show (snd kv)"
  have "(fst kv, json_read k' (json_show (snd kv))) = kv" if "kv \<in> set kvs" for kv
    using that JObj.prems length_netstrings [of "?f kv" "map ?f kvs"] length_netstring [of "fst kv"]
    by (intro prod_eqI) (auto simp: k snds.simps intro!: JObj.IH [of kv])
  then have "map (\<lambda>e. let (key, v) = take_netstring e in (key, json_read k' v)) (map ?f kvs) = kvs"
    by (simp add: map_idI)
  with k show ?case by (simp del: map_map)
qed (auto simp: Suc_le_eq less_iff_Suc_add simp del: undec.simps split: if_splits)

definition json_text0 :: json_text where
  "json_text0 =
     \<lparr>jt_render = (\<lambda>v. as_bytes (json_show v)),
      jt_parse = (\<lambda>b. let v = json_read (length b) (map (\<lambda>w. char_of (unat w)) b)
                      in if as_bytes (json_show v) = b then Some v else None),
      jt_error = (\<lambda>b. ''not a document'')\<rparr>"

lemma of_as_bytes: "map (\<lambda>w. char_of (unat w)) (as_bytes s) = s"
proof -
  have "unat (of_char c :: u8) = of_char c" for c
    by (rule unat_of_char)
  then show ?thesis by (simp add: as_bytes_def comp_def)
qed

lemma json_text0_laws: "json_laws json_text0"
proof -
  have "length (as_bytes s) = length s" for s by (simp add: as_bytes_def)
  then show ?thesis by (simp add: json_laws_def json_text0_def of_as_bytes json_read_show)
qed

end
