(* ===== verification/Persist.thy ===== *)
theory Persist
  imports OM_Json OM_Path
begin

text \<open>
  Durable files: \<open>crates/ownmesh-persist/src/lib.rs\<close> and the owner-only writer
  \<open>atomic_write_owner_only\<close> of \<open>crates/ownmesh-ipc/src/registry.rs\<close>.

  A device is the content of its files, the outcome of the system calls to come (an error with
  the number of bytes that got through, for a write), the process-wide counter of temporary
  names, and every state of the files that has been passed through, which is what a crash may
  leave behind.  An operation on it returns its result and the device afterwards, or \<open>None\<close>
  when it does not return.
\<close>

section \<open>Devices\<close>

datatype io_error = AlreadyExists | InvalidInput string | UnexpectedEof string | IoError string

type_synonym files = "(string \<times> bytes) list"

record device =
  dv_files :: files
  dv_outcomes :: "(string \<times> nat) option list"
  dv_next_temp :: u64
  dv_passed :: "files list"

type_synonym ('e, 'a) action = "device \<Rightarrow> (('e, 'a) result \<times> device) option"

type_synonym 'a io = "(io_error, 'a) action"

definition content :: "device \<Rightarrow> string \<Rightarrow> bytes option" where
  "content d p = map_of (dv_files d) p"

definition io_return :: "'a \<Rightarrow> ('e, 'a) action" where
  "io_return a d = Some (Inr a, d)"

definition io_fail :: "'e \<Rightarrow> ('e, 'a) action" where
  "io_fail e d = Some (Inl e, d)"

definition io_bind :: "('e, 'a) action \<Rightarrow> ('a \<Rightarrow> ('e, 'b) action) \<Rightarrow> ('e, 'b) action" where
  "io_bind m f d =
     (case m d of
        None \<Rightarrow> None
      | Some (Inl e, d') \<Rightarrow> Some (Inl e, d')
      | Some (Inr a, d') \<Rightarrow> f a d')"

definition io_catch ::
  "('e, 'a) action \<Rightarrow> ('a \<Rightarrow> ('f, 'b) action) \<Rightarrow> ('e \<Rightarrow> ('f, 'b) action) \<Rightarrow> ('f, 'b) action" where
  "io_catch m f g d =
     (case m d of
        None \<Rightarrow> None
      | Some (Inl e, d') \<Rightarrow> g e d'
      | Some (Inr a, d') \<Rightarrow> f a d')"

definition map_err :: "('e \<Rightarrow> 'f) \<Rightarrow> ('e, 'a) action \<Rightarrow> ('f, 'a) action" where
  "map_err f m = io_catch m io_return (\<lambda>e. io_fail (f e))"

definition io_ignore :: "('e, 'a) action \<Rightarrow> ('f, unit) action" where
  "io_ignore m d = map_option (\<lambda>(r, d'). (Inr (), d')) (m d)"

text \<open>A system call: the next outcome decides between the two effects.\<close>

definition bytes_of :: "files \<Rightarrow> string \<Rightarrow> bytes" where
  "bytes_of fs p = (case map_of fs p of None \<Rightarrow> [] | Some b \<Rightarrow> b)"

definition pass_through :: "files \<Rightarrow> device \<Rightarrow> device" where
  "pass_through fs d =
     d\<lparr>dv_files := fs, dv_outcomes := tl (dv_outcomes d), dv_passed := fs # dv_passed d\<rparr>"

definition system_call :: "(files \<Rightarrow> files) \<Rightarrow> (nat \<Rightarrow> files \<Rightarrow> files) \<Rightarrow> unit io" where
  "system_call succeed fail d =
     (case dv_outcomes d of
        Some (e, n) # _ \<Rightarrow> Some (Inl (IoError e), pass_through (fail n (dv_files d)) d)
      | _ \<Rightarrow> Some (Inr (), pass_through (succeed (dv_files d)) d))"

definition io_check :: "unit io" where
  "io_check = system_call id (\<lambda>_. id)"

definition write_all :: "string \<Rightarrow> bytes \<Rightarrow> unit io" where
  "write_all p b =
     system_call (\<lambda>fs. AList.update p (bytes_of fs p @ b) fs)
                 (\<lambda>n fs. AList.update p (bytes_of fs p @ take n b) fs)"

definition remove_file :: "string \<Rightarrow> unit io" where
  "remove_file p = system_call (AList.delete p) (\<lambda>_. id)"

definition rename_file :: "string \<Rightarrow> string \<Rightarrow> unit io" where
  "rename_file p q =
     system_call (\<lambda>fs. AList.update q (bytes_of fs p) (AList.delete p fs)) (\<lambda>_. id)"

definition create_new :: "string \<Rightarrow> unit io" where
  "create_new p d =
     (if content d p \<noteq> None then Some (Inl AlreadyExists, d)
      else system_call (AList.update p []) (\<lambda>_. id) d)"

definition hard_link :: "string \<Rightarrow> string \<Rightarrow> unit io" where
  "hard_link p q d =
     (if content d q \<noteq> None then Some (Inl AlreadyExists, d)
      else system_call (\<lambda>fs. AList.update q (bytes_of fs p) fs) (\<lambda>_. id) d)"

text \<open>How an error reads.\<close>

definition io_text :: "io_error \<Rightarrow> string" where
  "io_text e =
     (case e of
        AlreadyExists \<Rightarrow> ''File exists (os error 17)''
      | InvalidInput s \<Rightarrow> s
      | UnexpectedEof s \<Rightarrow> s
      | IoError s \<Rightarrow> s)"

section \<open>Writers\<close>

definition unique_temp_path :: "string \<Rightarrow> u32 \<Rightarrow> u64 \<Rightarrow> string" where
  "unique_temp_path target process_id n =
     target @ ''.tmp.'' @ dec (unat process_id) @ ''.'' @ dec (unat n)"

partial_function (option) create_unique_temp :: "u32 \<Rightarrow> string \<Rightarrow> string io" where
  "create_unique_temp process_id target d =
     (let tmp = unique_temp_path target process_id (dv_next_temp d);
          d1 = d\<lparr>dv_next_temp := dv_next_temp d + 1\<rparr>
      in case create_new tmp d1 of
           None \<Rightarrow> None
         | Some (Inr _, d2) \<Rightarrow> Some (Inr tmp, d2)
         | Some (Inl e, d2) \<Rightarrow>
             if e = AlreadyExists then create_unique_temp process_id target d2
             else Some (Inl e, d2))"

definition path_parent :: "string \<Rightarrow> path_component list option" where
  "path_parent p =
     (let cs = components p
      in if cs = [] \<or> last cs = RootDir then None else Some (butlast cs))"

definition replace_sibling :: "string \<Rightarrow> string \<Rightarrow> unit io" where
  "replace_sibling tmp target =
     (if path_parent tmp \<noteq> path_parent target
      then io_fail (InvalidInput ''atomic replacement paths must be siblings'')
      else rename_file tmp target)"

text \<open>The closure \<open>prepare\<close> changes permissions only: a call that succeeds or fails.\<close>

definition write_atomically_with :: "u32 \<Rightarrow> string \<Rightarrow> bytes \<Rightarrow> unit io" where
  "write_atomically_with process_id target data =
     io_bind io_check (\<lambda>_.
     io_bind (create_unique_temp process_id target) (\<lambda>tmp.
     io_bind io_check (\<lambda>_.
     io_bind (write_all tmp data) (\<lambda>_.
     io_bind io_check (\<lambda>_.
     io_bind io_check (\<lambda>_.
     io_bind (replace_sibling tmp target) (\<lambda>_.
     io_ignore io_check)))))))"

text \<open>\<open>expected\<close> is the length from the metadata, \<open>got\<close> what reading the source delivered.\<close>

definition copy_atomically_with :: "u32 \<Rightarrow> nat \<Rightarrow> bytes \<Rightarrow> string \<Rightarrow> nat io" where
  "copy_atomically_with process_id expected got target =
     io_bind io_check (\<lambda>_.
     io_bind (create_unique_temp process_id target) (\<lambda>tmp.
     io_bind io_check (\<lambda>_.
     io_bind io_check (\<lambda>_.
     io_bind io_check (\<lambda>_.
     io_bind (write_all tmp got) (\<lambda>_.
     if length got \<noteq> expected
     then io_fail (UnexpectedEof ''atomic copy source length changed during read'')
     else
       io_bind io_check (\<lambda>_.
       io_bind io_check (\<lambda>_.
       io_bind (replace_sibling tmp target) (\<lambda>_.
       io_bind (io_ignore io_check) (\<lambda>_.
       io_return (length got)))))))))))"

datatype create_once = Created | ExistedAlready

definition create_once_with :: "u32 \<Rightarrow> string \<Rightarrow> bytes \<Rightarrow> create_once io" where
  "create_once_with process_id target data =
     io_bind io_check (\<lambda>_.
     io_bind (create_unique_temp process_id target) (\<lambda>tmp.
     io_bind io_check (\<lambda>_.
     io_bind (write_all tmp data) (\<lambda>_.
     io_bind io_check (\<lambda>_.
     io_bind io_check (\<lambda>_.
     io_catch (hard_link tmp target)
       (\<lambda>_.
          io_bind (io_ignore (remove_file tmp)) (\<lambda>_.
          io_bind (io_ignore io_check) (\<lambda>_.
          io_return Created)))
       (\<lambda>e.
          if e = AlreadyExists
          then io_bind (io_ignore (remove_file tmp)) (\<lambda>_. io_return ExistedAlready)
          else io_fail e)))))))"

text \<open>
  \<open>atomic_write_owner_only\<close>: the custody checks before and after the replacement are calls that
  succeed or fail; \<open>tmp\<close> carries the random part of the temporary name.
\<close>

definition atomic_write_owner_only :: "string \<Rightarrow> string \<Rightarrow> bytes \<Rightarrow> unit io" where
  "atomic_write_owner_only tmp target data =
     io_bind io_check (\<lambda>_.
     io_bind io_check (\<lambda>_.
     io_bind io_check (\<lambda>_.
     io_bind (\<lambda>d. if content d target \<noteq> None then io_check d else io_return () d) (\<lambda>_.
     io_bind
       (io_catch
         (io_bind (create_new tmp) (\<lambda>_.
          io_bind io_check (\<lambda>_.
          io_bind (write_all tmp data) (\<lambda>_.
          io_bind io_check (\<lambda>_.
          io_bind (rename_file tmp target) (\<lambda>_.
          io_check))))))
         io_return
         (\<lambda>e. io_bind (io_ignore (remove_file tmp)) (\<lambda>_. io_fail e))) (\<lambda>_.
     io_bind io_check (\<lambda>_.
     io_check))))))"

text \<open>
  \<open>read_owner_only_file_bounded\<close>: the directory, its custody, the path, the opening, the open file
  and its length are checked before the file is read.
\<close>

fun io_checks :: "nat \<Rightarrow> unit io" where
  "io_checks 0 = io_return ()"
| "io_checks (Suc n) = io_bind io_check (\<lambda>_. io_checks n)"

definition read_owner_only_file_bounded :: "string \<Rightarrow> nat \<Rightarrow> bytes io" where
  "read_owner_only_file_bounded path max_bytes =
     (if max_bytes = 0 then io_fail (IoError ''owner-only read byte limit must be positive'')
      else if path_parent path = None then io_fail (IoError (''owner-only path has no parent: '' @ path))
      else
        io_bind (io_checks 6) (\<lambda>_ d.
        case content d path of
          None \<Rightarrow> io_fail (IoError ''No such file or directory (os error 2)'') d
        | Some bytes \<Rightarrow>
            if length bytes > max_bytes
            then io_fail (IoError (''owner-only file exceeds '' @ dec max_bytes @ '' byte budget: '' @ path)) d
            else io_bind io_check (\<lambda>_. io_return bytes) d))"

section \<open>Reasoning about operations\<close>

text \<open>
  Total correctness: from a device with \<open>P\<close> the operation returns, with \<open>Q\<close> after a result and
  \<open>E\<close> after an error.
\<close>

definition triple ::
  "(device \<Rightarrow> bool) \<Rightarrow> ('e, 'a) action \<Rightarrow> ('a \<Rightarrow> device \<Rightarrow> bool) \<Rightarrow> ('e \<Rightarrow> device \<Rightarrow> bool) \<Rightarrow> bool"
  where
  "triple P m Q E \<longleftrightarrow>
     (\<forall>d. P d \<longrightarrow> (\<exists>r d'. m d = Some (r, d') \<and> (case r of Inr a \<Rightarrow> Q a d' | Inl e \<Rightarrow> E e d')))"

lemma triple_bind:
  assumes "triple P m R E" and "\<And>a. triple (R a) (f a) Q E"
  shows "triple P (io_bind m f) Q E"
  unfolding triple_def
proof (intro allI impI)
  fix d
  assume "P d"
  then obtain r d' where m: "m d = Some (r, d')" and r: "case r of Inr a \<Rightarrow> R a d' | Inl e \<Rightarrow> E e d'"
    using assms(1) unfolding triple_def by blast
  show "\<exists>r d'. io_bind m f d = Some (r, d') \<and> (case r of Inr a \<Rightarrow> Q a d' | Inl e \<Rightarrow> E e d')"
  proof (cases r)
    case (Inl e)
    with m r show ?thesis by (simp add: io_bind_def)
  next
    case (Inr a)
    with r have "R a d'" by simp
    with assms(2) [of a] obtain r2 d2 where "f a d' = Some (r2, d2)"
      "case r2 of Inr b \<Rightarrow> Q b d2 | Inl e \<Rightarrow> E e d2"
      unfolding triple_def by blast
    with m Inr show ?thesis by (simp add: io_bind_def)
  qed
qed

lemma triple_catch:
  assumes "triple P m R S" and "\<And>a. triple (R a) (f a) Q E" and "\<And>e. triple (S e) (g e) Q E"
  shows "triple P (io_catch m f g) Q E"
  unfolding triple_def
proof (intro allI impI)
  fix d
  assume "P d"
  then obtain r d' where m: "m d = Some (r, d')" and r: "case r of Inr a \<Rightarrow> R a d' | Inl e \<Rightarrow> S e d'"
    using assms(1) unfolding triple_def by blast
  show "\<exists>r d'. io_catch m f g d = Some (r, d') \<and> (case r of Inr a \<Rightarrow> Q a d' | Inl e \<Rightarrow> E e d')"
  proof (cases r)
    case (Inl e)
    with r have "S e d'" by simp
    with assms(3) [of e] m Inl show ?thesis unfolding triple_def by (simp add: io_catch_def)
  next
    case (Inr a)
    with r have "R a d'" by simp
    with assms(2) [of a] m Inr show ?thesis unfolding triple_def by (simp add: io_catch_def)
  qed
qed

lemma triple_map_err:
  assumes "triple P m Q (\<lambda>_. E)"
  shows "triple P (map_err f m) Q (\<lambda>_. E)"
  unfolding map_err_def
  by (rule triple_catch [OF assms]) (simp_all add: triple_def io_return_def io_fail_def)

lemma triple_weaken:
  assumes "triple P' m Q' E'" and "\<And>d. P d \<Longrightarrow> P' d"
    and "\<And>a d. Q' a d \<Longrightarrow> Q a d" and "\<And>e d. E' e d \<Longrightarrow> E e d"
  shows "triple P m Q E"
  unfolding triple_def
proof (intro allI impI)
  fix d
  assume "P d"
  with assms(1,2) obtain r d' where "m d = Some (r, d')" "case r of Inr a \<Rightarrow> Q' a d' | Inl e \<Rightarrow> E' e d'"
    unfolding triple_def by blast
  with assms(3,4) show "\<exists>r d'. m d = Some (r, d') \<and> (case r of Inr a \<Rightarrow> Q a d' | Inl e \<Rightarrow> E e d')"
    by (cases r) auto
qed

lemma triple_system_call:
  assumes "\<And>d. P d \<Longrightarrow> Q () (pass_through (succeed (dv_files d)) d)"
    and "\<And>d e n. P d \<Longrightarrow> E (IoError e) (pass_through (fail n (dv_files d)) d)"
  shows "triple P (system_call succeed fail) Q E"
  using assms unfolding triple_def system_call_def by (auto split: list.splits option.splits)

lemma triple_fail: "(\<And>d. P d \<Longrightarrow> E e d) \<Longrightarrow> triple P (io_fail e) Q E"
  by (simp add: triple_def io_fail_def)

lemma triple_return: "(\<And>d. P d \<Longrightarrow> Q a d) \<Longrightarrow> triple P (io_return a) Q E"
  by (simp add: triple_def io_return_def)

lemma triple_ignore:
  assumes "triple P m (\<lambda>_. Q) (\<lambda>_. Q)"
  shows "triple P (io_ignore m) (\<lambda>_. Q) E"
  unfolding triple_def
proof (intro allI impI)
  fix d
  assume "P d"
  with assms obtain r d' where "m d = Some (r, d')" "case r of Inr a \<Rightarrow> Q d' | Inl e \<Rightarrow> Q d'"
    unfolding triple_def by blast
  then show "\<exists>r d'. io_ignore m d = Some (r, d') \<and> (case r of Inr a \<Rightarrow> Q d' | Inl e \<Rightarrow> E e d')"
    by (cases r) (auto simp: io_ignore_def)
qed

text \<open>
  What holds while a writer that started on \<open>d0\<close> is at work: every state of the files since
  then has, at the target, one of the contents in \<open>T\<close>, and everywhere but at the target and the
  temporary name what was there at the start.
\<close>

definition working :: "device \<Rightarrow> string \<Rightarrow> bytes option set \<Rightarrow> string \<Rightarrow> device \<Rightarrow> bool" where
  "working d0 target T tmp d \<longleftrightarrow>
     (\<exists>new. dv_passed d = new @ dv_passed d0 \<and>
        (\<forall>fs \<in> set (dv_files d # new).
           map_of fs target \<in> T \<and> (\<forall>p. p \<noteq> target \<and> p \<noteq> tmp \<longrightarrow> map_of fs p = content d0 p)))"

lemma working_pass:
  assumes "working d0 target T tmp d" and "map_of fs target \<in> T"
    and "\<And>p. p \<noteq> target \<Longrightarrow> p \<noteq> tmp \<Longrightarrow> map_of fs p = map_of (dv_files d) p"
  shows "working d0 target T tmp (pass_through fs d)"
proof -
  obtain new where "dv_passed d = new @ dv_passed d0"
    "\<forall>fs \<in> set (dv_files d # new).
       map_of fs target \<in> T \<and> (\<forall>p. p \<noteq> target \<and> p \<noteq> tmp \<longrightarrow> map_of fs p = content d0 p)"
    using assms(1) unfolding working_def by blast
  with assms(2,3) show ?thesis
    unfolding working_def pass_through_def by (intro exI [of _ "fs # new"]) auto
qed

lemma working_next_temp [simp]:
  "working d0 target T tmp (d\<lparr>dv_next_temp := n\<rparr>) = working d0 target T tmp d"
  by (simp add: working_def)

lemma files_pass_through [simp]: "dv_files (pass_through fs d) = fs"
  by (simp add: pass_through_def)

lemma content_pass_through [simp]: "content (pass_through fs d) p = map_of fs p"
  by (simp add: content_def pass_through_def)

text \<open>The writer holds its temporary file with content \<open>b\<close>, and the target has content \<open>c\<close>.\<close>

definition holding ::
  "device \<Rightarrow> string \<Rightarrow> bytes option set \<Rightarrow> string \<Rightarrow> bytes \<Rightarrow> bytes option \<Rightarrow> device \<Rightarrow> bool" where
  "holding d0 target T tmp b c d \<longleftrightarrow>
     working d0 target T tmp d \<and> content d tmp = Some b \<and> content d target = c \<and> tmp \<noteq> target"

definition left_alone :: "device \<Rightarrow> string \<Rightarrow> bytes option set \<Rightarrow> bytes option \<Rightarrow> device \<Rightarrow> bool" where
  "left_alone d0 target T c d \<longleftrightarrow> (\<exists>tmp. working d0 target T tmp d) \<and> content d target = c"

lemma holding_left_alone: "holding d0 target T tmp b c d \<Longrightarrow> left_alone d0 target T c d"
  by (auto simp: holding_def left_alone_def)

lemma triple_check_holding:
  "c \<in> T \<Longrightarrow> triple (holding d0 target T tmp b c) io_check (\<lambda>_. holding d0 target T tmp b c)
     (\<lambda>_. left_alone d0 target T c)"
  unfolding io_check_def
  by (rule triple_system_call)
    (auto simp: holding_def left_alone_def content_def [symmetric] intro!: working_pass exI)

lemma working_stay:
  "working d0 target T tmp d \<Longrightarrow> content d target \<in> T \<Longrightarrow>
   working d0 target T tmp (pass_through (dv_files d) d)"
  by (rule working_pass) (simp_all add: content_def)

lemma triple_check_left_alone:
  "c \<in> T \<Longrightarrow> triple (left_alone d0 target T c) io_check (\<lambda>_. left_alone d0 target T c)
     (\<lambda>_. left_alone d0 target T c)"
  unfolding io_check_def
  by (rule triple_system_call)
    (auto simp: left_alone_def content_def [symmetric] dest: working_stay)

lemma triple_write_all:
  "c \<in> T \<Longrightarrow> triple (holding d0 target T tmp [] c) (write_all tmp b)
     (\<lambda>_. holding d0 target T tmp b c) (\<lambda>_. left_alone d0 target T c)"
  unfolding write_all_def
  by (rule triple_system_call)
    (auto simp: holding_def left_alone_def content_def bytes_of_def update_conv' intro!: working_pass exI)

lemma triple_rename:
  assumes "c \<in> T" and "Some b \<in> T"
  shows "triple (holding d0 target T tmp b c) (rename_file tmp target)
     (\<lambda>_ d. working d0 target T tmp d \<and> content d target = Some b) (\<lambda>_. left_alone d0 target T c)"
  unfolding rename_file_def
  by (rule triple_system_call)
    (use assms in \<open>auto simp: holding_def left_alone_def content_def bytes_of_def update_conv'
        delete_conv' intro!: working_pass exI\<close>)

section \<open>Temporary names\<close>

lemma unique_temp_path_inj: "unique_temp_path t p m = unique_temp_path t p n \<longleftrightarrow> m = n"
  by (simp add: unique_temp_path_def word_unat_eq_iff)

lemma unique_temp_path_not_target: "unique_temp_path t p n \<noteq> t"
  by (simp add: unique_temp_path_def)

lemma free_temp_path:
  assumes "length fs < 2 ^ 64"
  shows "\<exists>k. map_of fs (unique_temp_path t p (n + of_nat k)) = None"
proof (rule ccontr)
  assume no: "\<nexists>k. map_of fs (unique_temp_path t p (n + of_nat k)) = None"
  have all: "unique_temp_path t p (n + of_nat k) \<in> set (keys fs)" for k
  proof -
    from no have "\<forall>k. map_of fs (unique_temp_path t p (n + of_nat k)) \<noteq> None" by simp
    then have "map_of fs (unique_temp_path t p (n + of_nat k)) \<noteq> None" by (rule spec)
    then show ?thesis unfolding set_map map_of_eq_None_iff by blast
  qed
  have "unique_temp_path t p m \<in> set (keys fs)" for m
    using all [of "unat (m - n)"] by simp
  then have "range (unique_temp_path t p) \<subseteq> set (keys fs)" by auto
  then have "card (range (unique_temp_path t p)) \<le> card (set (keys fs))" by (rule card_mono [rotated]) simp
  moreover have "inj (unique_temp_path t p)" by (rule injI) (simp add: unique_temp_path_inj)
  then have "card (range (unique_temp_path t p)) = 2 ^ 64"
    by (simp add: card_image card_word)
  moreover have "card (set (keys fs)) \<le> length fs" using card_length [of "keys fs"] by simp
  ultimately show False using assms by linarith
qed

lemma create_unique_temp_skips:
  assumes "\<And>j. j < k \<Longrightarrow> content d (unique_temp_path t p (dv_next_temp d + of_nat j)) \<noteq> None"
    and "content d (unique_temp_path t p (dv_next_temp d + of_nat k)) = None"
  defines "tmp \<equiv> unique_temp_path t p (dv_next_temp d + of_nat k)"
  shows "create_unique_temp p t d =
    map_option (\<lambda>(r, d'). (map_sum id (\<lambda>_. tmp) r, d'))
      (system_call (AList.update tmp []) (\<lambda>_. id) (d\<lparr>dv_next_temp := dv_next_temp d + of_nat k + 1\<rparr>))"
  unfolding tmp_def
  using assms(1,2)
proof (induction k arbitrary: d)
  case 0
  then show ?case
    by (subst create_unique_temp.simps)
      (auto simp: create_new_def content_def system_call_def Let_def split: list.splits option.splits)
next
  case (Suc k)
  let ?d = "d\<lparr>dv_next_temp := dv_next_temp d + 1\<rparr>"
  have "create_unique_temp p t d = create_unique_temp p t ?d"
    using Suc.prems(1) [of 0] by (subst create_unique_temp.simps) (simp add: create_new_def content_def Let_def)
  also have "\<dots> = map_option (\<lambda>(r, d'). (map_sum id (\<lambda>_. unique_temp_path t p (dv_next_temp ?d + of_nat k)) r, d'))
      (system_call (AList.update (unique_temp_path t p (dv_next_temp ?d + of_nat k)) []) (\<lambda>_. id)
        (?d\<lparr>dv_next_temp := dv_next_temp ?d + of_nat k + 1\<rparr>))"
  proof (rule Suc.IH)
    show "content ?d (unique_temp_path t p (dv_next_temp ?d + of_nat j)) \<noteq> None" if "j < k" for j
      using Suc.prems(1) [of "Suc j"] that by (simp add: content_def add.assoc)
    show "content ?d (unique_temp_path t p (dv_next_temp ?d + of_nat k)) = None"
      using Suc.prems(2) by (simp add: content_def add.assoc)
  qed
  finally show ?case by (simp add: add.assoc id_def)
qed

text \<open>A device whose files have been the same so far; \<open>roomy\<close>: not every temporary name is taken.\<close>

definition untouched :: "device \<Rightarrow> device \<Rightarrow> bool" where
  "untouched d0 d \<longleftrightarrow>
     (\<exists>new. dv_passed d = new @ dv_passed d0 \<and> (\<forall>fs \<in> set (dv_files d # new). map_of fs = content d0))"

definition roomy :: "device \<Rightarrow> bool" where
  "roomy d \<longleftrightarrow> length (dv_files d) < 2 ^ 64"

lemma untouched_working:
  "untouched d0 d \<Longrightarrow> content d0 target \<in> T \<Longrightarrow> working d0 target T tmp d"
  unfolding untouched_def working_def by (elim exE, intro exI) auto

lemma untouched_left_alone:
  "untouched d0 d \<Longrightarrow> content d0 target \<in> T \<Longrightarrow> left_alone d0 target T (content d0 target) d"
  using untouched_working [of d0 d target T] by (auto simp: left_alone_def untouched_def content_def)

lemma untouched_pass [simp]: "untouched d0 d \<Longrightarrow> untouched d0 (pass_through (dv_files d) d)"
  unfolding untouched_def pass_through_def by (elim exE, rule_tac x = "dv_files d # new" in exI) auto

lemma triple_check_untouched:
  assumes "content d0 target \<in> T"
  shows "triple (untouched d0) io_check (\<lambda>_. untouched d0) (\<lambda>_. left_alone d0 target T (content d0 target))"
    and "triple (\<lambda>d. untouched d0 d \<and> roomy d) io_check (\<lambda>_ d. untouched d0 d \<and> roomy d)
      (\<lambda>_. left_alone d0 target T (content d0 target))"
  unfolding io_check_def using assms
  by (auto intro!: triple_system_call simp: roomy_def dest: untouched_left_alone [OF untouched_pass])

lemma untouched_create:
  assumes "content d0 target \<in> T" and "untouched d0 d" and "tmp \<noteq> target"
  shows "holding d0 target T tmp [] (content d0 target) (pass_through (AList.update tmp [] (dv_files d)) d)"
proof -
  have "working d0 target T tmp (pass_through (AList.update tmp [] (dv_files d)) d)"
    using assms by (intro working_pass untouched_working) (auto simp: update_conv' untouched_def)
  then show ?thesis using assms by (auto simp: holding_def update_conv' untouched_def)
qed

lemma triple_create_unique_temp:
  assumes T: "content d0 target \<in> T"
  shows "triple (\<lambda>d. untouched d0 d \<and> roomy d) (create_unique_temp p target)
    (\<lambda>tmp. holding d0 target T tmp [] (content d0 target)) (\<lambda>_. left_alone d0 target T (content d0 target))"
  unfolding triple_def
proof (intro allI impI)
  fix d
  assume d: "untouched d0 d \<and> roomy d"
  let ?path = "\<lambda>k. unique_temp_path target p (dv_next_temp d + of_nat k)"
  have "\<exists>k. content d (?path k) = None"
    using d free_temp_path [of "dv_files d"] by (simp add: roomy_def content_def)
  then obtain k where k: "content d (?path k) = None" "\<And>j. j < k \<Longrightarrow> content d (?path j) \<noteq> None"
    using exists_least_iff [of "\<lambda>k. content d (?path k) = None"] by blast
  let ?d = "d\<lparr>dv_next_temp := dv_next_temp d + of_nat k + 1\<rparr>"
  have u: "untouched d0 ?d" using d by (simp add: untouched_def)
  have neq: "?path k \<noteq> target" by (rule unique_temp_path_not_target)
  from untouched_create [OF T u neq] untouched_left_alone [OF untouched_pass [OF u] T]
  show "\<exists>r d'. create_unique_temp p target d = Some (r, d')
      \<and> (case r of Inr tmp \<Rightarrow> holding d0 target T tmp [] (content d0 target) d'
         | Inl e \<Rightarrow> left_alone d0 target T (content d0 target) d')"
    using create_unique_temp_skips [OF k(2,1)]
    by (auto simp: system_call_def split: list.splits option.splits)
qed

section \<open>The writers are atomic\<close>

lemma triple_replace_sibling:
  assumes "c \<in> T" and "Some b \<in> T"
  shows "triple (holding d0 target T tmp b c) (replace_sibling tmp target)
    (\<lambda>_. left_alone d0 target T (Some b)) (\<lambda>_. left_alone d0 target T c)"
proof (cases "path_parent tmp = path_parent target")
  case True
  then have e: "replace_sibling tmp target = rename_file tmp target" by (simp add: replace_sibling_def)
  show ?thesis
    unfolding e by (rule triple_weaken [OF triple_rename [OF assms]]) (auto simp: left_alone_def)
next
  case False
  then show ?thesis
    by (auto simp: replace_sibling_def intro!: triple_fail holding_left_alone)
qed

lemma triple_write_atomically:
  assumes "content d0 target \<in> T" and "Some data \<in> T"
  shows "triple (\<lambda>d. untouched d0 d \<and> roomy d) (write_atomically_with p target data)
    (\<lambda>_. left_alone d0 target T (Some data)) (\<lambda>_. left_alone d0 target T (content d0 target))"
  unfolding write_atomically_with_def using assms
  by (intro triple_bind [OF triple_check_untouched(2)] triple_bind [OF triple_create_unique_temp]
      triple_bind [OF triple_check_holding] triple_bind [OF triple_write_all]
      triple_bind [OF triple_replace_sibling] triple_ignore triple_check_left_alone)

lemma triple_copy_atomically:
  assumes "content d0 target \<in> T" and "Some got \<in> T"
  shows "triple (\<lambda>d. untouched d0 d \<and> roomy d) (copy_atomically_with p expected got target)
    (\<lambda>n d. left_alone d0 target T (Some got) d \<and> n = expected \<and> n = length got)
    (\<lambda>_. left_alone d0 target T (content d0 target))"
proof (cases "length got = expected")
  case True
  show ?thesis
    unfolding copy_atomically_with_def using assms True
    by (auto intro!: triple_bind [OF triple_check_untouched(2)] triple_bind [OF triple_create_unique_temp]
        triple_bind [OF triple_check_holding] triple_bind [OF triple_write_all]
        triple_bind [OF triple_replace_sibling] triple_bind [OF triple_ignore [OF triple_check_left_alone]]
        triple_return)
next
  case False
  show ?thesis
    unfolding copy_atomically_with_def using assms False
    by (auto intro!: triple_bind [OF triple_check_untouched(2)] triple_bind [OF triple_create_unique_temp]
        triple_bind [OF triple_check_holding] triple_bind [OF triple_write_all] triple_fail holding_left_alone)
qed

lemma triple_remove_temp:
  assumes "content d target = c" and "c \<in> T" and "working d0 target T tmp d" and "tmp \<noteq> target"
  shows "left_alone d0 target T c (pass_through (AList.delete tmp (dv_files d)) d)"
proof -
  have "working d0 target T tmp (pass_through (AList.delete tmp (dv_files d)) d)"
    using assms by (intro working_pass) (auto simp: delete_conv' content_def)
  then show ?thesis using assms by (auto simp: left_alone_def delete_conv' content_def)
qed

lemma triple_remove_file:
  assumes "c \<in> T" and "tmp \<noteq> target"
  shows "triple (\<lambda>d. working d0 target T tmp d \<and> content d target = c) (remove_file tmp)
    (\<lambda>_. left_alone d0 target T c) (\<lambda>_. left_alone d0 target T c)"
  unfolding remove_file_def using assms
  by (intro triple_system_call)
    (auto simp: triple_remove_temp, auto simp: left_alone_def content_def [symmetric] dest: working_stay)

lemma triple_hard_link:
  assumes "c \<in> T" and "Some b \<in> T"
  shows "triple (holding d0 target T tmp b c) (hard_link tmp target)
    (\<lambda>_ d. working d0 target T tmp d \<and> content d target = Some b \<and> (c = None \<and> tmp \<noteq> target))
    (\<lambda>e d. working d0 target T tmp d \<and> content d target = c \<and> ((e = AlreadyExists \<longleftrightarrow> c \<noteq> None) \<and> tmp \<noteq> target))"
proof (cases "c = None")
  case True
  have "hard_link tmp target d = system_call (\<lambda>fs. AList.update target (bytes_of fs tmp) fs) (\<lambda>_. id) d"
    if "holding d0 target T tmp b c d" for d
    using that True by (simp add: hard_link_def holding_def)
  moreover have "triple (holding d0 target T tmp b c)
      (system_call (\<lambda>fs. AList.update target (bytes_of fs tmp) fs) (\<lambda>_. id))
      (\<lambda>_ d. working d0 target T tmp d \<and> content d target = Some b \<and> (c = None \<and> tmp \<noteq> target))
      (\<lambda>e d. working d0 target T tmp d \<and> content d target = c \<and> ((e = AlreadyExists \<longleftrightarrow> c \<noteq> None) \<and> tmp \<noteq> target))"
    using assms True
    by (intro triple_system_call)
      (auto simp: holding_def content_def bytes_of_def update_conv' intro!: working_pass)
  ultimately show ?thesis unfolding triple_def by simp
next
  case False
  then show ?thesis by (auto simp: triple_def hard_link_def holding_def)
qed

lemma triple_context:
  "(X \<Longrightarrow> triple (\<lambda>d. A d \<and> B d) m Q E) \<Longrightarrow> triple (\<lambda>d. A d \<and> B d \<and> X) m Q E"
  by (auto simp: triple_def)

lemma triple_create_once:
  assumes T: "content d0 target \<in> T" "Some data \<in> T"
  shows "triple (\<lambda>d. untouched d0 d \<and> roomy d) (create_once_with p target data)
    (\<lambda>r d. case r of
        Created \<Rightarrow> content d0 target = None \<and> left_alone d0 target T (Some data) d
      | ExistedAlready \<Rightarrow> content d0 target \<noteq> None \<and> left_alone d0 target T (content d0 target) d)
    (\<lambda>_. left_alone d0 target T (content d0 target))"
    (is "triple _ _ ?Q ?E")
proof -
  let ?c = "content d0 target"
  have created: "triple (\<lambda>d. working d0 target T tmp d \<and> content d target = Some data \<and> (?c = None \<and> tmp \<noteq> target))
      (io_bind (io_ignore (remove_file tmp)) (\<lambda>_. io_bind (io_ignore io_check) (\<lambda>_. io_return Created))) ?Q ?E"
    for tmp
    using T
    by (intro triple_context triple_bind [OF triple_ignore [OF triple_remove_file]]
        triple_bind [OF triple_ignore [OF triple_check_left_alone]] triple_return) auto
  have existed: "triple (\<lambda>d. working d0 target T tmp d \<and> content d target = ?c
        \<and> ((e = AlreadyExists \<longleftrightarrow> ?c \<noteq> None) \<and> tmp \<noteq> target))
      (if e = AlreadyExists then io_bind (io_ignore (remove_file tmp)) (\<lambda>_. io_return ExistedAlready)
       else io_fail e) ?Q ?E" for tmp e
  proof (cases "e = AlreadyExists")
    case True
    then show ?thesis
      using T by (auto intro!: triple_context triple_bind [OF triple_ignore [OF triple_remove_file]] triple_return)
  next
    case False
    then show ?thesis by (auto intro!: triple_fail simp: left_alone_def)
  qed
  show ?thesis
    unfolding create_once_with_def using T
    by (intro triple_bind [OF triple_check_untouched(2)] triple_bind [OF triple_create_unique_temp]
      triple_bind [OF triple_check_holding] triple_bind [OF triple_write_all]
      triple_catch [OF triple_hard_link] created existed)
qed

text \<open>The owner-only writer may fail after the replacement, so an error leaves either content.\<close>

lemma working_content: "working d0 target T tmp d \<Longrightarrow> content d target \<in> T"
  by (auto simp: working_def content_def)

lemma triple_system_call_working:
  assumes "\<And>d. working d0 target T tmp d \<Longrightarrow> P d \<Longrightarrow>
      map_of (succeed (dv_files d)) target \<in> T \<and> Q (pass_through (succeed (dv_files d)) d)
      \<and> (\<forall>p. p \<noteq> target \<longrightarrow> p \<noteq> tmp \<longrightarrow> map_of (succeed (dv_files d)) p = map_of (dv_files d) p)"
    and "\<And>d n. working d0 target T tmp d \<Longrightarrow> P d \<Longrightarrow>
      map_of (fail n (dv_files d)) target \<in> T
      \<and> (\<forall>p. p \<noteq> target \<longrightarrow> p \<noteq> tmp \<longrightarrow> map_of (fail n (dv_files d)) p = map_of (dv_files d) p)"
  shows "triple (\<lambda>d. working d0 target T tmp d \<and> P d) (system_call succeed fail)
    (\<lambda>_ d. working d0 target T tmp d \<and> Q d) (\<lambda>_. working d0 target T tmp)"
  using assms by (intro triple_system_call) (auto intro!: working_pass)

lemma triple_check_working:
  assumes "\<And>fs d. P d \<Longrightarrow> fs = dv_files d \<Longrightarrow> P (pass_through fs d)"
  shows "triple (\<lambda>d. working d0 target T tmp d \<and> P d) io_check
    (\<lambda>_ d. working d0 target T tmp d \<and> P d) (\<lambda>_. working d0 target T tmp)"
  unfolding io_check_def
  by (rule triple_system_call_working) (auto simp: content_def [symmetric] assms dest: working_content)

lemma triple_write_working:
  assumes "tmp \<noteq> target"
  shows "triple (\<lambda>d. working d0 target T tmp d \<and> content d tmp = Some []) (write_all tmp b)
    (\<lambda>_ d. working d0 target T tmp d \<and> content d tmp = Some b) (\<lambda>_. working d0 target T tmp)"
  unfolding write_all_def using assms
  by (intro triple_system_call_working)
    (auto simp: content_def bytes_of_def update_conv' dest: working_content)

lemma triple_rename_working:
  assumes "tmp \<noteq> target" and "Some b \<in> T"
  shows "triple (\<lambda>d. working d0 target T tmp d \<and> content d tmp = Some b) (rename_file tmp target)
    (\<lambda>_ d. working d0 target T tmp d \<and> content d target = Some b) (\<lambda>_. working d0 target T tmp)"
  unfolding rename_file_def using assms
  by (intro triple_system_call_working)
    (auto simp: content_def bytes_of_def update_conv' delete_conv' dest: working_content)

lemma triple_create_working:
  assumes "tmp \<noteq> target"
  shows "triple (working d0 target T tmp) (create_new tmp)
    (\<lambda>_ d. working d0 target T tmp d \<and> content d tmp = Some []) (\<lambda>_. working d0 target T tmp)"
  unfolding triple_def
proof (intro allI impI)
  fix d
  assume w: "working d0 target T tmp d"
  have "working d0 target T tmp (pass_through (AList.update tmp [] (dv_files d)) d)"
    using w working_content [OF w] assms by (intro working_pass) (auto simp: update_conv' content_def)
  moreover have "working d0 target T tmp (pass_through (dv_files d) d)"
    using w working_content [OF w] by (rule working_stay)
  ultimately show "\<exists>r d'. create_new tmp d = Some (r, d')
      \<and> (case r of Inr a \<Rightarrow> working d0 target T tmp d' \<and> content d' tmp = Some [] | Inl e \<Rightarrow> working d0 target T tmp d')"
    using w by (auto simp: create_new_def system_call_def update_conv' split: list.splits option.splits)
qed

lemma triple_remove_working:
  assumes "tmp \<noteq> target"
  shows "triple (working d0 target T tmp) (io_ignore (remove_file tmp))
    (\<lambda>_. working d0 target T tmp) E"
proof -
  have "triple (\<lambda>d. working d0 target T tmp d \<and> True) (remove_file tmp)
      (\<lambda>_ d. working d0 target T tmp d \<and> True) (\<lambda>_. working d0 target T tmp)"
    unfolding remove_file_def using assms
    by (intro triple_system_call_working) (auto simp: delete_conv' content_def dest: working_content)
  then show ?thesis by (intro triple_ignore) simp
qed

lemma triple_owner_only:
  assumes "Some data \<in> T" and neq: "tmp \<noteq> target"
  shows "triple (working d0 target T tmp) (atomic_write_owner_only tmp target data)
    (\<lambda>_ d. working d0 target T tmp d \<and> content d target = Some data) (\<lambda>_. working d0 target T tmp)"
proof -
  let ?W = "working d0 target T tmp"
  have chk: "triple ?W io_check (\<lambda>_. ?W) (\<lambda>_. ?W)"
    using triple_check_working [of "\<lambda>_. True"] by simp
  have chk_tmp: "triple (\<lambda>d. ?W d \<and> content d tmp = x) io_check (\<lambda>_ d. ?W d \<and> content d tmp = x) (\<lambda>_. ?W)" for x
    by (rule triple_check_working) (simp add: content_def)
  have chk_target: "triple (\<lambda>d. ?W d \<and> content d target = x) io_check (\<lambda>_ d. ?W d \<and> content d target = x) (\<lambda>_. ?W)" for x
    by (rule triple_check_working) (simp add: content_def)
  have exists: "triple ?W (\<lambda>d. if content d target \<noteq> None then io_check d else io_return () d) (\<lambda>_. ?W) (\<lambda>_. ?W)"
    using chk by (auto simp: triple_def io_return_def)
  have stage: "triple ?W (io_bind (create_new tmp) (\<lambda>_. io_bind io_check (\<lambda>_. io_bind (write_all tmp data) (\<lambda>_.
      io_bind io_check (\<lambda>_. io_bind (rename_file tmp target) (\<lambda>_. io_check))))))
      (\<lambda>_ d. ?W d \<and> content d target = Some data) (\<lambda>_. ?W)"
    using assms
    by (intro triple_bind [OF triple_create_working] triple_bind [OF chk_tmp] triple_bind [OF triple_write_working]
        triple_bind [OF triple_rename_working] chk_target)
  have undo: "triple ?W (io_bind (io_ignore (remove_file tmp)) (\<lambda>_. io_fail e)) Q (\<lambda>_. ?W)" for e Q
    using neq by (intro triple_bind [OF triple_remove_working] triple_fail)
  have keep: "triple (\<lambda>d. ?W d \<and> content d target = Some data) (io_return u) (\<lambda>_ d. ?W d \<and> content d target = Some data) (\<lambda>_. ?W)"
    for u by (rule triple_return)
  show ?thesis
    unfolding atomic_write_owner_only_def
    by (intro triple_bind [OF chk] triple_bind [OF exists] triple_bind [OF triple_catch [OF stage keep undo]]
        triple_bind [OF chk_target] chk_target)
qed

section \<open>The contract of a writer\<close>

text \<open>
  What a component may rely on when it keeps a document in a file: a write that succeeds has
  stored the new content, and one that fails has left the old content or stored the new one.
  A committing writer also leaves the old content whenever it fails.
\<close>

definition document :: "json_text \<Rightarrow> device \<Rightarrow> string \<Rightarrow> json option" where
  "document J d t = Option.bind (content d t) (jt_parse J)"

text \<open>At every moment since \<open>d\<close> the target holds what it held there or all of the new content.\<close>

definition crash_safe :: "device \<Rightarrow> string \<Rightarrow> bytes \<Rightarrow> device \<Rightarrow> bool" where
  "crash_safe d t b d' \<longleftrightarrow>
     (\<exists>new. dv_passed d' = new @ dv_passed d
        \<and> list_all (\<lambda>fs. map_of fs t \<in> {content d t, Some b}) new)"

lemma working_crash_safe: "working d t {content d t, Some b} tmp d' \<Longrightarrow> crash_safe d t b d'"
  by (auto simp: working_def crash_safe_def list_all_iff)

locale atomic_writer =
  fixes put :: "string \<Rightarrow> bytes \<Rightarrow> ('e, unit) action"
    and ready :: "device \<Rightarrow> bool"
  assumes write_returns: "ready d \<Longrightarrow> \<exists>r d'. put t b d = Some (r, d')"
    and write_ok: "ready d \<Longrightarrow> put t b d = Some (Inr u, d') \<Longrightarrow> content d' t = Some b"
    and write_error:
      "ready d \<Longrightarrow> put t b d = Some (Inl e, d') \<Longrightarrow> content d' t = content d t \<or> content d' t = Some b"
    and write_moments: "ready d \<Longrightarrow> put t b d = Some (r, d') \<Longrightarrow> crash_safe d t b d'"
begin

lemma document_after:
  assumes "json_laws J" and "ready d" and "put t (jt_render J v) d = Some (r, d')"
  shows "document J d' t = Some v \<or> (\<exists>e. r = Inl e) \<and> document J d' t = document J d t"
proof (cases r)
  case (Inl e)
  with assms write_error [of d t "jt_render J v" e d'] show ?thesis
    by (auto simp: document_def json_lawsD)
next
  case (Inr u)
  with assms write_ok [of d t "jt_render J v" u d'] show ?thesis
    by (auto simp: document_def json_lawsD)
qed

end

locale committing_writer = atomic_writer +
  assumes error_keeps: "ready d \<Longrightarrow> put t b d = Some (Inl e, d') \<Longrightarrow> content d' t = content d t"
begin

lemma document_exact:
  assumes "json_laws J" and "ready d" and "put t (jt_render J v) d = Some (r, d')"
  shows "document J d' t = (case r of Inr _ \<Rightarrow> Some v | Inl _ \<Rightarrow> document J d t)"
  using assms write_ok [of d t "jt_render J v" _ d'] error_keeps [of d t "jt_render J v" _ d']
  by (cases r) (auto simp: document_def json_lawsD)

end

lemma untouched_start [simp]: "untouched d d"
  by (auto simp: untouched_def content_def)

lemma working_start: "content d target \<in> T \<Longrightarrow> working d target T tmp d"
  using untouched_working [OF untouched_start] .

lemma triple_apply:
  assumes "triple P m Q E" and "P d"
  shows "\<exists>r d'. m d = Some (r, d') \<and> (case r of Inr a \<Rightarrow> Q a d' | Inl e \<Rightarrow> E e d')"
  using assms unfolding triple_def by blast

text \<open>A writer that works on the target and one temporary file is atomic.\<close>

definition atomic_result :: "device \<Rightarrow> string \<Rightarrow> bytes \<Rightarrow> ('e, unit) result \<Rightarrow> device \<Rightarrow> bool" where
  "atomic_result d t b r d' \<longleftrightarrow>
     (\<exists>tmp. working d t {content d t, Some b} tmp d') \<and> (r = Inr () \<longrightarrow> content d' t = Some b)"

lemma atomic_resultI:
  assumes "triple (working d t {content d t, Some b} tmp) m
      (\<lambda>_ d'. working d t {content d t, Some b} tmp d' \<and> content d' t = Some b)
      (\<lambda>_. working d t {content d t, Some b} tmp)"
  shows "\<exists>r d'. m d = Some (r, d') \<and> atomic_result d t b r d'"
proof -
  have "working d t {content d t, Some b} tmp d" by (rule working_start) simp
  from triple_apply [OF assms this] obtain r d' where m: "m d = Some (r, d')"
    and r: "case r of Inr _ \<Rightarrow> working d t {content d t, Some b} tmp d' \<and> content d' t = Some b
      | Inl _ \<Rightarrow> working d t {content d t, Some b} tmp d'" by blast
  from r have "atomic_result d t b r d'" by (cases r) (auto simp: atomic_result_def)
  with m show ?thesis by blast
qed

lemma atomic_writerI:
  assumes "\<And>d t b. ready d \<Longrightarrow> \<exists>r d'. put t b d = Some (r, d') \<and> atomic_result d t b r d'"
  shows "atomic_writer put ready"
proof
  fix d t b
  assume "ready d"
  then obtain r1 d1 tmp where w: "put t b d = Some (r1, d1)" "working d t {content d t, Some b} tmp d1"
    "r1 = Inr () \<longrightarrow> content d1 t = Some b"
    using assms [of d t b] unfolding atomic_result_def by blast
  then show "\<exists>r d'. put t b d = Some (r, d')" by blast
  show "content d' t = Some b" if "put t b d = Some (Inr v, d')" for v d'
    using w that by auto
  show "content d' t = content d t \<or> content d' t = Some b" if "put t b d = Some (Inl e, d')" for e d'
    using w(1) that working_content [OF w(2)] by auto
  show "crash_safe d t b d'" if "put t b d = Some (r, d')" for r d'
    using w(1) that working_crash_safe [OF w(2)] by auto
qed

lemma write_atomically_post:
  assumes "roomy d"
  shows "\<exists>r d'. write_atomically_with p t b d = Some (r, d')
    \<and> left_alone d t {content d t, Some b} (case r of Inr _ \<Rightarrow> Some b | Inl _ \<Rightarrow> content d t) d'"
  using triple_apply [OF triple_write_atomically [of d t "{content d t, Some b}" b p], of d] assms
  by (auto split: sum.splits)

lemma write_atomically_atomic:
  assumes "roomy d"
  shows "\<exists>r d'. write_atomically_with p t b d = Some (r, d') \<and> atomic_result d t b r d'"
proof -
  from write_atomically_post [OF assms, of p t b] obtain r d' where
    "write_atomically_with p t b d = Some (r, d')"
    "left_alone d t {content d t, Some b} (case r of Inr _ \<Rightarrow> Some b | Inl _ \<Rightarrow> content d t) d'" by blast
  then show ?thesis
    by (intro exI [of _ r] exI [of _ d']) (auto simp: atomic_result_def left_alone_def)
qed

interpretation persist_writer: committing_writer "write_atomically_with p" roomy for p
proof -
  have "atomic_writer (write_atomically_with p) roomy"
    by (rule atomic_writerI) (rule write_atomically_atomic)
  then show "committing_writer (write_atomically_with p) roomy"
  proof (rule committing_writer.intro)
    show "committing_writer_axioms (write_atomically_with p) roomy"
    proof
      fix d t b e d'
      assume "roomy d" and w: "write_atomically_with p t b d = Some (Inl e, d')"
      from write_atomically_post [OF this(1), of p t b] w show "content d' t = content d t"
        by (auto simp: left_alone_def)
    qed
  qed
qed

text \<open>The temporary name of the owner-only writer, beside the target.\<close>

definition owner_temp_path :: "u32 \<Rightarrow> string \<Rightarrow> string \<Rightarrow> string" where
  "owner_temp_path process_id uuid target =
     (let base = rev (takeWhile (\<lambda>c. c \<noteq> CHR ''/'') (rev target));
          dir = rev (dropWhile (\<lambda>c. c \<noteq> CHR ''/'') (rev target))
      in dir @ ''.'' @ base @ ''.tmp-'' @ dec (unat process_id) @ ''-'' @ uuid)"

lemma owner_temp_path_not_target: "owner_temp_path p u t \<noteq> t"
proof
  assume e: "owner_temp_path p u t = t"
  have "length (takeWhile (\<lambda>c. c \<noteq> CHR ''/'') (rev t)) + length (dropWhile (\<lambda>c. c \<noteq> CHR ''/'') (rev t)) = length t"
    by (metis length_append length_rev takeWhile_dropWhile_id)
  then have "length t < length (owner_temp_path p u t)" by (simp add: owner_temp_path_def Let_def)
  with e show False by simp
qed

text \<open>The writer as its callers see it: a target without a parent is refused first.\<close>

definition owner_write :: "u32 \<Rightarrow> string \<Rightarrow> string \<Rightarrow> bytes \<Rightarrow> unit io" where
  "owner_write process_id uuid target data =
     (if path_parent target = None
      then io_fail (IoError (''credential registry path has no parent: '' @ target))
      else atomic_write_owner_only (owner_temp_path process_id uuid target) target data)"

lemma owner_write_atomic: "\<exists>r d'. owner_write p u t b d = Some (r, d') \<and> atomic_result d t b r d'"
proof (cases "path_parent t = None")
  case True
  then show ?thesis by (auto simp: owner_write_def io_fail_def atomic_result_def intro!: exI working_start)
next
  case False
  have "triple (working d t {content d t, Some b} (owner_temp_path p u t)) (owner_write p u t b)
      (\<lambda>_ d'. working d t {content d t, Some b} (owner_temp_path p u t) d' \<and> content d' t = Some b)
      (\<lambda>_. working d t {content d t, Some b} (owner_temp_path p u t))"
    using False unfolding owner_write_def
    by (simp only: if_False) (rule triple_owner_only, simp_all add: owner_temp_path_not_target)
  then show ?thesis by (rule atomic_resultI)
qed

interpretation owner_writer: atomic_writer "owner_write p u" "\<lambda>_. True" for p u
  by (rule atomic_writerI) (rule owner_write_atomic)

section \<open>Reading\<close>

lemma map_err_result: "map_err f m d = map_option (\<lambda>(r, d'). (map_sum f id r, d')) (m d)"
  by (auto simp: map_err_def io_catch_def io_return_def io_fail_def split: option.splits sum.splits)

lemma io_bind_Inr_iff:
  "io_bind m f d = Some (Inr y, d') \<longleftrightarrow> (\<exists>x d1. m d = Some (Inr x, d1) \<and> f x d1 = Some (Inr y, d'))"
  by (auto simp: io_bind_def split: option.splits sum.splits)

lemma map_err_Inr_iff: "map_err f m d = Some (Inr x, d') \<longleftrightarrow> m d = Some (Inr x, d')"
  by (auto simp: map_err_def io_catch_def io_return_def io_fail_def split: option.splits sum.splits)

lemmas io_Inr_iff = io_bind_Inr_iff map_err_Inr_iff

lemma io_check_files: "io_check d = Some (r, d') \<Longrightarrow> dv_files d' = dv_files d"
  by (auto simp: io_check_def system_call_def pass_through_def split: list.splits option.splits)

lemma io_checks_files: "io_checks n d = Some (r, d') \<Longrightarrow> dv_files d' = dv_files d"
proof (induction n arbitrary: d)
  case (Suc n)
  then show ?case
    by (auto simp: io_bind_def dest!: io_check_files split: option.splits sum.splits prod.splits)
qed (simp add: io_return_def)

lemma healthy_check: "dv_outcomes d = [] \<Longrightarrow> io_check d = Some (Inr (), pass_through (dv_files d) d)"
  by (simp add: io_check_def system_call_def)

lemma healthy_checks:
  "dv_outcomes d = [] \<Longrightarrow> \<exists>d'. io_checks n d = Some (Inr (), d') \<and> dv_files d' = dv_files d \<and> dv_outcomes d' = []"
proof (induction n arbitrary: d)
  case (Suc n)
  from Suc.IH [of "pass_through (dv_files d) d"] Suc.prems show ?case
    by (simp add: io_bind_def healthy_check pass_through_def)
qed (simp add: io_return_def)

lemma read_bounded_Inr:
  assumes "read_owner_only_file_bounded p m d = Some (Inr b, d')"
  shows "content d p = Some b \<and> length b \<le> m \<and> dv_files d' = dv_files d"
proof -
  obtain d1 where d1: "io_checks 6 d = Some (Inr (), d1)"
    and "content d1 p = Some b" "length b \<le> m" "\<exists>r. io_check d1 = Some (r, d')"
    using assms
    by (auto simp: read_owner_only_file_bounded_def io_fail_def io_return_def io_Inr_iff
        simp del: io_checks.simps split: if_splits option.splits)
  with io_checks_files [OF d1] show ?thesis by (auto simp: content_def dest: io_check_files)
qed

lemma read_bounded_healthy:
  assumes "dv_outcomes d = []" and "content d p = Some b" and "length b \<le> m" and "0 < m" and "path_parent p \<noteq> None"
  shows "\<exists>d'. read_owner_only_file_bounded p m d = Some (Inr b, d')"
proof -
  from healthy_checks [OF assms(1), of 6] obtain d1 where
    "io_checks 6 d = Some (Inr (), d1)" "dv_files d1 = dv_files d" "dv_outcomes d1 = []" by blast
  with assms show ?thesis
    by (auto simp: read_owner_only_file_bounded_def io_bind_def healthy_check io_return_def content_def
        simp del: io_checks.simps)
qed

section \<open>What the writers guarantee\<close>

text \<open>
  C17: Replacing a file is atomic.  On a device with a free temporary name the write always
  returns, whichever of its system calls fail; at every moment the target holds its old content
  or all of the new one, so a crash never leaves it torn or missing; and the result is the
  truth: after a success the target holds the new content, after an error still the old one.
  No file but the target and the writer's own temporary file changes at any moment.
\<close>

theorem write_atomically_is_atomic:
  assumes "length (dv_files d) < 2 ^ 64" and "dv_passed d = []"
  shows "\<exists>r d' tmp. write_atomically_with p target data d = Some (r, d')
    \<and> content d' target = (case r of Inr _ \<Rightarrow> Some data | Inl _ \<Rightarrow> content d target)
    \<and> (\<forall>fs \<in> set (dv_passed d'). map_of fs target \<in> {content d target, Some data}
        \<and> (\<forall>q. q \<noteq> target \<and> q \<noteq> tmp \<longrightarrow> map_of fs q = content d q))"
proof -
  have "roomy d" using assms(1) by (simp add: roomy_def)
  from write_atomically_post [OF this, of p target data] obtain r d' tmp where
    "write_atomically_with p target data d = Some (r, d')"
    "content d' target = (case r of Inr _ \<Rightarrow> Some data | Inl _ \<Rightarrow> content d target)"
    "working d target {content d target, Some data} tmp d'"
    by (auto simp: left_alone_def)
  with assms(2) show ?thesis
    by (intro exI [of _ r] exI [of _ d'] exI [of _ tmp]) (auto simp: working_def)
qed

text \<open>
  Creating a file once never touches a file that exists.  The result says which happened:
  created, and then there was no file and it holds the data; or existed already, and then it is
  unchanged; after an error the target is as it was.  At every moment the target is as before
  or complete.
\<close>

theorem create_once_never_overwrites:
  assumes "length (dv_files d) < 2 ^ 64" and "dv_passed d = []"
  shows "\<exists>r d'. create_once_with p target data d = Some (r, d')
    \<and> (r = Inr Created \<longrightarrow> content d target = None \<and> content d' target = Some data)
    \<and> (r = Inr ExistedAlready \<longrightarrow> content d target \<noteq> None \<and> content d' target = content d target)
    \<and> (\<forall>e. r = Inl e \<longrightarrow> content d' target = content d target)
    \<and> (\<forall>fs \<in> set (dv_passed d'). map_of fs target \<in> {content d target, Some data})"
proof -
  have start: "untouched d d \<and> roomy d" using assms(1) by (simp add: roomy_def)
  obtain r d' where w: "create_once_with p target data d = Some (r, d')"
    and r: "case r of Inl e \<Rightarrow> left_alone d target {content d target, Some data} (content d target) d'
      | Inr Created \<Rightarrow> content d target = None \<and> left_alone d target {content d target, Some data} (Some data) d'
      | Inr ExistedAlready \<Rightarrow> content d target \<noteq> None
          \<and> left_alone d target {content d target, Some data} (content d target) d'"
    using triple_apply [OF triple_create_once start, of target "{content d target, Some data}" data p] by auto
  have "\<exists>c. left_alone d target {content d target, Some data} c d'"
    using r by (auto split: sum.splits create_once.splits)
  then have "\<forall>fs \<in> set (dv_passed d'). map_of fs target \<in> {content d target, Some data}"
    using assms(2) by (auto simp: left_alone_def working_def)
  then show ?thesis
    using w r
    by (intro exI [of _ r] exI [of _ d']) (auto simp: left_alone_def split: sum.splits create_once.splits)
qed

text \<open>A device with one file, on which the third system call fails.\<close>

definition device0 :: "(string \<times> nat) option list \<Rightarrow> device" where
  "device0 outcomes =
     \<lparr>dv_files = [(''state.json'', [1, 2])], dv_outcomes = outcomes, dv_next_temp = 0, dv_passed = []\<rparr>"

theorem write_atomically_is_atomic_witness:
  "\<exists>r d'. write_atomically_with 7 ''state.json'' [3, 4, 5] (device0 [None, None, None, Some (''full'', 1)]) = Some (r, d')
    \<and> content d' ''state.json'' = (case r of Inr _ \<Rightarrow> Some [3, 4, 5] | Inl _ \<Rightarrow> Some [1, 2])"
proof -
  let ?d = "device0 [None, None, None, Some (''full'', 1)]"
  have d: "length (dv_files ?d) < 2 ^ 64" "dv_passed ?d = []" "content ?d ''state.json'' = Some [1, 2]"
    by (simp_all add: device0_def content_def)
  from write_atomically_is_atomic [OF d(1,2), of 7 "''state.json''" "[3, 4, 5]", unfolded d(3)]
  show ?thesis by (elim exE conjE, intro exI conjI)
qed

theorem create_once_never_overwrites_witness:
  "\<exists>r d'. create_once_with 7 ''state.json'' [3] (device0 []) = Some (r, d')
    \<and> content d' ''state.json'' = Some [1, 2]"
proof -
  have d: "length (dv_files (device0 [])) < 2 ^ 64" "dv_passed (device0 []) = []"
    "content (device0 []) ''state.json'' = Some [1, 2]"
    by (simp_all add: device0_def content_def)
  obtain r d' where "create_once_with 7 ''state.json'' [3] (device0 []) = Some (r, d')"
    "r = Inr Created \<longrightarrow> content (device0 []) ''state.json'' = None \<and> content d' ''state.json'' = Some [3]"
    "r = Inr ExistedAlready \<longrightarrow> content d' ''state.json'' = content (device0 []) ''state.json''"
    "\<forall>e. r = Inl e \<longrightarrow> content d' ''state.json'' = content (device0 []) ''state.json''"
    using create_once_never_overwrites [OF d(1,2), of 7 "''state.json''" "[3]"] by blast
  with d(3) show ?thesis by (cases r) (metis create_once.exhaust option.distinct(1))+
qed

end
