(* ===== verification/Ledger.thy ===== *)
theory Ledger
  imports Persist OM_Interfaces
begin

text \<open>
  The broker's replay ledger, \<open>crates/ownmesh-broker/src/ledger.rs\<close>: a durable record of every
  capability nonce that has been consumed, written before an elevated process may start.

  A ledger in memory is a record; its file is the content of its path on the device.  Methods
  return their result, the ledger and the device, also on an error.  What serde generates for
  the file format is written out (\<open>ledger_to_json\<close>, \<open>ledger_from_json\<close> and the legacy format).
  The metadata that the custody checks inspect is an argument.
\<close>

section \<open>Data\<close>

definition LEDGER_VERSION :: u32 where "LEDGER_VERSION = 2"
definition MAX_LEDGER_BYTES :: nat where "MAX_LEDGER_BYTES = 4 * 1024 * 1024"
definition MAX_NONCE_BYTES :: nat where "MAX_NONCE_BYTES = 256"
definition DIGEST_HEX_BYTES :: nat where "DIGEST_HEX_BYTES = 64"

datatype replay_state = ReservedPreSpawn | SpawnedUncertain | Completed | AbortedBeforeSpawn

record reconciliation_record =
  rr_actor :: string
  rr_at_unix :: i64
  rr_prior_state :: replay_state
  rr_new_state :: replay_state

record ledger_entry =
  le_digest :: string
  le_reserved_at_unix :: i64
  le_expires_at_unix :: i64
  le_transition_seq :: u64
  le_state :: replay_state
  le_process_pid :: "u32 option"
  le_process_birth_id :: "u64 option"
  le_result_digest :: "string option"
  le_reconciliation :: "reconciliation_record option"

type_synonym ledger_entries = "(string \<times> ledger_entry) list"

datatype legacy_replay_state = LegacyReserved | LegacyCompleted

record legacy_ledger_entry =
  lg_digest :: string
  lg_expires_at_unix :: i64
  lg_state :: legacy_replay_state

record replay_ledger_status =
  rs_schema_version :: u32
  rs_max_entries :: nat
  rs_total_entries :: nat
  rs_completed_entries :: nat
  rs_uncertain_entries :: nat
  rs_recoverable_pre_spawn_entries :: nat
  rs_durable_bytes :: nat
  rs_oldest_uncertain_unix :: "i64 option"
  rs_warning :: bool
  rs_critical :: bool

datatype reconcile_decision = MarkAbortedBeforeSpawn | MarkCompleted

datatype replay_ledger_error =
    Replay
  | DigestConflict
  | Full
  | Corrupt string
  | Custody string
  | Write string
  | FailedClosed
  | Invalid string

type_synonym 'a ledger_result = "(replay_ledger_error, 'a) result"

record replay_ledger =
  rl_path :: string
  rl_max_entries :: nat
  rl_entries :: ledger_entries
  rl_failed_closed :: bool

section \<open>Validation\<close>

definition is_digest :: "string \<Rightarrow> bool" where
  "is_digest v \<longleftrightarrow>
     length v = DIGEST_HEX_BYTES
   \<and> list_all (\<lambda>b. is_ascii_digit b \<or> is_ascii_lowercase b \<and> is_ascii_hexdigit b) v"

definition validate_reservation :: "string \<Rightarrow> string \<Rightarrow> i64 \<Rightarrow> i64 \<Rightarrow> unit ledger_result" where
  "validate_reservation nonce digest expires_at_unix now_unix =
     (if nonce = [] \<or> length nonce > MAX_NONCE_BYTES \<or> CHR 0x00 \<in> set nonce
      then Inl (Invalid ''nonce'')
      else if \<not> is_digest digest then Inl (Invalid ''digest'')
      else if expires_at_unix < now_unix then Inl (Invalid ''expired reservation'')
      else Inr ())"

definition bad_actor :: "string \<Rightarrow> bool" where
  "bad_actor actor \<longleftrightarrow>
     actor = [] \<or> length actor > 128
   \<or> CHR 0x0A \<in> set actor \<or> CHR 0x0D \<in> set actor \<or> CHR 0x00 \<in> set actor"

definition validate_entry :: "string \<Rightarrow> ledger_entry \<Rightarrow> unit ledger_result" where
  "validate_entry nonce entry =
     and_then (validate_reservation nonce (le_digest entry) (le_expires_at_unix entry) (- (2 ^ 63))) (\<lambda>_.
     if le_transition_seq entry = 0 then Inl (Corrupt ''zero transition sequence'')
     else if (le_process_pid entry \<noteq> None) \<noteq> (le_process_birth_id entry \<noteq> None)
     then Inl (Corrupt ''partial process identity in replay ledger'')
     else if (case le_result_digest entry of None \<Rightarrow> False | Some d \<Rightarrow> \<not> is_digest d)
     then Inl (Corrupt ''invalid result digest'')
     else case le_reconciliation entry of
            None \<Rightarrow> Inr ()
          | Some r \<Rightarrow>
              if bad_actor (rr_actor r) then Inl (Corrupt ''invalid reconciliation metadata'')
              else Inr ())"

section \<open>The file format\<close>

definition state_to_json :: "replay_state \<Rightarrow> json" where
  "state_to_json s =
     JStr (case s of
             ReservedPreSpawn \<Rightarrow> ''reserved_pre_spawn''
           | SpawnedUncertain \<Rightarrow> ''spawned_uncertain''
           | Completed \<Rightarrow> ''completed''
           | AbortedBeforeSpawn \<Rightarrow> ''aborted_before_spawn'')"

definition state_from_json :: "json \<Rightarrow> replay_state option" where
  "state_from_json j =
     (let v = json_variant j
      in if v = Some ''reserved_pre_spawn'' then Some ReservedPreSpawn
         else if v = Some ''spawned_uncertain'' then Some SpawnedUncertain
         else if v = Some ''completed'' then Some Completed
         else if v = Some ''aborted_before_spawn'' then Some AbortedBeforeSpawn
         else None)"

definition reconciliation_to_json :: "reconciliation_record \<Rightarrow> json" where
  "reconciliation_to_json r =
     JObj [(''actor'', JStr (rr_actor r)), (''at_unix'', JInt (rr_at_unix r)),
           (''prior_state'', state_to_json (rr_prior_state r)),
           (''new_state'', state_to_json (rr_new_state r))]"

definition reconciliation_from_json :: "json \<Rightarrow> reconciliation_record option" where
  "reconciliation_from_json j =
     (case struct_fields [''actor'', ''at_unix'', ''prior_state'', ''new_state''] j of
        None \<Rightarrow> None
      | Some fs \<Rightarrow>
          (case (field json_str fs ''actor'', field json_i64 fs ''at_unix'',
                 field state_from_json fs ''prior_state'', field state_from_json fs ''new_state'') of
             (Some a, Some t, Some p, Some n) \<Rightarrow>
               Some \<lparr>rr_actor = a, rr_at_unix = t, rr_prior_state = p, rr_new_state = n\<rparr>
           | _ \<Rightarrow> None))"

definition entry_to_json :: "ledger_entry \<Rightarrow> json" where
  "entry_to_json e =
     JObj ([(''digest'', JStr (le_digest e)),
            (''reserved_at_unix'', JInt (le_reserved_at_unix e)),
            (''expires_at_unix'', JInt (le_expires_at_unix e)),
            (''transition_seq'', of_word (le_transition_seq e)),
            (''state'', state_to_json (le_state e))]
           @ opt_field ''process_pid'' of_word (le_process_pid e)
           @ opt_field ''process_birth_id'' of_word (le_process_birth_id e)
           @ opt_field ''result_digest'' JStr (le_result_digest e)
           @ opt_field ''reconciliation'' reconciliation_to_json (le_reconciliation e))"

definition entry_fields :: "string list" where
  "entry_fields =
     [''digest'', ''reserved_at_unix'', ''expires_at_unix'', ''transition_seq'', ''state'',
      ''process_pid'', ''process_birth_id'', ''result_digest'', ''reconciliation'']"

definition entry_from_json :: "json \<Rightarrow> ledger_entry option" where
  "entry_from_json j =
     (case struct_fields entry_fields j of
        None \<Rightarrow> None
      | Some fs \<Rightarrow>
          (case (field json_str fs ''digest'', field_or 0 json_i64 fs ''reserved_at_unix'',
                 field json_i64 fs ''expires_at_unix'', field_or 0 json_word fs ''transition_seq'',
                 field state_from_json fs ''state'',
                 field_or None (json_option json_word) fs ''process_pid'',
                 field_or None (json_option json_word) fs ''process_birth_id'',
                 field_or None (json_option json_str) fs ''result_digest'',
                 field_or None (json_option reconciliation_from_json) fs ''reconciliation'') of
             (Some dg, Some r, Some x, Some q, Some s, Some p, Some b, Some rd, Some rc) \<Rightarrow>
               Some \<lparr>le_digest = dg, le_reserved_at_unix = r, le_expires_at_unix = x,
                     le_transition_seq = q, le_state = s, le_process_pid = p,
                     le_process_birth_id = b, le_result_digest = rd, le_reconciliation = rc\<rparr>
           | _ \<Rightarrow> None))"

definition ledger_to_json :: "ledger_entries \<Rightarrow> json" where
  "ledger_to_json es =
     JObj [(''version'', of_word LEDGER_VERSION), (''entries'', of_entries entry_to_json es)]"

definition ledger_from_json :: "json \<Rightarrow> (u32 \<times> ledger_entries) option" where
  "ledger_from_json j =
     (case struct_fields [''version'', ''entries''] j of
        None \<Rightarrow> None
      | Some fs \<Rightarrow>
          (case (field json_word fs ''version'', field (json_map entry_from_json) fs ''entries'') of
             (Some v, Some es) \<Rightarrow> Some (v, es)
           | _ \<Rightarrow> None))"

definition legacy_state_from_json :: "json \<Rightarrow> legacy_replay_state option" where
  "legacy_state_from_json j =
     (let v = json_variant j
      in if v = Some ''reserved'' then Some LegacyReserved
         else if v = Some ''completed'' then Some LegacyCompleted
         else None)"

definition legacy_entry_from_json :: "json \<Rightarrow> legacy_ledger_entry option" where
  "legacy_entry_from_json j =
     (case struct_fields [''digest'', ''expires_at_unix'', ''state''] j of
        None \<Rightarrow> None
      | Some fs \<Rightarrow>
          (case (field json_str fs ''digest'', field json_i64 fs ''expires_at_unix'',
                 field legacy_state_from_json fs ''state'') of
             (Some dg, Some x, Some s) \<Rightarrow>
               Some \<lparr>lg_digest = dg, lg_expires_at_unix = x, lg_state = s\<rparr>
           | _ \<Rightarrow> None))"

definition legacy_from_json :: "json \<Rightarrow> (u32 \<times> (string \<times> legacy_ledger_entry) list) option" where
  "legacy_from_json j =
     (case struct_fields [''version'', ''entries''] j of
        None \<Rightarrow> None
      | Some fs \<Rightarrow>
          (case (field json_word fs ''version'', field (json_map legacy_entry_from_json) fs ''entries'') of
             (Some v, Some es) \<Rightarrow> Some (v, es)
           | _ \<Rightarrow> None))"

text \<open>The version that the untyped reading of the document finds.\<close>

definition json_version :: "json \<Rightarrow> u64 option" where
  "json_version j =
     (case j of
        JObj kvs \<Rightarrow> Option.bind (map_of (rev kvs) ''version'') json_word
      | _ \<Rightarrow> None)"

section \<open>Custody\<close>

text \<open>The masks are octal in the code: \<open>0x12\<close> is \<open>0o022\<close>, \<open>0x1FF\<close> is \<open>0o777\<close> and \<open>0x180\<close> is \<open>0o600\<close>.\<close>

unbundle bit_operations_syntax

record file_meta =
  fm_is_file :: bool
  fm_is_dir :: bool
  fm_is_symlink :: bool
  fm_uid :: u32
  fm_mode :: u32

text \<open>What the operating system answers while a ledger is opened.\<close>

record ledger_env =
  ev_euid :: u32
  ev_parent_meta :: "(string, file_meta) result"
  ev_lock_meta :: "(string, file_meta) result option"
  ev_lock_open :: "string option"
  ev_lock_busy :: bool
  ev_file_meta :: "(string, file_meta) result"
  ev_stat_error :: "string option"
  ev_read_error :: "string option"

definition parent_text :: "string \<Rightarrow> string" where
  "parent_text path = (case path_parent path of None \<Rightarrow> [] | Some cs \<Rightarrow> render cs)"

definition verify_ledger_parent :: "ledger_env \<Rightarrow> string \<Rightarrow> unit ledger_result" where
  "verify_ledger_parent ev path =
     (if path_parent path = None then Inl (Custody ''ledger requires a root-controlled parent'')
      else if ev_euid ev \<noteq> 0
      then Inl (Custody ''production replay ledger requires effective UID 0'')
      else case ev_parent_meta ev of
             Inl e \<Rightarrow> Inl (Custody (''inspect '' @ parent_text path @ '': '' @ e))
           | Inr m \<Rightarrow>
               if \<not> fm_is_dir m \<or> fm_is_symlink m \<or> fm_uid m \<noteq> 0 \<or> fm_mode m AND 0x12 \<noteq> 0
               then Inl (Custody
                 ''ledger parent must be root-owned, non-symlink, and not group/other writable'')
               else Inr ())"

definition not_root_0600 :: "file_meta \<Rightarrow> bool" where
  "not_root_0600 m \<longleftrightarrow>
     \<not> fm_is_file m \<or> fm_is_symlink m \<or> fm_uid m \<noteq> 0 \<or> fm_mode m AND 0x1FF \<noteq> 0x180"

definition acquire_ledger_lock :: "ledger_env \<Rightarrow> string \<Rightarrow> unit ledger_result" where
  "acquire_ledger_lock ev path =
     (if path_parent path = None then Inl (Custody ''ledger requires a parent directory'')
      else
        and_then
          (case ev_lock_meta ev of
             None \<Rightarrow> Inr ()
           | Some (Inl e) \<Rightarrow> Inl (Custody (''inspect replay ledger lock: '' @ e))
           | Some (Inr m) \<Rightarrow>
               if not_root_0600 m
               then Inl (Custody ''replay ledger lock must be a root-owned 0600 regular file'')
               else Inr ()) (\<lambda>_.
        case ev_lock_open ev of
          Some e \<Rightarrow> Inl (Custody (''open replay ledger lock: '' @ e))
        | None \<Rightarrow>
            if ev_lock_busy ev
            then Inl (Custody
              ''replay ledger is active in another broker process; stop the broker before reconciliation'')
            else Inr ()))"

definition verify_ledger_file :: "ledger_env \<Rightarrow> string \<Rightarrow> unit ledger_result" where
  "verify_ledger_file ev path =
     (case ev_file_meta ev of
        Inl e \<Rightarrow> Inl (Custody (''inspect '' @ path @ '': '' @ e))
      | Inr m \<Rightarrow>
          if not_root_0600 m
          then Inl (Custody ''ledger must be a root-owned 0600 regular non-symlink file'')
          else Inr ())"

section \<open>Writing the file\<close>

definition ledger_temp_path :: "string \<Rightarrow> string \<Rightarrow> string" where
  "ledger_temp_path uuid path =
     (let base = rev (takeWhile (\<lambda>c. c \<noteq> CHR ''/'') (rev path));
          dir = rev (dropWhile (\<lambda>c. c \<noteq> CHR ''/'') (rev path))
      in dir @ ''.'' @ base @ ''.'' @ uuid @ ''.tmp'')"

text \<open>
  The closure that writes the temporary file and renames it.  The last steps come after the rename:
  the directory is opened and synced, and \<open>verify_ledger_file\<close> stats the written file and looks at what
  it found; the device says how each of them ends.
\<close>

definition ledger_write_file :: "string \<Rightarrow> string \<Rightarrow> bytes \<Rightarrow> (replay_ledger_error, unit) action" where
  "ledger_write_file uuid path serialized =
     (let temp = ledger_temp_path uuid path;
          failing = (\<lambda>what at. map_err (\<lambda>e. Write (what @ '' '' @ at @ '': '' @ io_text e)))
      in io_catch
           (io_bind (failing ''create'' temp (create_new temp)) (\<lambda>_.
            io_bind (failing ''write'' temp (write_all temp serialized)) (\<lambda>_.
            io_bind (failing ''sync'' temp io_check) (\<lambda>_.
            io_bind (failing ''rename'' path (rename_file temp path)) (\<lambda>_.
            io_bind (failing ''sync directory'' (parent_text path) io_check) (\<lambda>_.
            io_bind (failing ''sync directory'' (parent_text path) io_check) (\<lambda>_.
            io_bind (map_err (\<lambda>e. Custody (''inspect '' @ path @ '': '' @ io_text e)) io_check) (\<lambda>_.
            map_err (\<lambda>_. Custody ''ledger must be a root-owned 0600 regular non-symlink file'') io_check))))))))
           io_return
           (\<lambda>e. io_bind (io_ignore (remove_file temp)) (\<lambda>_. io_fail e)))"

definition ledger_persist :: "json_text \<Rightarrow> string \<Rightarrow> replay_ledger \<Rightarrow> (replay_ledger_error, unit) action" where
  "ledger_persist J uuid l =
     (let serialized = jt_render J (ledger_to_json (rl_entries l))
      in if length serialized > MAX_LEDGER_BYTES then io_fail Full
         else if path_parent (rl_path l) = None
         then io_fail (Custody ''ledger requires a parent directory'')
         else ledger_write_file uuid (rl_path l) serialized)"

text \<open>\<open>if let Err(error) = self.persist() { self.failed_closed = true; return Err(error); }\<close>\<close>

type_synonym 'a ledger_update = "('a ledger_result \<times> replay_ledger \<times> device) option"

definition persist_or_close :: "json_text \<Rightarrow> string \<Rightarrow> replay_ledger \<Rightarrow> device \<Rightarrow> unit ledger_update" where
  "persist_or_close J uuid l d =
     (case ledger_persist J uuid l d of
        None \<Rightarrow> None
      | Some (Inl e, d') \<Rightarrow> Some (Inl e, l\<lparr>rl_failed_closed := True\<rparr>, d')
      | Some (Inr _, d') \<Rightarrow> Some (Inr (), l, d'))"

section \<open>Opening\<close>

definition migrate_entry :: "legacy_ledger_entry \<Rightarrow> ledger_entry" where
  "migrate_entry e =
     \<lparr>le_digest = lg_digest e, le_reserved_at_unix = 0, le_expires_at_unix = lg_expires_at_unix e,
      le_transition_seq = 1,
      le_state = (case lg_state e of LegacyReserved \<Rightarrow> SpawnedUncertain | LegacyCompleted \<Rightarrow> Completed),
      le_process_pid = None, le_process_birth_id = None, le_result_digest = None,
      le_reconciliation = None\<rparr>"

definition load_entries ::
  "json_text \<Rightarrow> ledger_env \<Rightarrow> string \<Rightarrow> nat \<Rightarrow> bytes \<Rightarrow> (ledger_entries \<times> bool) ledger_result" where
  "load_entries J ev path max_entries bytes =
     and_then (verify_ledger_file ev path) (\<lambda>_.
     case ev_stat_error ev of
       Some e \<Rightarrow> Inl (Corrupt (''stat '' @ path @ '': '' @ e))
     | None \<Rightarrow>
     if length bytes > MAX_LEDGER_BYTES then Inl (Corrupt ''file exceeds size limit'')
     else case ev_read_error ev of
            Some e \<Rightarrow> Inl (Corrupt (''read '' @ path @ '': '' @ e))
          | None \<Rightarrow>
     (case Option.bind (jt_parse J bytes) json_version of
        None \<Rightarrow> Inl (Corrupt ''missing ledger version'')
      | Some version \<Rightarrow>
          and_then
            (if version = 1 then
               (case Option.bind (jt_parse J bytes) legacy_from_json of
                  None \<Rightarrow> Inl (Corrupt (jt_error J bytes))
                | Some (v, legacy) \<Rightarrow>
                    if v \<noteq> 1 \<or> length legacy > max_entries
                    then Inl (Corrupt ''legacy version or entry count is invalid'')
                    else Inr (map (\<lambda>(n, e). (n, migrate_entry e)) legacy, True))
             else if version = ucast LEDGER_VERSION then
               (case Option.bind (jt_parse J bytes) ledger_from_json of
                  None \<Rightarrow> Inl (Corrupt (jt_error J bytes))
                | Some (_, entries) \<Rightarrow>
                    if length entries > max_entries
                    then Inl (Corrupt ''entry count exceeds limit'')
                    else Inr (entries, False))
             else Inl (Corrupt ''unsupported forward ledger version''))
            (\<lambda>(entries, migrated).
               and_then (try_each (\<lambda>(n, e). validate_entry n e) entries) (\<lambda>_.
               Inr (entries, migrated)))))"

definition ledger_open ::
  "json_text \<Rightarrow> ledger_env \<Rightarrow> string \<Rightarrow> string \<Rightarrow> nat \<Rightarrow> (replay_ledger_error, replay_ledger) action" where
  "ledger_open J ev uuid path max_entries d =
     (if max_entries = 0 then Some (Inl (Invalid ''max entries must be positive''), d)
      else case and_then (verify_ledger_parent ev path) (\<lambda>_. acquire_ledger_lock ev path) of
             Inl e \<Rightarrow> Some (Inl e, d)
           | Inr _ \<Rightarrow>
      let make = (\<lambda>entries. \<lparr>rl_path = path, rl_max_entries = max_entries, rl_entries = entries,
                             rl_failed_closed = False\<rparr>);
          persisted = (\<lambda>l. io_bind (ledger_persist J uuid l) (\<lambda>_. io_return l) d)
      in case content d path of
           None \<Rightarrow> persisted (make [])
         | Some bytes \<Rightarrow>
             (case load_entries J ev path max_entries bytes of
                Inl e \<Rightarrow> Some (Inl e, d)
              | Inr (entries, migrated) \<Rightarrow>
                  if migrated then persisted (make entries) else Some (Inr (make entries), d)))"

section \<open>Operations\<close>

definition ensure_available :: "replay_ledger \<Rightarrow> unit ledger_result" where
  "ensure_available l = (if rl_failed_closed l then Inl FailedClosed else Inr ())"

definition uncertain :: "replay_state \<Rightarrow> bool" where
  "uncertain s \<longleftrightarrow> s = ReservedPreSpawn \<or> s = SpawnedUncertain"

definition prune_completed :: "json_text \<Rightarrow> string \<Rightarrow> i64 \<Rightarrow> replay_ledger \<Rightarrow> device \<Rightarrow> unit ledger_update" where
  "prune_completed J uuid now_unix l d =
     (let l1 = l\<lparr>rl_entries := filter (\<lambda>(n, e). uncertain (le_state e) \<or> le_expires_at_unix e \<ge> now_unix)
                                  (rl_entries l)\<rparr>
      in if length (rl_entries l1) \<noteq> length (rl_entries l) then persist_or_close J uuid l1 d
         else Some (Inr (), l1, d))"

definition reserve ::
  "json_text \<Rightarrow> string \<Rightarrow> string \<Rightarrow> string \<Rightarrow> string \<Rightarrow> i64 \<Rightarrow> i64 \<Rightarrow> replay_ledger \<Rightarrow> device \<Rightarrow> unit ledger_update"
  where
  "reserve J uuid1 uuid2 nonce digest expires_at_unix now_unix l d =
     (case and_then (ensure_available l) (\<lambda>_.
            validate_reservation nonce digest expires_at_unix now_unix) of
        Inl e \<Rightarrow> Some (Inl e, l, d)
      | Inr _ \<Rightarrow>
     (case prune_completed J uuid1 now_unix l d of
        None \<Rightarrow> None
      | Some (Inl e, l1, d1) \<Rightarrow> Some (Inl e, l1, d1)
      | Some (Inr _, l1, d1) \<Rightarrow>
     (case map_of (rl_entries l1) nonce of
        Some entry \<Rightarrow>
          Some (Inl (if le_digest entry = digest then Replay else DigestConflict), l1, d1)
      | None \<Rightarrow>
          if length (rl_entries l1) \<ge> rl_max_entries l1 then Some (Inl Full, l1, d1)
          else
            persist_or_close J uuid2
              (l1\<lparr>rl_entries := btree_insert nonce
                    \<lparr>le_digest = digest, le_reserved_at_unix = now_unix,
                     le_expires_at_unix = expires_at_unix, le_transition_seq = 1,
                     le_state = ReservedPreSpawn, le_process_pid = None, le_process_birth_id = None,
                     le_result_digest = None, le_reconciliation = None\<rparr> (rl_entries l1)\<rparr>) d1)))"

definition mark_spawned ::
  "json_text \<Rightarrow> string \<Rightarrow> string \<Rightarrow> string \<Rightarrow> (u32 \<times> u64) option \<Rightarrow> replay_ledger \<Rightarrow> device \<Rightarrow> unit ledger_update"
  where
  "mark_spawned J uuid nonce digest process_identity l d =
     (case ensure_available l of
        Inl e \<Rightarrow> Some (Inl e, l, d)
      | Inr _ \<Rightarrow>
     (case map_of (rl_entries l) nonce of
        None \<Rightarrow> Some (Inl Replay, l, d)
      | Some entry \<Rightarrow>
          if le_digest entry \<noteq> digest then Some (Inl DigestConflict, l, d)
          else if le_state entry \<noteq> ReservedPreSpawn then Some (Inl Replay, l, d)
          else
            let e1 = entry\<lparr>le_state := SpawnedUncertain,
                           le_transition_seq := saturating_add (le_transition_seq entry) 1\<rparr>;
                e2 = (case process_identity of
                        None \<Rightarrow> e1
                      | Some (pid, birth) \<Rightarrow>
                          e1\<lparr>le_process_pid := Some pid, le_process_birth_id := Some birth\<rparr>)
            in persist_or_close J uuid (l\<lparr>rl_entries := btree_insert nonce e2 (rl_entries l)\<rparr>) d))"

definition mark_completed ::
  "json_text \<Rightarrow> string \<Rightarrow> string \<Rightarrow> string \<Rightarrow> replay_ledger \<Rightarrow> device \<Rightarrow> unit ledger_update" where
  "mark_completed J uuid nonce digest l d =
     (case ensure_available l of
        Inl e \<Rightarrow> Some (Inl e, l, d)
      | Inr _ \<Rightarrow>
     (case map_of (rl_entries l) nonce of
        None \<Rightarrow> Some (Inl Replay, l, d)
      | Some entry \<Rightarrow>
          if le_digest entry \<noteq> digest then Some (Inl DigestConflict, l, d)
          else if le_state entry \<noteq> SpawnedUncertain then Some (Inl Replay, l, d)
          else
            persist_or_close J uuid
              (l\<lparr>rl_entries := btree_insert nonce
                   (entry\<lparr>le_state := Completed,
                          le_transition_seq := saturating_add (le_transition_seq entry) 1\<rparr>)
                   (rl_entries l)\<rparr>) d))"

definition reconcile_next ::
  "reconcile_decision \<Rightarrow> replay_state \<Rightarrow> bool \<Rightarrow> replay_state ledger_result" where
  "reconcile_next decision prior acknowledge_uncertain =
     (if decision = MarkAbortedBeforeSpawn \<and> prior = ReservedPreSpawn then Inr AbortedBeforeSpawn
      else if decision = MarkCompleted \<and> prior = SpawnedUncertain \<and> acknowledge_uncertain
      then Inr Completed
      else if decision = MarkCompleted \<and> prior = SpawnedUncertain
      then Inl (Invalid ''spawned-uncertain reconciliation requires explicit acknowledgement'')
      else Inl (Invalid ''reconciliation decision is incompatible with durable state''))"

definition reconcile ::
  "json_text \<Rightarrow> string \<Rightarrow> string \<Rightarrow> reconcile_decision \<Rightarrow> string \<Rightarrow> i64 \<Rightarrow> bool \<Rightarrow> replay_ledger \<Rightarrow> device \<Rightarrow>
   unit ledger_update" where
  "reconcile J uuid nonce decision actor now_unix acknowledge_uncertain l d =
     (case ensure_available l of
        Inl e \<Rightarrow> Some (Inl e, l, d)
      | Inr _ \<Rightarrow>
     if bad_actor actor then Some (Inl (Invalid ''reconciliation actor is invalid''), l, d)
     else case map_of (rl_entries l) nonce of
            None \<Rightarrow> Some (Inl Replay, l, d)
          | Some entry \<Rightarrow>
              (case reconcile_next decision (le_state entry) acknowledge_uncertain of
                 Inl e \<Rightarrow> Some (Inl e, l, d)
               | Inr next \<Rightarrow>
                   persist_or_close J uuid
                     (l\<lparr>rl_entries := btree_insert nonce
                          (entry\<lparr>le_state := next,
                                 le_transition_seq := saturating_add (le_transition_seq entry) 1,
                                 le_reconciliation := Some
                                   \<lparr>rr_actor = actor, rr_at_unix = now_unix,
                                    rr_prior_state = le_state entry, rr_new_state = next\<rparr>\<rparr>)
                          (rl_entries l)\<rparr>) d))"

definition ledger_status :: "replay_ledger \<Rightarrow> device \<Rightarrow> replay_ledger_status" where
  "ledger_status l d =
     (let states = map (\<lambda>(n, e). le_state e) (rl_entries l);
          uncertain_at = map (\<lambda>(n, e). le_reserved_at_unix e)
            (filter (\<lambda>(n, e). uncertain (le_state e)) (rl_entries l))
      in \<lparr>rs_schema_version = LEDGER_VERSION, rs_max_entries = rl_max_entries l,
          rs_total_entries = length (rl_entries l),
          rs_completed_entries = length (filter (\<lambda>s. s = Completed \<or> s = AbortedBeforeSpawn) states),
          rs_uncertain_entries = length (filter (\<lambda>s. s = SpawnedUncertain) states),
          rs_recoverable_pre_spawn_entries = length (filter (\<lambda>s. s = ReservedPreSpawn) states),
          rs_durable_bytes = (case content d (rl_path l) of None \<Rightarrow> 0 | Some b \<Rightarrow> length b),
          rs_oldest_uncertain_unix =
            (if uncertain_at = [] then None else Some (foldl min (hd uncertain_at) (tl uncertain_at))),
          rs_warning = (length (rl_entries l) \<ge> min (rl_max_entries l * 3) (2 ^ 64 - 1) div 5),
          rs_critical = (length (rl_entries l) \<ge> min (rl_max_entries l * 4) (2 ^ 64 - 1) div 5)\<rparr>)"

end
