(* ===== verification/Ledger_Safety.thy ===== *)
theory Ledger_Safety
  imports Ledger "HOL-Library.Code_Target_Numeral"
begin

text \<open>
  What the replay ledger guarantees: the file format reads back what it wrote, the file holds
  the entries in memory whenever the ledger is available, a restart loses nothing, entries move
  only forward, and no capability is consumed twice over any run with device errors, crashes
  and restarts.
\<close>

section \<open>Reading back the file\<close>

text \<open>The times of an entry are \<open>i64\<close> values.\<close>

definition reconciliation_typed :: "reconciliation_record \<Rightarrow> bool" where
  "reconciliation_typed r \<longleftrightarrow> in_i64 (rr_at_unix r)"

definition entry_typed :: "ledger_entry \<Rightarrow> bool" where
  "entry_typed e \<longleftrightarrow>
     in_i64 (le_reserved_at_unix e) \<and> in_i64 (le_expires_at_unix e)
   \<and> pred_option reconciliation_typed (le_reconciliation e)"

lemma state_json [json_simps]: "state_from_json (state_to_json s) = Some s"
  by (cases s) (simp_all add: state_from_json_def state_to_json_def json_simps Let_def)

lemma reconciliation_json [json_simps]:
  "reconciliation_typed r \<Longrightarrow> reconciliation_from_json (reconciliation_to_json r) = Some r"
  by (simp add: reconciliation_from_json_def reconciliation_to_json_def struct_fields_def field_def
      json_simps reconciliation_typed_def)

lemma reconciliation_option_json [json_simps]:
  "reconciliation_typed r \<Longrightarrow>
   json_option reconciliation_from_json (reconciliation_to_json r) = Some (Some r)"
  using reconciliation_json [of r] by (simp add: json_option_def reconciliation_to_json_def)

lemma opt_field_back:
  assumes "\<And>x. v = Some x \<Longrightarrow> json_option g (f x) = Some (Some x)"
  shows "(case map_option f v of None \<Rightarrow> Some None | Some j \<Rightarrow> json_option g j) = Some v"
  using assms by (cases v) auto

lemma entry_json:
  assumes "entry_typed e"
  shows "entry_from_json (entry_to_json e) = Some e"
proof -
  let ?kvs = "[(''digest'', JStr (le_digest e)),
            (''reserved_at_unix'', JInt (le_reserved_at_unix e)),
            (''expires_at_unix'', JInt (le_expires_at_unix e)),
            (''transition_seq'', of_word (le_transition_seq e)),
            (''state'', state_to_json (le_state e))]
           @ opt_field ''process_pid'' of_word (le_process_pid e)
           @ opt_field ''process_birth_id'' of_word (le_process_birth_id e)
           @ opt_field ''result_digest'' JStr (le_result_digest e)
           @ opt_field ''reconciliation'' reconciliation_to_json (le_reconciliation e)"
  have fs: "struct_fields entry_fields (entry_to_json e) = Some (map_of ?kvs)"
    unfolding entry_to_json_def struct_fields_def by (auto simp: entry_fields_def json_simps)
  have r: "\<And>r. le_reconciliation e = Some r \<Longrightarrow> reconciliation_typed r" using assms by (simp add: entry_typed_def)
  have opt: "field_or None (json_option json_word) (map_of ?kvs) ''process_pid'' = Some (le_process_pid e)"
    "field_or None (json_option json_word) (map_of ?kvs) ''process_birth_id'' = Some (le_process_birth_id e)"
    "field_or None (json_option json_str) (map_of ?kvs) ''result_digest'' = Some (le_result_digest e)"
    "field_or None (json_option reconciliation_from_json) (map_of ?kvs) ''reconciliation'' = Some (le_reconciliation e)"
    unfolding field_or_def using r by (auto simp: json_simps split: option.splits)
  have "field json_str (map_of ?kvs) ''digest'' = Some (le_digest e)"
    "field_or 0 json_i64 (map_of ?kvs) ''reserved_at_unix'' = Some (le_reserved_at_unix e)"
    "field json_i64 (map_of ?kvs) ''expires_at_unix'' = Some (le_expires_at_unix e)"
    "field_or 0 json_word (map_of ?kvs) ''transition_seq'' = Some (le_transition_seq e)"
    "field state_from_json (map_of ?kvs) ''state'' = Some (le_state e)"
    using assms by (simp_all add: field_def field_or_def json_simps entry_typed_def)
  with fs opt show ?thesis by (simp add: entry_from_json_def del: append.simps append_assoc)
qed

lemma ledger_json:
  assumes "btree es" and "list_all (\<lambda>(n, e). entry_typed e) es"
  shows "ledger_from_json (ledger_to_json es) = Some (LEDGER_VERSION, es)"
proof -
  have "json_map entry_from_json (of_entries entry_to_json es) = Some es"
    using assms by (intro json_map_of_entries) (auto simp: entry_json list_all_iff)
  then show ?thesis
    by (simp add: ledger_from_json_def ledger_to_json_def struct_fields_def field_def json_simps)
qed

text \<open>The entries that a file holds, in the current or in the legacy format.\<close>

definition decoded :: "json_text \<Rightarrow> bytes \<Rightarrow> (ledger_entries \<times> bool) option" where
  "decoded J b =
     (case Option.bind (jt_parse J b) json_version of
        None \<Rightarrow> None
      | Some v \<Rightarrow>
          if v = 1 then
            (case Option.bind (jt_parse J b) legacy_from_json of
               None \<Rightarrow> None
             | Some (w, legacy) \<Rightarrow>
                 if w = 1 then Some (map (\<lambda>(n, e). (n, migrate_entry e)) legacy, True) else None)
          else if v = ucast LEDGER_VERSION
          then map_option (\<lambda>(w, es). (es, False)) (Option.bind (jt_parse J b) ledger_from_json)
          else None)"

definition file_state :: "json_text \<Rightarrow> string \<Rightarrow> device \<Rightarrow> (ledger_entries \<times> bool) option" where
  "file_state J p d =
     (case content d p of
        None \<Rightarrow> None
      | Some b \<Rightarrow> if length b > MAX_LEDGER_BYTES then None else decoded J b)"

definition file_entries :: "json_text \<Rightarrow> string \<Rightarrow> device \<Rightarrow> ledger_entries option" where
  "file_entries J p d = map_option fst (file_state J p d)"

lemma file_entries_state: "file_state J p d = Some (es, m) \<Longrightarrow> file_entries J p d = Some es"
  by (simp add: file_entries_def)

lemma version_json: "json_version (ledger_to_json es) = Some (ucast LEDGER_VERSION)"
  by (simp add: json_version_def ledger_to_json_def of_word_def json_word_def LEDGER_VERSION_def)

lemma decoded_render:
  assumes "json_laws J" and "btree es" and "list_all (\<lambda>(n, e). entry_typed e) es"
  shows "decoded J (jt_render J (ledger_to_json es)) = Some (es, False)"
  using ledger_json [OF assms(2,3)]
  by (simp add: decoded_def json_lawsD [OF assms(1)] version_json) (simp add: LEDGER_VERSION_def)

lemma load_entries_Inr:
  assumes "load_entries J ev path m b = Inr (es, migrated)"
  shows "decoded J b = Some (es, migrated)" and "length es \<le> m" and "length b \<le> MAX_LEDGER_BYTES"
    and "try_each (\<lambda>(n, e). validate_entry n e) es = Inr ()"
  using assms
  by (auto simp: load_entries_def decoded_def and_then_Inr_iff split: if_splits option.splits)

lemma load_entries_back:
  assumes "decoded J b = Some (es, migrated)" and "length es \<le> m" and "length b \<le> MAX_LEDGER_BYTES"
    and "try_each (\<lambda>(n, e). validate_entry n e) es = Inr ()" and "verify_ledger_file ev path = Inr ()"
    and "ev_stat_error ev = None" and "ev_read_error ev = None"
  shows "load_entries J ev path m b = Inr (es, migrated)"
  using assms by (auto simp: load_entries_def decoded_def split: if_splits option.splits)

section \<open>Writing the file\<close>

lemma ledger_temp_path_not_target: "ledger_temp_path u p \<noteq> p"
proof
  assume e: "ledger_temp_path u p = p"
  have "length (takeWhile (\<lambda>c. c \<noteq> CHR ''/'') (rev p)) + length (dropWhile (\<lambda>c. c \<noteq> CHR ''/'') (rev p)) = length p"
    by (metis length_append length_rev takeWhile_dropWhile_id)
  then have "length p < length (ledger_temp_path u p)" by (simp add: ledger_temp_path_def Let_def)
  with e show False by simp
qed

lemma ledger_write_atomic: "\<exists>r d'. ledger_write_file u p b d = Some (r, d') \<and> atomic_result d p b r d'"
proof (rule atomic_resultI)
  let ?tmp = "ledger_temp_path u p"
  let ?W = "working d p {content d p, Some b} ?tmp"
  have neq: "?tmp \<noteq> p" by (rule ledger_temp_path_not_target)
  have chk_tmp: "triple (\<lambda>d. ?W d \<and> content d ?tmp = x) io_check (\<lambda>_ d. ?W d \<and> content d ?tmp = x) (\<lambda>_. ?W)" for x
    by (rule triple_check_working) (simp add: content_def)
  have chk_p: "triple (\<lambda>d. ?W d \<and> content d p = x) io_check (\<lambda>_ d. ?W d \<and> content d p = x) (\<lambda>_. ?W)" for x
    by (rule triple_check_working) (simp add: content_def)
  show "triple ?W (ledger_write_file u p b) (\<lambda>_ d'. ?W d' \<and> content d' p = Some b) (\<lambda>_. ?W)"
    unfolding ledger_write_file_def Let_def using neq
    by (intro triple_catch [where S = "\<lambda>_. ?W"] triple_map_err triple_return triple_fail
        triple_bind [OF triple_map_err [OF triple_create_working]]
        triple_bind [OF triple_map_err [OF triple_write_working]]
        triple_bind [OF triple_map_err [OF chk_tmp]]
        triple_bind [OF triple_map_err [OF triple_rename_working]]
        triple_bind [OF triple_map_err [OF chk_p]] chk_p
        triple_bind [OF triple_remove_working]) (auto intro: chk_p)
qed

interpretation ledger_writer: atomic_writer "ledger_write_file u" "\<lambda>_. True" for u
  by (rule atomic_writerI) (rule ledger_write_atomic)

section \<open>Sound ledgers\<close>

definition good_entry :: "string \<Rightarrow> ledger_entry \<Rightarrow> bool" where
  "good_entry n e \<longleftrightarrow> validate_entry n e = Inr () \<and> entry_typed e"

definition good_entries :: "ledger_entries \<Rightarrow> bool" where
  "good_entries es \<longleftrightarrow> btree es \<and> (\<forall>n e. map_of es n = Some e \<longrightarrow> good_entry n e)"

lemma good_entries_list:
  assumes "good_entries es"
  shows "btree es" and "list_all (\<lambda>(n, e). entry_typed e) es"
    and "try_each (\<lambda>(n, e). validate_entry n e) es = Inr ()"
proof -
  show b: "btree es" using assms by (simp add: good_entries_def)
  have all: "good_entry n e" if "(n, e) \<in> set es" for n e
    using assms that btree_distinct [OF b] by (simp add: good_entries_def)
  then show "list_all (\<lambda>(n, e). entry_typed e) es" by (auto simp: list_all_iff good_entry_def)
  show "try_each (\<lambda>(n, e). validate_entry n e) es = Inr ()"
    using all by (auto simp: try_each_Inr_iff good_entry_def)
qed

lemma good_entries_insert:
  "good_entries es \<Longrightarrow> good_entry n e \<Longrightarrow> good_entries (btree_insert n e es)"
  by (auto simp: good_entries_def)

lemma good_entries_filter: "good_entries es \<Longrightarrow> good_entries (filter P es)"
proof -
  assume g: "good_entries es"
  have "map_of es n = Some e" if "map_of (filter P es) n = Some e" for n e
    using map_of_SomeD [OF that] g by (simp add: good_entries_def btree_distinct)
  with g show ?thesis by (auto simp: good_entries_def)
qed

text \<open>
  The invariant: the entries are sound and within the capacity, and unless a write has failed
  the file holds exactly them.
\<close>

definition ledger_ok :: "json_text \<Rightarrow> replay_ledger \<Rightarrow> device \<Rightarrow> bool" where
  "ledger_ok J l d \<longleftrightarrow>
     good_entries (rl_entries l) \<and> length (rl_entries l) \<le> rl_max_entries l
   \<and> path_parent (rl_path l) \<noteq> None
   \<and> (\<not> rl_failed_closed l \<longrightarrow> file_state J (rl_path l) d = Some (rl_entries l, False))"

lemma persist_post:
  assumes J: "json_laws J" and g: "good_entries (rl_entries l)"
  shows "\<exists>r d'. ledger_persist J u l d = Some (r, d')
    \<and> (r = Inr () \<longrightarrow> file_state J (rl_path l) d' = Some (rl_entries l, False))
    \<and> file_entries J (rl_path l) d' \<in> {file_entries J (rl_path l) d, Some (rl_entries l)}"
proof -
  let ?b = "jt_render J (ledger_to_json (rl_entries l))"
  show ?thesis
  proof (cases "length ?b > MAX_LEDGER_BYTES \<or> path_parent (rl_path l) = None")
    case True
    then show ?thesis by (auto simp: ledger_persist_def io_fail_def Let_def)
  next
    case False
    obtain r d' where w: "ledger_write_file u (rl_path l) ?b d = Some (r, d')"
      using ledger_writer.write_returns by blast
    have dec: "decoded J ?b = Some (rl_entries l, False)"
      using J good_entries_list(1,2) [OF g] by (rule decoded_render)
    have new: "file_state J (rl_path l) d' = Some (rl_entries l, False)" if "content d' (rl_path l) = Some ?b"
      using that dec False by (simp add: file_state_def)
    have old: "file_entries J (rl_path l) d' = file_entries J (rl_path l) d"
      if "content d' (rl_path l) = content d (rl_path l)"
      using that by (simp add: file_entries_def file_state_def)
    have run: "ledger_persist J u l d = Some (r, d')"
      using False w by (auto simp: ledger_persist_def Let_def)
    show ?thesis
    proof (cases r)
      case (Inl e)
      from ledger_writer.write_error [OF TrueI w [unfolded Inl]] run Inl new old show ?thesis by (auto dest: file_entries_state)
    next
      case (Inr v)
      from ledger_writer.write_ok [OF TrueI w [unfolded Inr]] run new show ?thesis by (auto dest: file_entries_state)
    qed
  qed
qed

text \<open>
  A step of the ledger in memory and on the device: the entries become \<open>es\<close>, and the file holds
  what it held or \<open>es\<close>, which it does for sure after a success.
\<close>

definition committed ::
  "json_text \<Rightarrow> replay_ledger \<Rightarrow> device \<Rightarrow> ledger_entries \<Rightarrow> unit ledger_result \<Rightarrow> replay_ledger \<Rightarrow> device \<Rightarrow> bool" where
  "committed J l d es r l' d' \<longleftrightarrow>
     rl_entries l' = es \<and> rl_path l' = rl_path l \<and> rl_max_entries l' = rl_max_entries l
   \<and> (rl_failed_closed l' \<longleftrightarrow> r \<noteq> Inr ())
   \<and> file_entries J (rl_path l) d' \<in> {file_entries J (rl_path l) d, Some es}
   \<and> (r = Inr () \<longrightarrow> file_state J (rl_path l) d' = Some (es, False))"

lemma persist_or_close_post:
  assumes "json_laws J" and "good_entries es" and "\<not> rl_failed_closed l"
  shows "\<exists>r l' d'. persist_or_close J u (l\<lparr>rl_entries := es\<rparr>) d = Some (r, l', d') \<and> committed J l d es r l' d'"
proof -
  from persist_post [of J "l\<lparr>rl_entries := es\<rparr>" u d] assms obtain r d' where
    "ledger_persist J u (l\<lparr>rl_entries := es\<rparr>) d = Some (r, d')"
    "r = Inr () \<longrightarrow> file_state J (rl_path l) d' = Some (es, False)"
    "file_entries J (rl_path l) d' \<in> {file_entries J (rl_path l) d, Some es}" by auto
  then show ?thesis
    using assms(3) by (cases r) (auto simp: persist_or_close_def committed_def)
qed

lemma committed_ok:
  "committed J l d es r l' d' \<Longrightarrow> good_entries es \<Longrightarrow> length es \<le> rl_max_entries l \<Longrightarrow>
   path_parent (rl_path l) \<noteq> None \<Longrightarrow> ledger_ok J l' d'"
  by (auto simp: committed_def ledger_ok_def)

definition pruned :: "i64 \<Rightarrow> ledger_entries \<Rightarrow> ledger_entries" where
  "pruned now es = filter (\<lambda>(n, e). uncertain (le_state e) \<or> le_expires_at_unix e \<ge> now) es"

lemma map_of_pruned:
  "good_entries es \<Longrightarrow> map_of (pruned now es) n =
     (case map_of es n of
        None \<Rightarrow> None
      | Some e \<Rightarrow> if uncertain (le_state e) \<or> le_expires_at_unix e \<ge> now then Some e else None)"
  unfolding pruned_def
  by (rule map_of_filter_keys) (auto simp: good_entries_def dest: btree_distinct)

lemma good_pruned: "good_entries es \<Longrightarrow> good_entries (pruned now es)"
  unfolding pruned_def by (rule good_entries_filter)

lemma length_pruned: "length (pruned now es) \<le> length es"
  by (simp add: pruned_def)

lemma pruned_same: "length (pruned now es) = length es \<Longrightarrow> pruned now es = es"
  unfolding pruned_def by (metis length_filter_less filter_True less_irrefl)

lemma prune_post:
  assumes "json_laws J" and ok: "ledger_ok J l d" and av: "\<not> rl_failed_closed l"
  shows "\<exists>r l' d'. prune_completed J u now l d = Some (r, l', d')
    \<and> committed J l d (pruned now (rl_entries l)) r l' d'"
proof (cases "length (pruned now (rl_entries l)) = length (rl_entries l)")
  case True
  then have "pruned now (rl_entries l) = rl_entries l" by (rule pruned_same)
  with ok av show ?thesis
    by (auto simp: prune_completed_def pruned_def [symmetric] committed_def ledger_ok_def dest: file_entries_state)
next
  case False
  have "good_entries (pruned now (rl_entries l))" using ok by (simp add: ledger_ok_def good_pruned)
  from persist_or_close_post [OF assms(1) this av, of u d] False show ?thesis
    by (simp add: prune_completed_def pruned_def [symmetric])
qed

section \<open>Operations on a sound ledger\<close>

definition fresh_entry :: "string \<Rightarrow> i64 \<Rightarrow> i64 \<Rightarrow> ledger_entry" where
  "fresh_entry digest expires now =
     \<lparr>le_digest = digest, le_reserved_at_unix = now, le_expires_at_unix = expires,
      le_transition_seq = 1, le_state = ReservedPreSpawn, le_process_pid = None,
      le_process_birth_id = None, le_result_digest = None, le_reconciliation = None\<rparr>"

lemma good_fresh_entry:
  "validate_reservation n digest expires now = Inr () \<Longrightarrow> in_i64 expires \<Longrightarrow> in_i64 now \<Longrightarrow>
   good_entry n (fresh_entry digest expires now)"
  by (auto simp: good_entry_def validate_entry_def validate_reservation_def fresh_entry_def
      entry_typed_def in_i64_def split: if_splits)

lemma reserve_cases:
  assumes J: "json_laws J" and ok: "ledger_ok J l d" and t: "in_i64 expires" "in_i64 now"
  obtains (refused) e where "reserve J u1 u2 n digest expires now l d = Some (Inl e, l, d)"
  | (pruning) e r l' d' where "reserve J u1 u2 n digest expires now l d = Some (Inl e, l', d')"
      and "committed J l d (pruned now (rl_entries l)) r l' d'" and "\<not> rl_failed_closed l"
  | (reserving) r l1 d1 l' d' where "reserve J u1 u2 n digest expires now l d = Some (r, l', d')"
      and "committed J l d (pruned now (rl_entries l)) (Inr ()) l1 d1"
      and "committed J l1 d1 (btree_insert n (fresh_entry digest expires now) (pruned now (rl_entries l))) r l' d'"
      and "map_of (pruned now (rl_entries l)) n = None"
      and "length (pruned now (rl_entries l)) < rl_max_entries l"
      and "good_entry n (fresh_entry digest expires now)" and "now \<le> expires" and "\<not> rl_failed_closed l"
proof (cases "and_then (ensure_available l) (\<lambda>_. validate_reservation n digest expires now)")
  case (Inl e)
  then show ?thesis using refused by (simp add: reserve_def)
next
  case (Inr v)
  then have av: "\<not> rl_failed_closed l" and val: "validate_reservation n digest expires now = Inr ()"
    by (auto simp: and_then_Inr_iff ensure_available_def split: if_splits)
  let ?es = "pruned now (rl_entries l)"
  from prune_post [OF J ok av, of u1 now] obtain r1 l1 d1 where
    p: "prune_completed J u1 now l d = Some (r1, l1, d1)" "committed J l d ?es r1 l1 d1" by blast
  show ?thesis
  proof (cases r1)
    case e: (Inl e)
    with Inr p have "reserve J u1 u2 n digest expires now l d = Some (Inl e, l1, d1)"
      by (simp add: reserve_def)
    with p(2) e av show ?thesis using pruning by blast
  next
    case r1: (Inr v1)
    have es: "rl_entries l1 = ?es" "rl_max_entries l1 = rl_max_entries l" "\<not> rl_failed_closed l1"
      using p(2) r1 by (auto simp: committed_def)
    show ?thesis
    proof (cases "map_of ?es n = None \<and> length ?es < rl_max_entries l")
      case False
      then have "\<exists>e. reserve J u1 u2 n digest expires now l d = Some (Inl e, l1, d1)"
        using Inr p(1) r1 es by (auto simp: reserve_def split: option.splits)
      with p(2) av show ?thesis using pruning by blast
    next
      case True
      have good: "good_entry n (fresh_entry digest expires now)" using val t by (rule good_fresh_entry)
      have "good_entries (btree_insert n (fresh_entry digest expires now) ?es)"
        using ok good by (intro good_entries_insert good_pruned) (simp add: ledger_ok_def)
      from persist_or_close_post [OF J this es(3), of u2 d1] obtain r l' d' where
        c: "persist_or_close J u2 (l1\<lparr>rl_entries := btree_insert n (fresh_entry digest expires now) ?es\<rparr>) d1 = Some (r, l', d')"
        "committed J l1 d1 (btree_insert n (fresh_entry digest expires now) ?es) r l' d'" by blast
      have "reserve J u1 u2 n digest expires now l d = Some (r, l', d')"
        using Inr p(1) r1 es True c(1) by (simp add: reserve_def fresh_entry_def)
      moreover have "now \<le> expires" using val by (auto simp: validate_reservation_def split: if_splits)
      moreover have "committed J l d ?es (Inr ()) l1 d1" using p(2) r1 by simp
      ultimately show ?thesis using reserving c(2) True good av by blast
    qed
  qed
qed

text \<open>The operations that change one entry.\<close>

definition changed :: "ledger_entry \<Rightarrow> ledger_entry \<Rightarrow> bool" where
  "changed e e' \<longleftrightarrow>
     le_digest e' = le_digest e \<and> le_expires_at_unix e' = le_expires_at_unix e
   \<and> le_transition_seq e' = saturating_add (le_transition_seq e) 1
   \<and> (le_state e, le_state e') \<in>
       {(ReservedPreSpawn, SpawnedUncertain), (SpawnedUncertain, Completed),
        (ReservedPreSpawn, AbortedBeforeSpawn)}"

definition one_entry :: "json_text \<Rightarrow> string \<Rightarrow> replay_ledger \<Rightarrow> device \<Rightarrow> unit ledger_update \<Rightarrow> bool" where
  "one_entry J n l d res \<longleftrightarrow>
     (\<exists>e. res = Some (Inl e, l, d))
   \<or> (\<exists>e e' r l' d'. res = Some (r, l', d') \<and> map_of (rl_entries l) n = Some e \<and> changed e e'
        \<and> good_entry n e' \<and> \<not> rl_failed_closed l
        \<and> committed J l d (btree_insert n e' (rl_entries l)) r l' d')"

lemma saturating_add_one_nonzero: "saturating_add (q :: u64) 1 \<noteq> 0"
proof (cases "unat q + 1 < 2 ^ 64")
  case True
  then have "unat (q + 1) = unat q + 1" by (simp add: unat_word_ariths)
  then have "q + 1 \<noteq> 0" by (metis add_is_0 one_neq_zero unat_0)
  with True show ?thesis by (simp add: saturating_add_def)
next
  case False
  then show ?thesis by (simp add: saturating_add_def)
qed

lemma one_entry_commit:
  assumes "json_laws J" and "ledger_ok J l d" and "\<not> rl_failed_closed l" and "map_of (rl_entries l) n = Some e"
    and "changed e e'" and "good_entry n e'"
    and "res = persist_or_close J u (l\<lparr>rl_entries := btree_insert n e' (rl_entries l)\<rparr>) d"
  shows "one_entry J n l d res"
proof -
  have "good_entries (btree_insert n e' (rl_entries l))"
    using assms(2,6) by (intro good_entries_insert) (simp_all add: ledger_ok_def)
  from persist_or_close_post [OF assms(1) this assms(3), of u d] assms show ?thesis
    unfolding one_entry_def by blast
qed

lemma good_entry_of: "ledger_ok J l d \<Longrightarrow> map_of (rl_entries l) n = Some e \<Longrightarrow> good_entry n e"
  by (simp add: ledger_ok_def good_entries_def)

lemma mark_spawned_one:
  assumes "json_laws J" and ok: "ledger_ok J l d"
  shows "one_entry J n l d (mark_spawned J u n digest ident l d)"
proof (cases "map_of (rl_entries l) n")
  case None
  then show ?thesis by (auto simp: mark_spawned_def one_entry_def ensure_available_def)
next
  case (Some e)
  show ?thesis
  proof (cases "rl_failed_closed l \<or> le_digest e \<noteq> digest \<or> le_state e \<noteq> ReservedPreSpawn")
    case True
    with Some show ?thesis by (auto simp: mark_spawned_def one_entry_def ensure_available_def)
  next
    case False
    let ?e1 = "e\<lparr>le_state := SpawnedUncertain, le_transition_seq := saturating_add (le_transition_seq e) 1\<rparr>"
    let ?e2 = "case ident of None \<Rightarrow> ?e1
      | Some (pid, birth) \<Rightarrow> ?e1\<lparr>le_process_pid := Some pid, le_process_birth_id := Some birth\<rparr>"
    have "changed e ?e2" using False by (auto simp: changed_def split: option.splits)
    moreover have "good_entry n ?e2"
      using good_entry_of [OF ok Some] saturating_add_one_nonzero
      by (auto simp: good_entry_def validate_entry_def entry_typed_def and_then_Inr_iff
          split: if_splits option.splits)
    ultimately show ?thesis
      using False Some by (intro one_entry_commit [OF assms _ Some, where u = u]) (auto simp: mark_spawned_def ensure_available_def Let_def)
  qed
qed

lemma mark_completed_one:
  assumes "json_laws J" and ok: "ledger_ok J l d"
  shows "one_entry J n l d (mark_completed J u n digest l d)"
proof (cases "map_of (rl_entries l) n")
  case None
  then show ?thesis by (auto simp: mark_completed_def one_entry_def ensure_available_def)
next
  case (Some e)
  show ?thesis
  proof (cases "rl_failed_closed l \<or> le_digest e \<noteq> digest \<or> le_state e \<noteq> SpawnedUncertain")
    case True
    with Some show ?thesis by (auto simp: mark_completed_def one_entry_def ensure_available_def)
  next
    case False
    let ?e = "e\<lparr>le_state := Completed, le_transition_seq := saturating_add (le_transition_seq e) 1\<rparr>"
    have "changed e ?e" using False by (auto simp: changed_def)
    moreover have "good_entry n ?e"
      using good_entry_of [OF ok Some] saturating_add_one_nonzero
      by (auto simp: good_entry_def validate_entry_def entry_typed_def and_then_Inr_iff
          split: if_splits option.splits)
    ultimately show ?thesis
      using False Some by (intro one_entry_commit [OF assms _ Some, where u = u]) (auto simp: mark_completed_def ensure_available_def)
  qed
qed

lemma reconcile_one:
  assumes "json_laws J" and ok: "ledger_ok J l d" and "in_i64 now"
  shows "one_entry J n l d (reconcile J u n decision actor now ack l d)"
proof (cases "map_of (rl_entries l) n")
  case None
  then show ?thesis by (auto simp: reconcile_def one_entry_def ensure_available_def)
next
  case (Some e)
  show ?thesis
  proof (cases "rl_failed_closed l \<or> bad_actor actor \<or> (\<exists>x. reconcile_next decision (le_state e) ack = Inl x)")
    case True
    with Some show ?thesis by (auto simp: reconcile_def one_entry_def ensure_available_def)
  next
    case False
    then obtain s where s: "reconcile_next decision (le_state e) ack = Inr s"
      by (cases "reconcile_next decision (le_state e) ack") auto
    let ?e = "e\<lparr>le_state := s, le_transition_seq := saturating_add (le_transition_seq e) 1,
      le_reconciliation := Some \<lparr>rr_actor = actor, rr_at_unix = now, rr_prior_state = le_state e, rr_new_state = s\<rparr>\<rparr>"
    have "changed e ?e" using s by (auto simp: changed_def reconcile_next_def split: if_splits)
    moreover have "good_entry n ?e"
      using good_entry_of [OF ok Some] saturating_add_one_nonzero False assms(3)
      by (auto simp: good_entry_def validate_entry_def entry_typed_def and_then_Inr_iff
          reconciliation_typed_def split: if_splits option.splits)
    ultimately show ?thesis
      using False Some s by (intro one_entry_commit [OF assms(1,2) _ Some, where u = u]) (auto simp: reconcile_def ensure_available_def)
  qed
qed

section \<open>Opening\<close>

lemma json_i64_Some: "json_i64 j = Some n \<longleftrightarrow> j = JInt n \<and> in_i64 n"
  by (cases j) (auto simp: json_i64_def)

lemma field_or_i64: "field_or 0 json_i64 fs k = Some n \<Longrightarrow> in_i64 n"
  by (auto simp: field_or_def json_i64_Some in_i64_def [of 0] split: option.splits)

lemma field_i64: "field json_i64 fs k = Some n \<Longrightarrow> in_i64 n"
  by (auto simp: field_def json_i64_Some bind_eq_Some_conv)

lemma json_option_Some: "json_option f j = Some (Some x) \<Longrightarrow> f j = Some x"
  by (cases j) (auto simp: json_option_def)

lemma reconciliation_from_json_typed: "reconciliation_from_json j = Some r \<Longrightarrow> reconciliation_typed r"
  by (auto simp: reconciliation_from_json_def reconciliation_typed_def split: option.splits dest: field_i64)

lemma field_option_reconciliation:
  "field_or None (json_option reconciliation_from_json) fs k = Some r \<Longrightarrow> pred_option reconciliation_typed r"
  by (cases r) (auto simp: field_or_def split: option.splits
      dest!: json_option_Some dest: reconciliation_from_json_typed)

lemma entry_from_json_typed: "entry_from_json j = Some e \<Longrightarrow> entry_typed e"
  by (auto simp: entry_from_json_def entry_typed_def split: option.splits
      dest: field_or_i64 field_i64 field_option_reconciliation)

lemma legacy_entry_typed: "legacy_entry_from_json j = Some e \<Longrightarrow> entry_typed (migrate_entry e)"
  by (auto simp: legacy_entry_from_json_def entry_typed_def migrate_entry_def in_i64_def [of 0]
      split: option.splits dest: field_i64)

lemma ledger_from_json_map:
  "ledger_from_json j = Some (w, es) \<Longrightarrow> \<exists>j'. json_map entry_from_json j' = Some es"
  by (auto simp: ledger_from_json_def field_def bind_eq_Some_conv split: option.splits)

lemma legacy_from_json_map:
  "legacy_from_json j = Some (w, es) \<Longrightarrow> \<exists>j'. json_map legacy_entry_from_json j' = Some es"
  by (auto simp: legacy_from_json_def field_def bind_eq_Some_conv split: option.splits)

lemma decoded_typed:
  assumes "decoded J b = Some (es, migrated)"
  shows "btree es \<and> (\<forall>(n, e) \<in> set es. entry_typed e)"
proof (cases migrated)
  case True
  then obtain j w legacy where "legacy_from_json j = Some (w, legacy)"
    and es: "es = map (\<lambda>(n, e). (n, migrate_entry e)) legacy"
    using assms by (auto simp: decoded_def bind_eq_Some_conv split: option.splits if_splits)
  from legacy_from_json_map [OF this(1)] obtain j' where j': "json_map legacy_entry_from_json j' = Some legacy" ..
  have "btree es" using json_map_btree [OF j'] by (simp add: es btree_def)
  moreover have "entry_typed (migrate_entry e)" if "(n, e) \<in> set legacy" for n e
    using json_map_values [OF j' that] by (auto intro: legacy_entry_typed)
  ultimately show ?thesis by (auto simp: es)
next
  case False
  then obtain j w where "ledger_from_json j = Some (w, es)"
    using assms by (auto simp: decoded_def bind_eq_Some_conv split: option.splits if_splits)
  from ledger_from_json_map [OF this] obtain j' where j': "json_map entry_from_json j' = Some es" ..
  have "entry_typed e" if "(n, e) \<in> set es" for n e
    using json_map_values [OF j' that] by (auto intro: entry_from_json_typed)
  with json_map_btree [OF j'] show ?thesis by auto
qed

lemma loaded_good:
  assumes "load_entries J ev p m b = Inr (es, migrated)"
  shows "good_entries es"
proof -
  note l = load_entries_Inr [OF assms]
  have "validate_entry n e = Inr ()" if "(n, e) \<in> set es" for n e
    using l(4) that by (auto simp: try_each_Inr_iff)
  with decoded_typed [OF l(1)] show ?thesis
    by (auto simp: good_entries_def good_entry_def dest: map_of_SomeD)
qed

lemma open_post:
  assumes J: "json_laws J"
  shows "\<exists>r d'. ledger_open J ev u p m d = Some (r, d')
    \<and> (file_entries J p d' = file_entries J p d \<or> content d p = None \<and> file_entries J p d' = Some [])
    \<and> (\<forall>l. r = Inr l \<longrightarrow> ledger_ok J l d' \<and> rl_path l = p \<and> rl_max_entries l = m \<and> \<not> rl_failed_closed l
        \<and> (content d p \<noteq> None \<longrightarrow> file_entries J p d = Some (rl_entries l)))"
proof (cases "m = 0 \<or> (\<exists>e. and_then (verify_ledger_parent ev p) (\<lambda>_. acquire_ledger_lock ev p) = Inl e)")
  case True
  then show ?thesis by (auto simp: ledger_open_def)
next
  case False
  then have c: "and_then (verify_ledger_parent ev p) (\<lambda>_. acquire_ledger_lock ev p) = Inr ()"
    by (cases "and_then (verify_ledger_parent ev p) (\<lambda>_. acquire_ledger_lock ev p)") auto
  then have parent: "path_parent p \<noteq> None"
    by (auto simp: and_then_Inr_iff verify_ledger_parent_def split: if_splits)
  let ?make = "\<lambda>es. \<lparr>rl_path = p, rl_max_entries = m, rl_entries = es, rl_failed_closed = False\<rparr>"
  have put: "\<exists>r d'. io_bind (ledger_persist J u (?make es)) (\<lambda>_. io_return (?make es)) d = Some (r, d')
      \<and> file_entries J p d' \<in> {file_entries J p d, Some es}
      \<and> (\<forall>l. r = Inr l \<longrightarrow> l = ?make es \<and> ledger_ok J l d')"
    if "good_entries es" "length es \<le> m" for es
  proof -
    from persist_post [OF J, of "?make es" u d] that(1) obtain r d' where
      "ledger_persist J u (?make es) d = Some (r, d')"
      "r = Inr () \<longrightarrow> file_state J p d' = Some (es, False)"
      "file_entries J p d' \<in> {file_entries J p d, Some es}" by auto
    with that parent show ?thesis
      by (cases r) (auto simp: io_bind_def io_return_def ledger_ok_def)
  qed
  show ?thesis
  proof (cases "content d p")
    case None
    from put [of "[]"] obtain r d' where
      "io_bind (ledger_persist J u (?make [])) (\<lambda>_. io_return (?make [])) d = Some (r, d')"
      "file_entries J p d' \<in> {file_entries J p d, Some []}" "\<forall>l. r = Inr l \<longrightarrow> l = ?make [] \<and> ledger_ok J l d'"
      by (auto simp: good_entries_def)
    with False c None show ?thesis by (auto simp: ledger_open_def)
  next
    case (Some b)
    show ?thesis
    proof (cases "load_entries J ev p m b")
      case (Inl e)
      with False c Some show ?thesis by (simp add: ledger_open_def)
    next
      case (Inr em)
      then obtain es migrated where em: "em = (es, migrated)" by (cases em)
      note l = load_entries_Inr [OF Inr [unfolded em]]
      have good: "good_entries es" using loaded_good [OF Inr [unfolded em]] .
      have fs: "file_state J p d = Some (es, migrated)" using Some l(1,3) by (simp add: file_state_def)
      then have f: "file_entries J p d = Some es" by (rule file_entries_state)
      show ?thesis
      proof (cases migrated)
        case True
        from put [OF good l(2)] obtain r d' where
          "io_bind (ledger_persist J u (?make es)) (\<lambda>_. io_return (?make es)) d = Some (r, d')"
          "file_entries J p d' \<in> {file_entries J p d, Some es}" "\<forall>l. r = Inr l \<longrightarrow> l = ?make es \<and> ledger_ok J l d'"
          by blast
        with False c Some Inr em True f show ?thesis by (auto simp: ledger_open_def)
      next
        case nm: False
        have "ledger_ok J (?make es) d" using good l(2) parent fs nm by (simp add: ledger_ok_def)
        with False c Some Inr em nm f show ?thesis by (auto simp: ledger_open_def)
      qed
    qed
  qed
qed

section \<open>Runs with crashes and restarts\<close>

text \<open>
  A broker with its ledger, when one is open, and the device.  The operations are those of the
  ledger, opening it, losing the process, and a change of what the device will answer.
\<close>

record broker =
  bk_ledger :: "replay_ledger option"
  bk_device :: device

datatype ledger_op =
    OpReserve string string string string i64 i64
  | OpSpawn string string string "(u32 \<times> u64) option"
  | OpComplete string string string
  | OpReconcile string string reconcile_decision string i64 bool
  | OpOpen ledger_env string nat
  | OpStop
  | OpDevice "(string \<times> nat) option list"

definition apply_update :: "broker \<Rightarrow> (replay_ledger \<Rightarrow> device \<Rightarrow> unit ledger_update) \<Rightarrow> broker" where
  "apply_update b f =
     (case bk_ledger b of
        None \<Rightarrow> b
      | Some l \<Rightarrow>
          (case f l (bk_device b) of
             None \<Rightarrow> b
           | Some (r, l', d') \<Rightarrow> \<lparr>bk_ledger = Some l', bk_device = d'\<rparr>))"

fun ledger_exec :: "json_text \<Rightarrow> string \<Rightarrow> broker \<Rightarrow> ledger_op \<Rightarrow> broker" where
  "ledger_exec J p b (OpReserve u1 u2 n dg x now) = apply_update b (reserve J u1 u2 n dg x now)"
| "ledger_exec J p b (OpSpawn u n dg ident) = apply_update b (mark_spawned J u n dg ident)"
| "ledger_exec J p b (OpComplete u n dg) = apply_update b (mark_completed J u n dg)"
| "ledger_exec J p b (OpReconcile u n dn actor now ack) = apply_update b (reconcile J u n dn actor now ack)"
| "ledger_exec J p b (OpOpen ev u m) =
     (case ledger_open J ev u p m (bk_device b) of
        None \<Rightarrow> b
      | Some (Inl e, d') \<Rightarrow> \<lparr>bk_ledger = None, bk_device = d'\<rparr>
      | Some (Inr l, d') \<Rightarrow> \<lparr>bk_ledger = Some l, bk_device = d'\<rparr>)"
| "ledger_exec J p b OpStop = b\<lparr>bk_ledger := None\<rparr>"
| "ledger_exec J p b (OpDevice outcomes) = b\<lparr>bk_device := (bk_device b)\<lparr>dv_outcomes := outcomes\<rparr>\<rparr>"

text \<open>The times that an operation carries are \<open>i64\<close> values.\<close>

fun op_typed :: "ledger_op \<Rightarrow> bool" where
  "op_typed (OpReserve u1 u2 n dg x now) \<longleftrightarrow> in_i64 x \<and> in_i64 now"
| "op_typed (OpReconcile u n dn actor now ack) \<longleftrightarrow> in_i64 now"
| "op_typed _ \<longleftrightarrow> True"

text \<open>The reservations granted for a nonce, with the time and the expiry of each.\<close>

fun granted :: "json_text \<Rightarrow> string \<Rightarrow> broker \<Rightarrow> ledger_op \<Rightarrow> (i64 \<times> i64) option" where
  "granted J n b (OpReserve u1 u2 n' dg x now) =
     (case bk_ledger b of
        None \<Rightarrow> None
      | Some l \<Rightarrow>
          (case reserve J u1 u2 n' dg x now l (bk_device b) of
             Some (Inr _, _, _) \<Rightarrow> if n' = n then Some (now, x) else None
           | _ \<Rightarrow> None))"
| "granted J n b _ = None"

fun grants :: "json_text \<Rightarrow> string \<Rightarrow> string \<Rightarrow> broker \<Rightarrow> ledger_op list \<Rightarrow> (i64 \<times> i64) list" where
  "grants J p n b [] = []"
| "grants J p n b (oper # ops) =
     (case granted J n b oper of None \<Rightarrow> [] | Some g \<Rightarrow> [g]) @ grants J p n (ledger_exec J p b oper) ops"

fun clocks :: "ledger_op list \<Rightarrow> i64 list" where
  "clocks [] = []"
| "clocks (OpReserve u1 u2 n dg x now # ops) = now # clocks ops"
| "clocks (_ # ops) = clocks ops"

section \<open>The invariant of a run\<close>

definition broker_ok :: "json_text \<Rightarrow> string \<Rightarrow> broker \<Rightarrow> bool" where
  "broker_ok J p b \<longleftrightarrow> pred_option (\<lambda>l. rl_path l = p \<and> ledger_ok J l (bk_device b)) (bk_ledger b)"

text \<open>
  A grant of nonce \<open>n\<close> with expiry \<open>x\<close> is remembered at time \<open>c\<close>: it has expired, or the file
  has the nonce with that expiry.
\<close>

definition remembered :: "json_text \<Rightarrow> string \<Rightarrow> string \<Rightarrow> i64 \<Rightarrow> i64 \<Rightarrow> device \<Rightarrow> bool" where
  "remembered J p n x c d \<longleftrightarrow>
     x < c \<or> (\<exists>es e. file_entries J p d = Some es \<and> map_of es n = Some e \<and> le_expires_at_unix e = x)"

lemma remembered_later: "remembered J p n x c d \<Longrightarrow> c \<le> c' \<Longrightarrow> remembered J p n x c' d"
  by (auto simp: remembered_def)

lemma remembered_file:
  "remembered J p n x c d \<Longrightarrow> file_entries J p d' = file_entries J p d \<Longrightarrow> remembered J p n x c d'"
  by (simp add: remembered_def)

lemma committed_length_insert:
  assumes "good_entries es" and "map_of es n = None" and "length es < m"
  shows "length (btree_insert n e es) \<le> m"
  using assms length_btree_insert_new [of es n e] by (simp add: good_entries_def)

lemma reserve_keeps:
  assumes J: "json_laws J" and ok: "ledger_ok J l d" "rl_path l = p" and t: "in_i64 x'" "in_i64 now"
    and run: "reserve J u1 u2 n' dg x' now l d = Some (r, l', d')"
  shows "ledger_ok J l' d' \<and> rl_path l' = p"
    and "remembered J p n x c d \<Longrightarrow> c \<le> now \<Longrightarrow> remembered J p n x now d'"
    and "r = Inr () \<Longrightarrow> now \<le> x' \<and> remembered J p n' x' now d'"
    and "r = Inr () \<Longrightarrow> remembered J p n' x c d \<Longrightarrow> c \<le> now \<Longrightarrow> x < now"
proof -
  let ?es = "pruned now (rl_entries l)" and ?new = "btree_insert n' (fresh_entry dg x' now) (pruned now (rl_entries l))"
  have good: "good_entries (rl_entries l)" "length (rl_entries l) \<le> rl_max_entries l" "path_parent (rl_path l) \<noteq> None"
    using ok by (auto simp: ledger_ok_def)
  have durable: "file_entries J p d = Some (rl_entries l)" if "\<not> rl_failed_closed l"
    using ok that by (auto simp: ledger_ok_def dest: file_entries_state)
  have kept: "x < now \<or> (\<exists>e. map_of ?es n = Some e \<and> le_expires_at_unix e = x)"
    if "remembered J p n x c d" "c \<le> now" "\<not> rl_failed_closed l" for n x c
    using that durable [OF that(3)] map_of_pruned [OF good(1), of now n]
    by (auto simp: remembered_def split: if_splits option.splits)
  have gone: "x < now" if "remembered J p n' x c d" "c \<le> now" "\<not> rl_failed_closed l" "map_of ?es n' = None" for x c
    using kept [OF that(1-3)] that(4) by auto
  from reserve_cases [OF J ok(1) t, of u1 u2 n' dg]
  consider (refused) e where "r = Inl e" "l' = l" "d' = d"
  | (pruning) e r0 where "r = Inl e" "committed J l d ?es r0 l' d'" "\<not> rl_failed_closed l"
  | (reserving) l1 d1 where "committed J l d ?es (Inr ()) l1 d1" "committed J l1 d1 ?new r l' d'"
      "map_of ?es n' = None" "length ?es < rl_max_entries l" "good_entry n' (fresh_entry dg x' now)"
      "now \<le> x'" "\<not> rl_failed_closed l"
    using run by cases auto
  note cases = this
  show "ledger_ok J l' d' \<and> rl_path l' = p"
  proof (cases rule: cases)
    case refused
    with ok show ?thesis by simp
  next
    case pruning
    have "ledger_ok J l' d'"
      using committed_ok [OF pruning(2) good_pruned [OF good(1)]] length_pruned [of now "rl_entries l"] good by simp
    with pruning(2) ok show ?thesis by (simp add: committed_def)
  next
    case reserving
    have l1: "rl_path l1 = rl_path l" "rl_max_entries l1 = rl_max_entries l"
      using reserving(1) by (auto simp: committed_def)
    have "good_entries ?new" using good_pruned [OF good(1)] reserving(5) by (rule good_entries_insert)
    then have "ledger_ok J l' d'"
      using committed_ok [OF reserving(2)] committed_length_insert [OF good_pruned [OF good(1)] reserving(3,4)] l1 good
      by simp
    with reserving(2) l1 ok show ?thesis by (simp add: committed_def)
  qed
  show "remembered J p n x now d'" if r: "remembered J p n x c d" "c \<le> now"
  proof (cases rule: cases)
    case refused
    with r show ?thesis by (auto intro: remembered_later)
  next
    case pruning
    have "file_entries J p d' \<in> {file_entries J p d, Some ?es}"
      using pruning(2) ok by (auto simp: committed_def)
    then show ?thesis
      using kept [OF r pruning(3)] remembered_later [OF r] by (auto simp: remembered_def)
  next
    case reserving
    have d1: "file_entries J p d1 = Some ?es"
      using reserving(1) ok by (auto simp: committed_def dest: file_entries_state)
    have "file_entries J p d' \<in> {Some ?es, Some ?new}"
      using reserving(1,2) ok d1 by (auto simp: committed_def)
    then show ?thesis
      using kept [OF r reserving(7)] gone [OF _ r(2) reserving(7,3)] r(1)
      by (cases "n = n'") (auto simp: remembered_def)
  qed
  show "now \<le> x' \<and> remembered J p n' x' now d'" if "r = Inr ()"
  proof (cases rule: cases)
    case reserving
    have "file_entries J p d' = Some ?new"
      using reserving(1,2) ok that by (auto simp: committed_def dest: file_entries_state)
    then show ?thesis using reserving(6) by (simp add: remembered_def fresh_entry_def)
  qed (use that in simp_all)
  show "x < now" if "r = Inr ()" "remembered J p n' x c d" "c \<le> now"
  proof (cases rule: cases)
    case reserving
    then show ?thesis using gone that by blast
  qed (use that in simp_all)
qed

lemma one_entry_keeps:
  assumes ok: "ledger_ok J l d" "rl_path l = p" and single: "one_entry J m l d res" and run: "res = Some (r, l', d')"
  shows "ledger_ok J l' d' \<and> rl_path l' = p"
    and "remembered J p n x c d \<Longrightarrow> remembered J p n x c d'"
proof -
  have good: "good_entries (rl_entries l)" "length (rl_entries l) \<le> rl_max_entries l" "path_parent (rl_path l) \<noteq> None"
    using ok by (auto simp: ledger_ok_def)
  consider (same) "l' = l" "d' = d"
  | (one) e e' where "map_of (rl_entries l) m = Some e" "changed e e'" "good_entry m e'" "\<not> rl_failed_closed l"
      "committed J l d (btree_insert m e' (rl_entries l)) r l' d'"
    using single run unfolding one_entry_def by auto
  note cases = this
  show "ledger_ok J l' d' \<and> rl_path l' = p"
  proof (cases rule: cases)
    case same
    with ok show ?thesis by simp
  next
    case one
    have "length (btree_insert m e' (rl_entries l)) = length (rl_entries l)"
      using one(1) good(1) by (simp add: length_btree_insert_old good_entries_def)
    with committed_ok [OF one(5) good_entries_insert [OF good(1) one(3)]] good one(5) ok(2) show ?thesis
      by (simp add: committed_def)
  qed
  show "remembered J p n x c d'" if r: "remembered J p n x c d"
  proof (cases rule: cases)
    case same
    with r show ?thesis by simp
  next
    case one
    have "file_entries J p d = Some (rl_entries l)"
      using ok one(4) by (auto simp: ledger_ok_def dest: file_entries_state)
    moreover have "file_entries J p d' \<in> {file_entries J p d, Some (btree_insert m e' (rl_entries l))}"
      using one(5) ok(2) by (simp add: committed_def)
    ultimately show ?thesis
      using r one(1,2) good(1) by (cases "n = m") (auto simp: remembered_def changed_def good_entries_def)
  qed
qed

lemma apply_update_keeps:
  assumes ok: "broker_ok J p b"
    and keep: "\<And>l r l' d'. bk_ledger b = Some l \<Longrightarrow> f l (bk_device b) = Some (r, l', d') \<Longrightarrow>
      (ledger_ok J l' d' \<and> rl_path l' = p) \<and> (remembered J p n x c (bk_device b) \<longrightarrow> remembered J p n x c' d')"
    and "c \<le> c'"
  shows "broker_ok J p (apply_update b f)
    \<and> (remembered J p n x c (bk_device b) \<longrightarrow> remembered J p n x c' (bk_device (apply_update b f)))"
proof (cases "bk_ledger b")
  case None
  with ok assms(3) show ?thesis by (auto simp: apply_update_def intro: remembered_later)
next
  case (Some l)
  show ?thesis
  proof (cases "f l (bk_device b)")
    case None
    with Some ok assms(3) show ?thesis by (auto simp: apply_update_def intro: remembered_later)
  next
    case f: (Some res)
    then obtain r l' d' where res: "res = (r, l', d')" by (cases res)
    with keep [OF Some f [unfolded res]] Some f show ?thesis by (simp add: apply_update_def broker_ok_def)
  qed
qed

lemma update_one_keeps:
  assumes ok: "broker_ok J p b"
    and one: "\<And>l. bk_ledger b = Some l \<Longrightarrow> one_entry J m l (bk_device b) (f l (bk_device b))"
  shows "broker_ok J p (apply_update b f)
    \<and> (remembered J p n x c (bk_device b) \<longrightarrow> remembered J p n x c (bk_device (apply_update b f)))"
proof (rule apply_update_keeps [OF ok _ order_refl])
  fix l r l' d'
  assume l: "bk_ledger b = Some l" and f: "f l (bk_device b) = Some (r, l', d')"
  then have "ledger_ok J l (bk_device b)" "rl_path l = p" using ok by (auto simp: broker_ok_def)
  note one_entry_keeps [OF this one [OF l] f]
  then show "(ledger_ok J l' d' \<and> rl_path l' = p)
      \<and> (remembered J p n x c (bk_device b) \<longrightarrow> remembered J p n x c d')" by blast
qed

definition op_clock :: "i64 \<Rightarrow> ledger_op \<Rightarrow> i64" where
  "op_clock c oper = (case oper of OpReserve u1 u2 n dg x now \<Rightarrow> now | _ \<Rightarrow> c)"

lemma exec_keeps:
  assumes J: "json_laws J" and ok: "broker_ok J p b" and t: "op_typed oper" and c: "c \<le> op_clock c oper"
  shows "broker_ok J p (ledger_exec J p b oper)
    \<and> (remembered J p n x c (bk_device b) \<longrightarrow>
        remembered J p n x (op_clock c oper) (bk_device (ledger_exec J p b oper)))"
proof -
  have l: "ledger_ok J l (bk_device b)" "rl_path l = p" if "bk_ledger b = Some l" for l
    using ok that by (auto simp: broker_ok_def)
  show ?thesis
  proof (cases oper)
    case (OpReserve u1 u2 n' dg x' now)
    then have t': "in_i64 x'" "in_i64 now" and c': "c \<le> now" using t c by (auto simp: op_clock_def)
    have "broker_ok J p (apply_update b (reserve J u1 u2 n' dg x' now)) \<and> (remembered J p n x c (bk_device b) \<longrightarrow>
        remembered J p n x now (bk_device (apply_update b (reserve J u1 u2 n' dg x' now))))"
      by (rule apply_update_keeps [OF ok _ c'])
        (use reserve_keeps(1,2) [OF J l t'] c' in blast)
    then show ?thesis by (simp add: OpReserve op_clock_def)
  next
    case (OpSpawn u m dg ident)
    then show ?thesis
      using update_one_keeps [OF ok, where m = m and f = "mark_spawned J u m dg ident"] mark_spawned_one [OF J l(1)]
      by (simp add: op_clock_def)
  next
    case (OpComplete u m dg)
    then show ?thesis
      using update_one_keeps [OF ok, where m = m and f = "mark_completed J u m dg"] mark_completed_one [OF J l(1)]
      by (simp add: op_clock_def)
  next
    case (OpReconcile u m dn actor now ack)
    then have now: "in_i64 now" using t by simp
    show ?thesis
      using update_one_keeps [OF ok, where m = m and f = "reconcile J u m dn actor now ack"] reconcile_one [OF J l(1) now]
      by (simp add: OpReconcile op_clock_def)
  next
    case (OpOpen ev u m)
    from open_post [OF J, of ev u p m "bk_device b"] obtain r d' where
      o: "ledger_open J ev u p m (bk_device b) = Some (r, d')"
      "file_entries J p d' = file_entries J p (bk_device b) \<or> content (bk_device b) p = None \<and> file_entries J p d' = Some []"
      "\<forall>l. r = Inr l \<longrightarrow> ledger_ok J l d' \<and> rl_path l = p" by blast
    have "remembered J p n x c d'" if "remembered J p n x c (bk_device b)"
      using o(2) that by (auto simp: remembered_def file_entries_def file_state_def)
    with o show ?thesis by (cases r) (auto simp: OpOpen op_clock_def broker_ok_def)
  next
    case OpStop
    then show ?thesis by (simp add: broker_ok_def op_clock_def)
  next
    case (OpDevice outcomes)
    have "content (d\<lparr>dv_outcomes := outcomes\<rparr>) p = content d p" for d by (simp add: content_def)
    then have same: "file_state J p (d\<lparr>dv_outcomes := outcomes\<rparr>) = file_state J p d" for d
      by (simp add: file_state_def)
    with ok show ?thesis
      by (auto simp: OpDevice op_clock_def broker_ok_def ledger_ok_def file_entries_def remembered_def
          option.pred_set)
  qed
qed

lemma granted_reserve:
  assumes J: "json_laws J" and ok: "broker_ok J p b" and t: "op_typed oper" and g: "granted J n b oper = Some (now, x')"
  shows "op_clock c oper = now" and "now \<le> x'"
    and "remembered J p n x' now (bk_device (ledger_exec J p b oper))"
    and "remembered J p n x c (bk_device b) \<Longrightarrow> c \<le> now \<Longrightarrow> x < now"
proof -
  obtain u1 u2 dg l l' d' where oper: "oper = OpReserve u1 u2 n dg x' now" and l: "bk_ledger b = Some l"
    and run: "reserve J u1 u2 n dg x' now l (bk_device b) = Some (Inr (), l', d')"
    using g by (cases oper) (auto split: option.splits sum.splits if_splits)
  have s: "ledger_ok J l (bk_device b)" "rl_path l = p" using ok l by (auto simp: broker_ok_def)
  have t': "in_i64 x'" "in_i64 now" using t oper by auto
  note keeps = reserve_keeps(3,4) [OF J s t' run]
  show "op_clock c oper = now" by (simp add: oper op_clock_def)
  show "now \<le> x'" using keeps(1) by simp
  show "remembered J p n x' now (bk_device (ledger_exec J p b oper))"
    using keeps(1) l run by (simp add: oper apply_update_def)
  show "x < now" if "remembered J p n x c (bk_device b)" "c \<le> now" using keeps(2) that by blast
qed

lemma clocks_Cons: "sorted (c # clocks (oper # ops)) \<Longrightarrow> c \<le> op_clock c oper \<and> sorted (op_clock c oper # clocks ops)"
  by (cases oper) (auto simp: op_clock_def)

lemma grants_after:
  assumes "json_laws J" and "broker_ok J p b" and "list_all op_typed ops" and "sorted (c # clocks ops)"
    and "remembered J p n x c (bk_device b)" and "(t, x') \<in> set (grants J p n b ops)"
  shows "x < t"
  using assms(2-)
proof (induction ops arbitrary: b c)
  case (Cons oper ops)
  have t: "op_typed oper" "list_all op_typed ops" using Cons.prems(2) by auto
  note c = clocks_Cons [OF Cons.prems(3)]
  note next_ok = exec_keeps [OF assms(1) Cons.prems(1) t(1) conjunct1 [OF c], of n x]
  show ?case
  proof (cases "granted J n b oper = Some (t, x')")
    case True
    note g = granted_reserve [OF assms(1) Cons.prems(1) t(1) True]
    with c Cons.prems(4) show ?thesis by metis
  next
    case False
    then have "(t, x') \<in> set (grants J p n (ledger_exec J p b oper) ops)"
      using Cons.prems(5) by (auto split: option.splits)
    with Cons.IH [OF _ t(2) conjunct2 [OF c]] next_ok Cons.prems(4) show ?thesis by blast
  qed
qed simp

lemma grants_spaced:
  assumes "json_laws J" and "broker_ok J p b" and "list_all op_typed ops" and "sorted (c # clocks ops)"
  shows "sorted_wrt (\<lambda>(t, x) (t', x'). x < t') (grants J p n b ops)
    \<and> list_all (\<lambda>(t, x). t \<le> x) (grants J p n b ops)"
  using assms(2-)
proof (induction ops arbitrary: b c)
  case (Cons oper ops)
  have t: "op_typed oper" "list_all op_typed ops" using Cons.prems(2) by auto
  note c = clocks_Cons [OF Cons.prems(3)]
  have ok: "broker_ok J p (ledger_exec J p b oper)"
    using exec_keeps [OF assms(1) Cons.prems(1) t(1) conjunct1 [OF c]] by blast
  note rest = Cons.IH [OF ok t(2) conjunct2 [OF c]]
  show ?case
  proof (cases "granted J n b oper")
    case None
    with rest show ?thesis by simp
  next
    case (Some g)
    obtain now x where g: "g = (now, x)" by (cases g)
    note gr = granted_reserve [OF assms(1) Cons.prems(1) t(1) Some [unfolded g]]
    have "sorted (now # clocks ops)" using c gr(1) [of c] by simp
    from grants_after [OF assms(1) ok t(2) this gr(3)] rest Some g gr(2) show ?thesis by auto
  qed
qed simp

section \<open>Properties\<close>

definition ledger_run :: "json_text \<Rightarrow> string \<Rightarrow> broker \<Rightarrow> ledger_op list \<Rightarrow> broker" where
  "ledger_run J p = foldl (ledger_exec J p)"

lemma run_ok:
  "json_laws J \<Longrightarrow> broker_ok J p b \<Longrightarrow> list_all op_typed ops \<Longrightarrow> broker_ok J p (ledger_run J p b ops)"
proof (induction ops arbitrary: b)
  case (Cons oper ops)
  have "\<exists>c. c \<le> op_clock c oper" by (cases oper) (auto simp: op_clock_def)
  then obtain c where c: "c \<le> op_clock c oper" ..
  have "broker_ok J p (ledger_exec J p b oper)"
    using exec_keeps [OF Cons.prems(1,2) _ c] Cons.prems(3) by simp
  with Cons.IH [OF Cons.prems(1)] Cons.prems(3) show ?case by (simp add: ledger_run_def)
qed (simp add: ledger_run_def)

lemma stopped_ok: "bk_ledger b = None \<Longrightarrow> broker_ok J p b"
  by (simp add: broker_ok_def)

definition legal_edge :: "ledger_op \<Rightarrow> ledger_entry \<Rightarrow> ledger_entry option \<Rightarrow> bool" where
  "legal_edge oper e after \<longleftrightarrow>
     after = Some e \<or> (\<exists>e'. after = Some e' \<and> changed e e')
   \<or> (\<exists>u1 u2 n dg x now. oper = OpReserve u1 u2 n dg x now \<and> \<not> uncertain (le_state e) \<and> le_expires_at_unix e < now
        \<and> (after = None \<or> after = Some (fresh_entry dg x now)))"

lemma committed_file:
  "committed J l d es r l' d' \<Longrightarrow> rl_path l = p \<Longrightarrow> file_entries J p d' \<in> {file_entries J p d, Some es}"
  by (auto simp: committed_def)

definition legal_file :: "json_text \<Rightarrow> string \<Rightarrow> ledger_op \<Rightarrow> string \<Rightarrow> ledger_entry \<Rightarrow> device \<Rightarrow> bool" where
  "legal_file J p oper n e d' \<longleftrightarrow> (\<exists>es'. file_entries J p d' = Some es' \<and> legal_edge oper e (map_of es' n))"

lemma legal_same: "file_entries J p d' = Some es \<Longrightarrow> map_of es n = Some e \<Longrightarrow> legal_file J p oper n e d'"
  by (auto simp: legal_file_def legal_edge_def)

lemma open_ledger_file:
  "broker_ok J p b \<Longrightarrow> bk_ledger b = Some l \<Longrightarrow> \<not> rl_failed_closed l \<Longrightarrow>
   file_entries J p (bk_device b) = Some (rl_entries l) \<and> good_entries (rl_entries l)"
  by (auto simp: broker_ok_def ledger_ok_def dest: file_entries_state)

lemma update_one_legal:
  assumes ok: "broker_ok J p b"
    and es: "file_entries J p (bk_device b) = Some es" "map_of es n = Some e"
    and single: "\<And>l. bk_ledger b = Some l \<Longrightarrow> one_entry J m l (bk_device b) (f l (bk_device b))"
  shows "legal_file J p oper n e (bk_device (apply_update b f))"
proof (cases "bk_ledger b")
  case None
  with legal_same [OF es] show ?thesis by (simp add: apply_update_def)
next
  case (Some l)
  from single [OF Some] show ?thesis unfolding one_entry_def
  proof (elim disjE exE conjE)
    fix x assume "f l (bk_device b) = Some (Inl x, l, bk_device b)"
    with Some legal_same [OF es] show ?thesis by (simp add: apply_update_def)
  next
    fix x x' r l' d'
    assume run: "f l (bk_device b) = Some (r, l', d')" and x: "map_of (rl_entries l) m = Some x" "changed x x'"
      and nf: "\<not> rl_failed_closed l"
      and c: "committed J l (bk_device b) (btree_insert m x' (rl_entries l)) r l' d'"
    from open_ledger_file [OF ok Some nf] es have es': "rl_entries l = es" "good_entries es" by auto
    have "legal_edge oper e (map_of (btree_insert m x' es) n)"
      using x es(2) es' by (cases "n = m") (auto simp: legal_edge_def good_entries_def)
    moreover have "file_entries J p d' \<in> {Some es, Some (btree_insert m x' es)}"
      using committed_file [OF c, of p] ok Some es(1) es'(1) by (auto simp: broker_ok_def)
    ultimately have "legal_file J p oper n e d'" using es(2) by (auto simp: legal_file_def legal_edge_def)
    with run Some show ?thesis by (simp add: apply_update_def)
  qed
qed

lemma legal_edge_pruned:
  assumes "good_entries es" and "map_of es n = Some e" and oper: "oper = OpReserve u1 u2 n' dg x now"
  shows "legal_edge oper e (map_of (pruned now es) n)"
    and "map_of (pruned now es) n' = None \<Longrightarrow>
      legal_edge oper e (map_of (btree_insert n' (fresh_entry dg x now) (pruned now es)) n)"
  using assms map_of_pruned [OF assms(1), of now n] good_pruned [OF assms(1), of now]
  by (auto simp: legal_edge_def good_entries_def split: if_splits)

lemma reserve_legal:
  assumes J: "json_laws J" and ok: "broker_ok J p b" and t: "in_i64 x" "in_i64 now"
    and es: "file_entries J p (bk_device b) = Some es" "map_of es n = Some e"
    and oper: "oper = OpReserve u1 u2 n' dg x now"
  shows "legal_file J p oper n e (bk_device (apply_update b (reserve J u1 u2 n' dg x now)))"
proof (cases "bk_ledger b")
  case None
  with legal_same [OF es] show ?thesis by (simp add: apply_update_def)
next
  case (Some l)
  have s: "ledger_ok J l (bk_device b)" "rl_path l = p" using ok Some by (auto simp: broker_ok_def)
  have mem: "rl_entries l = es" "good_entries es" if "\<not> rl_failed_closed l"
    using open_ledger_file [OF ok Some that] es by auto
  show ?thesis
  proof (cases rule: reserve_cases [OF J s(1) t, of u1 u2 n' dg, case_names refused pruning reserving])
    case (refused x)
    with Some legal_same [OF es] show ?thesis by (simp add: apply_update_def)
  next
    case (pruning x r l' d')
    note m = mem [OF pruning(3)]
    have "file_entries J p d' \<in> {Some es, Some (pruned now es)}"
      using committed_file [OF pruning(2) s(2)] es(1) m(1) by auto
    then have "legal_file J p oper n e d'"
      using legal_edge_pruned(1) [OF m(2) es(2) oper] es(2) by (auto simp: legal_file_def legal_edge_def)
    with pruning Some show ?thesis by (simp add: apply_update_def)
  next
    case (reserving r l1 d1 l' d')
    note m = mem [OF reserving(8)]
    have l1: "rl_path l1 = p" using reserving(2) s(2) by (simp add: committed_def)
    have "file_entries J p d' \<in> {Some es, Some (pruned now es), Some (btree_insert n' (fresh_entry dg x now) (pruned now es))}"
      using committed_file [OF reserving(2) s(2)] committed_file [OF reserving(3) l1] es(1) m(1) by auto
    then have "legal_file J p oper n e d'"
      using legal_edge_pruned [OF m(2) es(2) oper] reserving(4) es(2) m(1) by (auto simp: legal_file_def legal_edge_def)
    with reserving Some show ?thesis by (simp add: apply_update_def)
  qed
qed

lemma exec_legal:
  assumes J: "json_laws J" and ok: "broker_ok J p b" and t: "op_typed oper"
    and es: "file_entries J p (bk_device b) = Some es" "map_of es n = Some e"
  shows "legal_file J p oper n e (bk_device (ledger_exec J p b oper))"
proof -
  have l: "ledger_ok J l (bk_device b)" if "bk_ledger b = Some l" for l
    using ok that by (auto simp: broker_ok_def)
  show ?thesis
  proof (cases oper)
    case (OpReserve u1 u2 n' dg x now)
    with t reserve_legal [OF J ok _ _ es OpReserve] show ?thesis by simp
  next
    case (OpSpawn u m dg ident)
    with update_one_legal [OF ok es, of m "mark_spawned J u m dg ident"] mark_spawned_one [OF J l]
    show ?thesis by simp
  next
    case (OpComplete u m dg)
    with update_one_legal [OF ok es, of m "mark_completed J u m dg"] mark_completed_one [OF J l]
    show ?thesis by simp
  next
    case (OpReconcile u m dn actor now ack)
    with update_one_legal [OF ok es, of m "reconcile J u m dn actor now ack"] reconcile_one [OF J l] t
    show ?thesis by simp
  next
    case (OpOpen ev u m)
    from open_post [OF J, of ev u p m "bk_device b"] obtain r d' where
      o: "ledger_open J ev u p m (bk_device b) = Some (r, d')"
      "file_entries J p d' = file_entries J p (bk_device b) \<or> content (bk_device b) p = None" by blast
    have "content (bk_device b) p \<noteq> None" using es(1) by (auto simp: file_entries_def file_state_def split: option.splits)
    with o es legal_same show ?thesis by (cases r) (auto simp: OpOpen)
  next
    case OpStop
    with legal_same [OF es] show ?thesis by simp
  next
    case (OpDevice outcomes)
    have "file_entries J p (d\<lparr>dv_outcomes := outcomes\<rparr>) = file_entries J p d" for d
      by (simp add: file_entries_def file_state_def content_def)
    with OpDevice legal_same [OF _ es(2)] es(1) show ?thesis by simp
  qed
qed

text \<open>A host on which the ledger opens, and a run with a crash between two reservations.\<close>

definition root_file :: "bool \<Rightarrow> u32 \<Rightarrow> file_meta" where
  "root_file dir mode =
     \<lparr>fm_is_file = \<not> dir, fm_is_dir = dir, fm_is_symlink = False, fm_uid = 0, fm_mode = mode\<rparr>"

definition root_env :: ledger_env where
  "root_env =
     \<lparr>ev_euid = 0, ev_parent_meta = Inr (root_file True 0x1C0), ev_lock_meta = None, ev_lock_open = None,
      ev_lock_busy = False, ev_file_meta = Inr (root_file False 0x180), ev_stat_error = None, ev_read_error = None\<rparr>"

definition ledger_ops0 :: "ledger_op list" where
  "ledger_ops0 =
     [OpOpen root_env ''u'' 4,
      OpReserve ''v'' ''w'' ''nonce'' (replicate 64 CHR ''a'') 20 10,
      OpReserve ''v'' ''w'' ''nonce'' (replicate 64 CHR ''a'') 20 11]"

definition broker0 :: broker where
  "broker0 = \<lparr>bk_ledger = None, bk_device = device0 []\<rparr>"

definition ledger0 :: replay_ledger where
  "ledger0 =
     \<lparr>rl_path = ''/var/l'', rl_max_entries = 4,
      rl_entries = [(''nonce'', fresh_entry (replicate 64 CHR ''a'') 20 10)], rl_failed_closed = False\<rparr>"

lemma ops0_ok: "bk_ledger broker0 = None" "list_all op_typed ledger_ops0" "sorted (clocks ledger_ops0)"
  by (simp_all add: broker0_def ledger_ops0_def in_i64_def)

lemma grants0: "grants json_text0 ''/var/l'' ''nonce'' broker0 ledger_ops0 = [(10, 20)]"
  by code_simp

lemma run0: "bk_ledger (ledger_run json_text0 ''/var/l'' broker0 ledger_ops0) = Some ledger0"
  by code_simp

text \<open>
  C21: A one-time capability is spent at most once while it is valid, whatever the device and the
  process do.  Take any run of the ledger's operations that starts without an open ledger, with
  crashes, restarts, failed writes and clean-up in any order, and with a clock that does not go
  back.  Then every reservation granted for a nonce is granted before its expiry, and a later
  grant of the same nonce happens strictly after the expiry of every earlier one.
\<close>

theorem capability_spent_once:
  assumes "json_laws J" and "bk_ledger b = None" and "list_all op_typed ops" and "sorted (clocks ops)"
  shows "sorted_wrt (\<lambda>(t, x) (t', x'). x < t') (grants J p n b ops)
    \<and> list_all (\<lambda>(t, x). t \<le> x) (grants J p n b ops)"
proof (cases "clocks ops")
  case Nil
  then have "sorted (0 # clocks ops)" by simp
  with grants_spaced [OF assms(1) stopped_ok [OF assms(2)] assms(3)] show ?thesis by blast
next
  case (Cons c cs)
  with assms(4) have "sorted (c # clocks ops)" by auto
  with grants_spaced [OF assms(1) stopped_ok [OF assms(2)] assms(3)] show ?thesis by blast
qed

theorem capability_spent_once_witness:
  "sorted_wrt (\<lambda>(t, x) (t', x'). x < t') (grants json_text0 ''/var/l'' ''nonce'' broker0 ledger_ops0)
   \<and> grants json_text0 ''/var/l'' ''nonce'' broker0 ledger_ops0 = [(10, 20)]"
  using capability_spent_once [OF json_text0_laws ops0_ok] grants0 by blast

text \<open>
  C22: A restart loses nothing.  Take any run, and a ledger that is open at its end and has not
  closed itself after a failed write.  When the process is lost there, and the file and its
  directory pass the custody checks, opening the file again yields exactly the entries that the
  lost process had in memory, with any capacity at least as large, and writes nothing.
\<close>

theorem restart_loses_nothing:
  assumes J: "json_laws J" and start: "bk_ledger b = None" "list_all op_typed ops"
    and l: "bk_ledger (ledger_run J p b ops) = Some l" "\<not> rl_failed_closed l"
    and m: "0 < m" "rl_max_entries l \<le> m"
    and ev: "verify_ledger_parent ev p = Inr ()" "acquire_ledger_lock ev p = Inr ()"
      "verify_ledger_file ev p = Inr ()" "ev_stat_error ev = None" "ev_read_error ev = None"
  shows "ledger_open J ev u p m (bk_device (ledger_run J p b ops)) =
    Some (Inr (l\<lparr>rl_max_entries := m\<rparr>), bk_device (ledger_run J p b ops))"
proof -
  let ?d = "bk_device (ledger_run J p b ops)"
  from run_ok [OF J stopped_ok [OF start(1)] start(2), of p] l(1)
  have ok: "ledger_ok J l ?d" "rl_path l = p" by (auto simp: broker_ok_def)
  then have "file_state J p ?d = Some (rl_entries l, False)" using l(2) by (auto simp: ledger_ok_def)
  then obtain t where t: "content ?d p = Some t" "length t \<le> MAX_LEDGER_BYTES" "decoded J t = Some (rl_entries l, False)"
    by (auto simp: file_state_def split: option.splits if_splits)
  have "load_entries J ev p m t = Inr (rl_entries l, False)"
    using ok(1) m(2) good_entries_list(3) by (intro load_entries_back t ev) (auto simp: ledger_ok_def)
  with t(1) m(1) ev ok(2) l(2) show ?thesis by (simp add: ledger_open_def)
qed

theorem restart_loses_nothing_witness:
  "ledger_open json_text0 root_env ''u'' ''/var/l'' 4 (bk_device (ledger_run json_text0 ''/var/l'' broker0 ledger_ops0)) =
     Some (Inr ledger0, bk_device (ledger_run json_text0 ''/var/l'' broker0 ledger_ops0))"
proof -
  have ev: "verify_ledger_parent root_env ''/var/l'' = Inr ()" "acquire_ledger_lock root_env ''/var/l'' = Inr ()"
    "verify_ledger_file root_env ''/var/l'' = Inr ()" "ev_stat_error root_env = None" "ev_read_error root_env = None"
    by code_simp+
  have "\<not> rl_failed_closed ledger0" "0 < (4 :: nat)" "rl_max_entries ledger0 \<le> 4" "ledger0\<lparr>rl_max_entries := 4\<rparr> = ledger0"
    by (simp_all add: ledger0_def)
  with restart_loses_nothing [OF json_text0_laws ops0_ok(1,2) run0 _ _ _ ev, of 4] show ?thesis by simp
qed

text \<open>
  What the file knows of a nonce changes only along the life cycle.  In one step of any run an
  entry of the file stays, or moves along one of the edges reserved to spawned, spawned to
  completed and reserved to aborted, keeping its digest and expiry and counting the transition;
  only a reservation at a time after its expiry removes it, or replaces it by a fresh one, and
  never while its outcome is uncertain.
\<close>

theorem ledger_lifecycle:
  assumes J: "json_laws J" and start: "bk_ledger b = None" "list_all op_typed ops" "op_typed oper"
    and es: "file_entries J p (bk_device (ledger_run J p b ops)) = Some es" "map_of es n = Some e"
  shows "legal_file J p oper n e (bk_device (ledger_run J p b (ops @ [oper])))"
  using exec_legal [OF J run_ok [OF J stopped_ok [OF start(1)] start(2)] start(3) es] by (simp add: ledger_run_def)

theorem ledger_lifecycle_witness:
  "\<exists>es. file_entries json_text0 ''/var/l'' (bk_device (ledger_run json_text0 ''/var/l'' broker0 ledger_ops0)) = Some es
    \<and> map_of es ''nonce'' = Some (fresh_entry (replicate 64 CHR ''a'') 20 10)
    \<and> legal_file json_text0 ''/var/l'' (OpReserve ''v'' ''w'' ''nonce'' (replicate 64 CHR ''b'') 40 30) ''nonce''
        (fresh_entry (replicate 64 CHR ''a'') 20 10)
        (bk_device (ledger_run json_text0 ''/var/l'' broker0
           (ledger_ops0 @ [OpReserve ''v'' ''w'' ''nonce'' (replicate 64 CHR ''b'') 40 30])))"
proof -
  have "file_entries json_text0 ''/var/l'' (bk_device (ledger_run json_text0 ''/var/l'' broker0 ledger_ops0)) = Some (rl_entries ledger0)"
    using open_ledger_file [OF run_ok [OF json_text0_laws stopped_ok [OF ops0_ok(1)] ops0_ok(2)] run0]
    by (simp add: ledger0_def)
  moreover have "map_of (rl_entries ledger0) ''nonce'' = Some (fresh_entry (replicate 64 CHR ''a'') 20 10)"
    by (simp add: ledger0_def)
  ultimately show ?thesis
    using ledger_lifecycle [OF json_text0_laws ops0_ok(1,2), of "OpReserve ''v'' ''w'' ''nonce'' (replicate 64 CHR ''b'') 40 30"]
    by (simp add: in_i64_def)
qed

end
