(* ===== verification/Transition_Journal.thy ===== *)
theory Transition_Journal
  imports Persist Session
begin

text \<open>
  The durable intent journal of controller transitions,
  \<open>crates/ownmesh-transition-journal/src/lib.rs\<close>, over the owner-only writer.

  A record is written before a session host is asked to change hands, marked applied with the
  binding that came back, and cleared once the session manager has persisted the change.  The
  next daemon reads the file and retries what it finds there.
\<close>

section \<open>Records\<close>

definition JOURNAL_VERSION :: u32 where "JOURNAL_VERSION = 1"
definition MAX_BYTES :: nat where "MAX_BYTES = 256 * 1024"
definition MAX_ENTRIES :: nat where "MAX_ENTRIES = 64"
definition JOURNAL_FILE :: string where "JOURNAL_FILE = ''session-transition-journal.json''"

datatype transition_phase = Intent | Applied

datatype transition_kind = KDetach | KClaim | KGive | KRenew | KReclaim | KClose | KTerminate

record transition_target =
  tt_principal :: string
  tt_controller_epoch :: u64
  tt_binding_expires_unix :: i64
  tt_controller_attached :: bool
  tt_lease_id :: "string option"
  tt_terminal :: bool

record transition_record =
  tr_transition_id :: string
  tr_kind :: transition_kind
  tr_phase :: transition_phase
  tr_session_id :: string
  tr_device_id :: string
  tr_workspace_id :: string
  tr_authenticated_principal :: string
  tr_old_binding :: sidecar_host_binding
  tr_target :: transition_target
  tr_new_binding :: "sidecar_host_binding option"
  tr_created_unix :: i64
  tr_expires_unix :: i64

type_synonym journal_entries = "(string \<times> transition_record) list"

record session_transition_journal =
  tj_dir :: string
  tj_entries :: journal_entries

section \<open>Validation\<close>

definition valid_identifier :: "string \<Rightarrow> (string, unit) result" where
  "valid_identifier value =
     (if value = [] \<or> length value > 256 \<or> has_control value \<or> CHR ''/'' \<in> set value \<or> CHR 0x5C \<in> set value
      then Inl ''invalid transition journal identifier''
      else Inr ())"

definition validate_binding :: "sidecar_host_binding \<Rightarrow> (string, unit) result" where
  "validate_binding b =
     and_then (try_each valid_identifier
       [sb_device_id b, sb_workspace_id b, sb_owner_principal b, sb_host_nonce b]) (\<lambda>_.
     if sb_controller_epoch b = 0 \<or> sb_binding_expires_unix b \<le> 0
      \<or> sb_host_expires_unix b \<le> sb_binding_expires_unix b
     then Inl ''invalid transition journal binding''
     else if (sb_child_pid b \<noteq> None) \<noteq> (sb_child_process_birth b \<noteq> None)
     then Inl ''transition journal binding has incomplete child identity''
     else Inr ())"

definition record_bindings :: "transition_record \<Rightarrow> sidecar_host_binding list" where
  "record_bindings r =
     tr_old_binding r # (case tr_new_binding r of None \<Rightarrow> [] | Some b \<Rightarrow> [b])"

definition kind_is_terminal :: "transition_kind \<Rightarrow> bool" where
  "kind_is_terminal k \<longleftrightarrow> k = KClose \<or> k = KTerminate"

definition validate_record :: "transition_record \<Rightarrow> (string, unit) result" where
  "validate_record r =
     and_then (try_each valid_identifier
       [tr_transition_id r, tr_session_id r, tr_device_id r, tr_workspace_id r,
        tr_authenticated_principal r, tt_principal (tr_target r)]) (\<lambda>_.
     if tt_controller_epoch (tr_target r) = 0
      \<or> tr_created_unix r \<le> 0
      \<or> tr_expires_unix r \<le> tr_created_unix r
      \<or> tt_binding_expires_unix (tr_target r) \<le> tr_created_unix r
      \<or> tt_binding_expires_unix (tr_target r) > tr_expires_unix r
     then Inl ''invalid transition journal epoch or expiry''
     else if tr_expires_unix r < sb_host_expires_unix (tr_old_binding r)
      \<or> (case tr_new_binding r of None \<Rightarrow> False | Some b \<Rightarrow> tr_expires_unix r < sb_host_expires_unix b)
     then Inl ''invalid transition journal host-expiry bound''
     else
       and_then (try_each validate_binding (record_bindings r)) (\<lambda>_.
       if tr_phase r = Applied \<and> tr_new_binding r = None \<and> \<not> tt_terminal (tr_target r)
       then Inl ''applied transition missing binding''
       else if tt_terminal (tr_target r) \<noteq> kind_is_terminal (tr_kind r)
       then Inl ''transition kind/target.terminal mismatch''
       else Inr ()))"

section \<open>The document\<close>

definition phase_to_json :: "transition_phase \<Rightarrow> json" where
  "phase_to_json p = JStr (case p of Intent \<Rightarrow> ''intent'' | Applied \<Rightarrow> ''applied'')"

definition phase_from_json :: "json \<Rightarrow> transition_phase option" where
  "phase_from_json j =
     (let v = json_variant j
      in if v = Some ''intent'' then Some Intent
         else if v = Some ''applied'' then Some Applied
         else None)"

definition kind_to_json :: "transition_kind \<Rightarrow> json" where
  "kind_to_json k =
     JStr (case k of
        KDetach \<Rightarrow> ''detach'' | KClaim \<Rightarrow> ''claim'' | KGive \<Rightarrow> ''give'' | KRenew \<Rightarrow> ''renew''
      | KReclaim \<Rightarrow> ''reclaim'' | KClose \<Rightarrow> ''close'' | KTerminate \<Rightarrow> ''terminate'')"

definition kind_from_json :: "json \<Rightarrow> transition_kind option" where
  "kind_from_json j =
     (let v = json_variant j
      in if v = Some ''detach'' then Some KDetach
         else if v = Some ''claim'' then Some KClaim
         else if v = Some ''give'' then Some KGive
         else if v = Some ''renew'' then Some KRenew
         else if v = Some ''reclaim'' then Some KReclaim
         else if v = Some ''close'' then Some KClose
         else if v = Some ''terminate'' then Some KTerminate
         else None)"

definition binding_to_json :: "sidecar_host_binding \<Rightarrow> json" where
  "binding_to_json b =
     JObj ([(''device_id'', JStr (sb_device_id b)),
            (''workspace_id'', JStr (sb_workspace_id b)),
            (''owner_principal'', JStr (sb_owner_principal b)),
            (''host_nonce'', JStr (sb_host_nonce b)),
            (''controller_epoch'', of_word (sb_controller_epoch b)),
            (''binding_expires_unix'', JInt (sb_binding_expires_unix b)),
            (''host_expires_unix'', JInt (sb_host_expires_unix b))]
           @ opt_field ''child_pid'' of_word (sb_child_pid b)
           @ opt_field ''child_process_birth'' of_word (sb_child_process_birth b))"

definition binding_fields :: "string list" where
  "binding_fields =
     [''device_id'', ''workspace_id'', ''owner_principal'', ''host_nonce'', ''controller_epoch'',
      ''binding_expires_unix'', ''host_expires_unix'', ''child_pid'', ''child_process_birth'']"

definition binding_from_json :: "json \<Rightarrow> sidecar_host_binding option" where
  "binding_from_json j =
     (case open_struct_fields binding_fields j of
        None \<Rightarrow> None
      | Some fs \<Rightarrow>
          (case (field json_str fs ''device_id'', field json_str fs ''workspace_id'',
                 field json_str fs ''owner_principal'', field json_str fs ''host_nonce'',
                 field json_word fs ''controller_epoch'', field json_i64 fs ''binding_expires_unix'',
                 field json_i64 fs ''host_expires_unix'',
                 field_or None (json_option json_word) fs ''child_pid'',
                 field_or None (json_option json_word) fs ''child_process_birth'') of
             (Some dv, Some w, Some own, Some n, Some ep, Some x, Some hx, Some pid, Some birth) \<Rightarrow>
               Some \<lparr>sb_device_id = dv, sb_workspace_id = w, sb_owner_principal = own,
                     sb_host_nonce = n, sb_controller_epoch = ep, sb_binding_expires_unix = x,
                     sb_host_expires_unix = hx, sb_child_pid = pid, sb_child_process_birth = birth\<rparr>
           | _ \<Rightarrow> None))"

definition target_to_json :: "transition_target \<Rightarrow> json" where
  "target_to_json t =
     JObj ([(''principal'', JStr (tt_principal t)),
            (''controller_epoch'', of_word (tt_controller_epoch t)),
            (''binding_expires_unix'', JInt (tt_binding_expires_unix t)),
            (''controller_attached'', JBool (tt_controller_attached t))]
           @ opt_field ''lease_id'' JStr (tt_lease_id t)
           @ [(''terminal'', JBool (tt_terminal t))])"

definition target_from_json :: "json \<Rightarrow> transition_target option" where
  "target_from_json j =
     (case struct_fields [''principal'', ''controller_epoch'', ''binding_expires_unix'',
                          ''controller_attached'', ''lease_id'', ''terminal''] j of
        None \<Rightarrow> None
      | Some fs \<Rightarrow>
          (case (field json_str fs ''principal'', field json_word fs ''controller_epoch'',
                 field json_i64 fs ''binding_expires_unix'', field json_bool fs ''controller_attached'',
                 field_or None (json_option json_str) fs ''lease_id'',
                 field_or False json_bool fs ''terminal'') of
             (Some p, Some ep, Some x, Some a, Some l, Some t) \<Rightarrow>
               Some \<lparr>tt_principal = p, tt_controller_epoch = ep, tt_binding_expires_unix = x,
                     tt_controller_attached = a, tt_lease_id = l, tt_terminal = t\<rparr>
           | _ \<Rightarrow> None))"

definition record_to_json :: "transition_record \<Rightarrow> json" where
  "record_to_json r =
     JObj ([(''transition_id'', JStr (tr_transition_id r)),
            (''kind'', kind_to_json (tr_kind r)),
            (''phase'', phase_to_json (tr_phase r)),
            (''session_id'', JStr (tr_session_id r)),
            (''device_id'', JStr (tr_device_id r)),
            (''workspace_id'', JStr (tr_workspace_id r)),
            (''authenticated_principal'', JStr (tr_authenticated_principal r)),
            (''old_binding'', binding_to_json (tr_old_binding r)),
            (''target'', target_to_json (tr_target r))]
           @ opt_field ''new_binding'' binding_to_json (tr_new_binding r)
           @ [(''created_unix'', JInt (tr_created_unix r)), (''expires_unix'', JInt (tr_expires_unix r))])"

definition record_fields :: "string list" where
  "record_fields =
     [''transition_id'', ''kind'', ''phase'', ''session_id'', ''device_id'', ''workspace_id'',
      ''authenticated_principal'', ''old_binding'', ''target'', ''new_binding'', ''created_unix'',
      ''expires_unix'']"

definition record_from_json :: "json \<Rightarrow> transition_record option" where
  "record_from_json j =
     (case struct_fields record_fields j of
        None \<Rightarrow> None
      | Some fs \<Rightarrow>
          (case (field json_str fs ''transition_id'', field kind_from_json fs ''kind'',
                 field phase_from_json fs ''phase'', field json_str fs ''session_id'',
                 field json_str fs ''device_id'', field json_str fs ''workspace_id'',
                 field json_str fs ''authenticated_principal'', field binding_from_json fs ''old_binding'',
                 field target_from_json fs ''target'',
                 field_or None (json_option binding_from_json) fs ''new_binding'',
                 field json_i64 fs ''created_unix'', field json_i64 fs ''expires_unix'') of
             (Some n, Some k, Some p, Some s, Some dv, Some w, Some a, Some ob, Some t, Some nb, Some c, Some x) \<Rightarrow>
               Some \<lparr>tr_transition_id = n, tr_kind = k, tr_phase = p, tr_session_id = s,
                     tr_device_id = dv, tr_workspace_id = w, tr_authenticated_principal = a,
                     tr_old_binding = ob, tr_target = t, tr_new_binding = nb,
                     tr_created_unix = c, tr_expires_unix = x\<rparr>
           | _ \<Rightarrow> None))"

definition disk_to_json :: "journal_entries \<Rightarrow> json" where
  "disk_to_json es =
     JObj [(''version'', of_word JOURNAL_VERSION), (''entries'', of_entries record_to_json es)]"

definition disk_from_json :: "json \<Rightarrow> (u32 \<times> journal_entries) option" where
  "disk_from_json j =
     (case struct_fields [''version'', ''entries''] j of
        None \<Rightarrow> None
      | Some fs \<Rightarrow>
          (case (field json_word fs ''version'', field (json_map record_from_json) fs ''entries'') of
             (Some v, Some es) \<Rightarrow> Some (v, es)
           | _ \<Rightarrow> None))"

definition parse_and_validate :: "json_text \<Rightarrow> bytes \<Rightarrow> (string, transition_record list) result" where
  "parse_and_validate J bytes =
     (case Option.bind (jt_parse J bytes) disk_from_json of
        None \<Rightarrow> Inl (''parse transition journal: '' @ jt_error J bytes)
      | Some (version, entries) \<Rightarrow>
          if version \<noteq> JOURNAL_VERSION
          then Inl (''invalid transition journal version (expected 1, got '' @ dec (unat version) @ '')'')
          else if length entries > MAX_ENTRIES
          then Inl (''transition journal entry cap exceeded ('' @ dec (length entries) @ ''/64)'')
          else
            and_then
              (try_each (\<lambda>(k, r).
                 if k \<noteq> tr_transition_id r
                 then Inl (''transition journal key/id mismatch ('' @ k @ '' != '' @ tr_transition_id r @ '')'')
                 else validate_record r) entries)
              (\<lambda>_. Inr (map snd entries)))"

section \<open>Operations\<close>

definition journal_path :: "string \<Rightarrow> string" where
  "journal_path dir =
     dir @ (if dir = [] \<or> last dir = CHR ''/'' then [] else ''/'') @ JOURNAL_FILE"

definition collect_records :: "transition_record list \<Rightarrow> journal_entries" where
  "collect_records rs = foldl (\<lambda>m r. btree_insert (tr_transition_id r) r m) [] rs"

definition journal_open ::
  "json_text \<Rightarrow> string \<Rightarrow> (string, session_transition_journal) action" where
  "journal_open J dir =
     io_bind (map_err (\<lambda>e. ''prepare transition journal: '' @ io_text e) io_check) (\<lambda>_ d.
     if content d (journal_path dir) = None then io_return \<lparr>tj_dir = dir, tj_entries = []\<rparr> d
     else
       io_bind (map_err (\<lambda>e. ''read transition journal: '' @ io_text e)
                 (read_owner_only_file_bounded (journal_path dir) MAX_BYTES)) (\<lambda>bytes.
       case parse_and_validate J bytes of
         Inl e \<Rightarrow> io_fail e
       | Inr records \<Rightarrow> io_return \<lparr>tj_dir = dir, tj_entries = collect_records records\<rparr>) d)"

definition journal_persist ::
  "json_text \<Rightarrow> u32 \<Rightarrow> string \<Rightarrow> session_transition_journal \<Rightarrow> (string, unit) action" where
  "journal_persist J pid uuid j =
     (let bytes = jt_render J (disk_to_json (tj_entries j))
      in if length bytes > MAX_BYTES then io_fail ''transition journal byte cap reached''
         else map_err (\<lambda>e. ''persist transition journal: '' @ io_text e)
                (owner_write pid uuid (journal_path (tj_dir j)) bytes))"

type_synonym 'a journal_update =
  "((string, 'a) result \<times> session_transition_journal \<times> device) option"

text \<open>Persist changed entries, or roll the memory back and report the error.\<close>

definition persist_or_roll_back ::
  "json_text \<Rightarrow> u32 \<Rightarrow> string \<Rightarrow> journal_entries \<Rightarrow> 'a \<Rightarrow> session_transition_journal \<Rightarrow> device \<Rightarrow> 'a journal_update" where
  "persist_or_roll_back J pid uuid entries value j d =
     (case journal_persist J pid uuid (j\<lparr>tj_entries := entries\<rparr>) d of
        None \<Rightarrow> None
      | Some (Inl e, d') \<Rightarrow> Some (Inl e, j, d')
      | Some (Inr _, d') \<Rightarrow> Some (Inr value, j\<lparr>tj_entries := entries\<rparr>, d'))"

definition journal_begin ::
  "json_text \<Rightarrow> u32 \<Rightarrow> string \<Rightarrow> transition_record \<Rightarrow> session_transition_journal \<Rightarrow> device \<Rightarrow>
   transition_record journal_update" where
  "journal_begin J pid uuid r j d =
     (case validate_record r of
        Inl e \<Rightarrow> Some (Inl e, j, d)
      | Inr _ \<Rightarrow>
          (case map_of (tj_entries j) (tr_transition_id r) of
             Some existing \<Rightarrow>
               if existing = r then Some (Inr existing, j, d)
               else Some (Inl ''transition journal id reuse conflict'', j, d)
           | None \<Rightarrow>
               if length (tj_entries j) \<ge> MAX_ENTRIES
               then Some (Inl ''transition journal entry cap reached'', j, d)
               else persist_or_roll_back J pid uuid
                      (btree_insert (tr_transition_id r) r (tj_entries j)) r j d))"

definition mark_applied ::
  "json_text \<Rightarrow> u32 \<Rightarrow> string \<Rightarrow> string \<Rightarrow> sidecar_host_binding \<Rightarrow> session_transition_journal \<Rightarrow> device \<Rightarrow>
   unit journal_update" where
  "mark_applied J pid uuid n binding j d =
     (case map_of (tj_entries j) n of
        None \<Rightarrow> Some (Inl ''transition journal record not found'', j, d)
      | Some original \<Rightarrow>
          if tr_phase original = Applied
          then if tr_new_binding original = Some binding then Some (Inr (), j, d)
               else Some (Inl ''transition journal applied binding conflict'', j, d)
          else
            let candidate = original\<lparr>tr_phase := Applied, tr_new_binding := Some binding\<rparr>
            in case validate_record candidate of
                 Inl e \<Rightarrow> Some (Inl e, j, d)
               | Inr _ \<Rightarrow> persist_or_roll_back J pid uuid (btree_insert n candidate (tj_entries j)) () j d)"

definition mark_terminal_applied ::
  "json_text \<Rightarrow> u32 \<Rightarrow> string \<Rightarrow> string \<Rightarrow> session_transition_journal \<Rightarrow> device \<Rightarrow> unit journal_update" where
  "mark_terminal_applied J pid uuid n j d =
     (case map_of (tj_entries j) n of
        None \<Rightarrow> Some (Inl ''transition journal record not found'', j, d)
      | Some original \<Rightarrow>
          if \<not> tt_terminal (tr_target original)
          then Some (Inl ''non-terminal transition cannot record terminal receipt'', j, d)
          else if tr_phase original = Applied
          then if tr_new_binding original = None then Some (Inr (), j, d)
               else Some (Inl ''terminal transition applied binding conflict'', j, d)
          else
            let candidate = original\<lparr>tr_phase := Applied, tr_new_binding := None\<rparr>
            in case validate_record candidate of
                 Inl e \<Rightarrow> Some (Inl e, j, d)
               | Inr _ \<Rightarrow> persist_or_roll_back J pid uuid (btree_insert n candidate (tj_entries j)) () j d)"

definition journal_clear ::
  "json_text \<Rightarrow> u32 \<Rightarrow> string \<Rightarrow> string \<Rightarrow> session_transition_journal \<Rightarrow> device \<Rightarrow> unit journal_update" where
  "journal_clear J pid uuid n j d =
     (case map_of (tj_entries j) n of
        None \<Rightarrow> Some (Inr (), j, d)
      | Some _ \<Rightarrow> persist_or_roll_back J pid uuid (AList.delete n (tj_entries j)) () j d)"

definition journal_pending :: "session_transition_journal \<Rightarrow> transition_record list" where
  "journal_pending j = map snd (tj_entries j)"

end
