(* ===== verification/Journal_Recovery.thy ===== *)
theory Journal_Recovery
  imports Transition_Journal "HOL-Library.Code_Target_Numeral"
begin

text \<open>
  What the transition journal guarantees: what it writes is read back, its records stay valid,
  every operation acts on the entries as on a map, and a transition that was acknowledged is
  found after a crash.  The last section shows what an error after the commit leads to.
\<close>

section \<open>Round trips\<close>

definition binding_typed :: "sidecar_host_binding \<Rightarrow> bool" where
  "binding_typed b \<longleftrightarrow> in_i64 (sb_binding_expires_unix b) \<and> in_i64 (sb_host_expires_unix b)"

definition record_typed :: "transition_record \<Rightarrow> bool" where
  "record_typed r \<longleftrightarrow>
     binding_typed (tr_old_binding r) \<and> pred_option binding_typed (tr_new_binding r)
   \<and> in_i64 (tt_binding_expires_unix (tr_target r)) \<and> in_i64 (tr_created_unix r) \<and> in_i64 (tr_expires_unix r)"

lemma phase_json [json_simps]: "phase_from_json (phase_to_json p) = Some p"
  by (cases p) (simp_all add: phase_from_json_def phase_to_json_def json_simps Let_def)

lemma kind_json [json_simps]: "kind_from_json (kind_to_json k) = Some k"
  by (cases k) (simp_all add: kind_from_json_def kind_to_json_def json_simps Let_def)

lemma json_object_back:
  assumes "distinct (keys kvs)" and "set (keys kvs) \<subseteq> set names"
  shows "struct_fields names (JObj kvs) = Some (map_of kvs)"
    and "open_struct_fields names (JObj kvs) = Some (map_of kvs)"
proof -
  show s: "struct_fields names (JObj kvs) = Some (map_of kvs)"
    using assms by (auto simp: struct_fields_def list_all_iff)
  have "filter (\<lambda>(k, v). k \<in> set names) kvs = kvs" using assms(2) by (intro filter_True) force
  with s show "open_struct_fields names (JObj kvs) = Some (map_of kvs)" by (simp add: open_struct_fields_def)
qed

lemma binding_json:
  assumes "binding_typed b"
  shows "binding_from_json (binding_to_json b) = Some b"
proof -
  let ?kvs = "[(''device_id'', JStr (sb_device_id b)),
            (''workspace_id'', JStr (sb_workspace_id b)),
            (''owner_principal'', JStr (sb_owner_principal b)),
            (''host_nonce'', JStr (sb_host_nonce b)),
            (''controller_epoch'', of_word (sb_controller_epoch b)),
            (''binding_expires_unix'', JInt (sb_binding_expires_unix b)),
            (''host_expires_unix'', JInt (sb_host_expires_unix b))]
           @ opt_field ''child_pid'' of_word (sb_child_pid b)
           @ opt_field ''child_process_birth'' of_word (sb_child_process_birth b)"
  have fs: "open_struct_fields binding_fields (binding_to_json b) = Some (map_of ?kvs)"
    unfolding binding_to_json_def
    by (rule json_object_back) (auto simp: binding_fields_def json_simps)
  have opt: "field_or None (json_option json_word) (map_of ?kvs) ''child_pid'' = Some (sb_child_pid b)"
    "field_or None (json_option json_word) (map_of ?kvs) ''child_process_birth'' = Some (sb_child_process_birth b)"
    unfolding field_or_def by (auto simp: json_simps split: option.splits)
  have "field json_str (map_of ?kvs) ''device_id'' = Some (sb_device_id b)"
    "field json_str (map_of ?kvs) ''workspace_id'' = Some (sb_workspace_id b)"
    "field json_str (map_of ?kvs) ''owner_principal'' = Some (sb_owner_principal b)"
    "field json_str (map_of ?kvs) ''host_nonce'' = Some (sb_host_nonce b)"
    "field json_word (map_of ?kvs) ''controller_epoch'' = Some (sb_controller_epoch b)"
    "field json_i64 (map_of ?kvs) ''binding_expires_unix'' = Some (sb_binding_expires_unix b)"
    "field json_i64 (map_of ?kvs) ''host_expires_unix'' = Some (sb_host_expires_unix b)"
    using assms by (simp_all add: field_def json_simps binding_typed_def)
  with fs opt show ?thesis by (simp add: binding_from_json_def del: append.simps append_assoc)
qed

lemma target_json:
  assumes "in_i64 (tt_binding_expires_unix t)"
  shows "target_from_json (target_to_json t) = Some t"
proof -
  let ?kvs = "[(''principal'', JStr (tt_principal t)),
            (''controller_epoch'', of_word (tt_controller_epoch t)),
            (''binding_expires_unix'', JInt (tt_binding_expires_unix t)),
            (''controller_attached'', JBool (tt_controller_attached t))]
           @ opt_field ''lease_id'' JStr (tt_lease_id t)
           @ [(''terminal'', JBool (tt_terminal t))]"
  have fs: "struct_fields [''principal'', ''controller_epoch'', ''binding_expires_unix'',
      ''controller_attached'', ''lease_id'', ''terminal''] (target_to_json t) = Some (map_of ?kvs)"
    unfolding target_to_json_def by (rule json_object_back) (auto simp: json_simps)
  have opt: "field_or None (json_option json_str) (map_of ?kvs) ''lease_id'' = Some (tt_lease_id t)"
    "field_or False json_bool (map_of ?kvs) ''terminal'' = Some (tt_terminal t)"
    unfolding field_or_def by (auto simp: json_simps split: option.splits)
  have "field json_str (map_of ?kvs) ''principal'' = Some (tt_principal t)"
    "field json_word (map_of ?kvs) ''controller_epoch'' = Some (tt_controller_epoch t)"
    "field json_i64 (map_of ?kvs) ''binding_expires_unix'' = Some (tt_binding_expires_unix t)"
    "field json_bool (map_of ?kvs) ''controller_attached'' = Some (tt_controller_attached t)"
    using assms by (simp_all add: field_def json_simps)
  with fs opt show ?thesis by (simp add: target_from_json_def del: append.simps append_assoc)
qed

lemma binding_option_json: "binding_typed b \<Longrightarrow> json_option binding_from_json (binding_to_json b) = Some (Some b)"
  using binding_json [of b] by (simp add: json_option_def binding_to_json_def)

lemma record_json:
  assumes "record_typed r"
  shows "record_from_json (record_to_json r) = Some r"
proof -
  let ?kvs = "[(''transition_id'', JStr (tr_transition_id r)),
            (''kind'', kind_to_json (tr_kind r)),
            (''phase'', phase_to_json (tr_phase r)),
            (''session_id'', JStr (tr_session_id r)),
            (''device_id'', JStr (tr_device_id r)),
            (''workspace_id'', JStr (tr_workspace_id r)),
            (''authenticated_principal'', JStr (tr_authenticated_principal r)),
            (''old_binding'', binding_to_json (tr_old_binding r)),
            (''target'', target_to_json (tr_target r))]
           @ opt_field ''new_binding'' binding_to_json (tr_new_binding r)
           @ [(''created_unix'', JInt (tr_created_unix r)), (''expires_unix'', JInt (tr_expires_unix r))]"
  have fs: "struct_fields record_fields (record_to_json r) = Some (map_of ?kvs)"
    unfolding record_to_json_def by (rule json_object_back) (auto simp: record_fields_def json_simps)
  have nb: "\<And>b. tr_new_binding r = Some b \<Longrightarrow> binding_typed b" using assms by (simp add: record_typed_def)
  have opt: "field_or None (json_option binding_from_json) (map_of ?kvs) ''new_binding'' = Some (tr_new_binding r)"
    unfolding field_or_def using nb by (auto simp: json_simps binding_option_json split: option.splits)
  have "field json_str (map_of ?kvs) ''transition_id'' = Some (tr_transition_id r)"
    "field kind_from_json (map_of ?kvs) ''kind'' = Some (tr_kind r)"
    "field phase_from_json (map_of ?kvs) ''phase'' = Some (tr_phase r)"
    "field json_str (map_of ?kvs) ''session_id'' = Some (tr_session_id r)"
    "field json_str (map_of ?kvs) ''device_id'' = Some (tr_device_id r)"
    "field json_str (map_of ?kvs) ''workspace_id'' = Some (tr_workspace_id r)"
    "field json_str (map_of ?kvs) ''authenticated_principal'' = Some (tr_authenticated_principal r)"
    "field binding_from_json (map_of ?kvs) ''old_binding'' = Some (tr_old_binding r)"
    "field target_from_json (map_of ?kvs) ''target'' = Some (tr_target r)"
    "field json_i64 (map_of ?kvs) ''created_unix'' = Some (tr_created_unix r)"
    "field json_i64 (map_of ?kvs) ''expires_unix'' = Some (tr_expires_unix r)"
    using assms by (simp_all add: field_def json_simps record_typed_def binding_json target_json del: map_of_append)
  with fs opt show ?thesis by (simp add: record_from_json_def del: append.simps append_assoc)
qed

section \<open>Sound entries\<close>

definition good_record :: "string \<Rightarrow> transition_record \<Rightarrow> bool" where
  "good_record k r \<longleftrightarrow> tr_transition_id r = k \<and> validate_record r = Inr () \<and> record_typed r"

definition good_journal :: "journal_entries \<Rightarrow> bool" where
  "good_journal es \<longleftrightarrow>
     btree es \<and> length es \<le> MAX_ENTRIES \<and> (\<forall>k r. map_of es k = Some r \<longrightarrow> good_record k r)"

lemma good_journal_mem: "good_journal es \<Longrightarrow> (k, r) \<in> set es \<Longrightarrow> good_record k r"
  by (simp add: good_journal_def btree_distinct)

lemma collect_records_back:
  assumes "btree (acc @ es)" and "\<And>k r. (k, r) \<in> set es \<Longrightarrow> tr_transition_id r = k"
  shows "foldl (\<lambda>m r. btree_insert (tr_transition_id r) r m) acc (map snd es) = acc @ es"
  using assms
proof (induction es arbitrary: acc)
  case (Cons kr es)
  obtain k r where kr: "kr = (k, r)" by (cases kr)
  have "btree_insert k r acc = acc @ [(k, r)]"
    using Cons.prems(1) kr by (intro btree_insert_last) (auto simp: btree_def sorted_wrt_append)
  moreover have "tr_transition_id r = k" using Cons.prems(2) [of k r] kr by simp
  moreover have "foldl (\<lambda>m r. btree_insert (tr_transition_id r) r m) (acc @ [(k, r)]) (map snd es) = (acc @ [(k, r)]) @ es"
    by (rule Cons.IH) (use Cons.prems(1) kr in simp, rule Cons.prems(2), simp)
  ultimately show ?case using kr by simp
qed simp

lemma parse_render:
  assumes J: "json_laws J" and good: "good_journal es"
  shows "parse_and_validate J (jt_render J (disk_to_json es)) = Inr (map snd es)"
proof -
  have "json_map record_from_json (of_entries record_to_json es) = Some es"
    using good good_journal_mem [OF good]
    by (intro json_map_of_entries) (auto simp: good_journal_def good_record_def record_json)
  then have "disk_from_json (disk_to_json es) = Some (JOURNAL_VERSION, es)"
    by (simp add: disk_from_json_def disk_to_json_def struct_fields_def field_def json_simps)
  moreover have "try_each (\<lambda>(k, r).
       if k \<noteq> tr_transition_id r
       then Inl (''transition journal key/id mismatch ('' @ k @ '' != '' @ tr_transition_id r @ '')'')
       else validate_record r) es = Inr ()"
    using good_journal_mem [OF good] by (auto simp: try_each_Inr_iff good_record_def)
  ultimately show ?thesis
    using good by (simp add: parse_and_validate_def json_lawsD [OF J] good_journal_def)
qed

text \<open>The entries that a state of the files holds: what opening the journal there reads.\<close>

definition entries_in :: "json_text \<Rightarrow> string \<Rightarrow> files \<Rightarrow> journal_entries option" where
  "entries_in J dir fs =
     (case map_of fs (journal_path dir) of
        None \<Rightarrow> Some []
      | Some b \<Rightarrow>
          if length b > MAX_BYTES then None
          else (case parse_and_validate J b of Inl _ \<Rightarrow> None | Inr rs \<Rightarrow> Some (collect_records rs)))"

lemma entries_in_render:
  assumes "json_laws J" and "good_journal es" and "length (jt_render J (disk_to_json es)) \<le> MAX_BYTES"
    and "map_of fs (journal_path dir) = Some (jt_render J (disk_to_json es))"
  shows "entries_in J dir fs = Some es"
proof -
  have "collect_records (map snd es) = es"
    using collect_records_back [of "[]" es] assms(2) good_journal_mem [OF assms(2)]
    by (auto simp: collect_records_def good_journal_def good_record_def)
  with assms show ?thesis by (simp add: entries_in_def parse_render)
qed

lemma journal_path_parent: "path_parent (journal_path dir) \<noteq> None"
proof -
  have last: "components s \<noteq> [] \<and> last (components s) = Normal JOURNAL_FILE"
    if "s = JOURNAL_FILE \<or> (\<exists>a. s = a @ CHR ''/'' # JOURNAL_FILE)" for s
  proof -
    have "List.map_filter parse_single_component (split_on CHR ''/'' JOURNAL_FILE) = [Normal JOURNAL_FILE]"
      by (simp add: JOURNAL_FILE_def parse_single_component_def)
    then show ?thesis using that by (auto simp: components_def split_on_sep)
  qed
  have "journal_path dir = JOURNAL_FILE \<or> (\<exists>a. journal_path dir = a @ CHR ''/'' # JOURNAL_FILE)"
    unfolding journal_path_def by (cases dir rule: rev_cases) auto
  with last show ?thesis by (auto simp: path_parent_def Let_def)
qed

section \<open>Operations on a sound journal\<close>

datatype journal_op =
    JBegin transition_record
  | JApplied string sidecar_host_binding
  | JTerminal string
  | JClear string

definition journal_exec ::
  "json_text \<Rightarrow> u32 \<Rightarrow> string \<Rightarrow> journal_op \<Rightarrow> session_transition_journal \<Rightarrow> device \<Rightarrow> unit journal_update" where
  "journal_exec J pid uuid oper j d =
     (case oper of
        JBegin r \<Rightarrow> map_option (\<lambda>(res, s). (map_sum id (\<lambda>_. ()) res, s)) (journal_begin J pid uuid r j d)
      | JApplied n b \<Rightarrow> mark_applied J pid uuid n b j d
      | JTerminal n \<Rightarrow> mark_terminal_applied J pid uuid n j d
      | JClear n \<Rightarrow> journal_clear J pid uuid n j d)"

fun journal_op_typed :: "journal_op \<Rightarrow> bool" where
  "journal_op_typed (JBegin r) \<longleftrightarrow> record_typed r"
| "journal_op_typed (JApplied n b) \<longleftrightarrow> binding_typed b"
| "journal_op_typed _ \<longleftrightarrow> True"

text \<open>What an operation means for the transitions by id; \<open>None\<close> when it is refused.\<close>

definition accept :: "string \<Rightarrow> transition_record \<Rightarrow> (string \<rightharpoonup> transition_record) \<Rightarrow> (string \<rightharpoonup> transition_record) option" where
  "accept n r m = (if validate_record r = Inr () then Some (m(n \<mapsto> r)) else None)"

fun journal_spec :: "journal_op \<Rightarrow> (string \<rightharpoonup> transition_record) \<Rightarrow> (string \<rightharpoonup> transition_record) option" where
  "journal_spec (JBegin r) m =
     (case m (tr_transition_id r) of
        Some x \<Rightarrow> if x = r then Some m else None
      | None \<Rightarrow> if card (dom m) < MAX_ENTRIES then accept (tr_transition_id r) r m else None)"
| "journal_spec (JApplied n b) m =
     (case m n of
        None \<Rightarrow> None
      | Some r \<Rightarrow>
          if tr_phase r = Intent then accept n (r\<lparr>tr_phase := Applied, tr_new_binding := Some b\<rparr>) m
          else if tr_new_binding r = Some b then Some m else None)"
| "journal_spec (JTerminal n) m =
     (case m n of
        None \<Rightarrow> None
      | Some r \<Rightarrow>
          if \<not> tt_terminal (tr_target r) then None
          else if tr_phase r = Intent then accept n (r\<lparr>tr_phase := Applied, tr_new_binding := None\<rparr>) m
          else if tr_new_binding r = None then Some m else None)"
| "journal_spec (JClear n) m = Some (m(n := None))"

text \<open>The outcome of writing the entries \<open>es\<close>.\<close>

definition journal_wrote ::
  "json_text \<Rightarrow> session_transition_journal \<Rightarrow> device \<Rightarrow> journal_entries \<Rightarrow> (string, 'a) result \<Rightarrow>
   session_transition_journal \<Rightarrow> device \<Rightarrow> bool" where
  "journal_wrote J j d es r j' d' \<longleftrightarrow>
     (case r of
        Inr _ \<Rightarrow> j' = j\<lparr>tj_entries := es\<rparr> \<and> entries_in J (tj_dir j) (dv_files d') = Some es
      | Inl _ \<Rightarrow> j' = j \<and> entries_in J (tj_dir j) (dv_files d') \<in> {entries_in J (tj_dir j) (dv_files d), Some es})
   \<and> (\<exists>new. dv_passed d' = new @ dv_passed d
        \<and> list_all (\<lambda>fs. entries_in J (tj_dir j) fs \<in> {entries_in J (tj_dir j) (dv_files d), Some es}) new)"

lemma persist_or_roll_back_post:
  assumes J: "json_laws J" and good: "good_journal es"
  shows "\<exists>r j' d'. persist_or_roll_back J pid u es v j d = Some (r, j', d') \<and> journal_wrote J j d es r j' d'"
proof (cases "length (jt_render J (disk_to_json es)) > MAX_BYTES")
  case True
  then show ?thesis
    by (auto simp: persist_or_roll_back_def journal_persist_def io_fail_def journal_wrote_def)
next
  case False
  let ?b = "jt_render J (disk_to_json es)" and ?p = "journal_path (tj_dir j)"
  have eq: "entries_in J (tj_dir j) fs = (if map_of fs ?p = Some ?b then Some es else entries_in J (tj_dir j) (dv_files d))"
    if "map_of fs ?p \<in> {content d ?p, Some ?b}" for fs
    using that entries_in_render [OF J good, of fs "tj_dir j"] False
    by (auto simp: entries_in_def content_def)
  obtain r d' where w: "owner_write pid u ?p ?b d = Some (r, d')" using owner_writer.write_returns by blast
  from owner_writer.write_moments [OF TrueI w]
  obtain new where new: "dv_passed d' = new @ dv_passed d" "list_all (\<lambda>fs. map_of fs ?p \<in> {content d ?p, Some ?b}) new"
    by (auto simp: crash_safe_def)
  have moments: "list_all (\<lambda>fs. entries_in J (tj_dir j) fs \<in> {entries_in J (tj_dir j) (dv_files d), Some es}) new"
    using new(2) eq by (auto simp: list_all_iff)
  have run: "journal_persist J pid u (j\<lparr>tj_entries := es\<rparr>) d =
      Some (map_sum (\<lambda>e. ''persist transition journal: '' @ io_text e) id r, d')"
    using False w by (simp add: journal_persist_def map_err_result)
  show ?thesis
  proof (cases r)
    case (Inl e)
    have "map_of (dv_files d') ?p \<in> {content d ?p, Some ?b}"
      using owner_writer.write_error [OF TrueI w [unfolded Inl]] by (auto simp: content_def)
    from eq [OF this] run Inl new(1) moments show ?thesis
      by (auto simp: persist_or_roll_back_def journal_wrote_def)
  next
    case (Inr x)
    have "map_of (dv_files d') ?p = Some ?b"
      using owner_writer.write_ok [OF TrueI w [unfolded Inr]] by (simp add: content_def)
    with eq [of "dv_files d'"] run Inr new(1) moments show ?thesis
      by (auto simp: persist_or_roll_back_def journal_wrote_def)
  qed
qed

lemma good_journal_insert:
  assumes "good_journal es" and "good_record n r" and "map_of es n \<noteq> None \<or> length es < MAX_ENTRIES"
  shows "good_journal (btree_insert n r es)"
proof -
  have "length (btree_insert n r es) \<le> MAX_ENTRIES"
    using assms length_btree_insert_new [of es n r] length_btree_insert_old [of es n r]
    by (cases "map_of es n = None") (auto simp: good_journal_def)
  with assms(1,2) show ?thesis by (auto simp: good_journal_def)
qed

lemma good_journal_delete: "good_journal es \<Longrightarrow> good_journal (AList.delete n es)"
  using length_delete_le [of n es] by (auto simp: good_journal_def delete_conv' split: if_splits)

lemma card_dom_journal: "good_journal es \<Longrightarrow> card (dom (map_of es)) = length es"
  by (metis btree_distinct card_length distinct_card dom_map_of_conv_image_fst good_journal_def length_map set_map)

definition refines ::
  "json_text \<Rightarrow> session_transition_journal \<Rightarrow> device \<Rightarrow> (string \<rightharpoonup> transition_record) option \<Rightarrow> 'a journal_update \<Rightarrow> bool" where
  "refines J j d spec res \<longleftrightarrow>
     (case spec of
        None \<Rightarrow> \<exists>e. res = Some (Inl e, j, d)
      | Some m \<Rightarrow>
          m = map_of (tj_entries j) \<and> (\<exists>v. res = Some (Inr v, j, d))
        \<or> (\<exists>es r j' d'. good_journal es \<and> map_of es = m \<and> res = Some (r, j', d') \<and> journal_wrote J j d es r j' d'))"

lemma refines_refused [simp]: "refines J j d None (Some (Inl e, j, d))"
  by (simp add: refines_def)

lemma refines_write:
  "json_laws J \<Longrightarrow> good_journal es \<Longrightarrow> refines J j d (Some (map_of es)) (persist_or_roll_back J pid u es v j d)"
  using persist_or_roll_back_post [of J es pid u v j d] by (auto simp: refines_def)

lemma refines_accept:
  assumes "json_laws J" and "good_journal (tj_entries j)" and "tr_transition_id r = n" and "record_typed r"
    and "map_of (tj_entries j) n \<noteq> None \<or> length (tj_entries j) < MAX_ENTRIES"
  shows "refines J j d (accept n r (map_of (tj_entries j)))
    (case validate_record r of
       Inl e \<Rightarrow> Some (Inl e, j, d)
     | Inr _ \<Rightarrow> persist_or_roll_back J pid u (btree_insert n r (tj_entries j)) v j d)"
proof (cases "validate_record r")
  case (Inl e)
  then show ?thesis by (simp add: accept_def refines_def)
next
  case (Inr x)
  with assms(3,4) have "good_record n r" by (simp add: good_record_def)
  from refines_write [OF assms(1) good_journal_insert [OF assms(2) this assms(5)]] Inr show ?thesis
    by (simp add: accept_def)
qed

lemma begin_refines:
  assumes J: "json_laws J" and good: "good_journal (tj_entries j)" and "record_typed r"
  shows "refines J j d (journal_spec (JBegin r) (map_of (tj_entries j))) (journal_begin J pid u r j d)"
proof (cases "map_of (tj_entries j) (tr_transition_id r)")
  case None
  show ?thesis
  proof (cases "length (tj_entries j) < MAX_ENTRIES")
    case True
    with refines_accept [OF J good refl assms(3)] None show ?thesis
      by (simp add: journal_begin_def card_dom_journal [OF good] cong: sum.case_cong)
  next
    case False
    with None show ?thesis
      by (cases "validate_record r") (simp_all add: journal_begin_def card_dom_journal [OF good] refines_def)
  qed
next
  case (Some x)
  have "validate_record x = Inr ()" using good Some by (simp add: good_journal_def good_record_def)
  with Some show ?thesis
    by (cases "validate_record r") (auto simp: journal_begin_def refines_def)
qed

lemma mark_applied_refines:
  assumes J: "json_laws J" and good: "good_journal (tj_entries j)" and b: "binding_typed b"
  shows "refines J j d (journal_spec (JApplied n b) (map_of (tj_entries j))) (mark_applied J pid u n b j d)"
proof (cases "map_of (tj_entries j) n")
  case None
  then show ?thesis by (simp add: mark_applied_def refines_def)
next
  case (Some r)
  let ?r = "r\<lparr>tr_phase := Applied, tr_new_binding := Some b\<rparr>"
  have "good_record n r" using good Some by (simp add: good_journal_def)
  then have "tr_transition_id ?r = n" "record_typed ?r" using b by (auto simp: good_record_def record_typed_def)
  note acc = refines_accept [OF J good this, of d pid u "()"]
  show ?thesis
  proof (cases "tr_phase r")
    case Intent
    with acc Some show ?thesis by (simp add: mark_applied_def Let_def)
  next
    case Applied
    with Some show ?thesis by (simp add: mark_applied_def refines_def)
  qed
qed

lemma mark_terminal_refines:
  assumes J: "json_laws J" and good: "good_journal (tj_entries j)"
  shows "refines J j d (journal_spec (JTerminal n) (map_of (tj_entries j))) (mark_terminal_applied J pid u n j d)"
proof (cases "map_of (tj_entries j) n")
  case None
  then show ?thesis by (simp add: mark_terminal_applied_def refines_def)
next
  case (Some r)
  let ?r = "r\<lparr>tr_phase := Applied, tr_new_binding := None\<rparr>"
  have "good_record n r" using good Some by (simp add: good_journal_def)
  then have "tr_transition_id ?r = n" "record_typed ?r" by (auto simp: good_record_def record_typed_def)
  note acc = refines_accept [OF J good this, of d pid u "()"]
  show ?thesis
  proof (cases "tr_phase r")
    case Intent
    with acc Some show ?thesis by (simp add: mark_terminal_applied_def Let_def)
  next
    case Applied
    with Some show ?thesis by (simp add: mark_terminal_applied_def refines_def)
  qed
qed

lemma clear_refines:
  assumes J: "json_laws J" and good: "good_journal (tj_entries j)"
  shows "refines J j d (journal_spec (JClear n) (map_of (tj_entries j))) (journal_clear J pid u n j d)"
proof (cases "map_of (tj_entries j) n")
  case None
  then have "(map_of (tj_entries j))(n := None) = map_of (tj_entries j)" by (auto simp: fun_eq_iff)
  with None show ?thesis by (simp add: journal_clear_def refines_def)
next
  case (Some r)
  have "map_of (AList.delete n (tj_entries j)) = (map_of (tj_entries j))(n := None)" by (rule delete_conv')
  with refines_write [OF J good_journal_delete [OF good, of n], of j d pid u "()"] Some show ?thesis
    by (simp add: journal_clear_def)
qed

lemma journal_wrote_map: "journal_wrote J j d es (map_sum id f r) j' d' \<longleftrightarrow> journal_wrote J j d es r j' d'"
  by (cases r) (simp_all add: journal_wrote_def)

lemma refines_map:
  assumes "refines J j d spec res"
  shows "refines J j d spec (map_option (\<lambda>(r, s). (map_sum id f r, s)) res)"
proof (cases spec)
  case None
  with assms show ?thesis by (auto simp: refines_def)
next
  case (Some m)
  with assms consider "m = map_of (tj_entries j)" "\<exists>v. res = Some (Inr v, j, d)"
    | es r j' d' where "good_journal es" "map_of es = m" "res = Some (r, j', d')" "journal_wrote J j d es r j' d'"
    by (auto simp: refines_def)
  then show ?thesis
  proof cases
    case 1
    with Some show ?thesis by (auto simp: refines_def)
  next
    case 2
    then have "journal_wrote J j d es (map_sum id f r) j' d'" by (simp add: journal_wrote_map)
    with 2 Some show ?thesis unfolding refines_def by (auto intro!: disjI2)
  qed
qed

lemma exec_refines:
  assumes "json_laws J" and "good_journal (tj_entries j)" and "journal_op_typed oper"
  shows "refines J j d (journal_spec oper (map_of (tj_entries j))) (journal_exec J pid u oper j d)"
proof (cases oper)
  case (JBegin r)
  with begin_refines [OF assms(1,2), of r d pid u] assms(3) show ?thesis
    by (simp add: journal_exec_def refines_map del: journal_spec.simps)
next
  case (JApplied n b)
  with mark_applied_refines [OF assms(1,2)] assms(3) show ?thesis
    by (simp add: journal_exec_def del: journal_spec.simps)
next
  case (JTerminal n)
  with mark_terminal_refines [OF assms(1,2)] show ?thesis
    by (simp add: journal_exec_def del: journal_spec.simps)
next
  case (JClear n)
  with clear_refines [OF assms(1,2)] show ?thesis
    by (simp add: journal_exec_def del: journal_spec.simps)
qed

section \<open>Opening\<close>

lemma json_i64_typed: "json_i64 j = Some n \<Longrightarrow> in_i64 n"
  by (cases j) (auto simp: json_i64_def split: if_splits)

lemma field_typed: "field json_i64 fs k = Some n \<Longrightarrow> in_i64 n"
  by (auto simp: field_def bind_eq_Some_conv dest: json_i64_typed)

lemma field_dest: "field f fs k = Some v \<Longrightarrow> \<exists>j. f j = Some v"
  by (auto simp: field_def bind_eq_Some_conv)

lemma binding_from_json_typed: "binding_from_json j = Some b \<Longrightarrow> binding_typed b"
  by (auto simp: binding_from_json_def binding_typed_def split: option.splits dest: field_typed)

lemma target_from_json_typed: "target_from_json j = Some t \<Longrightarrow> in_i64 (tt_binding_expires_unix t)"
  by (auto simp: target_from_json_def split: option.splits dest: field_typed)

lemma field_option_binding:
  "field_or None (json_option binding_from_json) fs k = Some b \<Longrightarrow> pred_option binding_typed b"
proof (cases b)
  case (Some x)
  assume "field_or None (json_option binding_from_json) fs k = Some b"
  then obtain j where "json_option binding_from_json j = Some (Some x)"
    using Some by (auto simp: field_or_def split: option.splits)
  then have "binding_from_json j = Some x" by (cases j) (auto simp: json_option_def)
  with Some show ?thesis by (simp add: binding_from_json_typed)
qed simp

lemma record_from_json_typed: "record_from_json j = Some r \<Longrightarrow> record_typed r"
  by (auto simp: record_from_json_def record_typed_def split: option.splits
      dest: field_typed field_option_binding
      dest!: field_dest [of binding_from_json, THEN exE, OF _ binding_from_json_typed]
        field_dest [of target_from_json, THEN exE, OF _ target_from_json_typed])

lemma parsed_good:
  assumes "parse_and_validate J b = Inr rs"
  shows "good_journal (collect_records rs)"
proof -
  let ?check = "\<lambda>(k, r).
     if k \<noteq> tr_transition_id r
     then Inl (''transition journal key/id mismatch ('' @ k @ '' != '' @ tr_transition_id r @ '')'')
     else validate_record r"
  obtain j es where j: "disk_from_json j = Some (JOURNAL_VERSION, es)" and len: "length es \<le> MAX_ENTRIES"
    and each: "try_each ?check es = Inr ()" and rs: "rs = map snd es"
    using assms
    by (auto simp: parse_and_validate_def bind_eq_Some_conv and_then_Inr_iff
        split: option.splits if_splits)
  have val: "tr_transition_id r = k \<and> validate_record r = Inr ()" if "(k, r) \<in> set es" for k r
  proof -
    from each that have "?check (k, r) = Inr ()" by (auto simp only: try_each_Inr_iff)
    then show ?thesis by (simp split: if_splits)
  qed
  from j obtain j' where j': "json_map record_from_json j' = Some es"
    by (auto simp: disk_from_json_def field_def bind_eq_Some_conv split: option.splits)
  have "collect_records rs = es"
    unfolding collect_records_def rs
    by (subst collect_records_back) (use json_map_btree [OF j'] val in auto)
  moreover have "good_record k r" if "map_of es k = Some r" for k r
    using val [OF map_of_SomeD [OF that]] json_map_values [OF j' map_of_SomeD [OF that]]
    by (auto simp: good_record_def dest: record_from_json_typed)
  then have "good_journal es" using json_map_btree [OF j'] len by (simp add: good_journal_def)
  ultimately show ?thesis by simp
qed

lemma entries_in_good: "entries_in J dir fs = Some es \<Longrightarrow> good_journal es"
  by (auto simp: entries_in_def good_journal_def [of "[]"] dest: parsed_good split: option.splits if_splits sum.splits)

lemma open_reads:
  assumes "journal_open J dir d = Some (Inr j, d')"
  shows "tj_dir j = dir" and "dv_files d' = dv_files d" and "entries_in J dir (dv_files d') = Some (tj_entries j)"
proof -
  obtain d1 where d1: "io_check d = Some (Inr (), d1)"
    using assms by (auto simp: journal_open_def io_Inr_iff)
  note files = io_check_files [OF d1]
  have "tj_dir j = dir \<and> dv_files d' = dv_files d \<and> entries_in J dir (dv_files d') = Some (tj_entries j)"
  proof (cases "content d1 (journal_path dir)")
    case None
    with assms d1 files show ?thesis
      by (auto simp: journal_open_def io_Inr_iff io_return_def entries_in_def content_def)
  next
    case (Some b)
    obtain b' d2 where r: "read_owner_only_file_bounded (journal_path dir) MAX_BYTES d1 = Some (Inr b', d2)"
      and p: "(case parse_and_validate J b' of
           Inl e \<Rightarrow> io_fail e
         | Inr records \<Rightarrow> io_return \<lparr>tj_dir = dir, tj_entries = collect_records records\<rparr>) d2 = Some (Inr j, d')"
      using assms d1 Some by (auto simp: journal_open_def io_Inr_iff)
    from read_bounded_Inr [OF r] p files show ?thesis
      by (auto simp: entries_in_def content_def io_fail_def io_return_def split: sum.splits)
  qed
  then show "tj_dir j = dir" and "dv_files d' = dv_files d" and "entries_in J dir (dv_files d') = Some (tj_entries j)"
    by auto
qed

lemma open_healthy:
  assumes "dv_outcomes d = []" and "entries_in J dir (dv_files d) = Some es"
  shows "\<exists>d'. journal_open J dir d = Some (Inr \<lparr>tj_dir = dir, tj_entries = es\<rparr>, d')"
proof -
  let ?d = "pass_through (dv_files d) d"
  have d: "dv_outcomes ?d = []" "content ?d (journal_path dir) = map_of (dv_files d) (journal_path dir)"
    using assms(1) by (simp_all add: pass_through_def content_def)
  show ?thesis
  proof (cases "map_of (dv_files d) (journal_path dir)")
    case None
    with assms d show ?thesis
      by (auto simp: journal_open_def io_bind_def map_err_result healthy_check io_return_def entries_in_def)
  next
    case (Some b)
    with assms(2) obtain rs where b: "length b \<le> MAX_BYTES" "parse_and_validate J b = Inr rs" "es = collect_records rs"
      by (auto simp: entries_in_def split: if_splits sum.splits)
    from read_bounded_healthy [OF d(1), of "journal_path dir" b MAX_BYTES] d(2) Some b(1) journal_path_parent
    obtain d2 where "read_owner_only_file_bounded (journal_path dir) MAX_BYTES ?d = Some (Inr b, d2)"
      by (auto simp: MAX_BYTES_def)
    with assms(1) d(2) Some b show ?thesis
      by (auto simp: journal_open_def io_bind_def map_err_result healthy_check io_return_def)
  qed
qed

section \<open>Runs\<close>

text \<open>Operations that all succeed, each with the random part of its temporary name.\<close>

fun acknowledged ::
  "json_text \<Rightarrow> u32 \<Rightarrow> (string \<times> journal_op) list \<Rightarrow> session_transition_journal \<Rightarrow> device \<Rightarrow>
   (session_transition_journal \<times> device) option" where
  "acknowledged J pid [] j d = Some (j, d)"
| "acknowledged J pid ((u, oper) # ops) j d =
     (case journal_exec J pid u oper j d of
        Some (Inr _, j', d') \<Rightarrow> acknowledged J pid ops j' d'
      | _ \<Rightarrow> None)"

definition synced :: "json_text \<Rightarrow> session_transition_journal \<Rightarrow> device \<Rightarrow> bool" where
  "synced J j d \<longleftrightarrow> entries_in J (tj_dir j) (dv_files d) = Some (tj_entries j)"

lemma exec_synced:
  assumes "json_laws J" and "synced J j d" and "journal_op_typed oper"
    and run: "journal_exec J pid u oper j d = Some (r, j', d')"
  shows "tj_dir j' = tj_dir j" and "r = Inr () \<Longrightarrow> synced J j' d'"
    and "dv_passed d' = new @ dv_passed d \<Longrightarrow> fs \<in> set (dv_files d' # new) \<Longrightarrow>
      \<exists>es. entries_in J (tj_dir j) fs = Some es
        \<and> (es = tj_entries j \<or> Some (map_of es) = journal_spec oper (map_of (tj_entries j)))
        \<and> (r = Inr () \<and> fs = dv_files d' \<longrightarrow> es = tj_entries j')"
proof -
  have e: "entries_in J (tj_dir j) (dv_files d) = Some (tj_entries j)" using assms(2) by (simp add: synced_def)
  have "good_journal (tj_entries j)" using entries_in_good [OF e] .
  from exec_refines [OF assms(1) this assms(3), of d pid u] run
  consider (kept) "j' = j" "d' = d"
    | (wrote) es where "Some (map_of es) = journal_spec oper (map_of (tj_entries j))" "journal_wrote J j d es r j' d'"
    unfolding refines_def by (auto split: option.splits)
  note cases = this
  show "tj_dir j' = tj_dir j"
    by (cases rule: cases) (auto simp: journal_wrote_def split: sum.splits)
  show "synced J j' d'" if "r = Inr ()"
    using that assms(2) by (cases rule: cases) (auto simp: journal_wrote_def synced_def)
  show "\<exists>es. entries_in J (tj_dir j) fs = Some es
        \<and> (es = tj_entries j \<or> Some (map_of es) = journal_spec oper (map_of (tj_entries j)))
        \<and> (r = Inr () \<and> fs = dv_files d' \<longrightarrow> es = tj_entries j')"
    if new: "dv_passed d' = new @ dv_passed d" and fs: "fs \<in> set (dv_files d' # new)"
  proof (cases rule: cases)
    case kept
    with new fs e show ?thesis by simp
  next
    case (wrote es)
    have "entries_in J (tj_dir j) fs \<in> {Some (tj_entries j), Some es}"
      using wrote(2) new fs e by (auto simp: journal_wrote_def list_all_iff split: sum.splits)
    moreover have "r = Inr () \<and> fs = dv_files d' \<longrightarrow> entries_in J (tj_dir j) fs = Some (tj_entries j')"
      using wrote(2) by (auto simp: journal_wrote_def)
    ultimately show ?thesis using wrote(1) by auto
  qed
qed

lemma acknowledged_synced:
  "json_laws J \<Longrightarrow> synced J j d \<Longrightarrow> list_all (journal_op_typed \<circ> snd) ops \<Longrightarrow>
   acknowledged J pid ops j d = Some (j', d') \<Longrightarrow> synced J j' d' \<and> tj_dir j' = tj_dir j"
proof (induction ops arbitrary: j d)
  case (Cons uo ops)
  obtain u oper where uo: "uo = (u, oper)" by (cases uo)
  with Cons.prems(4) obtain j1 d1 where e: "journal_exec J pid u oper j d = Some (Inr (), j1, d1)"
    and rest: "acknowledged J pid ops j1 d1 = Some (j', d')"
    by (auto split: option.splits sum.splits)
  have t: "journal_op_typed oper" using Cons.prems(3) uo by simp
  note s = exec_synced(1,2) [OF Cons.prems(1,2) t e]
  with Cons.IH [OF Cons.prems(1) s(2) _ rest] Cons.prems(3) show ?case by simp
qed simp

section \<open>Properties\<close>

text \<open>
  C19: Every operation of the journal acts on the pending transitions as on a map from ids.  On a
  journal whose records are valid it returns; what the map refuses is an error that touches
  neither memory nor device; a success is exactly the change of the map; an error leaves the
  memory as it was; and the records stay valid, at most 64, each under its own id.
\<close>

theorem journal_refines_map:
  assumes "json_laws J" and "good_journal (tj_entries j)" and "journal_op_typed oper"
  shows "\<exists>r j' d'. journal_exec J pid u oper j d = Some (r, j', d') \<and> good_journal (tj_entries j')
    \<and> (r = Inr () \<longrightarrow> journal_spec oper (map_of (tj_entries j)) = Some (map_of (tj_entries j')))
    \<and> (r \<noteq> Inr () \<longrightarrow> j' = j)
    \<and> (journal_spec oper (map_of (tj_entries j)) = None \<longrightarrow> r \<noteq> Inr () \<and> d' = d)"
proof -
  from exec_refines [OF assms, of d pid u]
  consider (refused) e where "journal_spec oper (map_of (tj_entries j)) = None"
      "journal_exec J pid u oper j d = Some (Inl e, j, d)"
    | (kept) "journal_spec oper (map_of (tj_entries j)) = Some (map_of (tj_entries j))"
      "journal_exec J pid u oper j d = Some (Inr (), j, d)"
    | (wrote) es r j' d' where "good_journal es" "journal_spec oper (map_of (tj_entries j)) = Some (map_of es)"
      "journal_exec J pid u oper j d = Some (r, j', d')" "journal_wrote J j d es r j' d'"
    unfolding refines_def by (auto split: option.splits)
  then show ?thesis
  proof cases
    case wrote
    then show ?thesis
      using assms(2) by (cases r) (auto simp: journal_wrote_def)
  qed (use assms(2) in auto)
qed

text \<open>
  C18: An acknowledged transition is found after a crash, and a crash never tears the journal.
  Open the journal on any device and let any operations succeed; then lose the process at any
  moment of one more operation, whatever the device answers during it.  The next daemon, on a
  device that works, opens the journal and finds all that was acknowledged: the entries before
  the last operation, or the entries with exactly that operation applied; and when the last
  operation had succeeded, exactly what the lost process had in memory.
\<close>

theorem acknowledged_transitions_survive:
  assumes J: "json_laws J" and op: "journal_open J dir d0 = Some (Inr j0, d)"
    and ack: "acknowledged J pid ops j0 d = Some (j, d1)" "list_all (journal_op_typed \<circ> snd) ops"
    and last: "journal_op_typed oper" "journal_exec J pid u oper j d1 = Some (r, j2, d2)"
    and moment: "dv_passed d2 = new @ dv_passed d1" "fs \<in> set (dv_files d2 # new)"
  shows "\<exists>j3 d3. journal_open J dir (d2\<lparr>dv_files := fs, dv_outcomes := []\<rparr>) = Some (Inr j3, d3)
    \<and> (tj_entries j3 = tj_entries j \<or> Some (map_of (tj_entries j3)) = journal_spec oper (map_of (tj_entries j)))
    \<and> (r = Inr () \<and> fs = dv_files d2 \<longrightarrow> j3 = j2)"
proof -
  note o = open_reads [OF op]
  then have "synced J j0 d" by (simp add: synced_def)
  with acknowledged_synced [OF J _ ack(2,1)] have s: "synced J j d1" "tj_dir j = dir" using o(1) by auto
  note e = exec_synced [OF J s(1) last]
  from e(3) [OF moment] s(2) obtain es where es: "entries_in J dir fs = Some es"
    "es = tj_entries j \<or> Some (map_of es) = journal_spec oper (map_of (tj_entries j))"
    "r = Inr () \<and> fs = dv_files d2 \<longrightarrow> es = tj_entries j2" by auto
  from open_healthy [of "d2\<lparr>dv_files := fs, dv_outcomes := []\<rparr>" J dir es] es(1) obtain d3 where
    "journal_open J dir (d2\<lparr>dv_files := fs, dv_outcomes := []\<rparr>) = Some (Inr \<lparr>tj_dir = dir, tj_entries = es\<rparr>, d3)"
    by auto
  with es(2,3) e(1) s(2) show ?thesis
    by (intro exI [of _ "\<lparr>tj_dir = dir, tj_entries = es\<rparr>"] exI [of _ d3]) auto
qed

text \<open>A transition of a session host, and its journal on an empty device.\<close>

definition binding0 :: sidecar_host_binding where
  "binding0 =
     \<lparr>sb_device_id = ''d'', sb_workspace_id = ''w'', sb_owner_principal = ''alice'', sb_host_nonce = ''n'',
      sb_controller_epoch = 1, sb_binding_expires_unix = 50, sb_host_expires_unix = 90,
      sb_child_pid = None, sb_child_process_birth = None\<rparr>"

definition record0 :: transition_record where
  "record0 =
     \<lparr>tr_transition_id = ''t'', tr_kind = KGive, tr_phase = Intent, tr_session_id = ''s'', tr_device_id = ''d'',
      tr_workspace_id = ''w'', tr_authenticated_principal = ''alice'', tr_old_binding = binding0,
      tr_target = \<lparr>tt_principal = ''bob'', tt_controller_epoch = 2, tt_binding_expires_unix = 60,
        tt_controller_attached = True, tt_lease_id = None, tt_terminal = False\<rparr>,
      tr_new_binding = None, tr_created_unix = 10, tr_expires_unix = 100\<rparr>"

definition journal0 :: session_transition_journal where
  "journal0 = \<lparr>tj_dir = ''/s'', tj_entries = []\<rparr>"

lemma record0_typed: "record_typed record0"
  by (simp add: record0_def binding0_def record_typed_def binding_typed_def in_i64_def)

lemma journal0_good: "good_journal (tj_entries journal0)"
  by (simp add: journal0_def good_journal_def)

lemma open0: "\<exists>d. journal_open json_text0 ''/s'' (device0 []) = Some (Inr journal0, d)"
proof -
  have "entries_in json_text0 ''/s'' (dv_files (device0 [])) = Some []"
    by (simp add: entries_in_def device0_def journal_path_def JOURNAL_FILE_def)
  with open_healthy [of "device0 []" json_text0 "''/s''" "[]"] show ?thesis
    by (simp add: device0_def journal0_def)
qed

lemma begin0:
  "(case journal_exec json_text0 1 ''u'' (JBegin record0) journal0 (device0 []) of
      Some (Inr _, j, _) \<Rightarrow> journal_pending j = [record0] | _ \<Rightarrow> False)"
  by code_simp

theorem journal_refines_map_witness:
  "\<exists>r j' d'. journal_exec json_text0 1 ''u'' (JBegin record0) journal0 (device0 []) = Some (r, j', d')
    \<and> r = Inr () \<and> journal_pending j' = [record0] \<and> good_journal (tj_entries j')"
proof -
  have "journal_op_typed (JBegin record0)" using record0_typed by simp
  from journal_refines_map [OF json_text0_laws journal0_good this, of 1 "''u''" "device0 []"]
  obtain r j' d' where e: "journal_exec json_text0 1 ''u'' (JBegin record0) journal0 (device0 []) = Some (r, j', d')"
    "good_journal (tj_entries j')" by (elim exE conjE)
  moreover have "r = Inr () \<and> journal_pending j' = [record0]" using begin0 e(1) by (cases r) simp_all
  ultimately show ?thesis by blast
qed

theorem acknowledged_transitions_survive_witness:
  "\<exists>d r j2 d2 j3 d3. journal_open json_text0 ''/s'' (device0 []) = Some (Inr journal0, d)
    \<and> journal_exec json_text0 1 ''u'' (JBegin record0) journal0 d = Some (r, j2, d2)
    \<and> journal_open json_text0 ''/s'' (d2\<lparr>dv_outcomes := []\<rparr>) = Some (Inr j3, d3)
    \<and> (tj_entries j3 = [] \<or> Some (map_of (tj_entries j3)) = journal_spec (JBegin record0) Map.empty)"
proof -
  from open0 obtain d where d: "journal_open json_text0 ''/s'' (device0 []) = Some (Inr journal0, d)" ..
  have typed: "journal_op_typed (JBegin record0)" using record0_typed by simp
  obtain r j2 d2 where e: "journal_exec json_text0 1 ''u'' (JBegin record0) journal0 d = Some (r, j2, d2)"
    using exec_refines [OF json_text0_laws journal0_good typed, of d 1 "''u''"]
    by (auto simp: refines_def split: option.splits)
  have "synced json_text0 journal0 d" using open_reads [OF d] by (simp add: synced_def)
  obtain new where new: "dv_passed d2 = new @ dv_passed d"
    using exec_refines [OF json_text0_laws journal0_good typed, of d 1 "''u''"] e
    by (auto simp: refines_def journal_wrote_def split: option.splits)
  have "acknowledged json_text0 1 [] journal0 d = Some (journal0, d)" by simp
  from acknowledged_transitions_survive [OF json_text0_laws d this _ typed e new, of "dv_files d2"] d e
  show ?thesis by (auto simp: journal0_def)
qed

definition failed_begin_then_clear ::
  "json_text \<Rightarrow> string \<Rightarrow> device \<Rightarrow> transition_record \<Rightarrow>
   ((string, transition_record) result \<times> transition_record list \<times> (string, unit) result \<times> transition_record list) option" where
  "failed_begin_then_clear J dir d r =
     (case journal_open J dir d of
        Some (Inr j, d1) \<Rightarrow>
          (case journal_begin J 1 ''u'' r j d1 of
             Some (begun, j1, d2) \<Rightarrow>
               (case journal_clear J 1 ''v'' (tr_transition_id r) j1 d2 of
                  Some (cleared, j2, d3) \<Rightarrow>
                    (case journal_open J dir d3 of
                       Some (Inr j3, _) \<Rightarrow> Some (begun, journal_pending j2, cleared, journal_pending j3)
                     | _ \<Rightarrow> None)
                | None \<Rightarrow> None)
           | None \<Rightarrow> None)
      | _ \<Rightarrow> None)"

lemma owner_write_sync_fault:
  assumes "path_parent t \<noteq> None" and "dv_files d = []" and "dv_outcomes d = replicate 10 None @ [Some (e, n)]"
  shows "\<exists>d'. owner_write p u t b d = Some (Inl (IoError e), d') \<and> content d' t = Some b \<and> dv_outcomes d' = []"
proof -
  have o: "dv_outcomes d = [None, None, None, None, None, None, None, None, None, None, Some (e, n)]"
    using assms(3) by (simp add: eval_nat_numeral)
  obtain q where "path_parent t = Some q" using assms(1) by blast
  then show ?thesis
    using assms(2) o owner_temp_path_not_target [of p u t]
    by (simp add: owner_write_def atomic_write_owner_only_def io_bind_def io_catch_def io_check_def io_return_def
        create_new_def write_all_def rename_file_def system_call_def pass_through_def content_def bytes_of_def)
qed

text \<open>
  C20: The error of an operation does not mean that nothing was written.  The owner-only writer
  reports a failed sync of the directory after the rename, and the journal then rolls its memory
  back.  There is a run in which beginning a transition fails for that reason, nothing is pending
  in memory and clearing the transition succeeds, and yet the next daemon finds it pending.
\<close>

theorem rolled_back_intent_survives:
  assumes J: "json_laws J" and r: "validate_record r = Inr ()" "record_typed r"
    and len: "length (jt_render J (disk_to_json [(tr_transition_id r, r)])) \<le> MAX_BYTES"
    and d: "dv_files d = []" "dv_outcomes d = replicate 11 None @ [Some (e, n)]"
  shows "failed_begin_then_clear J dir d r = Some (Inl (''persist transition journal: '' @ e), [], Inr (), [r])"
proof -
  let ?j = "\<lparr>tj_dir = dir, tj_entries = []\<rparr>" and ?d = "pass_through [] d" and ?es = "[(tr_transition_id r, r)]"
  have outcomes: "dv_outcomes d = None # replicate 10 None @ [Some (e, n)]"
    using d(2) by (simp add: eval_nat_numeral)
  have o: "journal_open J dir d = Some (Inr ?j, ?d)"
    using d(1) outcomes
    by (simp add: journal_open_def io_bind_def map_err_result io_check_def system_call_def content_def
        pass_through_def io_return_def)
  have "dv_files ?d = []" "dv_outcomes ?d = replicate 10 None @ [Some (e, n)]"
    using outcomes by (simp_all add: pass_through_def)
  from owner_write_sync_fault [OF journal_path_parent this] obtain d2 where
    w: "owner_write 1 ''u'' (journal_path dir) (jt_render J (disk_to_json ?es)) ?d = Some (Inl (IoError e), d2)"
    and d2: "content d2 (journal_path dir) = Some (jt_render J (disk_to_json ?es))" "dv_outcomes d2 = []" by blast
  have b: "journal_begin J 1 ''u'' r ?j ?d = Some (Inl (''persist transition journal: '' @ e), ?j, d2)"
    using r(1) len w
    by (simp add: journal_begin_def persist_or_roll_back_def journal_persist_def map_err_result io_text_def MAX_ENTRIES_def)
  have c: "journal_clear J 1 ''v'' (tr_transition_id r) ?j d2 = Some (Inr (), ?j, d2)"
    by (simp add: journal_clear_def)
  have "good_journal ?es" using r by (simp add: good_journal_def good_record_def btree_def MAX_ENTRIES_def)
  from entries_in_render [OF J this len] d2(1) have "entries_in J dir (dv_files d2) = Some ?es"
    by (simp add: content_def)
  from open_healthy [OF d2(2) this] o b c show ?thesis
    by (auto simp: failed_begin_then_clear_def journal_pending_def)
qed

definition fault_device :: device where
  "fault_device = (device0 (replicate 11 None @ [Some (''sync'', 0)]))\<lparr>dv_files := []\<rparr>"

theorem rolled_back_intent_survives_witness:
  "failed_begin_then_clear json_text0 ''/s'' fault_device record0 =
     Some (Inl (''persist transition journal: '' @ ''sync''), [], Inr (), [record0])"
proof -
  have r: "validate_record record0 = Inr ()" by code_simp
  have len: "length (jt_render json_text0 (disk_to_json [(tr_transition_id record0, record0)])) \<le> MAX_BYTES"
    by code_simp
  have d: "dv_files fault_device = []" "dv_outcomes fault_device = replicate 11 None @ [Some (''sync'', 0)]"
    by (simp_all add: fault_device_def device0_def)
  show ?thesis by (rule rolled_back_intent_survives [OF json_text0_laws r record0_typed len d])
qed

end
