(* ===== verification/Spool.thy ===== *)
theory Spool
  imports Persist
begin

text \<open>
  The durable side of a hosted session: \<open>crates/ownmesh-session-host/src/supervisor_spool.rs\<close>.

  A session has a directory with the manifest of its host, which names the controller binding
  that is in force, the retained output as one file with the absolute offset of its first byte,
  and, at the end, the receipt of its termination.  A directory of the device is an entry whose
  name ends in a separator.
\<close>

section \<open>Manifests\<close>

definition SUPERVISOR_SPOOL_MAX_BYTES :: nat where "SUPERVISOR_SPOOL_MAX_BYTES = 1024 * 1024"
definition SUPERVISOR_BINDING_MAX_TTL_SECS :: i64 where "SUPERVISOR_BINDING_MAX_TTL_SECS = 60 * 60"
definition SUPERVISOR_HOST_MAX_TTL_SECS :: i64 where "SUPERVISOR_HOST_MAX_TTL_SECS = 24 * 60 * 60"
definition MANIFEST_FILE :: string where "MANIFEST_FILE = ''host-manifest.json''"
definition SPOOL_FILE :: string where "SPOOL_FILE = ''owner-output.spool''"
definition STDERR_SPOOL_FILE :: string where "STDERR_SPOOL_FILE = ''stderr-output.spool''"
definition CLAIM_FILE :: string where "CLAIM_FILE = ''host.claim''"
definition TERMINATION_FILE :: string where "TERMINATION_FILE = ''host-terminated.json''"
definition MAX_MANIFEST_BYTES :: nat where "MAX_MANIFEST_BYTES = 16 * 1024"
definition MAX_TRANSITION_ID_BYTES :: nat where "MAX_TRANSITION_ID_BYTES = 128"
definition MAX_TRANSITION_DIGEST_BYTES :: nat where "MAX_TRANSITION_DIGEST_BYTES = 128"
definition SPOOL_MAGIC :: bytes where "SPOOL_MAGIC = as_bytes (''OMSP001'' @ [CHR 0x00])"
definition SPOOL_HEADER_BYTES :: nat where "SPOOL_HEADER_BYTES = 16"

datatype host_io_mode = Pty | StructuredPipes

record transition_receipt =
  rc_transition_id :: string
  rc_payload_digest :: string

record host_manifest =
  hm_session_id :: string
  hm_device_id :: string
  hm_workspace_id :: string
  hm_owner_principal :: string
  hm_io_mode :: host_io_mode
  hm_controller_attached :: bool
  hm_host_nonce :: string
  hm_controller_epoch :: u64
  hm_binding_expires_unix :: i64
  hm_host_expires_unix :: i64
  hm_last_transition :: "transition_receipt option"

record termination_receipt =
  tm_session_id :: string
  tm_device_id :: string
  tm_workspace_id :: string
  tm_owner_principal :: string
  tm_host_nonce :: string
  tm_controller_epoch :: u64
  tm_transition_id :: string
  tm_payload_digest :: string

definition valid_component :: "string \<Rightarrow> bool" where
  "valid_component value \<longleftrightarrow>
     value \<noteq> [] \<and> length value \<le> 256 \<and> \<not> has_control value
   \<and> CHR ''/'' \<notin> set value \<and> CHR 0x5C \<notin> set value"

definition manifest_validate :: "host_manifest \<Rightarrow> (string, unit) result" where
  "manifest_validate m =
     and_then (try_each (\<lambda>(name, value).
         if valid_component value then Inr () else Inl (''invalid supervisor '' @ name))
       [(''session_id'', hm_session_id m), (''device_id'', hm_device_id m),
        (''workspace_id'', hm_workspace_id m), (''owner_principal'', hm_owner_principal m),
        (''host_nonce'', hm_host_nonce m)]) (\<lambda>_.
     if hm_controller_epoch m = 0 \<or> hm_binding_expires_unix m \<le> 0 \<or> hm_host_expires_unix m \<le> 0
     then Inl ''invalid supervisor epoch or expiry''
     else Inr ())"

definition manifest_new ::
  "string \<Rightarrow> string \<Rightarrow> string \<Rightarrow> string \<Rightarrow> string \<Rightarrow> u64 \<Rightarrow> i64 \<Rightarrow> i64 \<Rightarrow> (string, host_manifest) result" where
  "manifest_new uuid session_id device_id workspace_id owner_principal controller_epoch
      binding_expires_unix host_expires_unix =
     (let manifest =
        \<lparr>hm_session_id = session_id, hm_device_id = device_id, hm_workspace_id = workspace_id,
         hm_owner_principal = owner_principal, hm_io_mode = Pty, hm_controller_attached = True,
         hm_host_nonce = ''host_'' @ uuid, hm_controller_epoch = controller_epoch,
         hm_binding_expires_unix = binding_expires_unix, hm_host_expires_unix = host_expires_unix,
         hm_last_transition = None\<rparr>
      in and_then (manifest_validate manifest) (\<lambda>_. Inr manifest))"

definition successor ::
  "string \<Rightarrow> host_manifest \<Rightarrow> string \<Rightarrow> u64 \<Rightarrow> i64 \<Rightarrow> (string, host_manifest) result" where
  "successor uuid m owner_principal controller_epoch binding_expires_unix =
     and_then (manifest_new uuid (hm_session_id m) (hm_device_id m) (hm_workspace_id m) owner_principal
                 controller_epoch binding_expires_unix (hm_host_expires_unix m)) (\<lambda>next0.
     let nxt = next0\<lparr>hm_io_mode := hm_io_mode m\<rparr>
     in and_then (manifest_validate nxt) (\<lambda>_. Inr nxt))"

definition validate_transition :: "string \<Rightarrow> string \<Rightarrow> (string, unit) result" where
  "validate_transition transition_id payload_digest =
     (if transition_id = [] \<or> length transition_id > MAX_TRANSITION_ID_BYTES
       \<or> payload_digest = [] \<or> length payload_digest > MAX_TRANSITION_DIGEST_BYTES
       \<or> has_control transition_id \<or> has_control payload_digest
      then Inl ''invalid supervisor transition receipt''
      else Inr ())"

definition matches_transition :: "host_manifest \<Rightarrow> string \<Rightarrow> string \<Rightarrow> (string, bool) result" where
  "matches_transition m transition_id payload_digest =
     and_then (validate_transition transition_id payload_digest) (\<lambda>_.
     case hm_last_transition m of
       Some receipt \<Rightarrow>
         if rc_transition_id receipt = transition_id \<and> rc_payload_digest receipt = payload_digest
         then Inr True
         else if rc_transition_id receipt = transition_id
         then Inl ''supervisor transition id payload conflict''
         else Inr False
     | None \<Rightarrow> Inr False)"

definition record_transition :: "host_manifest \<Rightarrow> string \<Rightarrow> string \<Rightarrow> (string, host_manifest) result" where
  "record_transition m transition_id payload_digest =
     and_then (validate_transition transition_id payload_digest) (\<lambda>_.
     Inr (m\<lparr>hm_last_transition :=
              Some \<lparr>rc_transition_id = transition_id, rc_payload_digest = payload_digest\<rparr>\<rparr>))"

definition saturating_add_i64 :: "i64 \<Rightarrow> i64 \<Rightarrow> i64" where
  "saturating_add_i64 a b = max (- (2 ^ 63)) (min (2 ^ 63 - 1) (a + b))"

definition validate_runtime_lifetimes :: "host_manifest \<Rightarrow> i64 \<Rightarrow> (string, unit) result" where
  "validate_runtime_lifetimes m now =
     (if hm_binding_expires_unix m \<le> now \<or> hm_host_expires_unix m \<le> now
      then Inl ''supervisor binding or host expiry is in the past''
      else if hm_binding_expires_unix m > saturating_add_i64 now SUPERVISOR_BINDING_MAX_TTL_SECS
        \<or> hm_host_expires_unix m > saturating_add_i64 now SUPERVISOR_HOST_MAX_TTL_SECS
        \<or> hm_binding_expires_unix m > hm_host_expires_unix m
      then Inl ''supervisor binding or host lifetime exceeds policy''
      else Inr ())"

section \<open>Documents\<close>

definition io_mode_to_json :: "host_io_mode \<Rightarrow> json" where
  "io_mode_to_json m = JStr (case m of Pty \<Rightarrow> ''pty'' | StructuredPipes \<Rightarrow> ''structured_pipes'')"

definition io_mode_from_json :: "json \<Rightarrow> host_io_mode option" where
  "io_mode_from_json j =
     (let v = json_variant j
      in if v = Some ''pty'' then Some Pty
         else if v = Some ''structured_pipes'' then Some StructuredPipes
         else None)"

definition receipt_to_json :: "transition_receipt \<Rightarrow> json" where
  "receipt_to_json r =
     JObj [(''transition_id'', JStr (rc_transition_id r)), (''payload_digest'', JStr (rc_payload_digest r))]"

definition receipt_from_json :: "json \<Rightarrow> transition_receipt option" where
  "receipt_from_json j =
     (case open_struct_fields [''transition_id'', ''payload_digest''] j of
        None \<Rightarrow> None
      | Some fs \<Rightarrow>
          (case (field json_str fs ''transition_id'', field json_str fs ''payload_digest'') of
             (Some t, Some p) \<Rightarrow> Some \<lparr>rc_transition_id = t, rc_payload_digest = p\<rparr>
           | _ \<Rightarrow> None))"

definition manifest_to_json :: "host_manifest \<Rightarrow> json" where
  "manifest_to_json m =
     JObj ([(''session_id'', JStr (hm_session_id m)),
            (''device_id'', JStr (hm_device_id m)),
            (''workspace_id'', JStr (hm_workspace_id m)),
            (''owner_principal'', JStr (hm_owner_principal m)),
            (''io_mode'', io_mode_to_json (hm_io_mode m)),
            (''controller_attached'', JBool (hm_controller_attached m)),
            (''host_nonce'', JStr (hm_host_nonce m)),
            (''controller_epoch'', of_word (hm_controller_epoch m)),
            (''binding_expires_unix'', JInt (hm_binding_expires_unix m)),
            (''host_expires_unix'', JInt (hm_host_expires_unix m))]
           @ opt_field ''last_transition'' receipt_to_json (hm_last_transition m))"

definition manifest_fields :: "string list" where
  "manifest_fields =
     [''session_id'', ''device_id'', ''workspace_id'', ''owner_principal'', ''io_mode'',
      ''controller_attached'', ''host_nonce'', ''controller_epoch'', ''binding_expires_unix'',
      ''host_expires_unix'', ''last_transition'']"

definition manifest_from_json :: "json \<Rightarrow> host_manifest option" where
  "manifest_from_json j =
     (case open_struct_fields manifest_fields j of
        None \<Rightarrow> None
      | Some fs \<Rightarrow>
          (case (field json_str fs ''session_id'', field json_str fs ''device_id'',
                 field json_str fs ''workspace_id'', field json_str fs ''owner_principal'',
                 field_or Pty io_mode_from_json fs ''io_mode'',
                 field_or True json_bool fs ''controller_attached'',
                 field json_str fs ''host_nonce'', field json_word fs ''controller_epoch'',
                 field json_i64 fs ''binding_expires_unix'', field json_i64 fs ''host_expires_unix'',
                 field_or None (json_option receipt_from_json) fs ''last_transition'') of
             (Some s, Some dv, Some w, Some own, Some io, Some a, Some n, Some ep, Some bx, Some hx, Some t) \<Rightarrow>
               Some \<lparr>hm_session_id = s, hm_device_id = dv, hm_workspace_id = w,
                     hm_owner_principal = own, hm_io_mode = io, hm_controller_attached = a,
                     hm_host_nonce = n, hm_controller_epoch = ep, hm_binding_expires_unix = bx,
                     hm_host_expires_unix = hx, hm_last_transition = t\<rparr>
           | _ \<Rightarrow> None))"

definition termination_to_json :: "termination_receipt \<Rightarrow> json" where
  "termination_to_json r =
     JObj [(''session_id'', JStr (tm_session_id r)), (''device_id'', JStr (tm_device_id r)),
           (''workspace_id'', JStr (tm_workspace_id r)),
           (''owner_principal'', JStr (tm_owner_principal r)), (''host_nonce'', JStr (tm_host_nonce r)),
           (''controller_epoch'', of_word (tm_controller_epoch r)),
           (''transition_id'', JStr (tm_transition_id r)),
           (''payload_digest'', JStr (tm_payload_digest r))]"

definition termination_from_json :: "json \<Rightarrow> termination_receipt option" where
  "termination_from_json j =
     (case struct_fields [''session_id'', ''device_id'', ''workspace_id'', ''owner_principal'',
                          ''host_nonce'', ''controller_epoch'', ''transition_id'', ''payload_digest''] j of
        None \<Rightarrow> None
      | Some fs \<Rightarrow>
          (case (field json_str fs ''session_id'', field json_str fs ''device_id'',
                 field json_str fs ''workspace_id'', field json_str fs ''owner_principal'',
                 field json_str fs ''host_nonce'', field json_word fs ''controller_epoch'',
                 field json_str fs ''transition_id'', field json_str fs ''payload_digest'') of
             (Some s, Some dv, Some w, Some own, Some n, Some ep, Some t, Some p) \<Rightarrow>
               Some \<lparr>tm_session_id = s, tm_device_id = dv, tm_workspace_id = w,
                     tm_owner_principal = own, tm_host_nonce = n, tm_controller_epoch = ep,
                     tm_transition_id = t, tm_payload_digest = p\<rparr>
           | _ \<Rightarrow> None))"

section \<open>Output\<close>

definition encode_spool :: "u64 \<Rightarrow> bytes \<Rightarrow> bytes" where
  "encode_spool base_offset payload = SPOOL_MAGIC @ rev (be_encode 8 (unat base_offset)) @ payload"

definition decode_spool :: "bytes \<Rightarrow> (string, u64 \<times> bytes) result" where
  "decode_spool bytes =
     (if length bytes < SPOOL_HEADER_BYTES \<or> take 8 bytes \<noteq> SPOOL_MAGIC
      then Inl ''supervisor spool header is corrupt''
      else if length bytes > SUPERVISOR_SPOOL_MAX_BYTES + SPOOL_HEADER_BYTES
      then Inl ''supervisor spool exceeds retained byte budget''
      else Inr (of_nat (be_decode (rev (take 8 (drop 8 bytes)))), drop SPOOL_HEADER_BYTES bytes))"

record spool_page =
  sp_bytes :: bytes
  sp_next_offset :: "u64 option"
  sp_total_bytes :: u64
  sp_truncated :: bool

record owner_spool =
  os_dir :: string
  os_manifest :: host_manifest
  os_payload_file :: string

section \<open>Files of a session\<close>

definition path_join :: "string \<Rightarrow> string \<Rightarrow> string" where
  "path_join dir name =
     (if starts_with name ''/'' then name
      else dir @ (if dir = [] \<or> last dir = CHR ''/'' then [] else ''/'') @ name)"

definition directory_entry :: "string \<Rightarrow> string" where
  "directory_entry dir = dir @ ''/''"

definition io_lift :: "('e, 'a) result \<Rightarrow> ('e, 'a) action" where
  "io_lift r d = Some (r, d)"

text \<open>
  \<open>prepare_owner_only_state_dir\<close> creates the directory when it is missing and attests it; the
  attestation can fail after the directory has been created.
\<close>

definition ensure_directory :: "string \<Rightarrow> files \<Rightarrow> files" where
  "ensure_directory dir fs =
     (if map_of fs (directory_entry dir) = None then AList.update (directory_entry dir) [] fs else fs)"

definition prepare_owner_only_state_dir :: "string \<Rightarrow> unit io" where
  "prepare_owner_only_state_dir dir =
     system_call (ensure_directory dir) (\<lambda>n. if n = 0 then id else ensure_directory dir)"

definition create_dir :: "string \<Rightarrow> unit io" where
  "create_dir dir = create_new (directory_entry dir)"

definition create_owner_only_file_new :: "string \<Rightarrow> bytes \<Rightarrow> unit io" where
  "create_owner_only_file_new path data =
     (if path_parent path = None then io_fail (IoError (''owner-only path has no parent: '' @ path))
      else
        io_bind (io_checks 3) (\<lambda>_.
        io_bind (create_new path) (\<lambda>_.
        io_bind (io_checks 2) (\<lambda>_.
        io_bind
          (io_catch (io_bind (write_all path data) (\<lambda>_. io_check)) io_return
             (\<lambda>e. io_bind (io_ignore (remove_file path)) (\<lambda>_. io_fail e))) (\<lambda>_.
        io_check)))))"

definition spool_read_state :: "owner_spool \<Rightarrow> (string, u64 \<times> bytes) action" where
  "spool_read_state s =
     io_bind (map_err (\<lambda>e. ''read supervisor spool: '' @ io_text e)
       (read_owner_only_file_bounded (path_join (os_dir s) (os_payload_file s))
          (SUPERVISOR_SPOOL_MAX_BYTES + SPOOL_HEADER_BYTES))) (\<lambda>bytes.
     io_lift (decode_spool bytes))"

definition spool_create :: "json_text \<Rightarrow> string \<Rightarrow> host_manifest \<Rightarrow> (string, owner_spool) action" where
  "spool_create J root manifest =
     (let dir = path_join root (hm_session_id manifest)
      in io_bind (io_lift (manifest_validate manifest)) (\<lambda>_.
         io_bind (map_err (\<lambda>e. ''prepare spool root: '' @ io_text e) (prepare_owner_only_state_dir root)) (\<lambda>_.
         io_bind
           (map_err (\<lambda>e. if e = AlreadyExists
                         then ''supervisor spool already exists (duplicate host refused)''
                         else ''create supervisor session spool: '' @ io_text e) (create_dir dir)) (\<lambda>_.
         io_bind
           (io_catch (prepare_owner_only_state_dir dir) io_return
              (\<lambda>e. io_bind (io_ignore (remove_file (directory_entry dir))) (\<lambda>_.
                    io_fail (''attest supervisor session spool: '' @ io_text e)))) (\<lambda>_.
         io_bind (map_err (\<lambda>e. ''claim supervisor session spool: '' @ io_text e)
           (create_owner_only_file_new (path_join dir CLAIM_FILE) (as_bytes (hm_host_nonce manifest)))) (\<lambda>_.
         io_bind (map_err (\<lambda>e. ''write supervisor manifest: '' @ io_text e)
           (create_owner_only_file_new (path_join dir MANIFEST_FILE) (jt_render J (manifest_to_json manifest)))) (\<lambda>_.
         io_bind (map_err (\<lambda>e. ''create supervisor spool: '' @ io_text e)
           (create_owner_only_file_new (path_join dir SPOOL_FILE) (encode_spool 0 []))) (\<lambda>_.
         io_return \<lparr>os_dir = dir, os_manifest = manifest, os_payload_file = SPOOL_FILE\<rparr>))))))))"

definition spool_open :: "json_text \<Rightarrow> string \<Rightarrow> string \<Rightarrow> (string, owner_spool) action" where
  "spool_open J root session_id =
     (if \<not> valid_component session_id then io_fail ''invalid supervisor session id''
      else
        let dir = path_join root session_id
        in io_bind (map_err (\<lambda>e. ''attest supervisor spool directory: '' @ io_text e)
             (prepare_owner_only_state_dir dir)) (\<lambda>_.
           io_bind (map_err (\<lambda>e. ''read supervisor manifest: '' @ io_text e)
             (read_owner_only_file_bounded (path_join dir MANIFEST_FILE) MAX_MANIFEST_BYTES)) (\<lambda>bytes.
           case Option.bind (jt_parse J bytes) manifest_from_json of
             None \<Rightarrow> io_fail (''parse supervisor manifest: '' @ jt_error J bytes)
           | Some manifest \<Rightarrow>
               io_bind (io_lift (manifest_validate manifest)) (\<lambda>_.
               if hm_session_id manifest \<noteq> session_id
               then io_fail ''supervisor manifest/session path mismatch''
               else
                 let spool = \<lparr>os_dir = dir, os_manifest = manifest, os_payload_file = SPOOL_FILE\<rparr>
                 in io_bind (spool_read_state spool) (\<lambda>_. io_return spool)))))"

definition create_stderr :: "json_text \<Rightarrow> string \<Rightarrow> string \<Rightarrow> (string, owner_spool) action" where
  "create_stderr J root session_id =
     io_bind (spool_open J root session_id) (\<lambda>spool.
     io_bind
       (io_catch (create_owner_only_file_new (path_join (os_dir spool) STDERR_SPOOL_FILE) (encode_spool 0 []))
          io_return
          (\<lambda>e. if e = AlreadyExists then io_return ()
                else io_fail (''create stderr spool: '' @ io_text e))) (\<lambda>_.
     let spool1 = spool\<lparr>os_payload_file := STDERR_SPOOL_FILE\<rparr>
     in io_bind (spool_read_state spool1) (\<lambda>_. io_return spool1)))"

definition check_receipt :: "string \<Rightarrow> termination_receipt \<Rightarrow> (string, termination_receipt option) result" where
  "check_receipt session_id receipt =
     (if \<not> list_all valid_component
           [tm_session_id receipt, tm_device_id receipt, tm_workspace_id receipt,
            tm_owner_principal receipt, tm_host_nonce receipt]
      then Inl ''invalid supervisor termination receipt identity''
      else
        and_then (validate_transition (tm_transition_id receipt) (tm_payload_digest receipt)) (\<lambda>_.
        if tm_controller_epoch receipt = 0 \<or> tm_session_id receipt \<noteq> session_id
        then Inl ''invalid supervisor termination receipt''
        else Inr (Some receipt)))"

definition read_termination_receipt ::
  "json_text \<Rightarrow> string \<Rightarrow> string \<Rightarrow> (string, termination_receipt option) action" where
  "read_termination_receipt J root session_id d =
     (let dir = path_join root session_id
      in if \<not> valid_component session_id then io_fail ''invalid supervisor session id'' d
         else if content d (directory_entry dir) = None then io_return None d
         else
           io_bind (map_err (\<lambda>e. ''attest supervisor termination directory: '' @ io_text e)
             (prepare_owner_only_state_dir dir)) (\<lambda>_ d1.
           if content d1 (path_join dir TERMINATION_FILE) = None then io_return None d1
           else
             io_bind (map_err (\<lambda>e. ''read supervisor termination receipt: '' @ io_text e)
               (read_owner_only_file_bounded (path_join dir TERMINATION_FILE) MAX_MANIFEST_BYTES)) (\<lambda>bytes.
             case Option.bind (jt_parse J bytes) termination_from_json of
               None \<Rightarrow> io_fail (''parse supervisor termination receipt: '' @ jt_error J bytes)
             | Some receipt \<Rightarrow> io_lift (check_receipt session_id receipt)) d1) d)"

definition receipt_of :: "host_manifest \<Rightarrow> string \<Rightarrow> string \<Rightarrow> termination_receipt" where
  "receipt_of m transition_id payload_digest =
     \<lparr>tm_session_id = hm_session_id m, tm_device_id = hm_device_id m,
      tm_workspace_id = hm_workspace_id m, tm_owner_principal = hm_owner_principal m,
      tm_host_nonce = hm_host_nonce m, tm_controller_epoch = hm_controller_epoch m,
      tm_transition_id = transition_id, tm_payload_digest = payload_digest\<rparr>"

text \<open>The parent of a session directory is the root that it was created under.\<close>

definition record_termination ::
  "json_text \<Rightarrow> u32 \<Rightarrow> string \<Rightarrow> string \<Rightarrow> owner_spool \<Rightarrow> string \<Rightarrow> string \<Rightarrow> (string, unit) action" where
  "record_termination J pid uuid root s transition_id payload_digest =
     io_bind (io_lift (validate_transition transition_id payload_digest)) (\<lambda>_.
     let receipt = receipt_of (os_manifest s) transition_id payload_digest
     in io_bind (read_termination_receipt J root (hm_session_id (os_manifest s))) (\<lambda>existing.
        case existing of
          Some r \<Rightarrow>
            if r = receipt then io_return ()
            else if tm_transition_id r = transition_id
            then io_fail ''supervisor termination id payload conflict''
            else io_fail ''supervisor host already terminated''
        | None \<Rightarrow>
            map_err (\<lambda>e. ''write supervisor termination receipt: '' @ io_text e)
              (owner_write pid uuid (path_join (os_dir s) TERMINATION_FILE)
                 (jt_render J (termination_to_json receipt)))))"

definition rotate_manifest ::
  "json_text \<Rightarrow> u32 \<Rightarrow> string \<Rightarrow> host_manifest \<Rightarrow> owner_spool \<Rightarrow> (string, owner_spool) action" where
  "rotate_manifest J pid uuid nxt s =
     io_bind (io_lift (manifest_validate nxt)) (\<lambda>_.
     if hm_session_id nxt \<noteq> hm_session_id (os_manifest s)
      \<or> hm_device_id nxt \<noteq> hm_device_id (os_manifest s)
      \<or> hm_workspace_id nxt \<noteq> hm_workspace_id (os_manifest s)
      \<or> hm_io_mode nxt \<noteq> hm_io_mode (os_manifest s)
     then io_fail ''supervisor binding identity cannot change''
     else if hm_controller_epoch nxt \<le> hm_controller_epoch (os_manifest s)
     then io_fail ''supervisor binding epoch must advance''
     else
       io_bind (map_err (\<lambda>e. ''rotate supervisor manifest: '' @ io_text e)
         (owner_write pid uuid (path_join (os_dir s) MANIFEST_FILE) (jt_render J (manifest_to_json nxt)))) (\<lambda>_.
       io_return (s\<lparr>os_manifest := nxt\<rparr>)))"

definition renew_manifest ::
  "json_text \<Rightarrow> u32 \<Rightarrow> string \<Rightarrow> host_manifest \<Rightarrow> owner_spool \<Rightarrow> (string, owner_spool) action" where
  "renew_manifest J pid uuid nxt s =
     io_bind (io_lift (manifest_validate nxt)) (\<lambda>_.
     if hm_session_id nxt \<noteq> hm_session_id (os_manifest s)
      \<or> hm_device_id nxt \<noteq> hm_device_id (os_manifest s)
      \<or> hm_workspace_id nxt \<noteq> hm_workspace_id (os_manifest s)
      \<or> hm_owner_principal nxt \<noteq> hm_owner_principal (os_manifest s)
      \<or> hm_controller_epoch nxt \<noteq> hm_controller_epoch (os_manifest s)
      \<or> \<not> hm_controller_attached nxt
      \<or> hm_io_mode nxt \<noteq> hm_io_mode (os_manifest s)
     then io_fail ''supervisor renewal identity cannot change''
     else
       io_bind (map_err (\<lambda>e. ''renew supervisor manifest: '' @ io_text e)
         (owner_write pid uuid (path_join (os_dir s) MANIFEST_FILE) (jt_render J (manifest_to_json nxt)))) (\<lambda>_.
       io_return (s\<lparr>os_manifest := nxt\<rparr>)))"

definition spool_append :: "u32 \<Rightarrow> string \<Rightarrow> bytes \<Rightarrow> owner_spool \<Rightarrow> (string, unit) action" where
  "spool_append pid uuid bytes s =
     (if length bytes > SUPERVISOR_SPOOL_MAX_BYTES
      then io_fail ''supervisor output chunk exceeds spool budget''
      else
        io_bind (spool_read_state s) (\<lambda>(base, retained).
        let drop_count = (length retained + length bytes) - SUPERVISOR_SPOOL_MAX_BYTES
        in case checked_add base (of_nat drop_count) of
             None \<Rightarrow> io_fail ''supervisor offset overflow''
           | Some next_base \<Rightarrow>
               map_err (\<lambda>e. ''write supervisor spool: '' @ io_text e)
                 (owner_write pid uuid (path_join (os_dir s) (os_payload_file s))
                    (encode_spool next_base (drop drop_count retained @ bytes)))))"

definition read_page :: "u64 \<Rightarrow> nat \<Rightarrow> owner_spool \<Rightarrow> (string, spool_page) action" where
  "read_page offset max_bytes s =
     (if max_bytes = 0 \<or> max_bytes > SUPERVISOR_SPOOL_MAX_BYTES
      then io_fail ''invalid supervisor spool page budget''
      else
        io_bind (spool_read_state s) (\<lambda>(base, retained).
        case checked_add base (of_nat (length retained)) of
          None \<Rightarrow> io_fail ''supervisor offset overflow''
        | Some tail \<Rightarrow>
            if offset < base
            then io_return \<lparr>sp_bytes = [], sp_next_offset = Some base, sp_total_bytes = tail, sp_truncated = True\<rparr>
            else if offset > tail then io_fail ''supervisor spool cursor is beyond tail''
            else
              let start = unat (offset - base);
                  stop = min (start + max_bytes) (length retained);
                  bytes = take (stop - start) (drop start retained);
                  nxt = offset + of_nat (length bytes)
              in io_return
                   \<lparr>sp_bytes = bytes, sp_next_offset = (if nxt < tail then Some nxt else None),
                    sp_total_bytes = tail, sp_truncated = False\<rparr>))"

end
