(* ===== verification/Supervisor.thy ===== *)
theory Supervisor
  imports Spool
begin

text \<open>
  The session supervisor, \<open>crates/ownmesh-session-host/src/supervisor_state.rs\<close>: the hosts that
  are alive, who may drive each of them, how that right changes hands, and how hosts end.

  The terminals and processes behind a host are the operating system's; what the supervisor calls
  on them is the record \<open>host_ops\<close>, and what it asks about a process \<open>os_probe\<close>.  Every operation
  holds the lock of the host map for its whole length, so it is one step.  The two exceptions are
  written as they interleave: the sweep, which kills outside the lock, and the liveness probe,
  which takes two locks one after the other.  The clock is an argument, once for each time the
  code reads it, and so are the random parts of nonces and temporary names.
\<close>

section \<open>Bindings\<close>

definition MAX_STDIN_BYTES :: nat where "MAX_STDIN_BYTES = 64 * 1024"
definition MAX_HOSTS :: nat where "MAX_HOSTS = 64"

record supervisor_binding =
  bi_session :: string
  bi_device :: string
  bi_workspace :: string
  bi_owner :: string
  bi_nonce :: string
  bi_epoch :: u64

definition binding_matches :: "supervisor_binding \<Rightarrow> host_manifest \<Rightarrow> bool" where
  "binding_matches b m \<longleftrightarrow>
     bi_session b = hm_session_id m \<and> bi_device b = hm_device_id m
   \<and> bi_workspace b = hm_workspace_id m \<and> bi_owner b = hm_owner_principal m
   \<and> bi_nonce b = hm_host_nonce m \<and> bi_epoch b = hm_controller_epoch m"

definition binding_of :: "host_manifest \<Rightarrow> supervisor_binding" where
  "binding_of m =
     \<lparr>bi_session = hm_session_id m, bi_device = hm_device_id m, bi_workspace = hm_workspace_id m,
      bi_owner = hm_owner_principal m, bi_nonce = hm_host_nonce m, bi_epoch = hm_controller_epoch m\<rparr>"

definition exact_identity :: "i64 \<Rightarrow> supervisor_binding \<Rightarrow> host_manifest \<Rightarrow> (string, unit) result" where
  "exact_identity now b m =
     (if hm_binding_expires_unix m \<le> now then Inl ''supervisor binding expired''
      else if binding_matches b m then Inr ()
      else Inl ''supervisor binding mismatch'')"

definition exact :: "i64 \<Rightarrow> supervisor_binding \<Rightarrow> host_manifest \<Rightarrow> (string, unit) result" where
  "exact now b m =
     and_then (exact_identity now b m) (\<lambda>_.
     if \<not> hm_controller_attached m then Inl ''supervisor controller is detached'' else Inr ())"

definition rotate_epoch :: "u64 \<Rightarrow> u64 \<Rightarrow> (string, unit) result" where
  "rotate_epoch current nxt =
     (case checked_add current 1 of
        None \<Rightarrow> Inl ''supervisor controller epoch overflow''
      | Some expected \<Rightarrow>
          if nxt \<noteq> expected then Inl ''supervisor controller epoch must advance exactly once''
          else Inr ())"

section \<open>Hosts\<close>

record host_view =
  hv_pid :: "u32 option"
  hv_pending_output :: nat
  hv_pending_stdout :: nat
  hv_pending_stderr :: nat
  hv_exited :: bool

record 'h host_ops =
  ho_write_stdin :: "bytes \<Rightarrow> 'h \<Rightarrow> (string, unit) result \<times> 'h"
  ho_write_frame :: "bytes \<Rightarrow> 'h \<Rightarrow> (string, unit) result \<times> 'h"
  ho_resize :: "u16 \<Rightarrow> u16 \<Rightarrow> 'h \<Rightarrow> (string, unit) result \<times> 'h"
  ho_drain_output :: "nat \<Rightarrow> 'h \<Rightarrow> (string, bytes \<times> bool) result \<times> 'h"
  ho_drain_stdout :: "nat \<Rightarrow> 'h \<Rightarrow> (string, bytes \<times> bool) result \<times> 'h"
  ho_drain_stderr :: "nat \<Rightarrow> 'h \<Rightarrow> (string, bytes \<times> bool) result \<times> 'h"
  ho_terminate :: "'h \<Rightarrow> (string, unit) result \<times> 'h"
  ho_view :: "'h \<Rightarrow> host_view"

record os_probe =
  op_birth_id :: "u32 \<Rightarrow> (string, u64 option) result"
  op_running_birth_id :: "u32 \<Rightarrow> (string, u64 option) result"

datatype 'h hosted_host = PtyHost 'h | StructuredHost 'h

fun host_write :: "'h host_ops \<Rightarrow> bytes \<Rightarrow> 'h hosted_host \<Rightarrow> (string, unit) result \<times> 'h hosted_host" where
  "host_write ops bytes (PtyHost h) = map_prod id PtyHost (ho_write_stdin ops bytes h)"
| "host_write ops bytes (StructuredHost h) = map_prod id StructuredHost (ho_write_frame ops bytes h)"

fun host_resize ::
  "'h host_ops \<Rightarrow> u16 \<Rightarrow> u16 \<Rightarrow> 'h hosted_host \<Rightarrow> (string, unit) result \<times> 'h hosted_host" where
  "host_resize ops cols rows (PtyHost h) = map_prod id PtyHost (ho_resize ops cols rows h)"
| "host_resize ops cols rows (StructuredHost h) =
     (Inl ''structured pipe hosts cannot resize'', StructuredHost h)"

fun host_drain ::
  "'h host_ops \<Rightarrow> bool \<Rightarrow> nat \<Rightarrow> 'h hosted_host \<Rightarrow> (string, bytes \<times> bool) result \<times> 'h hosted_host" where
  "host_drain ops stderr max_bytes (PtyHost h) =
     (if stderr then (Inr ([], False), PtyHost h)
      else map_prod id PtyHost (ho_drain_output ops max_bytes h))"
| "host_drain ops stderr max_bytes (StructuredHost h) =
     map_prod id StructuredHost
       (if stderr then ho_drain_stderr ops max_bytes h else ho_drain_stdout ops max_bytes h)"

fun host_terminate :: "'h host_ops \<Rightarrow> 'h hosted_host \<Rightarrow> (string, unit) result \<times> 'h hosted_host" where
  "host_terminate ops (PtyHost h) = map_prod id PtyHost (ho_terminate ops h)"
| "host_terminate ops (StructuredHost h) = map_prod id StructuredHost (ho_terminate ops h)"

record supervisor_status =
  ss_pid :: "u32 option"
  ss_process_birth_id :: "u64 option"
  ss_pending_output_bytes :: nat
  ss_pending_stdout_bytes :: nat
  ss_pending_stderr_bytes :: nat
  ss_exited :: bool

definition birth_witness :: "os_probe \<Rightarrow> u32 option \<Rightarrow> u64 option" where
  "birth_witness os pid =
     Option.bind pid (\<lambda>p. case op_birth_id os p of Inl _ \<Rightarrow> None | Inr b \<Rightarrow> b)"

definition child_has_exited :: "os_probe \<Rightarrow> u32 option \<Rightarrow> bool \<Rightarrow> bool" where
  "child_has_exited os pid host_reports_exited \<longleftrightarrow>
     host_reports_exited \<or> map_option (op_running_birth_id os) pid = Some (Inr None)"

fun host_status :: "'h host_ops \<Rightarrow> os_probe \<Rightarrow> 'h hosted_host \<Rightarrow> supervisor_status" where
  "host_status ops os (PtyHost h) =
     (let v = ho_view ops h
      in \<lparr>ss_pid = hv_pid v, ss_process_birth_id = birth_witness os (hv_pid v),
          ss_pending_output_bytes = hv_pending_output v, ss_pending_stdout_bytes = hv_pending_output v,
          ss_pending_stderr_bytes = 0, ss_exited = child_has_exited os (hv_pid v) (hv_exited v)\<rparr>)"
| "host_status ops os (StructuredHost h) =
     (let v = ho_view ops h
      in \<lparr>ss_pid = hv_pid v, ss_process_birth_id = birth_witness os (hv_pid v),
          ss_pending_output_bytes = hv_pending_output v, ss_pending_stdout_bytes = hv_pending_stdout v,
          ss_pending_stderr_bytes = hv_pending_stderr v,
          ss_exited = child_has_exited os (hv_pid v) (hv_exited v)\<rparr>)"

record 'h hosted =
  hd_manifest :: host_manifest
  hd_spool :: owner_spool
  hd_stderr_spool :: "owner_spool option"
  hd_host :: "'h hosted_host"

text \<open>
  The state.  \<open>sv_sweeping\<close> is the local list of a running sweep: hosts taken out of the map whose
  termination has not been settled.
\<close>

record 'h supervisor =
  sv_hosts :: "(string \<times> 'h hosted) list"
  sv_terminating :: "string list"
  sv_sweeping :: "(string \<times> 'h hosted) list"
  sv_root :: string
  sv_device :: device

type_synonym ('h, 'a) supervisor_update = "((string, 'a) result \<times> 'h supervisor) option"

definition supervisor_new :: "string \<Rightarrow> device \<Rightarrow> 'h supervisor" where
  "supervisor_new root d =
     \<lparr>sv_hosts = [], sv_terminating = [], sv_sweeping = [], sv_root = root, sv_device = d\<rparr>"

definition spawn_with_io ::
  "json_text \<Rightarrow> i64 \<Rightarrow> host_manifest \<Rightarrow> host_io_mode \<Rightarrow> (string, 'h) result \<Rightarrow> 'h supervisor \<Rightarrow>
   ('h, supervisor_binding) supervisor_update" where
  "spawn_with_io J now manifest io_mode spawned sv =
     (case validate_runtime_lifetimes manifest now of
        Inl e \<Rightarrow> Some (Inl e, sv)
      | Inr _ \<Rightarrow>
     if length (sv_hosts sv) \<ge> MAX_HOSTS then Some (Inl ''supervisor host quota reached'', sv)
     else if map_of (sv_hosts sv) (hm_session_id manifest) \<noteq> None
     then Some (Inl ''supervisor host already live'', sv)
     else case spawned of
            Inl e \<Rightarrow> Some (Inl e, sv)
          | Inr h \<Rightarrow>
     (case io_bind (spool_create J (sv_root sv) manifest) (\<lambda>spool.
             if io_mode = StructuredPipes
             then io_bind (create_stderr J (sv_root sv) (hm_session_id manifest)) (\<lambda>s. io_return (spool, Some s))
             else io_return (spool, None)) (sv_device sv) of
        None \<Rightarrow> None
      | Some (Inl e, d) \<Rightarrow> Some (Inl e, sv\<lparr>sv_device := d\<rparr>)
      | Some (Inr (spool, stderr_spool), d) \<Rightarrow>
          Some (Inr (binding_of manifest),
            sv\<lparr>sv_device := d,
               sv_hosts := AList.update (hm_session_id manifest)
                 \<lparr>hd_manifest = manifest, hd_spool = spool, hd_stderr_spool = stderr_spool,
                  hd_host = (case io_mode of Pty \<Rightarrow> PtyHost h | StructuredPipes \<Rightarrow> StructuredHost h)\<rparr>
                 (sv_hosts sv)\<rparr>)))"

section \<open>Driving a host\<close>

text \<open>Work on the host of a session under the lock of the map.\<close>

definition on_host ::
  "string \<Rightarrow> ('h hosted \<Rightarrow> device \<Rightarrow> ((string, 'a) result \<times> 'h hosted \<times> device) option) \<Rightarrow> 'h supervisor \<Rightarrow>
   ('h, 'a) supervisor_update" where
  "on_host sid f sv =
     (case map_of (sv_hosts sv) sid of
        None \<Rightarrow> Some (Inl ''supervisor host unavailable'', sv)
      | Some h \<Rightarrow>
          (case f h (sv_device sv) of
             None \<Rightarrow> None
           | Some (r, h', d') \<Rightarrow>
               Some (r, sv\<lparr>sv_hosts := AList.update sid h' (sv_hosts sv), sv_device := d'\<rparr>)))"

definition reattach ::
  "'h host_ops \<Rightarrow> os_probe \<Rightarrow> i64 \<Rightarrow> supervisor_binding \<Rightarrow> 'h supervisor \<Rightarrow>
   ('h, supervisor_status) supervisor_update" where
  "reattach ops os now b =
     on_host (bi_session b) (\<lambda>h d.
       case exact_identity now b (hd_manifest h) of
         Inl e \<Rightarrow> Some (Inl e, h, d)
       | Inr _ \<Rightarrow> Some (Inr (host_status ops os (hd_host h)), h, d))"

definition supervisor_write ::
  "'h host_ops \<Rightarrow> i64 \<Rightarrow> supervisor_binding \<Rightarrow> bytes \<Rightarrow> 'h supervisor \<Rightarrow> ('h, unit) supervisor_update" where
  "supervisor_write ops now b bytes sv =
     (if length bytes > MAX_STDIN_BYTES then Some (Inl ''supervisor stdin frame exceeds budget'', sv)
      else
        on_host (bi_session b) (\<lambda>h d.
          case exact now b (hd_manifest h) of
            Inl e \<Rightarrow> Some (Inl e, h, d)
          | Inr _ \<Rightarrow>
              let (r, host') = host_write ops bytes (hd_host h)
              in Some (r, h\<lparr>hd_host := host'\<rparr>, d)) sv)"

definition supervisor_resize ::
  "'h host_ops \<Rightarrow> i64 \<Rightarrow> supervisor_binding \<Rightarrow> u16 \<Rightarrow> u16 \<Rightarrow> 'h supervisor \<Rightarrow> ('h, unit) supervisor_update" where
  "supervisor_resize ops now b cols rows sv =
     (if cols = 0 \<or> rows = 0 \<or> cols > 512 \<or> rows > 512
      then Some (Inl ''invalid supervisor PTY size'', sv)
      else
        on_host (bi_session b) (\<lambda>h d.
          case exact now b (hd_manifest h) of
            Inl e \<Rightarrow> Some (Inl e, h, d)
          | Inr _ \<Rightarrow>
              let (r, host') = host_resize ops cols rows (hd_host h)
              in Some (r, h\<lparr>hd_host := host'\<rparr>, d)) sv)"

definition supervisor_drain ::
  "'h host_ops \<Rightarrow> u32 \<Rightarrow> string \<Rightarrow> i64 \<Rightarrow> supervisor_binding \<Rightarrow> u64 \<Rightarrow> nat \<Rightarrow> bool \<Rightarrow> 'h supervisor \<Rightarrow>
   ('h, spool_page) supervisor_update" where
  "supervisor_drain ops pid uuid now b offset max_bytes stderr =
     on_host (bi_session b) (\<lambda>h d.
       case exact now b (hd_manifest h) of
         Inl e \<Rightarrow> Some (Inl e, h, d)
       | Inr _ \<Rightarrow>
           let (r, host') = host_drain ops stderr max_bytes (hd_host h); h1 = h\<lparr>hd_host := host'\<rparr>
           in case r of
                Inl e \<Rightarrow> Some (Inl e, h1, d)
              | Inr (bytes, truncated) \<Rightarrow>
                  (case (if stderr then hd_stderr_spool h1 else Some (hd_spool h1)) of
                     None \<Rightarrow> Some (Inl ''stderr stream unavailable'', h1, d)
                   | Some spool \<Rightarrow>
                       (case io_bind (if bytes = [] then io_return () else spool_append pid uuid bytes spool) (\<lambda>_.
                               read_page offset max_bytes spool) d of
                          None \<Rightarrow> None
                        | Some (Inl e, d') \<Rightarrow> Some (Inl e, h1, d')
                        | Some (Inr page, d') \<Rightarrow>
                            Some (Inr (page\<lparr>sp_truncated := sp_truncated page \<or> truncated\<rparr>), h1, d'))))"

section \<open>Changing hands\<close>

text \<open>
  The end that all transitions share: the manifest is replaced on disk, then in memory, and the
  binding of the new one is returned.
\<close>

definition install_manifest ::
  "(owner_spool \<Rightarrow> (string, owner_spool) action) \<Rightarrow> host_manifest \<Rightarrow> 'h hosted \<Rightarrow> device \<Rightarrow>
   ((string, supervisor_binding) result \<times> 'h hosted \<times> device) option" where
  "install_manifest replace nxt h d =
     (case replace (hd_spool h) d of
        None \<Rightarrow> None
      | Some (Inl e, d') \<Rightarrow> Some (Inl e, h, d')
      | Some (Inr spool, d') \<Rightarrow>
          Some (Inr (binding_of nxt), h\<lparr>hd_manifest := nxt, hd_spool := spool\<rparr>, d'))"

text \<open>
  A transition decides on the manifest of the host: it fails, answers from the receipt of the last
  transition, or goes on to a new manifest.
\<close>

datatype decision_step = Refuse string | Answer supervisor_binding | Install host_manifest

definition decided :: "(string, host_manifest) result \<Rightarrow> decision_step" where
  "decided r = (case r of Inl e \<Rightarrow> Refuse e | Inr m \<Rightarrow> Install m)"

definition unless_receipted ::
  "host_manifest \<Rightarrow> string \<Rightarrow> string \<Rightarrow> (string, host_manifest) result \<Rightarrow> decision_step" where
  "unless_receipted m transition_id payload_digest r =
     (case matches_transition m transition_id payload_digest of
        Inl e \<Rightarrow> Refuse e
      | Inr True \<Rightarrow> Answer (binding_of m)
      | Inr False \<Rightarrow> decided r)"

definition run_transition ::
  "(host_manifest \<Rightarrow> owner_spool \<Rightarrow> (string, owner_spool) action) \<Rightarrow> (host_manifest \<Rightarrow> decision_step) \<Rightarrow>
   string \<Rightarrow> 'h supervisor \<Rightarrow> ('h, supervisor_binding) supervisor_update" where
  "run_transition replace decide sid =
     on_host sid (\<lambda>h d.
       case decide (hd_manifest h) of
         Refuse e \<Rightarrow> Some (Inl e, h, d)
       | Answer b \<Rightarrow> Some (Inr b, h, d)
       | Install nxt \<Rightarrow> install_manifest (replace nxt) nxt h d)"

text \<open>The successor of a manifest with the next epoch, within the lifetimes.\<close>

definition next_epoch_manifest ::
  "string \<Rightarrow> i64 \<Rightarrow> supervisor_binding \<Rightarrow> string \<Rightarrow> u64 \<Rightarrow> i64 \<Rightarrow> host_manifest \<Rightarrow> (string, host_manifest) result" where
  "next_epoch_manifest nonce now previous owner epoch expires m =
     and_then (rotate_epoch (bi_epoch previous) epoch) (\<lambda>_.
     and_then (successor nonce m owner epoch expires) (\<lambda>nxt.
     and_then (validate_runtime_lifetimes nxt now) (\<lambda>_. Inr nxt)))"

definition rotate_binding ::
  "json_text \<Rightarrow> u32 \<Rightarrow> string \<Rightarrow> string \<Rightarrow> i64 \<Rightarrow> i64 \<Rightarrow> supervisor_binding \<Rightarrow> string \<Rightarrow> u64 \<Rightarrow> i64 \<Rightarrow>
   'h supervisor \<Rightarrow> ('h, supervisor_binding) supervisor_update" where
  "rotate_binding J pid uuid nonce now now2 previous owner epoch expires =
     run_transition (rotate_manifest J pid uuid) (\<lambda>m.
       decided (and_then (exact now previous m) (\<lambda>_.
         next_epoch_manifest nonce now2 previous owner epoch expires m))) (bi_session previous)"

definition rotate_binding_idempotent ::
  "json_text \<Rightarrow> u32 \<Rightarrow> string \<Rightarrow> string \<Rightarrow> i64 \<Rightarrow> i64 \<Rightarrow> supervisor_binding \<Rightarrow> string \<Rightarrow> u64 \<Rightarrow> i64 \<Rightarrow> string \<Rightarrow>
   string \<Rightarrow> 'h supervisor \<Rightarrow> ('h, supervisor_binding) supervisor_update" where
  "rotate_binding_idempotent J pid uuid nonce now now2 previous owner epoch expires tid digest =
     run_transition (rotate_manifest J pid uuid) (\<lambda>m.
       unless_receipted m tid digest
         (and_then (exact now previous m) (\<lambda>_.
          and_then (next_epoch_manifest nonce now2 previous owner epoch expires m) (\<lambda>nxt.
          record_transition nxt tid digest)))) (bi_session previous)"

definition expired_exact :: "i64 \<Rightarrow> supervisor_binding \<Rightarrow> host_manifest \<Rightarrow> (string, unit) result" where
  "expired_exact now previous m =
     (if \<not> binding_matches previous m then Inl ''supervisor binding mismatch''
      else if hm_binding_expires_unix m > now then Inl ''supervisor binding has not expired''
      else Inr ())"

definition reclaim_expired_binding ::
  "json_text \<Rightarrow> u32 \<Rightarrow> string \<Rightarrow> string \<Rightarrow> i64 \<Rightarrow> i64 \<Rightarrow> supervisor_binding \<Rightarrow> string \<Rightarrow> u64 \<Rightarrow> i64 \<Rightarrow>
   'h supervisor \<Rightarrow> ('h, supervisor_binding) supervisor_update" where
  "reclaim_expired_binding J pid uuid nonce now now2 previous owner epoch expires =
     run_transition (rotate_manifest J pid uuid) (\<lambda>m.
       decided (and_then (expired_exact now previous m) (\<lambda>_.
         next_epoch_manifest nonce now2 previous owner epoch expires m))) (bi_session previous)"

definition reclaim_idempotent ::
  "json_text \<Rightarrow> u32 \<Rightarrow> string \<Rightarrow> string \<Rightarrow> i64 \<Rightarrow> i64 \<Rightarrow> supervisor_binding \<Rightarrow> string \<Rightarrow> u64 \<Rightarrow> i64 \<Rightarrow> string \<Rightarrow>
   string \<Rightarrow> 'h supervisor \<Rightarrow> ('h, supervisor_binding) supervisor_update" where
  "reclaim_idempotent J pid uuid nonce now now2 previous owner epoch expires tid digest =
     run_transition (rotate_manifest J pid uuid) (\<lambda>m.
       unless_receipted m tid digest
         (and_then (expired_exact now previous m) (\<lambda>_.
          and_then (next_epoch_manifest nonce now2 previous owner epoch expires m) (\<lambda>nxt.
          record_transition nxt tid digest)))) (bi_session previous)"

text \<open>Detaching keeps the owner and the expiry and does not look at the lifetimes.\<close>

definition detached_manifest ::
  "string \<Rightarrow> supervisor_binding \<Rightarrow> u64 \<Rightarrow> host_manifest \<Rightarrow> (string, host_manifest) result" where
  "detached_manifest nonce previous epoch m =
     and_then (rotate_epoch (bi_epoch previous) epoch) (\<lambda>_.
     and_then (successor nonce m (hm_owner_principal m) epoch (hm_binding_expires_unix m)) (\<lambda>nxt.
     Inr (nxt\<lparr>hm_controller_attached := False\<rparr>)))"

definition detach_binding ::
  "json_text \<Rightarrow> u32 \<Rightarrow> string \<Rightarrow> string \<Rightarrow> i64 \<Rightarrow> supervisor_binding \<Rightarrow> u64 \<Rightarrow> 'h supervisor \<Rightarrow>
   ('h, supervisor_binding) supervisor_update" where
  "detach_binding J pid uuid nonce now previous epoch =
     run_transition (rotate_manifest J pid uuid) (\<lambda>m.
       decided (and_then (exact now previous m) (\<lambda>_. detached_manifest nonce previous epoch m)))
       (bi_session previous)"

definition detach_idempotent ::
  "json_text \<Rightarrow> u32 \<Rightarrow> string \<Rightarrow> string \<Rightarrow> i64 \<Rightarrow> supervisor_binding \<Rightarrow> u64 \<Rightarrow> string \<Rightarrow> string \<Rightarrow> 'h supervisor \<Rightarrow>
   ('h, supervisor_binding) supervisor_update" where
  "detach_idempotent J pid uuid nonce now previous epoch tid digest =
     run_transition (rotate_manifest J pid uuid) (\<lambda>m.
       unless_receipted m tid digest
         (and_then (exact now previous m) (\<lambda>_.
          and_then (detached_manifest nonce previous epoch m) (\<lambda>nxt.
          record_transition nxt tid digest)))) (bi_session previous)"

definition detached_exact :: "i64 \<Rightarrow> supervisor_binding \<Rightarrow> host_manifest \<Rightarrow> (string, unit) result" where
  "detached_exact now previous m =
     and_then (exact_identity now previous m) (\<lambda>_.
     if hm_controller_attached m then Inl ''supervisor controller is still attached'' else Inr ())"

definition claim_detached_binding ::
  "json_text \<Rightarrow> u32 \<Rightarrow> string \<Rightarrow> string \<Rightarrow> i64 \<Rightarrow> i64 \<Rightarrow> supervisor_binding \<Rightarrow> string \<Rightarrow> u64 \<Rightarrow> i64 \<Rightarrow>
   'h supervisor \<Rightarrow> ('h, supervisor_binding) supervisor_update" where
  "claim_detached_binding J pid uuid nonce now now2 previous owner epoch expires =
     run_transition (rotate_manifest J pid uuid) (\<lambda>m.
       decided (and_then (detached_exact now previous m) (\<lambda>_.
         next_epoch_manifest nonce now2 previous owner epoch expires m))) (bi_session previous)"

definition claim_idempotent ::
  "json_text \<Rightarrow> u32 \<Rightarrow> string \<Rightarrow> string \<Rightarrow> i64 \<Rightarrow> i64 \<Rightarrow> supervisor_binding \<Rightarrow> string \<Rightarrow> u64 \<Rightarrow> i64 \<Rightarrow> string \<Rightarrow>
   string \<Rightarrow> 'h supervisor \<Rightarrow> ('h, supervisor_binding) supervisor_update" where
  "claim_idempotent J pid uuid nonce now now2 previous owner epoch expires tid digest =
     run_transition (rotate_manifest J pid uuid) (\<lambda>m.
       unless_receipted m tid digest
         (and_then (detached_exact now previous m) (\<lambda>_.
          and_then (next_epoch_manifest nonce now2 previous owner epoch expires m) (\<lambda>nxt.
          record_transition nxt tid digest)))) (bi_session previous)"

definition renew_idempotent ::
  "json_text \<Rightarrow> u32 \<Rightarrow> string \<Rightarrow> string \<Rightarrow> i64 \<Rightarrow> i64 \<Rightarrow> supervisor_binding \<Rightarrow> i64 \<Rightarrow> string \<Rightarrow> string \<Rightarrow>
   'h supervisor \<Rightarrow> ('h, supervisor_binding) supervisor_update" where
  "renew_idempotent J pid uuid nonce now now2 previous expires tid digest =
     run_transition (renew_manifest J pid uuid) (\<lambda>m.
       unless_receipted m tid digest
         (and_then (exact now previous m) (\<lambda>_.
          and_then (successor nonce m (hm_owner_principal m) (hm_controller_epoch m) expires) (\<lambda>nxt.
          and_then (validate_runtime_lifetimes nxt now2) (\<lambda>_.
          record_transition nxt tid digest))))) (bi_session previous)"

section \<open>Ending a host\<close>

definition receipt_matches :: "termination_receipt \<Rightarrow> supervisor_binding \<Rightarrow> bool" where
  "receipt_matches r b \<longleftrightarrow>
     tm_session_id r = bi_session b \<and> tm_device_id r = bi_device b
   \<and> tm_workspace_id r = bi_workspace b \<and> tm_owner_principal r = bi_owner b
   \<and> tm_host_nonce r = bi_nonce b \<and> tm_controller_epoch r = bi_epoch b"

definition terminate_idempotent ::
  "json_text \<Rightarrow> 'h host_ops \<Rightarrow> u32 \<Rightarrow> string \<Rightarrow> i64 \<Rightarrow> supervisor_binding \<Rightarrow> string \<Rightarrow> string \<Rightarrow> 'h supervisor \<Rightarrow>
   ('h, unit) supervisor_update" where
  "terminate_idempotent J ops pid uuid now b tid digest sv =
     (case map_of (sv_hosts sv) (bi_session b) of
        Some h \<Rightarrow>
          (case exact now b (hd_manifest h) of
             Inl e \<Rightarrow> Some (Inl e, sv)
           | Inr _ \<Rightarrow>
               let (r, host') = host_terminate ops (hd_host h);
                   sv1 = sv\<lparr>sv_hosts := AList.update (bi_session b) (h\<lparr>hd_host := host'\<rparr>) (sv_hosts sv)\<rparr>
               in case r of
                    Inl e \<Rightarrow> Some (Inl e, sv1)
                  | Inr _ \<Rightarrow>
                      (case record_termination J pid uuid (sv_root sv) (hd_spool h) tid digest (sv_device sv) of
                         None \<Rightarrow> None
                       | Some (Inl e, d) \<Rightarrow> Some (Inl e, sv1\<lparr>sv_device := d\<rparr>)
                       | Some (Inr _, d) \<Rightarrow>
                           Some (Inr (), sv1\<lparr>sv_device := d,
                             sv_hosts := AList.delete (bi_session b) (sv_hosts sv1)\<rparr>)))
      | None \<Rightarrow>
          (case read_termination_receipt J (sv_root sv) (bi_session b) (sv_device sv) of
             None \<Rightarrow> None
           | Some (Inl e, d) \<Rightarrow> Some (Inl e, sv\<lparr>sv_device := d\<rparr>)
           | Some (Inr None, d) \<Rightarrow> Some (Inl ''supervisor host unavailable'', sv\<lparr>sv_device := d\<rparr>)
           | Some (Inr (Some receipt), d) \<Rightarrow>
               Some
                 (if \<not> receipt_matches receipt b then Inl ''supervisor termination binding mismatch''
                  else if tm_transition_id receipt = tid \<and> tm_payload_digest receipt = digest then Inr ()
                  else if tm_transition_id receipt = tid then Inl ''supervisor termination id payload conflict''
                  else Inl ''supervisor host already terminated'', sv\<lparr>sv_device := d\<rparr>)))"

text \<open>
  The sweep: first, under both locks, the expired hosts move from the map to the list of the sweep
  and their ids to the in-flight set; then one host after the other is killed without a lock, and
  the outcome is entered under the locks.
\<close>

definition sweep_collect :: "i64 \<Rightarrow> 'h supervisor \<Rightarrow> 'h supervisor" where
  "sweep_collect now sv =
     (let expired = take MAX_HOSTS (filter (\<lambda>(_, h). hm_host_expires_unix (hd_manifest h) \<le> now) (sv_hosts sv))
      in sv\<lparr>sv_hosts := filter (\<lambda>(sid, _). sid \<notin> fst ` set expired) (sv_hosts sv),
            sv_terminating := map fst expired @ sv_terminating sv,
            sv_sweeping := sv_sweeping sv @ expired\<rparr>)"

definition sweep_settle :: "'h host_ops \<Rightarrow> 'h supervisor \<Rightarrow> 'h supervisor" where
  "sweep_settle ops sv =
     (case sv_sweeping sv of
        [] \<Rightarrow> sv
      | (sid, h) # rest \<Rightarrow>
          (case host_terminate ops (hd_host h) of
             (Inr _, _) \<Rightarrow> sv\<lparr>sv_sweeping := rest, sv_terminating := filter (\<lambda>x. x \<noteq> sid) (sv_terminating sv)\<rparr>
           | (Inl _, host') \<Rightarrow>
               sv\<lparr>sv_sweeping := rest,
                  sv_hosts := AList.update sid (h\<lparr>hd_host := host'\<rparr>) (sv_hosts sv),
                  sv_terminating := filter (\<lambda>x. x \<noteq> sid) (sv_terminating sv)\<rparr>))"

fun settle_all :: "nat \<Rightarrow> 'h host_ops \<Rightarrow> 'h supervisor \<Rightarrow> 'h supervisor" where
  "settle_all 0 ops sv = sv"
| "settle_all (Suc n) ops sv = settle_all n ops (sweep_settle ops sv)"

text \<open>A sweep that nothing interleaves with.\<close>

definition sweep_expired :: "'h host_ops \<Rightarrow> i64 \<Rightarrow> 'h supervisor \<Rightarrow> 'h supervisor" where
  "sweep_expired ops now sv = (let sv1 = sweep_collect now sv in settle_all (length (sv_sweeping sv1)) ops sv1)"

text \<open>
  The liveness probe: the host map under its lock, then, when the host is not there, the in-flight
  set under the other.
\<close>

definition probe_hosts :: "'h supervisor \<Rightarrow> string \<Rightarrow> bool" where
  "probe_hosts sv sid \<longleftrightarrow> map_of (sv_hosts sv) sid \<noteq> None"

definition probe_terminating :: "'h supervisor \<Rightarrow> string \<Rightarrow> bool" where
  "probe_terminating sv sid \<longleftrightarrow> sid \<in> set (sv_terminating sv)"

definition host_live :: "'h supervisor \<Rightarrow> 'h supervisor \<Rightarrow> string \<Rightarrow> bool" where
  "host_live sv sv' sid \<longleftrightarrow> (if probe_hosts sv sid then True else probe_terminating sv' sid)"

end
