(* ===== verification/Supervisor_Ipc.thy ===== *)
theory Supervisor_Ipc
  imports Supervisor
begin

text \<open>
  The requests that the session supervisor answers,
  \<open>crates/ownmesh-session-host/src/supervisor_ipc.rs\<close>: who may send them, which bounds they are
  checked against, the digest that names the payload of a transition, and the operation of
  \<open>Supervisor\<close> that each of them reaches.

  A request stands here as the parameters that the reader of JSON delivers for its method; a
  value that it does not accept is refused before the dispatch, and so is \<open>Unknown\<close> for every
  other method name.  The hash function is a parameter.
\<close>

section \<open>Requests\<close>

definition SUPERVISOR_DAEMON_PRINCIPAL :: string where
  "SUPERVISOR_DAEMON_PRINCIPAL = ''client:ownmeshd-session-supervisor''"
definition MAX_COMMAND_ARGS :: nat where "MAX_COMMAND_ARGS = 64"
definition MAX_COMMAND_ENV :: nat where "MAX_COMMAND_ENV = 64"
definition MAX_COMPONENT_BYTES :: nat where "MAX_COMPONENT_BYTES = 4096"
definition MAX_DRAIN_BYTES :: nat where "MAX_DRAIN_BYTES = 1024 * 1024"
definition METHOD_NOT_FOUND :: i64 where "METHOD_NOT_FOUND = -32601"
definition INVALID_PARAMS :: i64 where "INVALID_PARAMS = -32602"

datatype ipc_error =
    IpcIo string | IpcFraming string | IpcCodec string | Unauthorized string | IpcTimeout | IpcCancelled
  | Remote i64 string | IpcProtocol string | IpcDisconnected string

record supervisor_env =
  ev_key :: string
  ev_value :: string

record supervisor_command =
  co_program :: string
  co_args :: "string list"
  co_cwd :: "string option"
  co_env :: "supervisor_env list"

record supervisor_spawn_request =
  sr_session_id :: string
  sr_device_id :: string
  sr_workspace_id :: string
  sr_owner_principal :: string
  sr_controller_epoch :: u64
  sr_binding_expires_unix :: i64
  sr_host_expires_unix :: i64
  sr_command :: supervisor_command
  sr_cols :: u16
  sr_rows :: u16
  sr_io_mode :: host_io_mode

record rotate_params =
  rp_binding :: supervisor_binding
  rp_owner_principal :: string
  rp_controller_epoch :: u64
  rp_binding_expires_unix :: i64
  rp_transition_id :: string

datatype supervisor_request =
    Spawn supervisor_spawn_request
  | Status supervisor_binding
  | HostLive string
  | WriteReq supervisor_binding bytes
  | Resize supervisor_binding u16 u16
  | Drain supervisor_binding u64 nat "string option"
  | Terminate supervisor_binding string
  | Rotate rotate_params
  | Reclaim rotate_params
  | Detach supervisor_binding u64 string
  | Claim rotate_params
  | Renew supervisor_binding i64 string
  | Unknown

datatype supervisor_reply =
    BindingReply supervisor_binding
  | StatusReply supervisor_status
  | LiveReply bool
  | PageReply spool_page
  | OkReply

section \<open>Bounds\<close>

definition invalid :: "string \<Rightarrow> ipc_error" where
  "invalid message = Remote INVALID_PARAMS message"

definition require_component :: "string \<Rightarrow> string \<Rightarrow> (ipc_error, unit) result" where
  "require_component value fld =
     (if value = [] \<or> length value > MAX_COMPONENT_BYTES \<or> has_control value
      then Inl (invalid (''invalid supervisor '' @ fld)) else Inr ())"

definition validate_spawn :: "supervisor_spawn_request \<Rightarrow> (ipc_error, unit) result" where
  "validate_spawn p =
     and_then (try_each (\<lambda>(fld, value). require_component value fld)
       [(''session_id'', sr_session_id p), (''device_id'', sr_device_id p),
        (''workspace_id'', sr_workspace_id p), (''owner_principal'', sr_owner_principal p),
        (''program'', co_program (sr_command p))]) (\<lambda>_.
     if length (co_args (sr_command p)) > MAX_COMMAND_ARGS \<or> length (co_env (sr_command p)) > MAX_COMMAND_ENV
      \<or> sr_cols p = 0 \<or> sr_rows p = 0 \<or> sr_cols p > 512 \<or> sr_rows p > 512
     then Inl (invalid ''supervisor spawn exceeds bounds'')
     else
       and_then (try_each (\<lambda>value. require_component value ''command component'')
         (co_args (sr_command p) @ concat (map (\<lambda>e. [ev_key e, ev_value e]) (co_env (sr_command p))))) (\<lambda>_.
       case co_cwd (sr_command p) of
         None \<Rightarrow> Inr ()
       | Some cwd \<Rightarrow> require_component cwd ''cwd''))"

definition require_transition_id :: "string \<Rightarrow> (ipc_error, unit) result" where
  "require_transition_id value =
     (if value = [] \<or> length value > 128 \<or> has_control value
      then Inl (invalid ''invalid supervisor transition id'') else Inr ())"

section \<open>Digests\<close>

text \<open>The map of a JSON value is sorted by key, so the printed fields are.\<close>

definition supervisor_binding_to_json :: "supervisor_binding \<Rightarrow> json" where
  "supervisor_binding_to_json b =
     JObj [(''controller_epoch'', of_word (bi_epoch b)), (''device_id'', JStr (bi_device b)),
           (''host_nonce'', JStr (bi_nonce b)), (''owner_principal'', JStr (bi_owner b)),
           (''session_id'', JStr (bi_session b)), (''workspace_id'', JStr (bi_workspace b))]"

record 'h sidecar =
  sc_json :: json_text
  sc_sha256_hex :: "bytes \<Rightarrow> string"
  sc_ops :: "'h host_ops"
  sc_os :: os_probe
  sc_pid :: u32

definition digest_value :: "'h sidecar \<Rightarrow> json \<Rightarrow> string" where
  "digest_value sc v = sc_sha256_hex sc (jt_render (sc_json sc) v)"

definition transition_digest :: "'h sidecar \<Rightarrow> rotate_params \<Rightarrow> string" where
  "transition_digest sc p =
     digest_value sc
       (JObj [(''binding'', supervisor_binding_to_json (rp_binding p)),
              (''binding_expires_unix'', JInt (rp_binding_expires_unix p)),
              (''controller_epoch'', of_word (rp_controller_epoch p)),
              (''owner_principal'', JStr (rp_owner_principal p))])"

definition detach_digest :: "'h sidecar \<Rightarrow> supervisor_binding \<Rightarrow> u64 \<Rightarrow> string" where
  "detach_digest sc b epoch =
     digest_value sc (JObj [(''binding'', supervisor_binding_to_json b), (''controller_epoch'', of_word epoch)])"

definition renew_digest :: "'h sidecar \<Rightarrow> supervisor_binding \<Rightarrow> i64 \<Rightarrow> string" where
  "renew_digest sc b expires =
     digest_value sc (JObj [(''binding'', supervisor_binding_to_json b), (''binding_expires_unix'', JInt expires)])"

definition terminate_digest :: "'h sidecar \<Rightarrow> supervisor_binding \<Rightarrow> string" where
  "terminate_digest sc b = digest_value sc (JObj [(''binding'', supervisor_binding_to_json b)])"

section \<open>Dispatch\<close>

text \<open>
  What a call draws from its surroundings: the clock at its first and its second reading, the
  random parts of a nonce and of a temporary name, and the host that the operating system starts.
\<close>

record 'h draw =
  dw_now :: i64
  dw_now2 :: i64
  dw_nonce :: string
  dw_uuid :: string
  dw_spawned :: "(string, 'h) result"

type_synonym 'h ipc_update = "((ipc_error, supervisor_reply) result \<times> 'h supervisor) option"

definition reply ::
  "('a \<Rightarrow> supervisor_reply) \<Rightarrow> ('h, 'a) supervisor_update \<Rightarrow> 'h ipc_update" where
  "reply f r = map_option (map_prod (map_sum invalid f) id) r"

definition guarded ::
  "(ipc_error, unit) result \<Rightarrow> 'h supervisor \<Rightarrow> 'h ipc_update \<Rightarrow> 'h ipc_update" where
  "guarded check sv rest = (case check of Inl e \<Rightarrow> Some (Inl e, sv) | Inr _ \<Rightarrow> rest)"

definition drain_stream :: "string option \<Rightarrow> (ipc_error, bool) result" where
  "drain_stream stream =
     (if stream = None \<or> stream = Some ''stdout'' then Inr False
      else if stream = Some ''stderr'' then Inr True
      else Inl (invalid ''invalid supervisor drain stream''))"

fun dispatch :: "'h sidecar \<Rightarrow> 'h draw \<Rightarrow> supervisor_request \<Rightarrow> 'h supervisor \<Rightarrow> 'h ipc_update" where
  "dispatch sc dw (Spawn p) sv =
     guarded (validate_spawn p) sv
       (case manifest_new (dw_nonce dw) (sr_session_id p) (sr_device_id p) (sr_workspace_id p)
               (sr_owner_principal p) (sr_controller_epoch p) (sr_binding_expires_unix p)
               (sr_host_expires_unix p) of
          Inl e \<Rightarrow> Some (Inl (invalid e), sv)
        | Inr m \<Rightarrow>
            reply BindingReply
              (spawn_with_io (sc_json sc) (dw_now dw) (m\<lparr>hm_io_mode := sr_io_mode p\<rparr>) (sr_io_mode p)
                 (dw_spawned dw) sv))"
| "dispatch sc dw (Status b) sv = reply StatusReply (reattach (sc_ops sc) (sc_os sc) (dw_now dw) b sv)"
| "dispatch sc dw (HostLive sid) sv =
     guarded (require_component sid ''session_id'') sv (Some (Inr (LiveReply (host_live sv sv sid)), sv))"
| "dispatch sc dw (WriteReq b bytes) sv =
     (if length bytes > 64 * 1024 then Some (Inl (invalid ''supervisor stdin frame exceeds budget''), sv)
      else reply (\<lambda>_. OkReply) (supervisor_write (sc_ops sc) (dw_now dw) b bytes sv))"
| "dispatch sc dw (Resize b cols rows) sv =
     reply (\<lambda>_. OkReply) (supervisor_resize (sc_ops sc) (dw_now dw) b cols rows sv)"
| "dispatch sc dw (Drain b offset max_bytes stream) sv =
     (if max_bytes = 0 \<or> max_bytes > MAX_DRAIN_BYTES
      then Some (Inl (invalid ''invalid supervisor drain budget''), sv)
      else
        case drain_stream stream of
          Inl e \<Rightarrow> Some (Inl e, sv)
        | Inr stderr \<Rightarrow>
            reply PageReply
              (supervisor_drain (sc_ops sc) (sc_pid sc) (dw_uuid dw) (dw_now dw) b offset max_bytes stderr sv))"
| "dispatch sc dw (Terminate b tid) sv =
     guarded (require_transition_id tid) sv
       (reply (\<lambda>_. OkReply)
         (terminate_idempotent (sc_json sc) (sc_ops sc) (sc_pid sc) (dw_uuid dw) (dw_now dw) b tid
            (terminate_digest sc b) sv))"
| "dispatch sc dw (Rotate p) sv =
     guarded (require_component (rp_owner_principal p) ''owner_principal'') sv
       (guarded (require_transition_id (rp_transition_id p)) sv
         (reply BindingReply
           (rotate_binding_idempotent (sc_json sc) (sc_pid sc) (dw_uuid dw) (dw_nonce dw) (dw_now dw) (dw_now2 dw)
              (rp_binding p) (rp_owner_principal p) (rp_controller_epoch p) (rp_binding_expires_unix p)
              (rp_transition_id p) (transition_digest sc p) sv)))"
| "dispatch sc dw (Reclaim p) sv =
     guarded (require_component (rp_owner_principal p) ''owner_principal'') sv
       (guarded (require_transition_id (rp_transition_id p)) sv
         (reply BindingReply
           (reclaim_idempotent (sc_json sc) (sc_pid sc) (dw_uuid dw) (dw_nonce dw) (dw_now dw) (dw_now2 dw)
              (rp_binding p) (rp_owner_principal p) (rp_controller_epoch p) (rp_binding_expires_unix p)
              (rp_transition_id p) (transition_digest sc p) sv)))"
| "dispatch sc dw (Detach b epoch tid) sv =
     guarded (require_transition_id tid) sv
       (reply BindingReply
         (detach_idempotent (sc_json sc) (sc_pid sc) (dw_uuid dw) (dw_nonce dw) (dw_now dw) b epoch tid
            (detach_digest sc b epoch) sv))"
| "dispatch sc dw (Claim p) sv =
     guarded (require_component (rp_owner_principal p) ''owner_principal'') sv
       (guarded (require_transition_id (rp_transition_id p)) sv
         (reply BindingReply
           (claim_idempotent (sc_json sc) (sc_pid sc) (dw_uuid dw) (dw_nonce dw) (dw_now dw) (dw_now2 dw)
              (rp_binding p) (rp_owner_principal p) (rp_controller_epoch p) (rp_binding_expires_unix p)
              (rp_transition_id p) (transition_digest sc p) sv)))"
| "dispatch sc dw (Renew b expires tid) sv =
     guarded (require_transition_id tid) sv
       (reply BindingReply
         (renew_idempotent (sc_json sc) (sc_pid sc) (dw_uuid dw) (dw_nonce dw) (dw_now dw) (dw_now2 dw) b expires
            tid (renew_digest sc b expires) sv))"
| "dispatch sc dw Unknown sv = Some (Inl (Remote METHOD_NOT_FOUND ''unknown session supervisor method''), sv)"

definition supervisor_handler ::
  "'h sidecar \<Rightarrow> 'h draw \<Rightarrow> string \<Rightarrow> supervisor_request \<Rightarrow> 'h supervisor \<Rightarrow> 'h ipc_update" where
  "supervisor_handler sc dw principal_key req sv =
     (if principal_key \<noteq> SUPERVISOR_DAEMON_PRINCIPAL
      then Some (Inl (Unauthorized ''session supervisor requires dedicated ownmeshd credential''), sv)
      else dispatch sc dw req sv)"

text \<open>
  Everything that changes the state of a running sidecar: a request, or one of the two kinds of
  step of the sweep that runs beside the requests.
\<close>

datatype 'h sidecar_event =
    Request string supervisor_request "'h draw"
  | SweepCollect i64
  | SweepSettle

fun sidecar_exec :: "'h sidecar \<Rightarrow> 'h supervisor \<Rightarrow> 'h sidecar_event \<Rightarrow> 'h supervisor" where
  "sidecar_exec sc sv (Request key req dw) =
     (case supervisor_handler sc dw key req sv of None \<Rightarrow> sv | Some (_, sv') \<Rightarrow> sv')"
| "sidecar_exec sc sv (SweepCollect now) = sweep_collect now sv"
| "sidecar_exec sc sv SweepSettle = sweep_settle (sc_ops sc) sv"

end
