(* ===== verification/Supervisor_Steps.thy ===== *)
theory Supervisor_Steps
  imports Supervisor_Ipc
begin

text \<open>
  Every operation of the supervisor as one of six kinds of step on its table of hosts and its
  device.  The directory of a session, once created, is never removed by any of them, so a session
  id is never used for a second host.
\<close>

section \<open>Entries that stay\<close>

text \<open>An operation that never makes the entry \<open>k\<close> disappear from a device.\<close>

definition keeps :: "string \<Rightarrow> ('e, 'a) action \<Rightarrow> bool" where
  "keeps k m \<longleftrightarrow> (\<forall>d r d'. m d = Some (r, d') \<longrightarrow> content d k \<noteq> None \<longrightarrow> content d' k \<noteq> None)"

named_theorems keeps_intros

lemma keepsD: "keeps k m \<Longrightarrow> m d = Some (r, d') \<Longrightarrow> content d k \<noteq> None \<Longrightarrow> content d' k \<noteq> None"
  by (simp add: keeps_def)

lemma keeps_trivial [keeps_intros]:
  "keeps k (io_return a)" "keeps k (io_fail e)" "keeps k (io_lift r)"
  by (simp_all add: keeps_def io_return_def io_fail_def io_lift_def)

lemma keeps_catch [keeps_intros]:
  assumes "keeps k m" and "\<And>a. keeps k (f a)" and "\<And>e. keeps k (g e)"
  shows "keeps k (io_catch m f g)"
  unfolding keeps_def
proof (intro allI impI)
  fix d r d'
  assume run: "io_catch m f g d = Some (r, d')" and k: "content d k \<noteq> None"
  from run obtain x d1 where x: "m d = Some (x, d1)"
    by (cases "m d") (auto simp: io_catch_def)
  with keepsD [OF assms(1)] k have k1: "content d1 k \<noteq> None" by blast
  show "content d' k \<noteq> None"
  proof (cases x)
    case (Inl e)
    with run x have "g e d1 = Some (r, d')" by (simp add: io_catch_def)
    with keepsD [OF assms(3)] k1 show ?thesis by blast
  next
    case (Inr a)
    with run x have "f a d1 = Some (r, d')" by (simp add: io_catch_def)
    with keepsD [OF assms(2)] k1 show ?thesis by blast
  qed
qed

lemma io_bind_catch: "io_bind m f = io_catch m f io_fail"
  by (rule ext) (simp add: io_bind_def io_catch_def io_fail_def split: option.splits sum.splits)

lemma keeps_bind [keeps_intros]: "keeps k m \<Longrightarrow> (\<And>a. keeps k (f a)) \<Longrightarrow> keeps k (io_bind m f)"
  by (simp add: io_bind_catch keeps_catch keeps_trivial)

lemma keeps_map_err [keeps_intros]: "keeps k m \<Longrightarrow> keeps k (map_err f m)"
  by (simp add: map_err_def keeps_intros)

lemma keeps_ignore [keeps_intros]: "keeps k m \<Longrightarrow> keeps k (io_ignore m)"
  by (auto simp: keeps_def io_ignore_def)

lemma keeps_if [keeps_intros]: "(c \<Longrightarrow> keeps k m) \<Longrightarrow> (\<not> c \<Longrightarrow> keeps k n) \<Longrightarrow> keeps k (if c then m else n)"
  by simp

lemma keeps_lambda: "(\<And>d. \<exists>m. f d = m d \<and> keeps k m) \<Longrightarrow> keeps k f"
  unfolding keeps_def by metis

lemma keeps_system_call:
  assumes "\<And>fs. map_of fs k \<noteq> None \<Longrightarrow> map_of (s fs) k \<noteq> None"
    and "\<And>n fs. map_of fs k \<noteq> None \<Longrightarrow> map_of (e n fs) k \<noteq> None"
  shows "keeps k (system_call s e)"
  using assms by (auto simp: keeps_def system_call_def content_def split: list.splits option.splits)

lemma keeps_check [keeps_intros]: "keeps k io_check"
  unfolding io_check_def by (rule keeps_system_call) auto

lemma keeps_checks [keeps_intros]: "keeps k (io_checks n)"
  by (induction n) (auto intro: keeps_intros)

lemma keeps_write_all [keeps_intros]: "keeps k (write_all p b)"
  unfolding write_all_def by (rule keeps_system_call) (auto simp: update_conv')

lemma keeps_remove_file: "p \<noteq> k \<Longrightarrow> keeps k (remove_file p)"
  unfolding remove_file_def by (rule keeps_system_call) (auto simp: delete_conv')

lemma keeps_rename_file: "p \<noteq> k \<Longrightarrow> keeps k (rename_file p q)"
  unfolding rename_file_def by (rule keeps_system_call) (auto simp: update_conv' delete_conv')

lemma keeps_create_new [keeps_intros]: "keeps k (create_new p)"
proof (rule keeps_lambda)
  fix d
  have "keeps k (system_call (AList.update p []) (\<lambda>_. id))"
    by (rule keeps_system_call) (auto simp: update_conv')
  then show "\<exists>m. create_new p d = m d \<and> keeps k m"
    by (cases "content d p = None") (auto simp: create_new_def keeps_def)
qed

lemma keeps_prepare [keeps_intros]: "keeps k (prepare_owner_only_state_dir dir)"
  unfolding prepare_owner_only_state_dir_def
  by (rule keeps_system_call) (auto simp: ensure_directory_def update_conv')

lemma keeps_owner_write:
  assumes "owner_temp_path p u t \<noteq> k"
  shows "keeps k (owner_write p u t b)"
proof -
  have opt: "keeps k (\<lambda>d. if content d t \<noteq> None then io_check d else io_return () d)"
    by (rule keeps_lambda) (auto intro: keeps_intros)
  from assms show ?thesis
    unfolding owner_write_def atomic_write_owner_only_def
    by (intro keeps_intros opt keeps_remove_file keeps_rename_file)
qed

lemma keeps_create_file:
  "path \<noteq> k \<Longrightarrow> keeps k (create_owner_only_file_new path b)"
  unfolding create_owner_only_file_new_def by (intro keeps_intros keeps_remove_file)

lemma keeps_read_bounded [keeps_intros]: "keeps k (read_owner_only_file_bounded p m)"
proof -
  have "keeps k (\<lambda>d. case content d p of
          None \<Rightarrow> io_fail (IoError ''No such file or directory (os error 2)'') d
        | Some bytes \<Rightarrow>
            if length bytes > m
            then io_fail (IoError (''owner-only file exceeds '' @ dec m @ '' byte budget: '' @ p)) d
            else io_bind io_check (\<lambda>_. io_return bytes) d)"
  proof (rule keeps_lambda)
    fix d
    show "\<exists>n. (case content d p of
          None \<Rightarrow> io_fail (IoError ''No such file or directory (os error 2)'') d
        | Some bytes \<Rightarrow>
            if length bytes > m
            then io_fail (IoError (''owner-only file exceeds '' @ dec m @ '' byte budget: '' @ p)) d
            else io_bind io_check (\<lambda>_. io_return bytes) d) = n d \<and> keeps k n"
      by (cases "content d p") (auto split: if_splits intro: keeps_intros)
  qed
  then show ?thesis unfolding read_owner_only_file_bounded_def by (intro keeps_intros)
qed

text \<open>The directory of a session is such an entry: no file has its name.\<close>

definition session_entry :: "string \<Rightarrow> string \<Rightarrow> string" where
  "session_entry root sid = directory_entry (path_join root sid)"

lemma path_join_not_entry:
  "name \<noteq> [] \<Longrightarrow> last name \<noteq> CHR ''/'' \<Longrightarrow> path_join dir name \<noteq> directory_entry x"
  by (auto simp: path_join_def directory_entry_def dest!: arg_cong [of _ _ last])

lemma owner_temp_path_not_entry: "CHR ''/'' \<notin> set u \<Longrightarrow> owner_temp_path p u t \<noteq> directory_entry x"
proof
  assume u: "CHR ''/'' \<notin> set u" and e: "owner_temp_path p u t = directory_entry x"
  have "last (owner_temp_path p u t) = (if u = [] then CHR ''-'' else last u)"
    by (simp add: owner_temp_path_def Let_def)
  with u e show False by (auto simp: directory_entry_def split: if_splits dest: last_in_set)
qed

lemmas spool_files =
  MANIFEST_FILE_def SPOOL_FILE_def STDERR_SPOOL_FILE_def CLAIM_FILE_def TERMINATION_FILE_def

lemma keeps_session_file [keeps_intros]:
  "name \<in> {MANIFEST_FILE, SPOOL_FILE, STDERR_SPOOL_FILE, CLAIM_FILE} \<Longrightarrow>
   keeps (directory_entry x) (create_owner_only_file_new (path_join dir name) b)"
  by (rule keeps_create_file, rule path_join_not_entry) (auto simp: spool_files)

lemma keeps_session_write [keeps_intros]:
  "CHR ''/'' \<notin> set u \<Longrightarrow> keeps (directory_entry x) (owner_write p u t b)"
  by (rule keeps_owner_write) (rule owner_temp_path_not_entry)

lemma keeps_case_option [keeps_intros]:
  "keeps k m \<Longrightarrow> (\<And>x. keeps k (f x)) \<Longrightarrow> keeps k (case v of None \<Rightarrow> m | Some x \<Rightarrow> f x)"
  by (cases v) auto

lemma keeps_case_prod [keeps_intros]: "(\<And>x y. keeps k (f x y)) \<Longrightarrow> keeps k (case v of (x, y) \<Rightarrow> f x y)"
  by (cases v) auto

lemma keeps_let [keeps_intros]: "keeps k (f v) \<Longrightarrow> keeps k (let x = v in f x)"
  by simp

lemma keeps_read_state [keeps_intros]: "keeps k (spool_read_state s)"
  unfolding spool_read_state_def by (intro keeps_intros)

lemma keeps_page [keeps_intros]: "keeps k (read_page off n s)"
  unfolding read_page_def by (intro keeps_intros)

lemma keeps_append [keeps_intros]:
  "CHR ''/'' \<notin> set u \<Longrightarrow> keeps (directory_entry x) (spool_append p u b s)"
  unfolding spool_append_def by (intro keeps_intros)

lemma keeps_rotate [keeps_intros]:
  "CHR ''/'' \<notin> set u \<Longrightarrow> keeps (directory_entry x) (rotate_manifest J p u nxt s)"
  unfolding rotate_manifest_def by (intro keeps_intros)

lemma keeps_renew [keeps_intros]:
  "CHR ''/'' \<notin> set u \<Longrightarrow> keeps (directory_entry x) (renew_manifest J p u nxt s)"
  unfolding renew_manifest_def by (intro keeps_intros)

lemma keeps_open [keeps_intros]: "keeps k (spool_open J root sid)"
  unfolding spool_open_def by (intro keeps_intros)

lemma keeps_stderr [keeps_intros]: "keeps (directory_entry x) (create_stderr J root sid)"
  unfolding create_stderr_def by (intro keeps_intros) auto

lemma keeps_receipt [keeps_intros]: "keeps k (read_termination_receipt J root sid)"
proof -
  have "keeps k (\<lambda>d1. if content d1 f = None then io_return None d1
           else io_bind (map_err g (read_owner_only_file_bounded f n)) h d1)"
    if "\<And>b. keeps k (h b)" for f n g and h :: "bytes \<Rightarrow> (string, termination_receipt option) action"
    by (rule keeps_lambda) (use that in \<open>auto intro: keeps_intros\<close>)
  note inner = this
  show ?thesis
  proof (rule keeps_lambda, goal_cases)
    case (1 d)
    show ?case
      unfolding read_termination_receipt_def Let_def
      by (auto split: if_splits intro!: keeps_intros inner)
  qed
qed

lemma keeps_termination [keeps_intros]:
  "CHR ''/'' \<notin> set u \<Longrightarrow> keeps (directory_entry x) (record_termination J p u root s tid dg)"
  unfolding record_termination_def by (intro keeps_intros)

definition kept :: "device \<Rightarrow> device \<Rightarrow> bool" where
  "kept d d' \<longleftrightarrow> (\<forall>x. content d (directory_entry x) \<noteq> None \<longrightarrow> content d' (directory_entry x) \<noteq> None)"

lemma kept_refl [simp]: "kept d d"
  by (simp add: kept_def)

lemma kept_trans: "kept d d1 \<Longrightarrow> kept d1 d2 \<Longrightarrow> kept d d2"
  by (simp add: kept_def)

lemma keptI: "(\<And>x. keeps (directory_entry x) m) \<Longrightarrow> m d = Some (r, d') \<Longrightarrow> kept d d'"
  by (auto simp: kept_def dest: keepsD)

lemma kept_session: "kept d d' \<Longrightarrow> content d (session_entry root sid) \<noteq> None \<Longrightarrow> content d' (session_entry root sid) \<noteq> None"
  by (simp add: kept_def session_entry_def)

text \<open>The part of \<open>spool_create\<close> after the directory of the session has been created.\<close>

definition fill_directory :: "json_text \<Rightarrow> string \<Rightarrow> host_manifest \<Rightarrow> unit \<Rightarrow> (string, owner_spool) action" where
  "fill_directory J dir manifest = (\<lambda>_.
     io_bind
       (io_catch (prepare_owner_only_state_dir dir) io_return
          (\<lambda>e. io_bind (io_ignore (remove_file (directory_entry dir))) (\<lambda>_.
                io_fail (''attest supervisor session spool: '' @ io_text e)))) (\<lambda>_.
     io_bind (map_err (\<lambda>e. ''claim supervisor session spool: '' @ io_text e)
       (create_owner_only_file_new (path_join dir CLAIM_FILE) (as_bytes (hm_host_nonce manifest)))) (\<lambda>_.
     io_bind (map_err (\<lambda>e. ''write supervisor manifest: '' @ io_text e)
       (create_owner_only_file_new (path_join dir MANIFEST_FILE) (jt_render J (manifest_to_json manifest)))) (\<lambda>_.
     io_bind (map_err (\<lambda>e. ''create supervisor spool: '' @ io_text e)
       (create_owner_only_file_new (path_join dir SPOOL_FILE) (encode_spool 0 []))) (\<lambda>_.
     io_return \<lparr>os_dir = dir, os_manifest = manifest, os_payload_file = SPOOL_FILE\<rparr>)))))"

lemma spool_create_split:
  "spool_create J root m =
     io_bind (io_lift (manifest_validate m)) (\<lambda>_.
     io_bind (map_err (\<lambda>e. ''prepare spool root: '' @ io_text e) (prepare_owner_only_state_dir root)) (\<lambda>_.
     io_bind
       (map_err (\<lambda>e. if e = AlreadyExists
                     then ''supervisor spool already exists (duplicate host refused)''
                     else ''create supervisor session spool: '' @ io_text e)
          (create_dir (path_join root (hm_session_id m))))
       (fill_directory J (path_join root (hm_session_id m)) m)))"
  unfolding spool_create_def fill_directory_def Let_def by (rule refl)

lemma keeps_fill: "x \<noteq> dir \<Longrightarrow> keeps (directory_entry x) (fill_directory J dir m u)"
  unfolding fill_directory_def
  by (intro keeps_intros keeps_remove_file) (auto simp: directory_entry_def)

lemma keeps_spool_create [keeps_intros]: "keeps (directory_entry x) (spool_create J root m)"
proof -
  let ?dir = "path_join root (hm_session_id m)"
  have "keeps (directory_entry x) (io_bind (map_err g (create_dir ?dir)) (fill_directory J ?dir m))" for g
  proof (cases "x = ?dir")
    case True
    then show ?thesis
      by (auto simp: keeps_def io_bind_def map_err_result create_dir_def create_new_def)
  next
    case False
    then show ?thesis unfolding create_dir_def by (intro keeps_intros keeps_fill)
  qed
  note rest = this
  show ?thesis
    unfolding spool_create_split by (rule keeps_bind keeps_map_err keeps_trivial keeps_prepare rest)+
qed

lemma fill_directory_stays:
  assumes "fill_directory J dir m u d = Some (Inr s, d')" and "content d (directory_entry dir) \<noteq> None"
  shows "content d' (directory_entry dir) \<noteq> None"
proof -
  let ?k = "directory_entry dir"
  let ?files = "io_bind (map_err (\<lambda>e. ''claim supervisor session spool: '' @ io_text e)
       (create_owner_only_file_new (path_join dir CLAIM_FILE) (as_bytes (hm_host_nonce m)))) (\<lambda>_.
     io_bind (map_err (\<lambda>e. ''write supervisor manifest: '' @ io_text e)
       (create_owner_only_file_new (path_join dir MANIFEST_FILE) (jt_render J (manifest_to_json m)))) (\<lambda>_.
     io_bind (map_err (\<lambda>e. ''create supervisor spool: '' @ io_text e)
       (create_owner_only_file_new (path_join dir SPOOL_FILE) (encode_spool 0 []))) (\<lambda>_.
     io_return \<lparr>os_dir = dir, os_manifest = m, os_payload_file = SPOOL_FILE\<rparr>)))"
  obtain d1 where d1: "io_catch (prepare_owner_only_state_dir dir) io_return
      (\<lambda>e. io_bind (io_ignore (remove_file ?k)) (\<lambda>_. io_fail (''attest supervisor session spool: '' @ io_text e))) d
        = Some (Inr (), d1)" and files: "?files d1 = Some (Inr s, d')"
    using assms(1) unfolding fill_directory_def io_bind_Inr_iff [of _ _ d] by auto
  have "prepare_owner_only_state_dir dir d = Some (Inr (), d1)"
    using d1 by (auto simp: io_catch_def io_return_def io_bind_def io_ignore_def io_fail_def
        split: option.splits sum.splits)
  then have "content d1 ?k \<noteq> None" using assms(2) keeps_prepare keepsD by blast
  moreover have "keeps ?k ?files" by (intro keeps_intros) auto
  ultimately show ?thesis using files keepsD by blast
qed

lemma spool_create_new:
  assumes "spool_create J root m d = Some (Inr s, d')"
  shows "manifest_validate m = Inr ()"
    and "s = \<lparr>os_dir = path_join root (hm_session_id m), os_manifest = m, os_payload_file = SPOOL_FILE\<rparr>"
    and "content d (session_entry root (hm_session_id m)) = None"
    and "content d' (session_entry root (hm_session_id m)) \<noteq> None"
proof -
  let ?dir = "path_join root (hm_session_id m)"
  obtain d1 d2 where v: "manifest_validate m = Inr ()"
    and d1: "prepare_owner_only_state_dir root d = Some (Inr (), d1)"
    and d2: "create_dir ?dir d1 = Some (Inr (), d2)"
    and fill: "fill_directory J ?dir m () d2 = Some (Inr s, d')"
    using assms unfolding spool_create_split by (auto simp: io_Inr_iff io_lift_def)
  show "manifest_validate m = Inr ()" by (rule v)
  show "s = \<lparr>os_dir = ?dir, os_manifest = m, os_payload_file = SPOOL_FILE\<rparr>"
    using fill by (auto simp: fill_directory_def io_Inr_iff io_return_def)
  have "content d1 (directory_entry ?dir) = None \<and> content d2 (directory_entry ?dir) \<noteq> None"
    using d2 by (auto simp: create_dir_def create_new_def system_call_def content_def update_conv'
        split: if_splits list.splits option.splits)
  then show "content d (session_entry root (hm_session_id m)) = None"
    and "content d' (session_entry root (hm_session_id m)) \<noteq> None"
    using keepsD [OF keeps_prepare d1, of "directory_entry ?dir"] fill_directory_stays [OF fill]
    unfolding session_entry_def by blast+
qed

section \<open>The steps of a sidecar\<close>

text \<open>
  A manifest handed on: the identity of the host stays, the nonce is new, and either the epoch
  grows or, at a renewal, the owner stays too.
\<close>

definition handed :: "string \<Rightarrow> host_manifest \<Rightarrow> host_manifest \<Rightarrow> bool" where
  "handed n m nxt \<longleftrightarrow>
     manifest_validate nxt = Inr ()
   \<and> hm_session_id nxt = hm_session_id m \<and> hm_device_id nxt = hm_device_id m
   \<and> hm_workspace_id nxt = hm_workspace_id m \<and> hm_host_expires_unix nxt = hm_host_expires_unix m
   \<and> hm_host_nonce nxt = ''host_'' @ n
   \<and> (hm_controller_epoch m < hm_controller_epoch nxt
      \<or> hm_controller_epoch nxt = hm_controller_epoch m \<and> hm_owner_principal nxt = hm_owner_principal m)"

definition host_change :: "string \<Rightarrow> 'h hosted \<Rightarrow> 'h hosted \<Rightarrow> bool" where
  "host_change n h h' \<longleftrightarrow>
     hd_manifest h' = hd_manifest h \<and> hd_spool h' = hd_spool h
   \<or> handed n (hd_manifest h) (hd_manifest h') \<and> hd_spool h' = (hd_spool h)\<lparr>os_manifest := hd_manifest h'\<rparr>"

text \<open>A host that stands in the table as it was created or handed on.\<close>

definition lawful :: "string \<Rightarrow> string \<Rightarrow> 'h hosted \<Rightarrow> bool" where
  "lawful root sid h \<longleftrightarrow>
     manifest_validate (hd_manifest h) = Inr () \<and> hm_session_id (hd_manifest h) = sid
   \<and> os_manifest (hd_spool h) = hd_manifest h \<and> os_dir (hd_spool h) = path_join root sid"

inductive sidecar_step :: "string \<Rightarrow> 'h supervisor \<Rightarrow> 'h supervisor \<Rightarrow> bool" for n where
  quiet: "kept (sv_device sv) d \<Longrightarrow> sidecar_step n sv (sv\<lparr>sv_device := d\<rparr>)"
| change: "map_of (sv_hosts sv) sid = Some h \<Longrightarrow> host_change n h h' \<Longrightarrow> kept (sv_device sv) d \<Longrightarrow>
    sidecar_step n sv (sv\<lparr>sv_hosts := AList.update sid h' (sv_hosts sv), sv_device := d\<rparr>)"
| remove: "kept (sv_device sv) d \<Longrightarrow>
    sidecar_step n sv (sv\<lparr>sv_hosts := AList.delete sid (sv_hosts sv), sv_device := d\<rparr>)"
| spawn: "map_of (sv_hosts sv) sid = None \<Longrightarrow> lawful (sv_root sv) sid h \<Longrightarrow> kept (sv_device sv) d \<Longrightarrow>
    content (sv_device sv) (session_entry (sv_root sv) sid) = None \<Longrightarrow>
    content d (session_entry (sv_root sv) sid) \<noteq> None \<Longrightarrow>
    sidecar_step n sv (sv\<lparr>sv_device := d, sv_hosts := AList.update sid h (sv_hosts sv)\<rparr>)"
| collect: "sidecar_step n sv (sweep_collect now sv)"
| settle: "sidecar_step n sv (sweep_settle ops sv)"

lemma step_refl: "sidecar_step n sv sv"
  using sidecar_step.quiet [of sv "sv_device sv" n] by simp

lemma AList_update_same: "map_of al k = Some v \<Longrightarrow> AList.update k v al = al"
  by (induction al) auto

lemma on_host_step:
  assumes "on_host sid f sv = Some (r, sv')"
    and "\<And>h d h' d'. f h d = Some (r, h', d') \<Longrightarrow> host_change n h h' \<and> kept d d'"
  shows "sidecar_step n sv sv'"
proof (cases "map_of (sv_hosts sv) sid")
  case None
  with assms(1) show ?thesis by (simp add: on_host_def step_refl)
next
  case (Some h)
  then obtain h' d' where "f h (sv_device sv) = Some (r, h', d')"
    "sv' = sv\<lparr>sv_hosts := AList.update sid h' (sv_hosts sv), sv_device := d'\<rparr>"
    using assms(1) by (auto simp: on_host_def split: option.splits prod.splits)
  with Some assms(2) show ?thesis using sidecar_step.change by metis
qed

lemma host_change_host [simp]: "host_change n h (h\<lparr>hd_host := x\<rparr>)" "host_change n h h"
  by (simp_all add: host_change_def)

lemma successor_handed:
  assumes "successor n m owner epoch expires = Inr nxt"
  shows "manifest_validate nxt = Inr () \<and> hm_session_id nxt = hm_session_id m
    \<and> hm_device_id nxt = hm_device_id m \<and> hm_workspace_id nxt = hm_workspace_id m
    \<and> hm_host_expires_unix nxt = hm_host_expires_unix m \<and> hm_host_nonce nxt = ''host_'' @ n
    \<and> hm_controller_epoch nxt = epoch \<and> hm_owner_principal nxt = owner"
  using assms by (auto simp: successor_def manifest_new_def Let_def and_then_Inr_iff)

lemma rotate_epoch_next: "rotate_epoch c e = Inr () \<Longrightarrow> c < e"
  unfolding rotate_epoch_def
  by (auto split: if_splits option.splits simp: word_less_nat_alt dest: checked_add_Some)

lemma validate_ignores [simp]:
  "manifest_validate (m\<lparr>hm_controller_attached := a\<rparr>) = manifest_validate m"
  "manifest_validate (m\<lparr>hm_last_transition := t\<rparr>) = manifest_validate m"
  "manifest_validate (m\<lparr>hm_io_mode := io\<rparr>) = manifest_validate m"
  by (simp_all add: manifest_validate_def)

lemma exact_matches:
  "exact_identity now b m = Inr () \<Longrightarrow> binding_matches b m"
  "exact now b m = Inr () \<Longrightarrow> binding_matches b m"
  "expired_exact now b m = Inr () \<Longrightarrow> binding_matches b m"
  "detached_exact now b m = Inr () \<Longrightarrow> binding_matches b m"
  by (auto simp: exact_def exact_identity_def expired_exact_def detached_exact_def and_then_Inr_iff
      split: if_splits)

lemma next_epoch_handed:
  assumes "next_epoch_manifest n now b owner epoch expires m = Inr nxt" and "binding_matches b m"
  shows "handed n m nxt"
proof -
  from assms(1) have "rotate_epoch (bi_epoch b) epoch = Inr ()" "successor n m owner epoch expires = Inr nxt"
    by (auto simp: next_epoch_manifest_def and_then_Inr_iff)
  with successor_handed [OF this(2)] rotate_epoch_next [OF this(1)] assms(2) show ?thesis
    by (simp add: handed_def binding_matches_def)
qed

lemma detached_handed:
  assumes "detached_manifest n b epoch m = Inr nxt" and "binding_matches b m"
  shows "handed n m nxt"
proof -
  from assms(1) obtain nxt0 where e: "rotate_epoch (bi_epoch b) epoch = Inr ()"
    and s: "successor n m (hm_owner_principal m) epoch (hm_binding_expires_unix m) = Inr nxt0"
    and nxt: "nxt = nxt0\<lparr>hm_controller_attached := False\<rparr>"
    by (auto simp: detached_manifest_def and_then_Inr_iff)
  with successor_handed [OF s] rotate_epoch_next [OF e] assms(2) show ?thesis
    by (simp add: handed_def binding_matches_def)
qed

lemma renewed_handed:
  "successor n m (hm_owner_principal m) (hm_controller_epoch m) expires = Inr nxt \<Longrightarrow> handed n m nxt"
  by (drule successor_handed) (simp add: handed_def)

lemma recorded_handed: "record_transition nxt t p = Inr nxt' \<Longrightarrow> handed n m nxt \<Longrightarrow> handed n m nxt'"
  by (auto simp: record_transition_def and_then_Inr_iff handed_def)

lemma decided_Install [simp]: "decided r = Install nxt \<longleftrightarrow> r = Inr nxt"
  by (auto simp: decided_def split: sum.splits)

lemma unless_receipted_Install:
  "unless_receipted m t p r = Install nxt \<Longrightarrow> r = Inr nxt \<and> matches_transition m t p = Inr False"
  by (auto simp: unless_receipted_def split: sum.splits bool.splits)

lemma replaced_manifest:
  "rotate_manifest J p u nxt s d = Some (Inr s', d') \<Longrightarrow> s' = s\<lparr>os_manifest := nxt\<rparr>"
  "renew_manifest J p u nxt s d = Some (Inr s', d') \<Longrightarrow> s' = s\<lparr>os_manifest := nxt\<rparr>"
  by (auto simp: rotate_manifest_def renew_manifest_def io_Inr_iff io_return_def io_fail_def split: if_splits)

lemma run_transition_step:
  assumes run: "run_transition replace decide sid sv = Some (r, sv')"
    and dec: "\<And>m nxt. decide m = Install nxt \<Longrightarrow> handed n m nxt"
    and rep: "\<And>nxt s d s' d'. replace nxt s d = Some (Inr s', d') \<Longrightarrow> s' = s\<lparr>os_manifest := nxt\<rparr>"
    and kp: "\<And>nxt s x. keeps (directory_entry x) (replace nxt s)"
  shows "sidecar_step n sv sv'"
  using run unfolding run_transition_def
proof (rule on_host_step)
  fix h d h' d'
  assume step: "(case decide (hd_manifest h) of Refuse e \<Rightarrow> Some (Inl e, h, d) | Answer b \<Rightarrow> Some (Inr b, h, d)
      | Install nxt \<Rightarrow> install_manifest (replace nxt) nxt h d) = Some (r, h', d')"
  show "host_change n h h' \<and> kept d d'"
  proof (cases "decide (hd_manifest h)")
    case (Install nxt)
    with step have inst: "install_manifest (replace nxt) nxt h d = Some (r, h', d')" by simp
    then obtain x where x: "replace nxt (hd_spool h) d = Some (x, d')"
      by (auto simp: install_manifest_def split: option.splits prod.splits sum.splits)
    from keptI [OF kp x] have "kept d d'" .
    moreover have "host_change n h h'"
    proof (cases x)
      case (Inl e)
      with inst x show ?thesis by (simp add: install_manifest_def)
    next
      case (Inr s)
      with inst x have "h' = h\<lparr>hd_manifest := nxt, hd_spool := s\<rparr>" by (simp add: install_manifest_def)
      with rep x Inr dec [OF Install] show ?thesis by (simp add: host_change_def)
    qed
    ultimately show ?thesis by blast
  qed (use step in auto)
qed

lemma transition_steps:
  assumes u: "CHR ''/'' \<notin> set u"
  shows "rotate_binding_idempotent J p u n now now2 b owner epoch expires t dg sv = Some (r, sv') \<Longrightarrow> sidecar_step n sv sv'"
    and "reclaim_idempotent J p u n now now2 b owner epoch expires t dg sv = Some (r, sv') \<Longrightarrow> sidecar_step n sv sv'"
    and "claim_idempotent J p u n now now2 b owner epoch expires t dg sv = Some (r, sv') \<Longrightarrow> sidecar_step n sv sv'"
    and "detach_idempotent J p u n now b epoch t dg sv = Some (r, sv') \<Longrightarrow> sidecar_step n sv sv'"
    and "renew_idempotent J p u n now now2 b expires t dg sv = Some (r, sv') \<Longrightarrow> sidecar_step n sv sv'"
  unfolding rotate_binding_idempotent_def reclaim_idempotent_def claim_idempotent_def detach_idempotent_def
    renew_idempotent_def
  by (erule run_transition_step;
      (rule replaced_manifest; assumption | rule keeps_rotate keeps_renew, rule u |
       drule unless_receipted_Install,
       auto simp: and_then_Inr_iff elim!: recorded_handed next_epoch_handed detached_handed renewed_handed
         dest: exact_matches))+

lemma drive_steps:
  "reattach ops os now b sv = Some (r1, sv') \<Longrightarrow> sidecar_step n sv sv'"
  "supervisor_write ops now b bytes sv = Some (r2, sv') \<Longrightarrow> sidecar_step n sv sv'"
  "supervisor_resize ops now b cols rows sv = Some (r2, sv') \<Longrightarrow> sidecar_step n sv sv'"
  unfolding reattach_def supervisor_write_def supervisor_resize_def
  by (auto simp: step_refl Let_def elim!: on_host_step split: if_splits sum.splits prod.splits)

lemma drain_step:
  assumes u: "CHR ''/'' \<notin> set u"
    and run: "supervisor_drain ops p u now b off mx err sv = Some (r, sv')"
  shows "sidecar_step n sv sv'"
  using run unfolding supervisor_drain_def
proof (rule on_host_step)
  fix h h' :: "'a hosted" and d d'
  assume step: "(case exact now b (hd_manifest h) of
         Inl e \<Rightarrow> Some (Inl e, h, d)
       | Inr _ \<Rightarrow>
           let (r, host') = host_drain ops err mx (hd_host h); h1 = h\<lparr>hd_host := host'\<rparr>
           in case r of
                Inl e \<Rightarrow> Some (Inl e, h1, d)
              | Inr (bytes, truncated) \<Rightarrow>
                  (case (if err then hd_stderr_spool h1 else Some (hd_spool h1)) of
                     None \<Rightarrow> Some (Inl ''stderr stream unavailable'', h1, d)
                   | Some spool \<Rightarrow>
                       (case io_bind (if bytes = [] then io_return () else spool_append p u bytes spool) (\<lambda>_.
                               read_page off mx spool) d of
                          None \<Rightarrow> None
                        | Some (Inl e, d') \<Rightarrow> Some (Inl e, h1, d')
                        | Some (Inr page, d') \<Rightarrow>
                            Some (Inr (page\<lparr>sp_truncated := sp_truncated page \<or> truncated\<rparr>), h1, d'))))
     = Some (r, h', d')"
  have "kept d0 d1" if "io_bind (if bytes = [] then io_return () else spool_append p u bytes spool)
      (\<lambda>_. read_page off mx spool) d0 = Some (x, d1)" for bytes spool x d0 d1
    by (rule keptI [where m = "io_bind (if bytes = [] then io_return () else spool_append p u bytes spool)
      (\<lambda>_. read_page off mx spool)", OF _ that]) (intro keeps_intros u)
  with step show "host_change n h h' \<and> kept d d'"
    by (auto simp: Let_def split: sum.splits prod.splits option.splits if_splits)
qed

lemma spawn_step:
  assumes "spawn_with_io J now m io spawned sv = Some (r, sv')"
  shows "sidecar_step n sv sv'"
proof -
  let ?make = "io_bind (spool_create J (sv_root sv) m) (\<lambda>spool.
             if io = StructuredPipes
             then io_bind (create_stderr J (sv_root sv) (hm_session_id m)) (\<lambda>s. io_return (spool, Some s))
             else io_return (spool, None))"
  have kp: "kept d d'" if "?make d = Some (x, d')" for d x d'
    by (rule keptI [where m = ?make, OF _ that]) (intro keeps_intros)
  show ?thesis
  proof (cases "sv' = sv")
    case True
    then show ?thesis by (simp add: step_refl)
  next
    case False
    let ?host = "\<lambda>h. case io of Pty \<Rightarrow> PtyHost h | StructuredPipes \<Rightarrow> StructuredHost h"
    from False assms obtain h where free: "map_of (sv_hosts sv) (hm_session_id m) = None"
      and made: "(case ?make (sv_device sv) of
          None \<Rightarrow> None
        | Some (Inl e, d) \<Rightarrow> Some (Inl e, sv\<lparr>sv_device := d\<rparr>)
        | Some (Inr (spool, err), d) \<Rightarrow>
            Some (Inr (binding_of m), sv\<lparr>sv_device := d, sv_hosts := AList.update (hm_session_id m)
              \<lparr>hd_manifest = m, hd_spool = spool, hd_stderr_spool = err, hd_host = ?host h\<rparr> (sv_hosts sv)\<rparr>))
        = Some (r, sv')"
      unfolding spawn_with_io_def
      by (cases "validate_runtime_lifetimes m now"; cases spawned) (auto split: if_split_asm)
    from made obtain x d where x: "?make (sv_device sv) = Some (x, d)"
      by (cases "?make (sv_device sv)") auto
    show ?thesis
    proof (cases x)
      case (Inl e)
      with x made have "sv' = sv\<lparr>sv_device := d\<rparr>" by simp
      with kp [OF x] show ?thesis by (simp add: sidecar_step.quiet)
    next
      case (Inr y)
      obtain spool err where y: "y = (spool, err)" by force
      with x Inr obtain d1 where d1: "spool_create J (sv_root sv) m (sv_device sv) = Some (Inr spool, d1)"
        and rest: "(if io = StructuredPipes
             then io_bind (create_stderr J (sv_root sv) (hm_session_id m)) (\<lambda>s. io_return (spool, Some s))
             else io_return (spool, None)) d1 = Some (Inr (spool, err), d)"
        by (auto simp: io_bind_Inr_iff io_return_def split: if_splits)
      have "kept d1 d" by (rule keptI [where m = "if io = StructuredPipes
             then io_bind (create_stderr J (sv_root sv) (hm_session_id m)) (\<lambda>s. io_return (spool, Some s))
             else io_return (spool, None)", OF _ rest]) (intro keeps_intros)
      note there = kept_session [OF this spool_create_new(4) [OF d1]]
      from x made Inr y have "sv' = sv\<lparr>sv_device := d, sv_hosts := AList.update (hm_session_id m)
          \<lparr>hd_manifest = m, hd_spool = spool, hd_stderr_spool = err, hd_host = ?host h\<rparr> (sv_hosts sv)\<rparr>"
        by simp
      moreover have "lawful (sv_root sv) (hm_session_id m)
          \<lparr>hd_manifest = m, hd_spool = spool, hd_stderr_spool = err, hd_host = ?host h\<rparr>"
        using spool_create_new(1,2) [OF d1] by (simp add: lawful_def)
      ultimately show ?thesis
        using sidecar_step.spawn [OF free _ kp [OF x] spool_create_new(3) [OF d1] there] by simp
    qed
  qed
qed

lemma terminate_step:
  assumes u: "CHR ''/'' \<notin> set u"
    and run: "terminate_idempotent J ops p u now b t dg sv = Some (r, sv')"
  shows "sidecar_step n sv sv'"
proof (cases "map_of (sv_hosts sv) (bi_session b)")
  case None
  with run obtain x d where "read_termination_receipt J (sv_root sv) (bi_session b) (sv_device sv) = Some (x, d)"
    "sv' = sv\<lparr>sv_device := d\<rparr>"
    by (auto simp: terminate_idempotent_def split: option.splits prod.splits sum.splits)
  then show ?thesis using keptI [OF keeps_receipt] by (auto intro: sidecar_step.quiet)
next
  case (Some h)
  let ?recorded = "record_termination J p u (sv_root sv) (hd_spool h) t dg"
  have kp: "kept (sv_device sv) d" if "?recorded (sv_device sv) = Some (x, d)" for x d
    by (rule keptI [where m = ?recorded, OF _ that]) (rule keeps_termination [OF u])
  obtain x host' where tm: "host_terminate ops (hd_host h) = (x, host')" by force
  let ?h' = "h\<lparr>hd_host := host'\<rparr>"
  consider (refused) "sv' = sv"
    | (live) d where "sv' = sv\<lparr>sv_hosts := AList.update (bi_session b) ?h' (sv_hosts sv), sv_device := d\<rparr>"
        "kept (sv_device sv) d"
    | (gone) d where "sv' = sv\<lparr>sv_hosts := AList.delete (bi_session b) (sv_hosts sv), sv_device := d\<rparr>"
        "kept (sv_device sv) d"
  proof (cases "exact now b (hd_manifest h)")
    case (Inl e)
    with run Some refused show ?thesis by (simp add: terminate_idempotent_def)
  next
    case exact: (Inr v)
    show ?thesis
    proof (cases x)
      case (Inl e)
      with run Some tm exact
      have "sv' = sv\<lparr>sv_hosts := AList.update (bi_session b) ?h' (sv_hosts sv), sv_device := sv_device sv\<rparr>"
        by (cases sv) (auto simp: terminate_idempotent_def)
      then show ?thesis by (rule live) simp
    next
      case (Inr w)
      with run Some tm exact obtain y d where y: "?recorded (sv_device sv) = Some (y, d)"
        by (cases "?recorded (sv_device sv)") (auto simp: terminate_idempotent_def)
      with run Some tm exact Inr kp [OF y] live [of d] gone [of d] show ?thesis
        by (cases y; cases sv) (simp_all add: terminate_idempotent_def delete_update_same)
    qed
  qed
  then show ?thesis
  proof cases
    case refused
    then show ?thesis by (simp add: step_refl)
  next
    case live
    then show ?thesis using sidecar_step.change [OF Some host_change_host(1)] by blast
  next
    case gone
    then show ?thesis using sidecar_step.remove by blast
  qed
qed

lemma reply_Some: "reply f x = Some (r, sv') \<longleftrightarrow> (\<exists>y. x = Some (y, sv') \<and> r = map_sum invalid f y)"
  by (cases x) (auto simp: reply_def)

lemma guarded_Some:
  "guarded c sv x = Some (r, sv') \<longleftrightarrow>
     (\<exists>e. c = Inl e \<and> r = Inl e \<and> sv' = sv) \<or> c = Inr () \<and> x = Some (r, sv')"
  by (auto simp: guarded_def split: sum.splits)

lemma dispatch_step:
  assumes u: "CHR ''/'' \<notin> set (dw_uuid dw)" and run: "dispatch sc dw req sv = Some (r, sv')"
  shows "sidecar_step (dw_nonce dw) sv sv'"
proof (cases req)
  case (Spawn p)
  with run show ?thesis
    by (auto simp: guarded_Some reply_Some step_refl intro: spawn_step split: sum.splits)
next
  case (Drain b off mx st)
  with run show ?thesis
    by (auto simp: reply_Some step_refl intro: drain_step [OF u] split: sum.splits if_splits)
next
  case (Terminate b t)
  with run show ?thesis by (auto simp: guarded_Some reply_Some step_refl intro: terminate_step [OF u])
qed (use run in \<open>auto simp: guarded_Some reply_Some step_refl
       intro: drive_steps transition_steps [OF u] split: if_splits\<close>)

text \<open>The events that a running sidecar sees: their temporary names have no separator in them.\<close>

fun clean :: "'h sidecar_event \<Rightarrow> bool" where
  "clean (Request key req dw) \<longleftrightarrow> CHR ''/'' \<notin> set (dw_uuid dw)"
| "clean _ \<longleftrightarrow> True"

lemma request_step:
  "CHR ''/'' \<notin> set (dw_uuid dw) \<Longrightarrow> sidecar_step (dw_nonce dw) sv (sidecar_exec sc sv (Request key req dw))"
  by (auto simp: supervisor_handler_def step_refl intro: dispatch_step split: option.splits)

lemma exec_step: "clean e \<Longrightarrow> \<exists>n. sidecar_step n sv (sidecar_exec sc sv e)"
proof (cases e)
  case (Request key req dw)
  assume "clean e"
  with Request have "sidecar_step (dw_nonce dw) sv (sidecar_exec sc sv e)"
    using request_step by (simp del: sidecar_exec.simps)
  then show ?thesis ..
next
  case (SweepCollect now)
  then show ?thesis using sidecar_step.collect by auto
next
  case SweepSettle
  then show ?thesis using sidecar_step.settle by auto
qed

end
