(* ===== verification/Supervisor_Fence.thy ===== *)
theory Supervisor_Fence
  imports Supervisor_Steps OM_Interfaces
begin

text \<open>
  What the supervisor promises: a binding that has been superseded drives nothing any more,
  transitions happen once, and what the liveness probe says.
\<close>

section \<open>What every run keeps\<close>

definition tracked :: "'h supervisor \<Rightarrow> (string \<times> 'h hosted) set" where
  "tracked sv = set (sv_hosts sv) \<union> set (sv_sweeping sv)"

text \<open>
  Every host stands in one place, as it was created or handed on, its directory exists, and the
  in-flight set names the hosts that a sweep has in its hands.
\<close>

definition well_kept :: "'h supervisor \<Rightarrow> bool" where
  "well_kept sv \<longleftrightarrow>
     (\<forall>(sid, h)\<in>tracked sv.
        lawful (sv_root sv) sid h \<and> content (sv_device sv) (session_entry (sv_root sv) sid) \<noteq> None)
   \<and> distinct (map fst (sv_hosts sv) @ map fst (sv_sweeping sv))
   \<and> set (sv_terminating sv) = fst ` set (sv_sweeping sv)"

lemma well_kept_new [simp]: "well_kept (supervisor_new root d)"
  by (simp add: well_kept_def supervisor_new_def tracked_def)

lemma AList_update_old: "map_of al k = Some w \<Longrightarrow> map fst (AList.update k v al) = map fst al"
  by (induction al) auto

lemma AList_update_new: "map_of al k = None \<Longrightarrow> AList.update k v al = al @ [(k, v)]"
  by (induction al) (auto split: if_splits)

lemma set_AList_update: "set (AList.update k v al) \<subseteq> insert (k, v) (set al)"
  by (induction al) auto

lemma host_change_lawful: "host_change n h h' \<Longrightarrow> lawful root sid h \<Longrightarrow> lawful root sid h'"
  by (auto simp: host_change_def lawful_def handed_def)

lemma well_keptI:
  assumes "\<And>s x. (s, x) \<in> tracked sv \<Longrightarrow> lawful (sv_root sv) s x \<and> content (sv_device sv) (session_entry (sv_root sv) s) \<noteq> None"
    and "distinct (map fst (sv_hosts sv))" and "distinct (map fst (sv_sweeping sv))"
    and "fst ` set (sv_hosts sv) \<inter> fst ` set (sv_sweeping sv) = {}"
    and "set (sv_terminating sv) = fst ` set (sv_sweeping sv)"
  shows "well_kept sv"
  unfolding well_kept_def using assms by (auto simp del: not_None_eq)

lemma well_keptD:
  assumes "well_kept sv"
  shows "(s, x) \<in> tracked sv \<Longrightarrow> lawful (sv_root sv) s x"
    and "(s, x) \<in> tracked sv \<Longrightarrow> content (sv_device sv) (session_entry (sv_root sv) s) \<noteq> None"
    and "distinct (map fst (sv_hosts sv))" and "distinct (map fst (sv_sweeping sv))"
    and "fst ` set (sv_hosts sv) \<inter> fst ` set (sv_sweeping sv) = {}"
    and "set (sv_terminating sv) = fst ` set (sv_sweeping sv)"
  using assms unfolding well_kept_def by (auto simp del: not_None_eq)

lemma well_kept_change:
  assumes inv: "well_kept sv" and h: "map_of (sv_hosts sv) sid = Some h" "host_change n h h'"
    and kp: "kept (sv_device sv) d"
  shows "well_kept (sv\<lparr>sv_hosts := AList.update sid h' (sv_hosts sv), sv_device := d\<rparr>)"
proof (rule well_keptI)
  let ?sv = "sv\<lparr>sv_hosts := AList.update sid h' (sv_hosts sv), sv_device := d\<rparr>"
  have old: "(sid, h) \<in> tracked sv" using h(1) by (auto simp: tracked_def dest: map_of_SomeD)
  have sub: "tracked ?sv \<subseteq> insert (sid, h') (tracked sv)"
    using set_AList_update [of sid h' "sv_hosts sv"] by (auto simp: tracked_def)
  show "lawful (sv_root ?sv) s x \<and> content (sv_device ?sv) (session_entry (sv_root ?sv) s) \<noteq> None"
    if x: "(s, x) \<in> tracked ?sv" for s x
  proof (cases "(s, x) \<in> tracked sv")
    case True
    with well_keptD(1,2) [OF inv] kept_session [OF kp] show ?thesis by simp
  next
    case False
    with sub x have [simp]: "s = sid" "x = h'" by auto
    from well_keptD(1,2) [OF inv old] host_change_lawful [OF h(2)] kept_session [OF kp]
    show ?thesis by simp
  qed
  have same: "map fst (sv_hosts ?sv) = map fst (sv_hosts sv)" using AList_update_old [OF h(1)] by simp
  with well_keptD(3-) [OF inv] show "distinct (map fst (sv_hosts ?sv))" "distinct (map fst (sv_sweeping ?sv))"
    "set (sv_terminating ?sv) = fst ` set (sv_sweeping ?sv)"
    by simp_all
  from same have "fst ` set (sv_hosts ?sv) = fst ` set (sv_hosts sv)" by (metis list.set_map)
  with well_keptD(5) [OF inv] show "fst ` set (sv_hosts ?sv) \<inter> fst ` set (sv_sweeping ?sv) = {}" by simp
qed

lemma well_kept_fewer:
  assumes inv: "well_kept sv" and kp: "kept (sv_device sv) d" and sub: "set hs \<subseteq> set (sv_hosts sv)"
    and dist: "distinct (map fst hs)"
  shows "well_kept (sv\<lparr>sv_hosts := hs, sv_device := d\<rparr>)"
proof (rule well_keptI)
  let ?sv = "sv\<lparr>sv_hosts := hs, sv_device := d\<rparr>"
  show "lawful (sv_root ?sv) s x \<and> content (sv_device ?sv) (session_entry (sv_root ?sv) s) \<noteq> None"
    if x: "(s, x) \<in> tracked ?sv" for s x
  proof -
    have "(s, x) \<in> tracked sv" using x sub by (auto simp: tracked_def)
    with well_keptD(1,2) [OF inv] kept_session [OF kp] show ?thesis by simp
  qed
  show "fst ` set (sv_hosts ?sv) \<inter> fst ` set (sv_sweeping ?sv) = {}"
    using well_keptD(5) [OF inv] image_mono [OF sub, of fst] by simp blast
qed (use well_keptD(3-) [OF inv] dist in simp_all)

lemma well_kept_spawn:
  assumes inv: "well_kept sv" and new: "map_of (sv_hosts sv) sid = None" "lawful (sv_root sv) sid h"
    and d: "kept (sv_device sv) d" "content (sv_device sv) (session_entry (sv_root sv) sid) = None"
      "content d (session_entry (sv_root sv) sid) \<noteq> None"
  shows "well_kept (sv\<lparr>sv_device := d, sv_hosts := AList.update sid h (sv_hosts sv)\<rparr>)"
proof (rule well_keptI)
  let ?sv = "sv\<lparr>sv_device := d, sv_hosts := AList.update sid h (sv_hosts sv)\<rparr>"
  have hosts: "sv_hosts ?sv = sv_hosts sv @ [(sid, h)]" using AList_update_new [OF new(1)] by simp
  show "lawful (sv_root ?sv) s x \<and> content (sv_device ?sv) (session_entry (sv_root ?sv) s) \<noteq> None"
    if x: "(s, x) \<in> tracked ?sv" for s x
  proof (cases "(s, x) \<in> tracked sv")
    case True
    with well_keptD(1,2) [OF inv] kept_session [OF d(1)] show ?thesis by simp
  next
    case False
    with x hosts have "s = sid" "x = h" by (auto simp: tracked_def)
    with new d show ?thesis by simp
  qed
  have "sid \<notin> fst ` set (sv_sweeping sv)"
  proof
    assume "sid \<in> fst ` set (sv_sweeping sv)"
    then obtain x where "(sid, x) \<in> tracked sv" unfolding tracked_def by force
    with well_keptD(2) [OF inv] d(2) show False by blast
  qed
  moreover have out: "sid \<notin> fst ` set (sv_hosts sv)" using new(1) by (simp add: map_of_eq_None_iff)
  ultimately show "fst ` set (sv_hosts ?sv) \<inter> fst ` set (sv_sweeping ?sv) = {}"
    using well_keptD(5) [OF inv] hosts by auto
  show "distinct (map fst (sv_hosts ?sv))" using well_keptD(3) [OF inv] out hosts by simp
qed (use well_keptD(4,6) [OF inv] in simp_all)

lemma well_kept_collect:
  assumes inv: "well_kept sv"
  shows "well_kept (sweep_collect now sv)"
proof (rule well_keptI)
  let ?sv = "sweep_collect now sv"
  let ?expired = "take MAX_HOSTS (filter (\<lambda>(_, h). hm_host_expires_unix (hd_manifest h) \<le> now) (sv_hosts sv))"
  have sub: "set ?expired \<subseteq> set (sv_hosts sv)" by (meson filter_is_subset order_trans set_take_subset)
  have hosts: "sv_hosts ?sv = filter (\<lambda>(sid, _). sid \<notin> fst ` set ?expired) (sv_hosts sv)"
    and sweeping: "sv_sweeping ?sv = sv_sweeping sv @ ?expired"
    and marks: "sv_terminating ?sv = map fst ?expired @ sv_terminating sv"
    and same: "sv_root ?sv = sv_root sv" "sv_device ?sv = sv_device sv"
    by (simp_all add: sweep_collect_def Let_def)
  have "tracked ?sv \<subseteq> tracked sv" unfolding tracked_def hosts sweeping using sub by auto
  then show "lawful (sv_root ?sv) s x \<and> content (sv_device ?sv) (session_entry (sv_root ?sv) s) \<noteq> None"
    if "(s, x) \<in> tracked ?sv" for s x
    using that well_keptD(1,2) [OF inv] same by auto
  show "distinct (map fst (sv_hosts ?sv))"
    unfolding hosts by (rule distinct_map_filter) (rule well_keptD(3) [OF inv])
  have "distinct (map fst ?expired)"
    unfolding take_map [symmetric] by (rule distinct_take, rule distinct_map_filter, rule well_keptD(3) [OF inv])
  moreover have "fst ` set ?expired \<inter> fst ` set (sv_sweeping sv) = {}"
    using well_keptD(5) [OF inv] image_mono [OF sub, of fst] by blast
  ultimately show "distinct (map fst (sv_sweeping ?sv))"
    unfolding sweeping using well_keptD(4) [OF inv] by auto
  show "fst ` set (sv_hosts ?sv) \<inter> fst ` set (sv_sweeping ?sv) = {}"
    unfolding hosts sweeping using well_keptD(5) [OF inv] by force
  show "set (sv_terminating ?sv) = fst ` set (sv_sweeping ?sv)"
    unfolding marks sweeping using well_keptD(6) [OF inv] by (simp add: image_Un Un_commute)
qed

lemma well_kept_settle:
  assumes inv: "well_kept sv"
  shows "well_kept (sweep_settle ops sv)"
proof (cases "sv_sweeping sv")
  case Nil
  with inv show ?thesis by (simp add: sweep_settle_def)
next
  case (Cons sh rest)
  obtain sid h where sh: "sh = (sid, h)" by force
  obtain x host' where tm: "host_terminate ops (hd_host h) = (x, host')" by force
  let ?left = "filter (\<lambda>y. y \<noteq> sid) (sv_terminating sv)"
  let ?h' = "h\<lparr>hd_host := host'\<rparr>"
  have ids: "sid \<notin> fst ` set rest" "distinct (map fst rest)" "sid \<notin> fst ` set (sv_hosts sv)"
    using well_keptD(4,5) [OF inv] Cons sh by auto
  then have free: "map_of (sv_hosts sv) sid = None" by (simp add: map_of_eq_None_iff)
  have left: "set ?left = fst ` set rest" using well_keptD(6) [OF inv] ids(1) Cons sh by auto
  have out: "fst ` set (sv_hosts sv) \<inter> fst ` set rest = {}" using well_keptD(5) [OF inv] Cons sh by auto
  have old: "(sid, h) \<in> tracked sv" "set rest \<subseteq> tracked sv" "set (sv_hosts sv) \<subseteq> tracked sv"
    using Cons sh by (auto simp: tracked_def)
  have h': "lawful (sv_root sv) sid ?h'"
    using host_change_lawful [OF host_change_host(1) well_keptD(1) [OF inv old(1)]] .
  show ?thesis
  proof (cases x)
    case (Inr u)
    have sv': "sweep_settle ops sv = sv\<lparr>sv_sweeping := rest, sv_terminating := ?left\<rparr>"
      using Cons sh tm Inr by (simp add: sweep_settle_def)
    have "tracked (sv\<lparr>sv_sweeping := rest, sv_terminating := ?left\<rparr>) \<subseteq> tracked sv"
      using old by (simp add: tracked_def)
    with well_keptD(1,2) [OF inv] show ?thesis
      unfolding sv' by (intro well_keptI) (use well_keptD(3) [OF inv] ids left out in \<open>auto dest!: subsetD\<close>)
  next
    case (Inl e)
    have sv': "sweep_settle ops sv =
        sv\<lparr>sv_sweeping := rest, sv_hosts := sv_hosts sv @ [(sid, ?h')], sv_terminating := ?left\<rparr>"
      using Cons sh tm Inl AList_update_new [OF free] by (simp add: sweep_settle_def)
    show ?thesis unfolding sv'
    proof (rule well_keptI)
      let ?sv = "sv\<lparr>sv_sweeping := rest, sv_hosts := sv_hosts sv @ [(sid, ?h')], sv_terminating := ?left\<rparr>"
      show "lawful (sv_root ?sv) s y \<and> content (sv_device ?sv) (session_entry (sv_root ?sv) s) \<noteq> None"
        if y: "(s, y) \<in> tracked ?sv" for s y
      proof (cases "(s, y) \<in> tracked sv")
        case True
        with well_keptD(1,2) [OF inv] show ?thesis by simp
      next
        case False
        with y old have "s = sid" "y = ?h'" by (auto simp: tracked_def)
        with h' well_keptD(2) [OF inv old(1)] show ?thesis by simp
      qed
    qed (use well_keptD(3) [OF inv] ids left out in auto)
  qed
qed

lemma step_well_kept: "sidecar_step n sv sv' \<Longrightarrow> well_kept sv \<Longrightarrow> well_kept sv'"
proof (induction rule: sidecar_step.induct)
  case (quiet sv d)
  then show ?case using well_kept_fewer [of sv d "sv_hosts sv"] well_keptD(3) [OF quiet(2)] by simp
next
  case (remove sv d sid)
  show ?case
    by (rule well_kept_fewer)
      (use remove well_keptD(3) [OF remove(2)] in \<open>auto simp: AList.delete_eq intro: distinct_map_filter\<close>)
qed (simp_all add: well_kept_change well_kept_spawn well_kept_collect well_kept_settle)

lemma run_well_kept:
  "list_all clean es \<Longrightarrow> well_kept sv \<Longrightarrow> well_kept (foldl (sidecar_exec sc) sv es)"
proof (induction es arbitrary: sv)
  case (Cons e es)
  then obtain n where "sidecar_step n sv (sidecar_exec sc sv e)" using exec_step [of e sv sc] by auto
  with Cons show ?case by (simp add: step_well_kept)
qed simp

section \<open>The fence\<close>

definition outdated :: "supervisor_binding \<Rightarrow> host_manifest \<Rightarrow> bool" where
  "outdated b m \<longleftrightarrow>
     bi_epoch b < hm_controller_epoch m
   \<or> bi_epoch b = hm_controller_epoch m \<and> bi_nonce b \<noteq> hm_host_nonce m"

definition fenced :: "supervisor_binding \<Rightarrow> 'h supervisor \<Rightarrow> bool" where
  "fenced b sv \<longleftrightarrow>
     content (sv_device sv) (session_entry (sv_root sv) (bi_session b)) \<noteq> None
   \<and> (\<forall>h. (bi_session b, h) \<in> tracked sv \<longrightarrow> outdated b (hd_manifest h))"

definition authorized :: "'h supervisor \<Rightarrow> supervisor_binding \<Rightarrow> bool" where
  "authorized sv b \<longleftrightarrow>
     (case map_of (sv_hosts sv) (bi_session b) of
        None \<Rightarrow> False
      | Some h \<Rightarrow> binding_matches b (hd_manifest h))"

lemma authorized_iff:
  "authorized sv b \<longleftrightarrow> (\<exists>h. map_of (sv_hosts sv) (bi_session b) = Some h \<and> binding_matches b (hd_manifest h))"
  by (simp add: authorized_def split: option.splits)

text \<open>An event is fresh for a binding when the nonce that it draws is not that of the binding.\<close>

fun fresh :: "supervisor_binding \<Rightarrow> 'h sidecar_event \<Rightarrow> bool" where
  "fresh b (Request key req dw) \<longleftrightarrow> CHR ''/'' \<notin> set (dw_uuid dw) \<and> ''host_'' @ dw_nonce dw \<noteq> bi_nonce b"
| "fresh b _ \<longleftrightarrow> True"

lemma fresh_clean: "fresh b e \<Longrightarrow> clean e"
  by (cases e) auto

lemma outdated_change:
  "host_change n h h' \<Longrightarrow> ''host_'' @ n \<noteq> bi_nonce b \<Longrightarrow> outdated b (hd_manifest h) \<Longrightarrow> outdated b (hd_manifest h')"
  by (auto simp: host_change_def handed_def outdated_def)

lemma settle_tracked:
  assumes "(s, h') \<in> tracked (sweep_settle ops sv)"
  shows "\<exists>h. (s, h) \<in> tracked sv \<and> hd_manifest h' = hd_manifest h"
proof (cases "sv_sweeping sv")
  case Nil
  with assms show ?thesis by (auto simp: sweep_settle_def)
next
  case (Cons sh rest)
  obtain sid h where sh: "sh = (sid, h)" by force
  obtain x host' where tm: "host_terminate ops (hd_host h) = (x, host')" by force
  let ?h' = "h\<lparr>hd_host := host'\<rparr>"
  have "(s, h') \<in> insert (sid, ?h') (tracked sv)"
    using assms Cons sh tm set_AList_update [of sid ?h' "sv_hosts sv"]
    by (cases x) (auto simp: sweep_settle_def tracked_def)
  moreover have "(sid, h) \<in> tracked sv" using Cons sh by (simp add: tracked_def)
  ultimately show ?thesis by auto
qed

lemma step_fenced:
  "sidecar_step n sv sv' \<Longrightarrow> ''host_'' @ n \<noteq> bi_nonce b \<Longrightarrow> fenced b sv \<Longrightarrow> fenced b sv'"
proof (induction rule: sidecar_step.induct)
  case (quiet sv d)
  then show ?case using kept_session [OF quiet(1)] by (simp add: fenced_def tracked_def)
next
  case (change sv sid h h' d)
  have "outdated b (hd_manifest h')" if "sid = bi_session b"
    using change that outdated_change [OF change(2)] map_of_SomeD [OF change(1)]
    by (auto simp: fenced_def tracked_def)
  with change kept_session [OF change(3)] set_AList_update [of sid h' "sv_hosts sv"] show ?case
    by (auto simp: fenced_def tracked_def simp del: not_None_eq)
next
  case (remove sv d sid)
  have "set (AList.delete sid (sv_hosts sv)) \<subseteq> set (sv_hosts sv)" by (auto simp: AList.delete_eq)
  with remove kept_session [OF remove(1)] show ?case
    by (auto simp: fenced_def tracked_def simp del: not_None_eq)
next
  case (spawn sv sid h d)
  then have "sid \<noteq> bi_session b" by (auto simp: fenced_def)
  with spawn kept_session [OF spawn(3)] set_AList_update [of sid h "sv_hosts sv"] show ?case
    by (auto simp: fenced_def tracked_def simp del: not_None_eq)
next
  case (collect sv now)
  have "tracked (sweep_collect now sv) \<subseteq> tracked sv"
    by (auto simp: tracked_def sweep_collect_def Let_def dest: in_set_takeD)
  with collect show ?case by (auto simp: fenced_def sweep_collect_def Let_def)
next
  case (settle sv ops)
  have "sv_root (sweep_settle ops sv) = sv_root sv" "sv_device (sweep_settle ops sv) = sv_device sv"
    by (auto simp: sweep_settle_def split: list.splits prod.splits sum.splits)
  with settle settle_tracked show ?case unfolding fenced_def by metis
qed

interpretation sidecar_fence: generation_fence "sidecar_exec sc" "\<lambda>_. True" fenced fresh authorized for sc
proof unfold_locales
  fix sv :: "'a supervisor" and b and e :: "'a sidecar_event"
  assume "fenced b sv" "fresh b e"
  then show "fenced b (sidecar_exec sc sv e)"
  proof (cases e)
    case (Request key req dw)
    with \<open>fresh b e\<close> have "''host_'' @ dw_nonce dw \<noteq> bi_nonce b"
      and "sidecar_step (dw_nonce dw) sv (sidecar_exec sc sv e)"
      using request_step [of dw sv sc key req] by (simp_all del: sidecar_exec.simps)
    with \<open>fenced b sv\<close> show ?thesis using step_fenced by blast
  next
    case (SweepCollect now)
    then show ?thesis
      using step_fenced [OF sidecar_step.collect [where n = "bi_nonce b"] _ \<open>fenced b sv\<close>] by simp
  next
    case SweepSettle
    then show ?thesis
      using step_fenced [OF sidecar_step.settle [where n = "bi_nonce b"] _ \<open>fenced b sv\<close>] by simp
  qed
next
  fix b and sv :: "'a supervisor"
  assume "fenced b sv"
  then show "\<not> authorized sv b"
    by (auto simp: fenced_def authorized_iff tracked_def outdated_def binding_matches_def
        dest!: map_of_SomeD)
qed simp

section \<open>Transitions\<close>

text \<open>The requests that act for the holder of a binding, and what they have in common.\<close>

fun holder :: "supervisor_request \<Rightarrow> supervisor_binding option" where
  "holder (Status b) = Some b"
| "holder (WriteReq b _) = Some b"
| "holder (Resize b _ _) = Some b"
| "holder (Drain b _ _ _) = Some b"
| "holder (Terminate b _) = Some b"
| "holder (Rotate p) = Some (rp_binding p)"
| "holder (Reclaim p) = Some (rp_binding p)"
| "holder (Detach b _ _) = Some b"
| "holder (Claim p) = Some (rp_binding p)"
| "holder (Renew b _ _) = Some b"
| "holder _ = None"

fun drives :: "supervisor_request \<Rightarrow> bool" where
  "drives (WriteReq _ _) \<longleftrightarrow> True"
| "drives (Resize _ _ _) \<longleftrightarrow> True"
| "drives (Drain _ _ _ _) \<longleftrightarrow> True"
| "drives _ \<longleftrightarrow> False"

fun hands_over :: "supervisor_request \<Rightarrow> bool" where
  "hands_over (Rotate _) \<longleftrightarrow> True"
| "hands_over (Reclaim _) \<longleftrightarrow> True"
| "hands_over (Detach _ _ _) \<longleftrightarrow> True"
| "hands_over (Claim _) \<longleftrightarrow> True"
| "hands_over (Renew _ _ _) \<longleftrightarrow> True"
| "hands_over _ \<longleftrightarrow> False"

fun transition_id :: "supervisor_request \<Rightarrow> string" where
  "transition_id (Rotate p) = rp_transition_id p"
| "transition_id (Reclaim p) = rp_transition_id p"
| "transition_id (Detach _ _ t) = t"
| "transition_id (Claim p) = rp_transition_id p"
| "transition_id (Renew _ _ t) = t"
| "transition_id _ = []"

fun payload_digest :: "'h sidecar \<Rightarrow> supervisor_request \<Rightarrow> string" where
  "payload_digest sc (Rotate p) = transition_digest sc p"
| "payload_digest sc (Reclaim p) = transition_digest sc p"
| "payload_digest sc (Detach b epoch _) = detach_digest sc b epoch"
| "payload_digest sc (Claim p) = transition_digest sc p"
| "payload_digest sc (Renew b expires _) = renew_digest sc b expires"
| "payload_digest sc _ = []"

fun request_check :: "supervisor_request \<Rightarrow> (ipc_error, unit) result" where
  "request_check (Rotate p) =
     and_then (require_component (rp_owner_principal p) ''owner_principal'') (\<lambda>_. require_transition_id (rp_transition_id p))"
| "request_check (Reclaim p) =
     and_then (require_component (rp_owner_principal p) ''owner_principal'') (\<lambda>_. require_transition_id (rp_transition_id p))"
| "request_check (Claim p) =
     and_then (require_component (rp_owner_principal p) ''owner_principal'') (\<lambda>_. require_transition_id (rp_transition_id p))"
| "request_check (Detach _ _ t) = require_transition_id t"
| "request_check (Renew _ _ t) = require_transition_id t"
| "request_check _ = Inr ()"

fun next_manifest :: "'h draw \<Rightarrow> supervisor_request \<Rightarrow> host_manifest \<Rightarrow> (string, host_manifest) result" where
  "next_manifest dw (Rotate p) m =
     and_then (exact (dw_now dw) (rp_binding p) m) (\<lambda>_.
       next_epoch_manifest (dw_nonce dw) (dw_now2 dw) (rp_binding p) (rp_owner_principal p) (rp_controller_epoch p)
         (rp_binding_expires_unix p) m)"
| "next_manifest dw (Reclaim p) m =
     and_then (expired_exact (dw_now dw) (rp_binding p) m) (\<lambda>_.
       next_epoch_manifest (dw_nonce dw) (dw_now2 dw) (rp_binding p) (rp_owner_principal p) (rp_controller_epoch p)
         (rp_binding_expires_unix p) m)"
| "next_manifest dw (Claim p) m =
     and_then (detached_exact (dw_now dw) (rp_binding p) m) (\<lambda>_.
       next_epoch_manifest (dw_nonce dw) (dw_now2 dw) (rp_binding p) (rp_owner_principal p) (rp_controller_epoch p)
         (rp_binding_expires_unix p) m)"
| "next_manifest dw (Detach b epoch _) m =
     and_then (exact (dw_now dw) b m) (\<lambda>_. detached_manifest (dw_nonce dw) b epoch m)"
| "next_manifest dw (Renew b expires _) m =
     and_then (exact (dw_now dw) b m) (\<lambda>_.
     and_then (successor (dw_nonce dw) m (hm_owner_principal m) (hm_controller_epoch m) expires) (\<lambda>nxt.
     and_then (validate_runtime_lifetimes nxt (dw_now2 dw)) (\<lambda>_. Inr nxt)))"
| "next_manifest dw _ m = Inr m"

fun replacement ::
  "'h sidecar \<Rightarrow> 'h draw \<Rightarrow> supervisor_request \<Rightarrow> host_manifest \<Rightarrow> owner_spool \<Rightarrow> (string, owner_spool) action" where
  "replacement sc dw (Renew _ _ _) = renew_manifest (sc_json sc) (sc_pid sc) (dw_uuid dw)"
| "replacement sc dw _ = rotate_manifest (sc_json sc) (sc_pid sc) (dw_uuid dw)"

definition decision_of :: "'h sidecar \<Rightarrow> 'h draw \<Rightarrow> supervisor_request \<Rightarrow> host_manifest \<Rightarrow> decision_step" where
  "decision_of sc dw req m =
     unless_receipted m (transition_id req) (payload_digest sc req)
       (and_then (next_manifest dw req m) (\<lambda>nxt.
        record_transition nxt (transition_id req) (payload_digest sc req)))"

lemma guarded_and_then: "guarded (and_then a (\<lambda>_. c)) sv x = guarded a sv (guarded c sv x)"
  by (cases a) (simp_all add: guarded_def)

lemma and_then_assoc: "and_then (and_then a f) g = and_then a (\<lambda>x. and_then (f x) g)"
  by (cases a) simp_all

lemma dispatch_transition:
  "hands_over req \<Longrightarrow> holder req = Some b \<Longrightarrow>
   dispatch sc dw req sv =
     guarded (request_check req) sv
       (reply BindingReply (run_transition (replacement sc dw req) (decision_of sc dw req) (bi_session b) sv))"
  by (cases req)
    (simp_all add: guarded_and_then decision_of_def [abs_def] and_then_assoc rotate_binding_idempotent_def
      reclaim_idempotent_def claim_idempotent_def detach_idempotent_def renew_idempotent_def)

lemma reply_Inr: "reply f x = Some (Inr v, sv') \<longleftrightarrow> (\<exists>y. x = Some (Inr y, sv') \<and> v = f y)"
proof (cases x)
  case (Some p)
  then show ?thesis by (cases p, cases "fst p") (auto simp: reply_def)
qed (simp add: reply_def)

lemma next_manifest_handed:
  "hands_over req \<Longrightarrow> next_manifest dw req m = Inr nxt \<Longrightarrow> handed (dw_nonce dw) m nxt"
  by (cases req)
    (auto simp: and_then_Inr_iff elim!: next_epoch_handed detached_handed renewed_handed dest: exact_matches)

lemma decision_Install:
  assumes "hands_over req" and "decision_of sc dw req m = Install nxt"
  shows "handed (dw_nonce dw) m nxt"
    and "matches_transition nxt (transition_id req) (payload_digest sc req) = Inr True"
proof -
  obtain nxt0 where nxt0: "next_manifest dw req m = Inr nxt0"
    and rec: "record_transition nxt0 (transition_id req) (payload_digest sc req) = Inr nxt"
    using unless_receipted_Install [OF assms(2) [unfolded decision_of_def]] by (auto simp: and_then_Inr_iff)
  show "handed (dw_nonce dw) m nxt"
    by (rule recorded_handed [OF rec next_manifest_handed [OF assms(1) nxt0]])
  show "matches_transition nxt (transition_id req) (payload_digest sc req) = Inr True"
    using rec by (auto simp: record_transition_def matches_transition_def and_then_Inr_iff)
qed

lemma decision_Answer:
  "decision_of sc dw req m = Answer b \<longleftrightarrow>
     b = binding_of m \<and> matches_transition m (transition_id req) (payload_digest sc req) = Inr True"
  by (auto simp: decision_of_def unless_receipted_def decided_def split: sum.splits bool.splits)

lemma run_transition_result:
  assumes "run_transition replace decide sid sv = Some (Inr b', sv1)"
  obtains (answer) h where "map_of (sv_hosts sv) sid = Some h" "decide (hd_manifest h) = Answer b'" "sv1 = sv"
    | (install) h nxt s d where "map_of (sv_hosts sv) sid = Some h" "decide (hd_manifest h) = Install nxt"
        "replace nxt (hd_spool h) (sv_device sv) = Some (Inr s, d)" "b' = binding_of nxt"
        "sv1 = sv\<lparr>sv_hosts := AList.update sid (h\<lparr>hd_manifest := nxt, hd_spool := s\<rparr>) (sv_hosts sv), sv_device := d\<rparr>"
proof -
  from assms obtain h where h: "map_of (sv_hosts sv) sid = Some h"
    by (cases "map_of (sv_hosts sv) sid") (auto simp: run_transition_def on_host_def)
  show ?thesis
  proof (cases "decide (hd_manifest h)")
    case (Refuse e)
    with assms h show ?thesis by (simp add: run_transition_def on_host_def)
  next
    case (Answer b)
    with assms h show ?thesis
      by (auto simp: run_transition_def on_host_def AList_update_same intro: answer)
  next
    case (Install nxt)
    obtain x d where x: "replace nxt (hd_spool h) (sv_device sv) = Some (x, d)"
      using assms h Install
      by (cases "replace nxt (hd_spool h) (sv_device sv)")
        (auto simp: run_transition_def on_host_def install_manifest_def)
    with assms h Install show ?thesis
      by (cases x) (auto simp: run_transition_def on_host_def install_manifest_def intro: install)
  qed
qed

lemma run_transition_answer:
  "map_of (sv_hosts sv) sid = Some h \<Longrightarrow> decide (hd_manifest h) = Answer b \<Longrightarrow>
   run_transition replace decide sid sv = Some (Inr b, sv)"
  "map_of (sv_hosts sv) sid = Some h \<Longrightarrow> decide (hd_manifest h) = Refuse e \<Longrightarrow>
   run_transition replace decide sid sv = Some (Inl e, sv)"
  by (simp_all add: run_transition_def on_host_def AList_update_same)

text \<open>After a transition the host carries its receipt.\<close>

lemma transition_receipted:
  assumes "hands_over req" and "holder req = Some b"
    and "dispatch sc dw req sv = Some (Inr (BindingReply b'), sv1)"
  shows "request_check req = Inr ()"
    and "\<exists>h. map_of (sv_hosts sv1) (bi_session b) = Some h \<and> b' = binding_of (hd_manifest h)
      \<and> matches_transition (hd_manifest h) (transition_id req) (payload_digest sc req) = Inr True"
proof -
  from assms have run: "request_check req = Inr ()"
    "run_transition (replacement sc dw req) (decision_of sc dw req) (bi_session b) sv = Some (Inr b', sv1)"
    by (auto simp: dispatch_transition guarded_Some reply_Inr)
  show "request_check req = Inr ()" by (rule run(1))
  from run(2) show "\<exists>h. map_of (sv_hosts sv1) (bi_session b) = Some h \<and> b' = binding_of (hd_manifest h)
      \<and> matches_transition (hd_manifest h) (transition_id req) (payload_digest sc req) = Inr True"
  proof (cases rule: run_transition_result)
    case (answer h)
    then show ?thesis by (auto simp: decision_Answer)
  next
    case (install h nxt s d)
    with decision_Install(2) [OF assms(1) install(2)] show ?thesis by (auto simp: update_conv')
  qed
qed

lemma transition_supersedes:
  assumes inv: "well_kept sv" and u: "CHR ''/'' \<notin> set (dw_uuid dw)"
    and req: "hands_over req" "holder req = Some b" "authorized sv b"
    and run: "dispatch sc dw req sv = Some (Inr (BindingReply b'), sv1)" and new: "b' \<noteq> b"
  shows "fenced b sv1"
proof -
  have inv1: "well_kept sv1" using step_well_kept [OF dispatch_step [OF u run] inv] .
  from run req have "run_transition (replacement sc dw req) (decision_of sc dw req) (bi_session b) sv
      = Some (Inr b', sv1)"
    by (auto simp: dispatch_transition guarded_Some reply_Inr)
  then show ?thesis
  proof (cases rule: run_transition_result)
    case (answer h)
    with req(3) have "b' = b"
      by (auto simp: decision_Answer authorized_iff binding_matches_def binding_of_def)
    with new show ?thesis ..
  next
    case (install h nxt s d)
    let ?h' = "h\<lparr>hd_manifest := nxt, hd_spool := s\<rparr>"
    have old: "outdated b nxt"
      using decision_Install(1) [OF req(1) install(2)] req(3) install(1,4) new
      by (auto simp: handed_def outdated_def authorized_iff binding_matches_def binding_of_def)
    have here: "map_of (sv_hosts sv1) (bi_session b) = Some ?h'" using install(5) by (simp add: update_conv')
    have only: "x = ?h'" if "(bi_session b, x) \<in> tracked sv1" for x
    proof -
      have "bi_session b \<in> fst ` set (sv_hosts sv1)" using here by (force dest: map_of_SomeD)
      with well_keptD(5) [OF inv1] that have "(bi_session b, x) \<in> set (sv_hosts sv1)"
        unfolding tracked_def by force
      with well_keptD(3) [OF inv1] here show ?thesis by simp
    qed
    have "(bi_session b, ?h') \<in> tracked sv1" using here by (simp add: tracked_def map_of_SomeD)
    note dir = well_keptD(2) [OF inv1 this]
    have "outdated b (hd_manifest x)" if "(bi_session b, x) \<in> tracked sv1" for x
      using only [OF that] old by simp
    with dir show ?thesis unfolding fenced_def by blast
  qed
qed

end
