(* ===== verification/Spool_Stream.thy ===== *)
theory Spool_Stream
  imports Spool "HOL-Library.Code_Target_Numeral"
begin

text \<open>
  The retained output of a session refines an append-only stream of which the last mebibyte can
  be read by absolute offset.
\<close>

section \<open>The file\<close>

lemma length_magic [simp]: "length SPOOL_MAGIC = 8"
  by (simp add: SPOOL_MAGIC_def as_bytes_def)

lemma decode_encode_spool:
  assumes "length payload \<le> SUPERVISOR_SPOOL_MAX_BYTES"
  shows "decode_spool (encode_spool base payload) = Inr (base, payload)"
proof -
  have "unat base < 256 ^ 8" using unsigned_less [of base, where 'a = nat] by simp
  then have "be_decode (be_encode 8 (unat base)) = unat base" by (rule be_decode_encode)
  with assms show ?thesis by (simp add: decode_spool_def encode_spool_def SPOOL_HEADER_BYTES_def)
qed

lemma unat_budget: "n \<le> SUPERVISOR_SPOOL_MAX_BYTES \<Longrightarrow> unat (of_nat n :: u64) = n"
  by (simp add: unat_of_nat SUPERVISOR_SPOOL_MAX_BYTES_def)

lemma map_sum_id_Inr [simp]: "map_sum f id r = Inr x \<longleftrightarrow> r = Inr x"
  by (cases r) auto

lemma read_bounded_files: "read_owner_only_file_bounded p m d = Some (r, d') \<Longrightarrow> dv_files d' = dv_files d"
  by (auto simp: read_owner_only_file_bounded_def io_fail_def io_bind_def io_return_def
      simp del: io_checks.simps dest!: io_checks_files io_check_files
      split: if_splits option.splits sum.splits)

section \<open>Streams\<close>

text \<open>
  A stream of bytes and the part of it that is retained: the base offset and the bytes from there
  to the end.
\<close>

definition retains :: "bytes \<Rightarrow> u64 \<times> bytes \<Rightarrow> bool" where
  "retains w st \<longleftrightarrow>
     unat (fst st) + length (snd st) = length w \<and> snd st = drop (unat (fst st)) w
   \<and> length (snd st) = min (length w) SUPERVISOR_SPOOL_MAX_BYTES"

lemma retains_budget: "retains w st \<Longrightarrow> length (snd st) \<le> SUPERVISOR_SPOOL_MAX_BYTES"
  unfolding retains_def by (metis min.cobounded2)

definition holds_stream :: "owner_spool \<Rightarrow> device \<Rightarrow> bytes \<Rightarrow> bool" where
  "holds_stream s d w \<longleftrightarrow>
     (\<exists>st. retains w st
        \<and> content d (path_join (os_dir s) (os_payload_file s)) = Some (encode_spool (fst st) (snd st)))"

text \<open>What a page of a stream says.\<close>

definition page_of :: "bytes \<Rightarrow> u64 \<Rightarrow> nat \<Rightarrow> spool_page \<Rightarrow> bool" where
  "page_of w offset max_bytes p \<longleftrightarrow>
     unat (sp_total_bytes p) = length w
   \<and> (if unat offset + SUPERVISOR_SPOOL_MAX_BYTES < length w
      then sp_truncated p \<and> sp_bytes p = []
         \<and> map_option unat (sp_next_offset p) = Some (length w - SUPERVISOR_SPOOL_MAX_BYTES)
      else \<not> sp_truncated p \<and> sp_bytes p = take max_bytes (drop (unat offset) w)
         \<and> map_option unat (sp_next_offset p) =
             (if unat offset + max_bytes < length w then Some (unat offset + max_bytes) else None))"

lemma read_state_Inr:
  assumes "holds_stream s d w" and "spool_read_state s d = Some (Inr st, d')"
  shows "retains w st" and "dv_files d' = dv_files d"
    and "content d (path_join (os_dir s) (os_payload_file s)) = Some (encode_spool (fst st) (snd st))"
proof -
  from assms(1) obtain st0 where st0: "retains w st0"
    "content d (path_join (os_dir s) (os_payload_file s)) = Some (encode_spool (fst st0) (snd st0))"
    by (auto simp: holds_stream_def)
  from assms(2) obtain b d1 where
    r: "read_owner_only_file_bounded (path_join (os_dir s) (os_payload_file s))
        (SUPERVISOR_SPOOL_MAX_BYTES + SPOOL_HEADER_BYTES) d = Some (Inr b, d1)"
    and dec: "decode_spool b = Inr st" "d' = d1"
    by (auto simp: spool_read_state_def io_Inr_iff io_lift_def)
  note b = read_bounded_Inr [OF r]
  have "length (snd st0) \<le> SUPERVISOR_SPOOL_MAX_BYTES" using st0(1) by (rule retains_budget)
  then have "decode_spool (encode_spool (fst st0) (snd st0)) = Inr st0" by (simp add: decode_encode_spool)
  with b st0(2) dec have "st = st0" by simp
  with st0 b dec show "retains w st" "dv_files d' = dv_files d"
    "content d (path_join (os_dir s) (os_payload_file s)) = Some (encode_spool (fst st) (snd st))" by auto
qed

lemma retains_append:
  assumes r: "retains w (base, retained)" and b: "length b \<le> SUPERVISOR_SPOOL_MAX_BYTES"
    and n: "n = length retained + length b - SUPERVISOR_SPOOL_MAX_BYTES"
    and next_base: "checked_add base (of_nat n) = Some base'"
  shows "retains (w @ b) (base', drop n retained @ b)"
proof -
  have small: "n \<le> length retained" "n \<le> SUPERVISOR_SPOOL_MAX_BYTES"
    using b n r by (auto simp: retains_def)
  then have "unat (of_nat n :: u64) = n"
    by (intro unat_budget)
  with next_base have base': "unat base' = unat base + n" by (auto dest: checked_add_Some)
  have len: "unat base + length retained = length w" "retained = drop (unat base) w"
    "length retained = min (length w) SUPERVISOR_SPOOL_MAX_BYTES"
    using r by (auto simp: retains_def)
  have "drop n retained @ b = drop (unat base') (w @ b)"
    using len(1,2) small(1) base' by (simp add: add.commute)
  moreover have "length retained - n + length b = min (length w + length b) SUPERVISOR_SPOOL_MAX_BYTES"
    using len(1,3) n b by (auto simp: min_def split: if_splits)
  ultimately show ?thesis using len(1) small(1) base' by (simp add: retains_def)
qed

lemma page_of_retained:
  assumes r: "retains w (base, retained)" and tail: "checked_add base (of_nat (length retained)) = Some tail"
    and m: "max_bytes \<le> SUPERVISOR_SPOOL_MAX_BYTES"
  shows "offset < base \<Longrightarrow>
      page_of w offset max_bytes \<lparr>sp_bytes = [], sp_next_offset = Some base, sp_total_bytes = tail, sp_truncated = True\<rparr>"
    and "\<not> offset < base \<Longrightarrow> \<not> offset > tail \<Longrightarrow>
      bytes = take (min (unat (offset - base) + max_bytes) (length retained) - unat (offset - base))
                (drop (unat (offset - base)) retained) \<Longrightarrow>
      page_of w offset max_bytes
        \<lparr>sp_bytes = bytes,
         sp_next_offset = (if offset + of_nat (length bytes) < tail then Some (offset + of_nat (length bytes)) else None),
         sp_total_bytes = tail, sp_truncated = False\<rparr>"
proof -
  have len: "length retained \<le> SUPERVISOR_SPOOL_MAX_BYTES" "unat base + length retained = length w"
    "retained = drop (unat base) w" "length retained = min (length w) SUPERVISOR_SPOOL_MAX_BYTES"
    using r by (auto simp: retains_def)
  have "unat (of_nat (length retained) :: u64) = length retained"
    using len(1) by (rule unat_budget)
  with tail len(2) have tl: "unat tail = length w" by (auto dest: checked_add_Some)
  show "page_of w offset max_bytes
      \<lparr>sp_bytes = [], sp_next_offset = Some base, sp_total_bytes = tail, sp_truncated = True\<rparr>" if "offset < base"
  proof -
    have "unat offset < unat base" using that by (simp add: word_less_nat_alt)
    with tl len show ?thesis by (auto simp: page_of_def)
  qed
  show "page_of w offset max_bytes
        \<lparr>sp_bytes = bytes,
         sp_next_offset = (if offset + of_nat (length bytes) < tail then Some (offset + of_nat (length bytes)) else None),
         sp_total_bytes = tail, sp_truncated = False\<rparr>"
    if ge: "\<not> offset < base" and le: "\<not> offset > tail"
      and bytes: "bytes = take (min (unat (offset - base) + max_bytes) (length retained) - unat (offset - base))
                (drop (unat (offset - base)) retained)"
  proof -
    have o: "unat base \<le> unat offset" "unat offset \<le> length w"
      using ge le tl by (auto simp: word_less_nat_alt word_le_nat_alt not_less)
    have "unat (offset - base) = unat offset - unat base" using ge by (simp add: unat_sub not_less)
    then have by_w: "bytes = take max_bytes (drop (unat offset) w)"
      using bytes len(2,3) o by (simp add: min_def)
    have "unat (of_nat (length bytes) :: u64) = length bytes"
      using by_w m by (intro unat_budget) simp
    moreover have "length bytes + unat offset \<le> length w" using by_w o by simp
    moreover have "length w < 2 ^ 64" using tl unsigned_less [of tail, where 'a = nat] by simp
    ultimately have "unat (offset + of_nat (length bytes)) = unat offset + length bytes"
      by (simp add: unat_word_ariths)
    then show ?thesis using by_w tl len o by (auto simp: page_of_def word_less_nat_alt)
  qed
qed

section \<open>Runs\<close>

datatype spool_op = Append u32 string bytes | Page u64 nat

datatype spool_event = Appended bytes | AppendFailed bytes | Paged u64 nat spool_page | PageFailed

fun spool_run :: "owner_spool \<Rightarrow> device \<Rightarrow> spool_op list \<Rightarrow> (spool_event list \<times> device) option" where
  "spool_run s d [] = Some ([], d)"
| "spool_run s d (Append pid uuid b # ops) =
     (case spool_append pid uuid b s d of
        None \<Rightarrow> None
      | Some (r, d') \<Rightarrow>
          map_option (\<lambda>(evs, d''). ((case r of Inr _ \<Rightarrow> Appended b | Inl _ \<Rightarrow> AppendFailed b) # evs, d''))
            (spool_run s d' ops))"
| "spool_run s d (Page offset max_bytes # ops) =
     (case read_page offset max_bytes s d of
        None \<Rightarrow> None
      | Some (r, d') \<Rightarrow>
          map_option (\<lambda>(evs, d''). ((case r of Inr p \<Rightarrow> Paged offset max_bytes p | Inl _ \<Rightarrow> PageFailed) # evs, d''))
            (spool_run s d' ops))"

text \<open>
  The specification: a stream that only grows, by every acknowledged append and possibly by a
  failed one, and whose pages are cut from it.
\<close>

fun explains :: "bytes \<Rightarrow> spool_event list \<Rightarrow> bytes \<Rightarrow> bool" where
  "explains w [] w' \<longleftrightarrow> w' = w"
| "explains w (Appended b # evs) w' \<longleftrightarrow> explains (w @ b) evs w'"
| "explains w (AppendFailed b # evs) w' \<longleftrightarrow> explains w evs w' \<or> explains (w @ b) evs w'"
| "explains w (Paged offset max_bytes p # evs) w' \<longleftrightarrow> page_of w offset max_bytes p \<and> explains w evs w'"
| "explains w (PageFailed # evs) w' \<longleftrightarrow> explains w evs w'"

lemma holds_stream_files: "dv_files d' = dv_files d \<Longrightarrow> holds_stream s d' w = holds_stream s d w"
  by (simp add: holds_stream_def content_def)

lemma read_state_files: "spool_read_state s d = Some (r, d') \<Longrightarrow> dv_files d' = dv_files d"
  by (auto simp: spool_read_state_def io_bind_def map_err_result io_lift_def
      dest!: read_bounded_files split: option.splits sum.splits)

lemma append_post:
  assumes h: "holds_stream s d w" and run: "spool_append pid u b s d = Some (r, d')"
  shows "(r = Inr () \<longrightarrow> holds_stream s d' (w @ b)) \<and> (holds_stream s d' w \<or> holds_stream s d' (w @ b))"
proof (cases "length b > SUPERVISOR_SPOOL_MAX_BYTES")
  case True
  with h run show ?thesis by (auto simp: spool_append_def io_fail_def)
next
  case False
  obtain r1 d1 where rs: "spool_read_state s d = Some (r1, d1)"
    using run False by (auto simp: spool_append_def io_bind_def split: option.splits)
  have h1: "holds_stream s d1 w" using h holds_stream_files [OF read_state_files [OF rs]] by simp
  show ?thesis
  proof (cases r1)
    case (Inl e)
    with rs run False h1 show ?thesis by (auto simp: spool_append_def io_bind_def)
  next
    case (Inr st)
    obtain base retained where st: "st = (base, retained)" by (cases st)
    note ret = read_state_Inr(1) [OF h rs [unfolded Inr st]]
    let ?n = "length retained + length b - SUPERVISOR_SPOOL_MAX_BYTES"
    show ?thesis
    proof (cases "checked_add base (of_nat ?n)")
      case None
      with rs run False h1 Inr st show ?thesis by (auto simp: spool_append_def io_bind_def io_fail_def)
    next
      case (Some base')
      let ?p = "path_join (os_dir s) (os_payload_file s)" and ?b = "encode_spool base' (drop ?n retained @ b)"
      obtain r2 where w: "owner_write pid u ?p ?b d1 = Some (r2, d')" and r: "r = Inr () \<longleftrightarrow> r2 = Inr ()"
        using rs run False Inr st Some
        by (auto simp: spool_append_def io_bind_def map_err_result Let_def split: sum.splits)
      have new: "holds_stream s d' (w @ b)" if "content d' ?p = Some ?b"
        using that retains_append [OF ret _ refl Some] False by (auto simp: holds_stream_def)
      have old: "holds_stream s d' w" if "content d' ?p = content d1 ?p"
        using that h1 by (simp add: holds_stream_def)
      show ?thesis
      proof (cases r2)
        case e: (Inl e)
        from owner_writer.write_error [OF TrueI w [unfolded e]] new old e r show ?thesis by auto
      next
        case ok: (Inr x)
        from owner_writer.write_ok [OF TrueI w [unfolded ok]] new show ?thesis by auto
      qed
    qed
  qed
qed

lemma page_post:
  assumes h: "holds_stream s d w" and run: "read_page offset m s d = Some (r, d')"
  shows "holds_stream s d' w \<and> (\<forall>p. r = Inr p \<longrightarrow> page_of w offset m p)"
proof (cases "m = 0 \<or> m > SUPERVISOR_SPOOL_MAX_BYTES")
  case True
  with h run show ?thesis by (auto simp: read_page_def io_fail_def)
next
  case False
  obtain r1 d1 where rs: "spool_read_state s d = Some (r1, d1)"
    using run False by (auto simp: read_page_def io_bind_def split: option.splits)
  have h1: "holds_stream s d1 w" using h holds_stream_files [OF read_state_files [OF rs]] by simp
  show ?thesis
  proof (cases r1)
    case (Inl e)
    with rs run False h1 show ?thesis by (auto simp: read_page_def io_bind_def)
  next
    case (Inr st)
    obtain base retained where st: "st = (base, retained)" by (cases st)
    note ret = read_state_Inr(1) [OF h rs [unfolded Inr st]]
    show ?thesis
    proof (cases "checked_add base (of_nat (length retained))")
      case None
      with rs run False h1 Inr st show ?thesis by (auto simp: read_page_def io_bind_def io_fail_def)
    next
      case (Some tail)
      have "m \<le> SUPERVISOR_SPOOL_MAX_BYTES" using False by simp
      note pages = page_of_retained [OF ret Some this, of offset]
      show ?thesis
        using rs run False h1 Inr st Some pages
        by (auto simp: read_page_def io_bind_def io_fail_def io_return_def Let_def split: if_splits)
    qed
  qed
qed

lemma run_explained:
  "holds_stream s d w \<Longrightarrow> spool_run s d ops = Some (evs, d') \<Longrightarrow>
   \<exists>w'. explains w evs w' \<and> holds_stream s d' w'"
proof (induction ops arbitrary: d w evs)
  case (Cons oper ops)
  show ?case
  proof (cases oper)
    case (Append pid u b)
    then obtain r d1 evs' where a: "spool_append pid u b s d = Some (r, d1)"
      and rest: "spool_run s d1 ops = Some (evs', d')"
      and evs: "evs = (case r of Inr _ \<Rightarrow> Appended b | Inl _ \<Rightarrow> AppendFailed b) # evs'"
      using Cons.prems(2) by (auto split: option.splits)
    from append_post [OF Cons.prems(1) a] Cons.IH [OF _ rest] evs show ?thesis
      by (cases r) fastforce+
  next
    case (Page offset m)
    then obtain r d1 evs' where a: "read_page offset m s d = Some (r, d1)"
      and rest: "spool_run s d1 ops = Some (evs', d')"
      and evs: "evs = (case r of Inr p \<Rightarrow> Paged offset m p | Inl _ \<Rightarrow> PageFailed) # evs'"
      using Cons.prems(2) by (auto split: option.splits)
    from page_post [OF Cons.prems(1) a] Cons.IH [OF _ rest] evs show ?thesis
      by (cases r) auto
  qed
qed auto

lemma io_catch_Inr_iff:
  "io_catch m f g d = Some (Inr y, d') \<longleftrightarrow>
     (\<exists>x d1. m d = Some (Inr x, d1) \<and> f x d1 = Some (Inr y, d'))
   \<or> (\<exists>e d1. m d = Some (Inl e, d1) \<and> g e d1 = Some (Inr y, d'))"
  by (auto simp: io_catch_def split: option.splits sum.splits)

lemma system_call_Inr: "system_call f g d = Some (Inr x, d') \<Longrightarrow> dv_files d' = f (dv_files d)"
  by (auto simp: system_call_def pass_through_def split: list.splits option.splits)

lemma create_owner_only_Inr:
  assumes "create_owner_only_file_new p data d = Some (Inr x, d')"
  shows "content d' p = Some data"
proof -
  have "path_parent p \<noteq> None" using assms by (auto simp: create_owner_only_file_new_def io_fail_def split: if_splits)
  with assms obtain d1 d2 d3 d4 d5 where
    d1: "create_new p d1 = Some (Inr (), d2)" and d3: "io_checks 2 d2 = Some (Inr (), d3)"
    and d4: "write_all p data d3 = Some (Inr (), d4)" "io_check d4 = Some (Inr (), d5)" "io_check d5 = Some (Inr x, d')"
    by (auto simp: create_owner_only_file_new_def io_Inr_iff io_catch_Inr_iff io_return_def io_fail_def
        simp del: io_checks.simps split: if_splits)
  have "map_of (dv_files d2) p = Some []"
    using d1 by (auto simp: create_new_def update_conv' dest!: system_call_Inr split: if_splits)
  then have "map_of (dv_files d3) p = Some []" using io_checks_files [OF d3] by simp
  then have "map_of (dv_files d4) p = Some data"
    using system_call_Inr [OF d4(1) [unfolded write_all_def]] by (simp add: bytes_of_def update_conv')
  then show ?thesis using io_check_files [OF d4(2)] io_check_files [OF d4(3)] by (simp add: content_def)
qed

lemma created_spool_holds:
  assumes "spool_create J root m d = Some (Inr s, d')"
  shows "holds_stream s d' []"
proof -
  let ?p = "path_join (path_join root (hm_session_id m)) SPOOL_FILE"
  from assms obtain d1 where c: "create_owner_only_file_new ?p (encode_spool 0 []) d1 = Some (Inr (), d')"
    and s: "os_dir s = path_join root (hm_session_id m)" "os_payload_file s = SPOOL_FILE"
    by (auto simp: spool_create_def io_Inr_iff io_return_def Let_def)
  from create_owner_only_Inr [OF c] s show ?thesis
    unfolding holds_stream_def by (intro exI [of _ "(0, [])"]) (simp add: retains_def)
qed

lemma io_check_returns: "\<exists>r d'. io_check d = Some (r, d')"
  by (auto simp: io_check_def system_call_def split: list.split option.split)

lemma io_checks_return: "\<exists>r d'. io_checks n d = Some (r, d')"
proof (induction n arbitrary: d)
  case (Suc n)
  obtain r d1 where "io_check d = Some (r, d1)" using io_check_returns by blast
  with Suc [of d1] show ?case by (cases r) (auto simp: io_bind_def)
qed (simp add: io_return_def)

lemma read_state_returns: "\<exists>r d'. spool_read_state s d = Some (r, d')"
proof -
  let ?p = "path_join (os_dir s) (os_payload_file s)" and ?m = "SUPERVISOR_SPOOL_MAX_BYTES + SPOOL_HEADER_BYTES"
  obtain r1 d1 where c: "io_checks 6 d = Some (r1, d1)" using io_checks_return by blast
  obtain r2 d2 where c2: "io_check d1 = Some (r2, d2)" using io_check_returns by blast
  have "\<exists>r d'. read_owner_only_file_bounded ?p ?m d = Some (r, d')"
    using c c2 by (cases r1; cases r2)
      (auto simp: read_owner_only_file_bounded_def io_bind_def io_fail_def io_return_def
        simp del: io_checks.simps split: option.splits)
  then obtain r d' where "read_owner_only_file_bounded ?p ?m d = Some (r, d')" by blast
  then show ?thesis by (cases r) (auto simp: spool_read_state_def io_bind_def map_err_result io_lift_def)
qed

lemma append_returns: "\<exists>r d'. spool_append pid u b s d = Some (r, d')"
proof -
  obtain r1 d1 where rs: "spool_read_state s d = Some (r1, d1)" using read_state_returns by blast
  show ?thesis
  proof (cases r1)
    case (Inl e)
    with rs show ?thesis by (simp add: spool_append_def io_bind_def io_fail_def)
  next
    case (Inr st)
    obtain base retained where st: "st = (base, retained)" by (cases st)
    obtain r2 d2 where "owner_write pid u (path_join (os_dir s) (os_payload_file s))
        (encode_spool (base + of_nat (length retained + length b - SUPERVISOR_SPOOL_MAX_BYTES))
          (drop (length retained + length b - SUPERVISOR_SPOOL_MAX_BYTES) retained @ b)) d1 = Some (r2, d2)"
      using owner_writer.write_returns by blast
    with rs Inr st show ?thesis
      by (auto simp: spool_append_def io_bind_def io_fail_def map_err_result Let_def checked_add_def)
  qed
qed

lemma page_returns: "\<exists>r d'. read_page offset m s d = Some (r, d')"
proof -
  obtain r1 d1 where "spool_read_state s d = Some (r1, d1)" using read_state_returns by blast
  then show ?thesis
    by (cases r1) (auto simp: read_page_def io_bind_def io_fail_def io_return_def Let_def split: option.splits)
qed

lemma run_returns: "\<exists>evs d'. spool_run s d ops = Some (evs, d')"
proof (induction ops arbitrary: d)
  case (Cons oper ops)
  show ?case
  proof (cases oper)
    case (Append pid u b)
    obtain r d1 where "spool_append pid u b s d = Some (r, d1)" using append_returns by blast
    with Cons [of d1] Append show ?thesis by auto
  next
    case (Page offset m)
    obtain r d1 where "read_page offset m s d = Some (r, d1)" using page_returns by blast
    with Cons [of d1] Page show ?thesis by auto
  qed
qed simp

section \<open>Properties\<close>

text \<open>
  C27: The spool of a session refines an append-only stream.  From the creation of the spool, run
  any appends and reads on any device.  The run returns, and there is one stream that explains
  all of it: every acknowledged append is in it, in order, a failed append is in it as a whole or
  not at all, and every page ever returned is cut from it at its absolute offset, or says that
  the offset has been dropped and where the retained last mebibyte begins.  So a cursor never
  rewinds into different bytes, whatever writes the device fails.
\<close>

theorem spool_refines_stream:
  assumes "spool_create J root m d0 = Some (Inr s, d)"
  shows "\<exists>evs d' w. spool_run s d ops = Some (evs, d') \<and> explains [] evs w \<and> holds_stream s d' w"
  using run_returns [of s d ops] run_explained [OF created_spool_holds [OF assms]] by blast

definition manifest0 :: host_manifest where
  "manifest0 =
     \<lparr>hm_session_id = ''s'', hm_device_id = ''d'', hm_workspace_id = ''w'', hm_owner_principal = ''alice'',
      hm_io_mode = Pty, hm_controller_attached = True, hm_host_nonce = ''host_0'', hm_controller_epoch = 1,
      hm_binding_expires_unix = 50, hm_host_expires_unix = 90, hm_last_transition = None\<rparr>"

definition spool0 :: owner_spool where
  "spool0 = \<lparr>os_dir = ''/r/s'', os_manifest = manifest0, os_payload_file = SPOOL_FILE\<rparr>"

lemma create0: "\<exists>d. spool_create json_text0 ''/r'' manifest0 (device0 []) = Some (Inr spool0, d)"
proof -
  have "case spool_create json_text0 ''/r'' manifest0 (device0 []) of Some (Inr s, _) \<Rightarrow> s = spool0 | _ \<Rightarrow> False"
    by code_simp
  then show ?thesis by (auto split: option.splits sum.splits)
qed

theorem spool_refines_stream_witness:
  "\<exists>d evs d' w. spool_create json_text0 ''/r'' manifest0 (device0 []) = Some (Inr spool0, d)
    \<and> spool_run spool0 d [Append 1 ''u'' [1, 2], Page 0 1] = Some (evs, d')
    \<and> explains [] evs w \<and> holds_stream spool0 d' w"
  using create0 spool_refines_stream [where ops = "[Append 1 ''u'' [1, 2], Page 0 1]"] by blast

end
