(* ===== verification/Supervisor_Safety.thy ===== *)
theory Supervisor_Safety
  imports Supervisor_Fence Spool_Stream "HOL-Library.Code_Target_Numeral"
begin

text \<open>
  The properties of the session supervisor: only the current controller drives a host, a binding
  that was handed on is out for good, every transition happens once, a host is terminated once even
  across a restart, and what the liveness probe says.
\<close>

section \<open>Requests without the right\<close>

definition returns :: "('e, 'a) action \<Rightarrow> bool" where
  "returns m \<longleftrightarrow> (\<forall>d. \<exists>r d'. m d = Some (r, d'))"

named_theorems returns_intros

lemma returnsE: "returns m \<Longrightarrow> \<exists>r d'. m d = Some (r, d')"
  by (simp add: returns_def)

lemma returns_trivial [returns_intros]: "returns (io_return a)" "returns (io_fail e)" "returns (io_lift r)"
  by (simp_all add: returns_def io_return_def io_fail_def io_lift_def)

lemma returns_bind [returns_intros]:
  assumes "returns m" and "\<And>a. returns (f a)"
  shows "returns (io_bind m f)"
  unfolding returns_def
proof
  fix d
  from returnsE [OF assms(1)] obtain x d1 where "m d = Some (x, d1)" by blast
  with returnsE [OF assms(2)] show "\<exists>r d'. io_bind m f d = Some (r, d')"
    by (cases x) (auto simp: io_bind_def)
qed

lemma returns_map_err [returns_intros]: "returns m \<Longrightarrow> returns (map_err f m)"
  by (force simp: returns_def map_err_result)

lemma returns_if [returns_intros]: "returns m \<Longrightarrow> returns n \<Longrightarrow> returns (if c then m else n)"
  by simp

lemma returns_case_option [returns_intros]:
  "returns m \<Longrightarrow> (\<And>x. returns (f x)) \<Longrightarrow> returns (case v of None \<Rightarrow> m | Some x \<Rightarrow> f x)"
  by (cases v) auto

lemma returns_lambda: "(\<And>d. \<exists>m. f d = m d \<and> returns m) \<Longrightarrow> returns f"
  unfolding returns_def by metis

lemma returns_system_call [returns_intros]: "returns (system_call s e)"
  by (auto simp: returns_def system_call_def split: list.splits option.splits)

lemma returns_checks [returns_intros]: "returns io_check" "returns (io_checks n)"
proof -
  show "returns io_check" unfolding io_check_def by (rule returns_system_call)
  then show "returns (io_checks n)" by (induction n) (auto intro: returns_intros)
qed

lemma returns_read_bounded [returns_intros]: "returns (read_owner_only_file_bounded p n)"
proof -
  have "returns (\<lambda>d. case content d p of
          None \<Rightarrow> io_fail (IoError ''No such file or directory (os error 2)'') d
        | Some bytes \<Rightarrow>
            if length bytes > n
            then io_fail (IoError (''owner-only file exceeds '' @ dec n @ '' byte budget: '' @ p)) d
            else io_bind io_check (\<lambda>_. io_return bytes) d)"
  proof (rule returns_lambda)
    fix d
    show "\<exists>m. (case content d p of
          None \<Rightarrow> io_fail (IoError ''No such file or directory (os error 2)'') d
        | Some bytes \<Rightarrow>
            if length bytes > n
            then io_fail (IoError (''owner-only file exceeds '' @ dec n @ '' byte budget: '' @ p)) d
            else io_bind io_check (\<lambda>_. io_return bytes) d) = m d \<and> returns m"
      by (cases "content d p") (auto split: if_splits intro: returns_intros)
  qed
  then show ?thesis unfolding read_owner_only_file_bounded_def by (intro returns_intros)
qed

lemma returns_receipt: "returns (read_termination_receipt J root sid)"
proof -
  have inner: "returns (\<lambda>d1. if content d1 f = None then io_return None d1
           else io_bind (map_err g (read_owner_only_file_bounded f n)) h d1)"
    if "\<And>b. returns (h b)" for f n g and h :: "bytes \<Rightarrow> (string, termination_receipt option) action"
    by (rule returns_lambda) (use that in \<open>auto intro: returns_intros\<close>)
  have prep: "returns (prepare_owner_only_state_dir dir)" for dir
    unfolding prepare_owner_only_state_dir_def by (rule returns_system_call)
  show ?thesis
  proof (rule returns_lambda, goal_cases)
    case (1 d)
    show ?case
      unfolding read_termination_receipt_def Let_def
      by (auto split: if_splits intro!: returns_intros inner prep)
  qed
qed

lemma not_matching:
  assumes "\<not> binding_matches b m"
  shows "\<exists>e. exact_identity now b m = Inl e" "\<exists>e. exact now b m = Inl e"
    "\<exists>e. expired_exact now b m = Inl e" "\<exists>e. detached_exact now b m = Inl e"
  using assms by (auto simp: exact_def exact_identity_def expired_exact_def detached_exact_def)

lemma on_host_refused:
  assumes "\<And>h d. map_of (sv_hosts sv) sid = Some h \<Longrightarrow> \<exists>e. f h d = Some (Inl e, h, d)"
  shows "\<exists>e. on_host sid f sv = Some (Inl e, sv)"
proof (cases "map_of (sv_hosts sv) sid")
  case (Some h)
  with assms obtain e where "f h (sv_device sv) = Some (Inl e, h, sv_device sv)" by blast
  with Some show ?thesis by (simp add: on_host_def AList_update_same)
qed (simp add: on_host_def)

lemma case_refused:
  "\<exists>e. x = Inl e \<Longrightarrow> \<exists>e. (case x of Inl e \<Rightarrow> Some (Inl e, h, d) | Inr v \<Rightarrow> g v) = Some (Inl e, h, d)"
  by auto

lemma if_refused: "\<exists>e. y = Some (Inl e, sv) \<Longrightarrow> \<exists>e. (if c then Some (Inl e0, sv) else y) = Some (Inl e, sv)"
  by auto

lemma reply_refused: "\<exists>e. x = Some (Inl e, sv) \<Longrightarrow> \<exists>e. reply f x = Some (Inl e, sv)"
  by (auto simp: reply_def)

lemma unauthorized_transition:
  assumes "\<not> authorized sv b" and "hands_over req" and "holder req = Some b"
  shows "\<exists>r. dispatch sc dw req sv = Some (r, sv)"
proof -
  have "\<exists>r. run_transition (replacement sc dw req) (decision_of sc dw req) (bi_session b) sv = Some (r, sv)"
  proof (cases "map_of (sv_hosts sv) (bi_session b)")
    case None
    then show ?thesis by (simp add: run_transition_def on_host_def)
  next
    case (Some h)
    with assms(1) have no: "\<not> binding_matches b (hd_manifest h)" by (simp add: authorized_iff)
    have "decision_of sc dw req (hd_manifest h) \<noteq> Install nxt" for nxt
    proof
      assume "decision_of sc dw req (hd_manifest h) = Install nxt"
      then obtain nxt0 where "next_manifest dw req (hd_manifest h) = Inr nxt0"
        using unless_receipted_Install unfolding decision_of_def by (fastforce simp: and_then_Inr_iff)
      with assms(2,3) no show False
        by (cases req) (auto simp: and_then_Inr_iff dest: exact_matches)
    qed
    then show ?thesis using run_transition_answer [OF Some]
      by (cases "decision_of sc dw req (hd_manifest h)") blast+
  qed
  with assms(2,3) show ?thesis
    by (cases "request_check req") (auto simp: dispatch_transition guarded_def reply_def)
qed

lemma unauthorized_drive:
  assumes "\<not> authorized sv b" and "drives req \<or> req = Status b" and "holder req = Some b"
  shows "\<exists>e. dispatch sc dw req sv = Some (Inl e, sv)"
proof -
  have no: "\<not> binding_matches b (hd_manifest h)" if "map_of (sv_hosts sv) (bi_session b) = Some h" for h
    using assms(1) that by (simp add: authorized_iff)
  have bad: "\<exists>e. exact_identity now b (hd_manifest h) = Inl e" "\<exists>e. exact now b (hd_manifest h) = Inl e"
    if "map_of (sv_hosts sv) (bi_session b) = Some h" for h now
    using not_matching [OF no [OF that]] by blast+
  have r1: "\<exists>e. reattach ops os now b sv = Some (Inl e, sv)" for ops os now
    unfolding reattach_def by (rule on_host_refused, rule case_refused, erule bad(1))
  have r2: "\<exists>e. supervisor_write ops now b bytes sv = Some (Inl e, sv)" for ops now bytes
    unfolding supervisor_write_def
    by (rule if_refused, rule on_host_refused, rule case_refused, erule bad(2))
  have r3: "\<exists>e. supervisor_resize ops now b cols rows sv = Some (Inl e, sv)" for ops now cols rows
    unfolding supervisor_resize_def
    by (rule if_refused, rule on_host_refused, rule case_refused, erule bad(2))
  have r4: "\<exists>e. supervisor_drain ops p u now b off mx err sv = Some (Inl e, sv)" for ops p u now off mx err
    unfolding supervisor_drain_def by (rule on_host_refused, rule case_refused, erule bad(2))
  show ?thesis
  proof (cases req)
    case (Status b0)
    with assms(3) reply_refused [OF r1] show ?thesis by simp
  next
    case (WriteReq b0 bytes)
    with assms(3) reply_refused [OF r2] show ?thesis by simp
  next
    case (Resize b0 cols rows)
    with assms(3) reply_refused [OF r3] show ?thesis by simp
  next
    case (Drain b0 off mx stream)
    with assms(3) reply_refused [OF r4] show ?thesis by (cases "drain_stream stream") simp_all
  qed (use assms(2) in auto)
qed

lemma unauthorized_terminate:
  assumes "\<not> authorized sv b"
  shows "\<exists>r sv'. dispatch sc dw (Terminate b t) sv = Some (r, sv') \<and> sv_hosts sv' = sv_hosts sv"
proof (cases "map_of (sv_hosts sv) (bi_session b)")
  case None
  from returnsE [OF returns_receipt] obtain x d where
    "read_termination_receipt (sc_json sc) (sv_root sv) (bi_session b) (sv_device sv) = Some (x, d)" by blast
  with None show ?thesis
    by (auto simp: terminate_idempotent_def guarded_def reply_def split: sum.splits option.splits)
next
  case (Some h)
  with assms have "\<not> binding_matches b (hd_manifest h)" by (simp add: authorized_iff)
  then obtain e where "exact (dw_now dw) b (hd_manifest h) = Inl e" using not_matching(2) by blast
  with Some show ?thesis by (auto simp: terminate_idempotent_def guarded_def reply_def split: sum.splits)
qed

lemma on_host_exact:
  assumes "on_host sid (\<lambda>h d. case exact now b (hd_manifest h) of Inl e \<Rightarrow> Some (Inl e, h, d) | Inr u \<Rightarrow> g h d u) sv
      = Some (Inr x, sv')"
    and "\<And>h d r h' d'. g h d () = Some (r, h', d') \<Longrightarrow> hd_manifest h' = hd_manifest h"
  shows "\<exists>h h'. map_of (sv_hosts sv) sid = Some h \<and> exact now b (hd_manifest h) = Inr ()
    \<and> hd_manifest h' = hd_manifest h \<and> sv_hosts sv' = AList.update sid h' (sv_hosts sv)"
proof (cases "map_of (sv_hosts sv) sid")
  case None
  with assms(1) show ?thesis by (simp add: on_host_def)
next
  case (Some h)
  show ?thesis
  proof (cases "exact now b (hd_manifest h)")
    case (Inl e)
    with assms(1) Some show ?thesis by (simp add: on_host_def)
  next
    case (Inr u)
    with assms(1) Some obtain h' d where g: "g h (sv_device sv) () = Some (Inr x, h', d)"
      "sv_hosts sv' = AList.update sid h' (sv_hosts sv)"
      by (auto simp: on_host_def split: option.splits)
    with assms(2) [OF g(1)] Some Inr show ?thesis by auto
  qed
qed

lemma if_accepted: "(if c then Some (Inl e, sv) else y) = Some (Inr x, sv') \<Longrightarrow> y = Some (Inr x, sv')"
  by (simp split: if_splits)

lemma drive_result:
  assumes "drives req" and "holder req = Some b" and "dispatch sc dw req sv = Some (Inr x, sv')"
  shows "\<exists>h h'. map_of (sv_hosts sv) (bi_session b) = Some h \<and> exact (dw_now dw) b (hd_manifest h) = Inr ()
    \<and> hd_manifest h' = hd_manifest h \<and> sv_hosts sv' = AList.update (bi_session b) h' (sv_hosts sv)"
proof (cases req)
  case (WriteReq b0 bytes)
  with assms obtain y where "supervisor_write (sc_ops sc) (dw_now dw) b bytes sv = Some (Inr y, sv')"
    by (auto simp: reply_Inr split: if_splits)
  then show ?thesis unfolding supervisor_write_def
    by (elim if_accepted [elim_format] on_host_exact) (auto simp: Let_def split: prod.splits)
next
  case (Resize b0 cols rows)
  with assms obtain y where "supervisor_resize (sc_ops sc) (dw_now dw) b cols rows sv = Some (Inr y, sv')"
    by (auto simp: reply_Inr)
  then show ?thesis unfolding supervisor_resize_def
    by (elim if_accepted [elim_format] on_host_exact) (auto simp: Let_def split: prod.splits)
next
  case (Drain b0 off mx stream)
  with assms obtain err y where
    "supervisor_drain (sc_ops sc) (sc_pid sc) (dw_uuid dw) (dw_now dw) b off mx err sv = Some (Inr y, sv')"
    by (auto simp: reply_Inr split: if_splits sum.splits)
  then show ?thesis unfolding supervisor_drain_def
    by (rule on_host_exact) (auto simp: Let_def split: prod.splits sum.splits option.splits if_splits)
qed (use assms(1) in auto)

section \<open>Properties\<close>

text \<open>
  C23: A binding that has been handed on is out for good.  Take any history of requests and sweeps
  since the sidecar started, then a rotation, reclaim, detach, claim or renewal that answers the
  holder of the current binding with another one.  Whatever requests and sweeps follow, in any
  order and with any outcome of the system calls, the old binding never matches a host again, as
  long as no later random nonce repeats its own: with it no input is written, no size changed and
  no output read, no further transition changes anything, and no host leaves the table.
\<close>

theorem superseded_binding_is_out_for_good:
  assumes "list_all clean before" and "sv = foldl (sidecar_exec sc) (supervisor_new root d) before"
    and "hands_over req" and "holder req = Some b" and "authorized sv b" and "CHR ''/'' \<notin> set (dw_uuid dw)"
    and "dispatch sc dw req sv = Some (Inr (BindingReply b'), sv1)" and "b' \<noteq> b"
    and "list_all (fresh b) after" and "sv2 = foldl (sidecar_exec sc) sv1 after"
    and "holder req2 = Some b"
  shows "\<exists>r sv3. dispatch sc dw2 req2 sv2 = Some (r, sv3) \<and> sv_hosts sv3 = sv_hosts sv2
    \<and> (drives req2 \<longrightarrow> (\<exists>e. r = Inl e)) \<and> (drives req2 \<or> hands_over req2 \<longrightarrow> sv3 = sv2)"
proof -
  have "well_kept sv" using run_well_kept [OF assms(1) well_kept_new] assms(2) by simp
  from transition_supersedes [OF this assms(6,3,4,5,7,8)] have "fenced b sv1" .
  then have out: "\<not> authorized sv2 b"
    using sidecar_fence.fenced_forever [of b sv1 after sc] assms(9,10) by simp
  show ?thesis
  proof (cases req2)
    case (Terminate b0 t)
    with unauthorized_terminate [OF out, of sc dw2 t] assms(11) show ?thesis by auto
  qed (use unauthorized_drive [OF out, of req2 sc dw2] unauthorized_transition [OF out, of req2 sc dw2]
      assms(11) in auto)
qed

text \<open>
  C25: Only the controller drives a host.  When a write, a resize or a read of output succeeds, the
  binding that came with it is that of the live host of the session in every field, a controller is
  attached, and the binding has not expired; and no such request changes who controls any host.
\<close>

theorem only_the_controller_drives:
  assumes "drives req" and "holder req = Some b" and "dispatch sc dw req sv = Some (Inr x, sv')"
  shows "\<exists>h. map_of (sv_hosts sv) (bi_session b) = Some h \<and> b = binding_of (hd_manifest h)
      \<and> hm_controller_attached (hd_manifest h) \<and> dw_now dw < hm_binding_expires_unix (hd_manifest h)
      \<and> map_option hd_manifest (map_of (sv_hosts sv') sid) = map_option hd_manifest (map_of (sv_hosts sv) sid)"
proof -
  from drive_result [OF assms] obtain h h' where h: "map_of (sv_hosts sv) (bi_session b) = Some h"
    "exact (dw_now dw) b (hd_manifest h) = Inr ()" "hd_manifest h' = hd_manifest h"
    "sv_hosts sv' = AList.update (bi_session b) h' (sv_hosts sv)" by blast
  from h(2) have "b = binding_of (hd_manifest h) \<and> hm_controller_attached (hd_manifest h)
      \<and> dw_now dw < hm_binding_expires_unix (hd_manifest h)"
    by (auto simp: exact_def exact_identity_def binding_matches_def binding_of_def and_then_Inr_iff split: if_splits)
  with h show ?thesis by (auto simp: update_conv')
qed

text \<open>
  A transition happens once.  When a rotation, reclaim, detach, claim or renewal has been
  answered with a binding, the same request answers with the same binding and changes nothing, at
  whatever time it is sent again and whatever has expired since; and any transition of the session
  that brings the same transition id with another payload is refused and changes nothing.
\<close>

theorem transition_happens_once:
  assumes "hands_over req" and "holder req = Some b"
    and "dispatch sc dw req sv = Some (Inr (BindingReply b'), sv1)"
  shows "dispatch sc dw2 req sv1 = Some (Inr (BindingReply b'), sv1)
    \<and> (hands_over req2 \<and> holder req2 = Some b2 \<and> bi_session b2 = bi_session b
       \<and> transition_id req2 = transition_id req \<and> payload_digest sc req2 \<noteq> payload_digest sc req
       \<longrightarrow> (\<exists>e. dispatch sc dw2 req2 sv1 = Some (Inl e, sv1)))"
proof
  from transition_receipted [OF assms] obtain h where check: "request_check req = Inr ()"
    and h: "map_of (sv_hosts sv1) (bi_session b) = Some h" "b' = binding_of (hd_manifest h)"
    and rec: "matches_transition (hd_manifest h) (transition_id req) (payload_digest sc req) = Inr True" by blast
  from h rec have "decision_of sc dw2 req (hd_manifest h) = Answer b'" by (simp add: decision_Answer)
  with h(1) check assms(1,2) show "dispatch sc dw2 req sv1 = Some (Inr (BindingReply b'), sv1)"
    by (simp add: dispatch_transition guarded_def run_transition_answer reply_def)
  show "hands_over req2 \<and> holder req2 = Some b2 \<and> bi_session b2 = bi_session b
       \<and> transition_id req2 = transition_id req \<and> payload_digest sc req2 \<noteq> payload_digest sc req
       \<longrightarrow> (\<exists>e. dispatch sc dw2 req2 sv1 = Some (Inl e, sv1))"
  proof (intro impI, elim conjE)
    assume req2: "hands_over req2" "holder req2 = Some b2" "bi_session b2 = bi_session b"
      and same: "transition_id req2 = transition_id req" "payload_digest sc req2 \<noteq> payload_digest sc req"
    have "\<exists>e. matches_transition (hd_manifest h) (transition_id req2) (payload_digest sc req2) = Inl e"
      using rec same by (auto simp: matches_transition_def and_then_def split: sum.splits option.splits if_splits)
    then obtain e where "decision_of sc dw2 req2 (hd_manifest h) = Refuse e"
      by (auto simp: decision_of_def unless_receipted_def)
    with h(1) req2 show "\<exists>e. dispatch sc dw2 req2 sv1 = Some (Inl e, sv1)"
      by (cases "request_check req2") (simp_all add: dispatch_transition guarded_def run_transition_answer reply_def)
  qed
qed

text \<open>
  What the liveness probe says when nothing comes between its two looks: after any history of
  requests and sweeps it answers that a host is live exactly when the supervisor still has it, in its
  table or in the hands of a sweep that has not yet confirmed its end.
\<close>

theorem liveness_probe_is_exact:
  assumes "list_all clean es" and "sv = foldl (sidecar_exec sc) (supervisor_new root d) es"
  shows "host_live sv sv sid \<longleftrightarrow> (\<exists>h. (sid, h) \<in> tracked sv)"
proof -
  have inv: "well_kept sv" using run_well_kept [OF assms(1) well_kept_new] assms(2) by simp
  have "probe_hosts sv sid \<longleftrightarrow> (\<exists>h. (sid, h) \<in> set (sv_hosts sv))"
    using weak_map_of_SomeI by (fastforce simp: probe_hosts_def dest: map_of_SomeD)
  moreover have "probe_terminating sv sid \<longleftrightarrow> (\<exists>h. (sid, h) \<in> set (sv_sweeping sv))"
    using well_keptD(6) [OF inv] by (force simp: probe_terminating_def)
  ultimately show ?thesis by (auto simp: host_live_def tracked_def)
qed

text \<open>
  C26: What it says when a failed kill comes between its two looks.  The probe has not found the host
  in the table, because a sweep holds it; the kill fails, so the sweep puts the host back and takes
  its mark away; the probe then finds no mark.  It reports a host that is alive, and that the
  supervisor had all along, as gone.
\<close>

theorem liveness_probe_misses_retained_host:
  assumes "list_all clean es" and "sv = foldl (sidecar_exec sc) (supervisor_new root d) es"
    and "sv_sweeping sv = (sid, h) # rest" and "host_terminate (sc_ops sc) (hd_host h) = (Inl e, host')"
    and "sv' = sidecar_exec sc sv SweepSettle"
  shows "\<not> host_live sv sv' sid \<and> (sid, h) \<in> tracked sv
    \<and> map_of (sv_hosts sv') sid = Some (h\<lparr>hd_host := host'\<rparr>)"
proof -
  have inv: "well_kept sv" using run_well_kept [OF assms(1) well_kept_new] assms(2) by simp
  have "sid \<notin> fst ` set (sv_hosts sv)" using well_keptD(5) [OF inv] assms(3) by auto
  then have "\<not> probe_hosts sv sid" by (simp add: probe_hosts_def map_of_eq_None_iff)
  moreover have "sv' = sv\<lparr>sv_sweeping := rest, sv_hosts := AList.update sid (h\<lparr>hd_host := host'\<rparr>) (sv_hosts sv),
      sv_terminating := filter (\<lambda>x. x \<noteq> sid) (sv_terminating sv)\<rparr>"
    using assms(3-5) by (simp add: sweep_settle_def)
  ultimately show ?thesis
    using assms(3) by (simp add: host_live_def probe_terminating_def tracked_def update_conv')
qed

section \<open>Termination is remembered\<close>

lemma termination_roundtrip: "termination_from_json (termination_to_json r) = Some r"
  by (simp add: termination_from_json_def termination_to_json_def struct_fields_def field_def json_simps)

definition receipt_file :: "string \<Rightarrow> string \<Rightarrow> string" where
  "receipt_file root sid = path_join (path_join root sid) TERMINATION_FILE"

text \<open>The device holds this receipt, within the budget of a read.\<close>

definition holds_receipt :: "json_text \<Rightarrow> string \<Rightarrow> string \<Rightarrow> termination_receipt \<Rightarrow> device \<Rightarrow> bool" where
  "holds_receipt J root sid r d \<longleftrightarrow>
     (\<exists>bytes. content d (receipt_file root sid) = Some bytes \<and> length bytes \<le> MAX_MANIFEST_BYTES
        \<and> Option.bind (jt_parse J bytes) termination_from_json = Some r)
   \<and> content d (session_entry root sid) \<noteq> None \<and> path_parent (receipt_file root sid) \<noteq> None
   \<and> valid_component sid \<and> check_receipt sid r = Inr (Some r)"

lemma prepare_present:
  "content d (directory_entry dir) \<noteq> None \<Longrightarrow> dv_outcomes d = [] \<Longrightarrow>
   \<exists>d1. prepare_owner_only_state_dir dir d = Some (Inr (), d1) \<and> dv_files d1 = dv_files d \<and> dv_outcomes d1 = []"
  by (auto simp: prepare_owner_only_state_dir_def system_call_def ensure_directory_def content_def pass_through_def)

lemma read_receipt_held:
  assumes "holds_receipt J root sid r d" and "dv_outcomes d = []"
  shows "\<exists>d'. read_termination_receipt J root sid d = Some (Inr (Some r), d')"
proof -
  from assms(1) obtain bytes where b: "content d (receipt_file root sid) = Some bytes"
      "length bytes \<le> MAX_MANIFEST_BYTES" "Option.bind (jt_parse J bytes) termination_from_json = Some r"
    and dir: "content d (directory_entry (path_join root sid)) \<noteq> None"
    and rest: "path_parent (receipt_file root sid) \<noteq> None" "valid_component sid" "check_receipt sid r = Inr (Some r)"
    by (auto simp: holds_receipt_def session_entry_def)
  from prepare_present [OF dir assms(2)] obtain d1 where d1:
    "prepare_owner_only_state_dir (path_join root sid) d = Some (Inr (), d1)" "dv_files d1 = dv_files d"
    "dv_outcomes d1 = []" by blast
  have here: "content d1 (receipt_file root sid) = Some bytes" using b(1) d1(2) by (simp add: content_def)
  from read_bounded_healthy [OF d1(3) here b(2) _ rest(1)] obtain d2 where
    "read_owner_only_file_bounded (receipt_file root sid) MAX_MANIFEST_BYTES d1 = Some (Inr bytes, d2)"
    by (auto simp: MAX_MANIFEST_BYTES_def)
  with b(3) dir rest d1(1) here show ?thesis
    by (auto simp: read_termination_receipt_def Let_def io_bind_def map_err_result io_lift_def receipt_file_def)
qed

lemma read_receipt_Some:
  assumes "read_termination_receipt J root sid d = Some (Inr (Some r), d')"
  shows "holds_receipt J root sid r d"
proof -
  have dir: "content d (session_entry root sid) \<noteq> None" and v: "valid_component sid"
    using assms by (auto simp: read_termination_receipt_def session_entry_def io_fail_def io_return_def Let_def
        split: if_splits)
  then obtain d1 bytes d2 where
    d1: "prepare_owner_only_state_dir (path_join root sid) d = Some (Inr (), d1)"
    and b: "read_owner_only_file_bounded (receipt_file root sid) MAX_MANIFEST_BYTES d1 = Some (Inr bytes, d2)"
    and r: "Option.bind (jt_parse J bytes) termination_from_json = Some r" "check_receipt sid r = Inr (Some r)"
    using assms
    by (auto simp: read_termination_receipt_def session_entry_def Let_def io_Inr_iff io_return_def io_fail_def
        io_lift_def receipt_file_def check_receipt_def and_then_Inr_iff split: if_splits option.splits)
  have "dv_files d1 = dv_files d"
    using d1 dir by (auto simp: prepare_owner_only_state_dir_def system_call_def ensure_directory_def
        content_def session_entry_def split: list.splits option.splits)
  moreover have "path_parent (receipt_file root sid) \<noteq> None"
    using b by (auto simp: read_owner_only_file_bounded_def io_fail_def split: if_splits)
  ultimately show ?thesis
    using read_bounded_Inr [OF b] dir v r by (auto simp: holds_receipt_def content_def)
qed

lemma holds_receipt_files: "dv_files d' = dv_files d \<Longrightarrow> holds_receipt J root sid r d' = holds_receipt J root sid r d"
  by (simp add: holds_receipt_def content_def)

lemma read_receipt_files:
  assumes "content d (session_entry root sid) \<noteq> None" and "read_termination_receipt J root sid d = Some (x, d')"
  shows "dv_files d' = dv_files d"
proof (cases "valid_component sid")
  case False
  with assms show ?thesis by (simp add: read_termination_receipt_def io_fail_def)
next
  case True
  obtain y d1 where d1: "prepare_owner_only_state_dir (path_join root sid) d = Some (y, d1)"
    "dv_files d1 = dv_files d"
    using assms(1)
    by (cases "dv_outcomes d"; cases "hd (dv_outcomes d)")
      (auto simp: prepare_owner_only_state_dir_def system_call_def ensure_directory_def content_def session_entry_def)
  show ?thesis
  proof (cases y)
    case (Inl e)
    with assms d1 True show ?thesis
      by (auto simp: read_termination_receipt_def Let_def io_bind_def map_err_result session_entry_def)
  next
    case (Inr v)
    obtain z d2 where "read_owner_only_file_bounded (receipt_file root sid) MAX_MANIFEST_BYTES d1 = Some (z, d2)"
      using returnsE [OF returns_read_bounded] by blast
    with read_bounded_files [OF this] assms d1 True Inr show ?thesis
      by (cases z)
        (auto simp: read_termination_receipt_def Let_def io_bind_def map_err_result session_entry_def io_return_def
          receipt_file_def io_fail_def io_lift_def split: if_splits option.splits)
  qed
qed

lemma receipt_of_checks:
  assumes "lawful root sid h" and "validate_transition t dg = Inr ()"
  shows "check_receipt sid (receipt_of (hd_manifest h) t dg) = Inr (Some (receipt_of (hd_manifest h) t dg))"
  using assms
  by (auto simp: lawful_def check_receipt_def receipt_of_def manifest_validate_def and_then_Inr_iff split: if_splits)

lemma record_termination_held:
  assumes law: "lawful root sid h" and J: "json_laws J" and u: "CHR ''/'' \<notin> set u"
    and dir: "content d (session_entry root sid) \<noteq> None"
    and fits: "length (jt_render J (termination_to_json (receipt_of (hd_manifest h) t dg))) \<le> MAX_MANIFEST_BYTES"
    and run: "record_termination J p u root (hd_spool h) t dg d = Some (Inr (), d')"
  shows "holds_receipt J root sid (receipt_of (hd_manifest h) t dg) d'"
proof -
  let ?r = "receipt_of (hd_manifest h) t dg"
  have m: "os_manifest (hd_spool h) = hd_manifest h" "hm_session_id (hd_manifest h) = sid"
    "os_dir (hd_spool h) = path_join root sid"
    using law by (auto simp: lawful_def)
  from run m obtain ex d1 ok where ok: "validate_transition t dg = Inr ok"
    and ex: "read_termination_receipt J root sid d = Some (Inr ex, d1)"
    and rest: "(case ex of
          Some r \<Rightarrow>
            if r = ?r then io_return ()
            else if tm_transition_id r = t then io_fail ''supervisor termination id payload conflict''
            else io_fail ''supervisor host already terminated''
        | None \<Rightarrow>
            map_err (\<lambda>e. ''write supervisor termination receipt: '' @ io_text e)
              (owner_write p u (receipt_file root sid) (jt_render J (termination_to_json ?r)))) d1 = Some (Inr (), d')"
    unfolding record_termination_def Let_def io_bind_Inr_iff m io_lift_def receipt_file_def
    by (auto simp only: option.inject prod.inject)
  then have v: "validate_transition t dg = Inr ()" by simp
  have files: "dv_files d1 = dv_files d" by (rule read_receipt_files [OF dir ex])
  show ?thesis
  proof (cases ex)
    case None
    with rest have w: "owner_write p u (receipt_file root sid) (jt_render J (termination_to_json ?r)) d1 = Some (Inr (), d')"
      by (simp add: map_err_Inr_iff)
    have "content d' (receipt_file root sid) = Some (jt_render J (termination_to_json ?r))"
      using owner_writer.write_ok [OF _ w] by simp
    moreover have "content d' (session_entry root sid) \<noteq> None"
      using keepsD [OF keeps_session_write [OF u] w] dir files unfolding session_entry_def by (simp add: content_def)
    moreover have "path_parent (receipt_file root sid) \<noteq> None"
      using w by (auto simp: owner_write_def io_fail_def split: if_splits)
    moreover have "valid_component sid"
      using law by (auto simp: lawful_def manifest_validate_def and_then_Inr_iff split: if_splits)
    ultimately show ?thesis
      using J fits receipt_of_checks [OF law v] by (simp add: holds_receipt_def json_laws_def termination_roundtrip)
  next
    case (Some r)
    with rest have "r = ?r" "d' = d1" by (auto simp: io_return_def io_fail_def split: if_splits)
    with read_receipt_Some [of J root sid d r d1] ex Some files show ?thesis
      by (simp add: holds_receipt_files [of d1 d])
  qed
qed

lemma step_root: "sidecar_step n sv sv' \<Longrightarrow> sv_root sv' = sv_root sv"
  by (induction rule: sidecar_step.induct)
    (auto simp: sweep_collect_def sweep_settle_def Let_def split: list.splits prod.splits sum.splits)

lemma run_root: "list_all clean es \<Longrightarrow> sv_root (foldl (sidecar_exec sc) sv es) = sv_root sv"
proof (induction es arbitrary: sv)
  case (Cons e es)
  then obtain n where "sidecar_step n sv (sidecar_exec sc sv e)" using exec_step [of e sv sc] by auto
  with Cons show ?case by (simp add: step_root)
qed simp

lemma returns_catch [returns_intros]:
  assumes "returns m" and "\<And>a. returns (f a)" and "\<And>e. returns (g e)"
  shows "returns (io_catch m f g)"
  unfolding returns_def
proof
  fix d
  from returnsE [OF assms(1)] obtain x d1 where "m d = Some (x, d1)" by blast
  with returnsE [OF assms(2)] returnsE [OF assms(3)] show "\<exists>r d'. io_catch m f g d = Some (r, d')"
    by (cases x) (auto simp: io_catch_def)
qed

lemma returns_ignore [returns_intros]: "returns m \<Longrightarrow> returns (io_ignore m)"
  by (force simp: returns_def io_ignore_def)

lemma returns_create_new [returns_intros]: "returns (create_new p)"
  by (rule returns_lambda) (auto simp: create_new_def returns_def system_call_def split: list.splits option.splits)

lemma returns_spool_create: "returns (spool_create J root m)"
  unfolding spool_create_def Let_def create_owner_only_file_new_def create_dir_def
    prepare_owner_only_state_dir_def write_all_def remove_file_def
  by (intro returns_intros)

lemma spawn_refused:
  assumes "content (sv_device sv) (session_entry (sv_root sv) (sr_session_id p)) \<noteq> None"
  shows "\<exists>e sv'. dispatch sc dw (Spawn p) sv = Some (Inl e, sv')"
proof -
  have "\<exists>e sv'. spawn_with_io J now m io sp sv = Some (Inl e, sv')"
    if sid: "hm_session_id m = sr_session_id p" for J now io sp and m
  proof -
    obtain x d where x: "spool_create J (sv_root sv) m (sv_device sv) = Some (x, d)"
      using returnsE [OF returns_spool_create] by blast
    have "\<exists>e. x = Inl e"
    proof (cases x)
      case (Inr s)
      with spool_create_new(3) [of J "sv_root sv" m "sv_device sv" s d] x sid assms show ?thesis by simp
    qed simp
    with x show ?thesis
      by (auto simp: spawn_with_io_def io_bind_def split: sum.splits)
  qed
  note spawn = this
  let ?new = "manifest_new (dw_nonce dw) (sr_session_id p) (sr_device_id p) (sr_workspace_id p)
               (sr_owner_principal p) (sr_controller_epoch p) (sr_binding_expires_unix p) (sr_host_expires_unix p)"
  show ?thesis
  proof (cases "validate_spawn p")
    case ok: (Inr v)
    show ?thesis
    proof (cases ?new)
      case (Inr m)
      then have "hm_session_id m = sr_session_id p"
        by (auto simp: manifest_new_def Let_def and_then_Inr_iff)
      with spawn [of "m\<lparr>hm_io_mode := sr_io_mode p\<rparr>" "sc_json sc" "dw_now dw" "sr_io_mode p" "dw_spawned dw"]
      obtain e sv' where "spawn_with_io (sc_json sc) (dw_now dw) (m\<lparr>hm_io_mode := sr_io_mode p\<rparr>) (sr_io_mode p)
          (dw_spawned dw) sv = Some (Inl e, sv')" by auto
      with ok Inr show ?thesis by (simp add: guarded_def reply_def)
    qed (use ok in \<open>simp add: guarded_def\<close>)
  qed (simp add: guarded_def)
qed

text \<open>
  C24: A terminated host stays terminated.  Once a terminate request for a live host has been
  answered, a supervisor that is started again on the same device answers the same request again
  and refuses it under any other transition id, and it starts no new host under that session id.
\<close>

theorem termination_survives_restart:
  assumes J: "json_laws (sc_json sc)" and es: "list_all clean es"
    and sv: "sv = foldl (sidecar_exec sc) (supervisor_new root d) es"
    and h: "map_of (sv_hosts sv) (bi_session b) = Some h" and u: "CHR ''/'' \<notin> set (dw_uuid dw)"
    and fits: "length (jt_render (sc_json sc)
        (termination_to_json (receipt_of (hd_manifest h) t (terminate_digest sc b)))) \<le> MAX_MANIFEST_BYTES"
    and run: "dispatch sc dw (Terminate b t) sv = Some (Inr x, sv1)"
    and d2: "dv_files d2 = dv_files (sv_device sv1)" "dv_outcomes d2 = []"
    and sv2: "sv2 = supervisor_new root d2"
  shows "(\<exists>sv3. dispatch sc dw2 (Terminate b t) sv2 = Some (Inr OkReply, sv3))
    \<and> (t2 \<noteq> t \<longrightarrow> (\<exists>e sv3. dispatch sc dw2 (Terminate b t2) sv2 = Some (Inl e, sv3)))
    \<and> (sr_session_id p = bi_session b \<longrightarrow> (\<exists>e sv3. dispatch sc dw2 (Spawn p) sv2 = Some (Inl e, sv3)))"
proof -
  let ?J = "sc_json sc" and ?sid = "bi_session b" and ?r = "receipt_of (hd_manifest h) t (terminate_digest sc b)"
  have inv: "well_kept sv" and root: "sv_root sv = root"
    using run_well_kept [OF es well_kept_new] run_root [OF es] sv by (simp_all add: supervisor_new_def)
  have "(?sid, h) \<in> tracked sv" using h by (simp add: tracked_def map_of_SomeD)
  note law = well_keptD(1,2) [OF inv this]
  obtain y host' where tm: "host_terminate (sc_ops sc) (hd_host h) = (y, host')" by force
  from run have t: "require_transition_id t = Inr ()"
    and go: "terminate_idempotent ?J (sc_ops sc) (sc_pid sc) (dw_uuid dw) (dw_now dw) b t (terminate_digest sc b) sv
      = Some (Inr (), sv1)"
    by (auto simp: guarded_Some reply_Inr)
  have ex: "exact (dw_now dw) b (hd_manifest h) = Inr ()"
    using go h by (cases "exact (dw_now dw) b (hd_manifest h)") (auto simp: terminate_idempotent_def)
  have y: "y = Inr ()" using go h tm ex by (cases y) (auto simp: terminate_idempotent_def)
  obtain d1 where rec: "record_termination ?J (sc_pid sc) (dw_uuid dw) root (hd_spool h) t (terminate_digest sc b)
      (sv_device sv) = Some (Inr (), d1)" and d1: "sv_device sv1 = d1"
    using go h tm ex y root
    by (auto simp: terminate_idempotent_def Let_def split: option.splits sum.splits prod.splits)
  have "holds_receipt ?J root ?sid ?r d1"
    using record_termination_held [OF law(1) [unfolded root] J u _ fits rec] law(2) root by simp
  then have held: "holds_receipt ?J root ?sid ?r d2" using d1 d2(1) by (simp add: holds_receipt_files [of d2 d1])
  from read_receipt_held [OF held d2(2)] obtain d3 where
    d3: "read_termination_receipt ?J root ?sid d2 = Some (Inr (Some ?r), d3)" by blast
  have b: "receipt_matches ?r b"
    using exact_matches(2) [OF ex] by (simp add: receipt_matches_def receipt_of_def binding_matches_def)
  have again: "terminate_idempotent ?J ops pid uu now b t' dg sv2 =
      Some (if t = t' \<and> terminate_digest sc b = dg then Inr ()
        else if t = t' then Inl ''supervisor termination id payload conflict''
        else Inl ''supervisor host already terminated'', sv2\<lparr>sv_device := d3\<rparr>)" for ops pid uu now t' dg
    using d3 b sv2 by (simp add: terminate_idempotent_def supervisor_new_def receipt_of_def)
  have "content (sv_device sv2) (session_entry (sv_root sv2) ?sid) \<noteq> None"
    using held sv2 by (simp add: holds_receipt_def supervisor_new_def)
  then have "sr_session_id p = bi_session b \<longrightarrow> (\<exists>e sv3. dispatch sc dw2 (Spawn p) sv2 = Some (Inl e, sv3))"
    using spawn_refused [of sv2 p sc dw2] by (simp del: dispatch.simps)
  moreover have "dispatch sc dw2 (Terminate b t) sv2 = Some (Inr OkReply, sv2\<lparr>sv_device := d3\<rparr>)"
    using again t by (simp add: guarded_def reply_def)
  moreover have "\<exists>e sv3. dispatch sc dw2 (Terminate b t2) sv2 = Some (Inl e, sv3)" if "t2 \<noteq> t"
    using again that by (cases "require_transition_id t2") (auto simp: guarded_def reply_def)
  ultimately show ?thesis by blast
qed

section \<open>Examples\<close>

definition ops0 :: "bool \<Rightarrow> unit host_ops" where
  "ops0 kills =
     \<lparr>ho_write_stdin = (\<lambda>_ h. (Inr (), h)), ho_write_frame = (\<lambda>_ h. (Inr (), h)),
      ho_resize = (\<lambda>_ _ h. (Inr (), h)), ho_drain_output = (\<lambda>_ h. (Inr ([], False), h)),
      ho_drain_stdout = (\<lambda>_ h. (Inr ([], False), h)), ho_drain_stderr = (\<lambda>_ h. (Inr ([], False), h)),
      ho_terminate = (\<lambda>h. (if kills then Inr () else Inl ''timeout'', h)),
      ho_view = (\<lambda>_. \<lparr>hv_pid = Some 7, hv_pending_output = 0, hv_pending_stdout = 0, hv_pending_stderr = 0, hv_exited = False\<rparr>)\<rparr>"

definition sidecar0 :: "bool \<Rightarrow> unit sidecar" where
  "sidecar0 kills =
     \<lparr>sc_json = json_text0, sc_sha256_hex = (\<lambda>b. ''d'' @ dec (length b)), sc_ops = ops0 kills,
      sc_os = \<lparr>op_birth_id = (\<lambda>_. Inr (Some 1)), op_running_birth_id = (\<lambda>_. Inr (Some 1))\<rparr>, sc_pid = 5\<rparr>"

definition draw0 :: "i64 \<Rightarrow> string \<Rightarrow> unit draw" where
  "draw0 now nonce = \<lparr>dw_now = now, dw_now2 = now, dw_nonce = nonce, dw_uuid = ''u'' @ nonce, dw_spawned = Inr ()\<rparr>"

definition spawn0 :: supervisor_spawn_request where
  "spawn0 =
     \<lparr>sr_session_id = ''s'', sr_device_id = ''d'', sr_workspace_id = ''w'', sr_owner_principal = ''o'',
      sr_controller_epoch = 1, sr_binding_expires_unix = 100, sr_host_expires_unix = 200,
      sr_command = \<lparr>co_program = ''sh'', co_args = [], co_cwd = None, co_env = []\<rparr>,
      sr_cols = 80, sr_rows = 24, sr_io_mode = Pty\<rparr>"

definition host_binding :: "string \<Rightarrow> u64 \<Rightarrow> supervisor_binding" where
  "host_binding nonce epoch =
     \<lparr>bi_session = ''s'', bi_device = ''d'', bi_workspace = ''w'', bi_owner = ''o'',
      bi_nonce = ''host_'' @ nonce, bi_epoch = epoch\<rparr>"

definition started :: "unit sidecar_event list" where
  "started = [Request SUPERVISOR_DAEMON_PRINCIPAL (Spawn spawn0) (draw0 10 ''1'')]"

definition sidecar_at :: "bool \<Rightarrow> unit sidecar_event list \<Rightarrow> unit supervisor" where
  "sidecar_at kills es = foldl (sidecar_exec (sidecar0 kills)) (supervisor_new ''/r'' (device0 [])) es"

definition rotate0 :: rotate_params where
  "rotate0 =
     \<lparr>rp_binding = host_binding ''1'' 1, rp_owner_principal = ''o'', rp_controller_epoch = 2,
      rp_binding_expires_unix = 120, rp_transition_id = ''t1''\<rparr>"

definition rotated :: "unit ipc_update" where
  "rotated = dispatch (sidecar0 True) (draw0 20 ''2'') (Rotate rotate0) (sidecar_at True started)"

lemma started_clean: "list_all clean started"
  by code_simp

lemma rotated_reply:
  "map_option fst rotated = Some (Inr (BindingReply (host_binding ''2'' 2)))"
  by code_simp

lemma update_state: "map_option fst x = Some r \<Longrightarrow> x = Some (r, snd (the x))"
  by (cases x) auto

lemma rotated_state: "rotated = Some (Inr (BindingReply (host_binding ''2'' 2)), snd (the rotated))"
  by (rule update_state [OF rotated_reply])

definition later0 :: "unit sidecar_event list" where
  "later0 = [SweepCollect 30, SweepSettle, Request SUPERVISOR_DAEMON_PRINCIPAL (Status (host_binding ''2'' 2)) (draw0 30 ''3'')]"

theorem superseded_binding_is_out_for_good_witness:
  "\<exists>e. dispatch (sidecar0 True) (draw0 40 ''4'') (WriteReq (host_binding ''1'' 1) [65])
         (foldl (sidecar_exec (sidecar0 True)) (snd (the rotated)) later0)
       = Some (Inl e, foldl (sidecar_exec (sidecar0 True)) (snd (the rotated)) later0)"
proof -
  have "authorized (sidecar_at True started) (host_binding ''1'' 1)" by code_simp
  moreover have "CHR ''/'' \<notin> set (dw_uuid (draw0 20 ''2''))" by code_simp
  moreover have "host_binding ''2'' 2 \<noteq> host_binding ''1'' 1" by code_simp
  moreover have "list_all (fresh (host_binding ''1'' 1)) later0" by code_simp
  ultimately show ?thesis
    using superseded_binding_is_out_for_good [OF started_clean sidecar_at_def [of True started], of "Rotate rotate0"
        "host_binding ''1'' 1" "draw0 20 ''2''" "host_binding ''2'' 2" "snd (the rotated)" later0
        "foldl (sidecar_exec (sidecar0 True)) (snd (the rotated)) later0"
        "WriteReq (host_binding ''1'' 1) [65]" "draw0 40 ''4''"] rotated_state
    unfolding rotated_def by (auto simp: rotate0_def simp del: dispatch.simps foldl_Cons)
qed

theorem only_the_controller_drives_witness:
  "\<exists>h. map_of (sv_hosts (sidecar_at True started)) ''s'' = Some h \<and> host_binding ''1'' 1 = binding_of (hd_manifest h)"
proof -
  have "map_option fst (dispatch (sidecar0 True) (draw0 40 ''4'') (WriteReq (host_binding ''1'' 1) [65])
      (sidecar_at True started)) = Some (Inr OkReply)"
    by code_simp
  from only_the_controller_drives [OF _ _ update_state [OF this], of "host_binding ''1'' 1"] show ?thesis
    by (auto simp: host_binding_def)
qed

theorem transition_happens_once_witness:
  "dispatch (sidecar0 True) (draw0 999 ''9'') (Rotate rotate0) (snd (the rotated))
     = Some (Inr (BindingReply (host_binding ''2'' 2)), snd (the rotated))
   \<and> (\<exists>e. dispatch (sidecar0 True) (draw0 999 ''9'') (Detach (host_binding ''2'' 2) 3 ''t1'') (snd (the rotated))
     = Some (Inl e, snd (the rotated)))"
proof -
  have "payload_digest (sidecar0 True) (Detach (host_binding ''2'' 2) 3 ''t1'')
      \<noteq> payload_digest (sidecar0 True) (Rotate rotate0)"
    by code_simp
  then show ?thesis
    using transition_happens_once [of "Rotate rotate0" "host_binding ''1'' 1" "sidecar0 True" "draw0 20 ''2''"
        "sidecar_at True started" "host_binding ''2'' 2" "snd (the rotated)" "draw0 999 ''9''"
        "Detach (host_binding ''2'' 2) 3 ''t1''" "host_binding ''2'' 2"] rotated_state
    unfolding rotated_def by (simp add: rotate0_def host_binding_def del: dispatch.simps)
qed

theorem liveness_probe_is_exact_witness:
  "host_live (sidecar_at True started) (sidecar_at True started) ''s''
   \<and> (\<exists>h. (''s'', h) \<in> tracked (sidecar_at True started))"
proof -
  have "host_live (sidecar_at True started) (sidecar_at True started) ''s''" by code_simp
  then show ?thesis
    using liveness_probe_is_exact [OF started_clean sidecar_at_def [of True started], of "''s''"] by simp
qed

theorem liveness_probe_misses_retained_host_witness:
  "\<not> host_live (sidecar_at False (started @ [SweepCollect 300]))
       (sidecar_exec (sidecar0 False) (sidecar_at False (started @ [SweepCollect 300])) SweepSettle) ''s''
   \<and> map_of (sv_hosts (sidecar_exec (sidecar0 False) (sidecar_at False (started @ [SweepCollect 300])) SweepSettle)) ''s'' \<noteq> None"
proof -
  let ?sv = "sidecar_at False (started @ [SweepCollect 300])"
  have "list_all clean (started @ [SweepCollect 300])" by code_simp
  moreover have "map fst (sv_sweeping ?sv) = [''s'']" by code_simp
  then obtain h where "sv_sweeping ?sv = [(''s'', h)]" by (cases "sv_sweeping ?sv") auto
  moreover obtain host' where "host_terminate (sc_ops (sidecar0 False)) (hd_host h) = (Inl ''timeout'', host')"
    by (cases "hd_host h") (simp_all add: sidecar0_def ops0_def)
  ultimately show ?thesis
    using liveness_probe_misses_retained_host [OF _ sidecar_at_def [of False "started @ [SweepCollect 300]"]] by auto
qed

definition ended :: "unit ipc_update" where
  "ended = dispatch (sidecar0 True) (draw0 20 ''2'') (Terminate (host_binding ''1'' 1) ''t9'') (sidecar_at True started)"

definition after_restart :: "unit supervisor" where
  "after_restart = supervisor_new ''/r'' ((device0 [])\<lparr>dv_files := dv_files (sv_device (snd (the ended)))\<rparr>)"

theorem termination_survives_restart_witness:
  "(\<exists>sv3. dispatch (sidecar0 True) (draw0 300 ''5'') (Terminate (host_binding ''1'' 1) ''t9'') after_restart = Some (Inr OkReply, sv3))
   \<and> (\<exists>e sv3. dispatch (sidecar0 True) (draw0 300 ''5'') (Terminate (host_binding ''1'' 1) ''t8'') after_restart = Some (Inl e, sv3))
   \<and> (\<exists>e sv3. dispatch (sidecar0 True) (draw0 300 ''5'') (Spawn spawn0) after_restart = Some (Inl e, sv3))"
proof -
  let ?sv = "sidecar_at True started" and ?b = "host_binding ''1'' 1"
  have "map_option fst ended = Some (Inr OkReply)" by code_simp
  note run = update_state [OF this, unfolded ended_def]
  have "case map_of (sv_hosts ?sv) (bi_session ?b) of None \<Rightarrow> False | Some h \<Rightarrow>
      length (jt_render (sc_json (sidecar0 True))
        (termination_to_json (receipt_of (hd_manifest h) ''t9'' (terminate_digest (sidecar0 True) ?b)))) \<le> MAX_MANIFEST_BYTES"
    by code_simp
  then obtain h where h: "map_of (sv_hosts ?sv) (bi_session ?b) = Some h"
    "length (jt_render (sc_json (sidecar0 True))
        (termination_to_json (receipt_of (hd_manifest h) ''t9'' (terminate_digest (sidecar0 True) ?b)))) \<le> MAX_MANIFEST_BYTES"
    by (cases "map_of (sv_hosts ?sv) (bi_session ?b)") auto
  have u: "CHR ''/'' \<notin> set (dw_uuid (draw0 20 ''2''))" by code_simp
  have J: "json_laws (sc_json (sidecar0 True))" by (simp add: sidecar0_def json_text0_laws)
  have "sr_session_id spawn0 = bi_session ?b" "''t8'' \<noteq> ''t9''" by code_simp+
  with termination_survives_restart [OF J started_clean sidecar_at_def [of True started] h(1) u h(2) run, of
      "(device0 [])\<lparr>dv_files := dv_files (sv_device (snd (the ended)))\<rparr>" after_restart "draw0 300 ''5''" "''t8''" spawn0]
  show ?thesis by (simp add: after_restart_def ended_def device0_def del: dispatch.simps)
qed

end
