(* ===== verification/Transfer_Room.thy ===== *)
theory Transfer_Room
  imports OM_Json
begin

text \<open>
  The relay that two devices transfer a file through,
  \<open>packages/control-plane/src/transfer-room.ts\<close>: the router, which forwards one chunk at a time and
  moves the durable cursor, and the room around it, which admits sockets with single-use tickets,
  survives hibernation and ends a transfer.

  A number of the program is an \<open>int\<close> (every one is checked with \<open>Number.isSafeInteger\<close>), a string
  its UTF-8 bytes.  What the JavaScript runtime computes is the record \<open>js_runtime\<close>: the reader and
  the writer of JSON, \<open>Number\<close> on a JSON value (\<open>None\<close> when the result is no safe integer) and the
  decoding of UTF-8; the hash and the keyed hash are the record \<open>room_crypto\<close>.  The runtime holds the
  clock between two input or output operations, so an event reads one time.  Storage keeps what was
  put last; whether a call fails is given with the event.
\<close>

section \<open>Values\<close>

definition TRANSFER_PROTOCOL :: string where "TRANSFER_PROTOCOL = ''ownmesh.transfer/1.0''"
definition MAX_TRANSFER_CHUNK_BYTES :: int where "MAX_TRANSFER_CHUNK_BYTES = 64 * 1024"
definition MAX_TRANSFER_FRAME_BYTES :: nat where "MAX_TRANSFER_FRAME_BYTES = 96 * 1024"
definition AEAD_TAG_BYTES :: int where "AEAD_TAG_BYTES = 16"
definition TICKET_MAX_MS :: int where "TICKET_MAX_MS = 60000"
definition TRANSFER_MAX_TTL_MS :: int where "TRANSFER_MAX_TTL_MS = 24 * 60 * 60000"
definition MAX_TICKET_REPLAYS :: nat where "MAX_TICKET_REPLAYS = 128"
definition MAX_ADMISSION_QUEUE :: nat where "MAX_ADMISSION_QUEUE = 16"
definition MAX_TERMINAL_CONTROL_BYTES :: nat where "MAX_TERMINAL_CONTROL_BYTES = 1024"

datatype transfer_role = Source | Destination

datatype room_state = Room_Prepared | Room_Active | Room_Completed | Room_Cancelled | Room_Expired

record transfer_metadata =
  md_transfer_id :: string
  md_tenant_id :: string
  md_source_device_id :: string
  md_destination_device_id :: string
  md_source_workspace_id :: string
  md_destination_workspace_id :: string
  md_plan_sha256 :: string
  md_transfer_expires_at :: int
  md_max_bytes :: int
  md_epoch :: int
  md_fence :: int
  md_state :: room_state
  md_ack_sequence :: "int option"
  md_ack_offset :: int

record transfer_peer =
  pr_id :: string
  pr_role :: transfer_role
  pr_device :: string

datatype attach_result = AttachNew | AttachExisting | AttachReject

record js_runtime =
  js_parse :: "string \<Rightarrow> json option"
  js_stringify :: "json \<Rightarrow> string"
  js_number :: "json \<Rightarrow> int option"
  js_decode :: "bytes \<Rightarrow> string"

record room_crypto =
  rc_sha256_hex :: "bytes \<Rightarrow> string"
  rc_hmac :: "string \<Rightarrow> bytes \<Rightarrow> bytes"
  rc_ed25519_verify :: "bytes \<Rightarrow> bytes \<Rightarrow> bytes \<Rightarrow> bool"

definition safe_integer :: "int \<Rightarrow> bool" where
  "safe_integer n \<longleftrightarrow> - (2 ^ 53 - 1) \<le> n \<and> n \<le> 2 ^ 53 - 1"

text \<open>The length of a string in UTF-16 code units, from its UTF-8 bytes.\<close>

fun utf16_length :: "string \<Rightarrow> nat" where
  "utf16_length [] = 0"
| "utf16_length (c # s) =
     (let b = of_char c :: nat
      in if 0x80 \<le> b \<and> b < 0xC0 then 0 else if 0xF0 \<le> b then 2 else 1) + utf16_length s"

definition js_id :: "string \<Rightarrow> bool" where
  "js_id value \<longleftrightarrow>
     0 < utf16_length value \<and> utf16_length value \<le> 256 \<and> list_all (\<lambda>c. 0x1F < (of_char c :: nat)) value"

definition lower_hex :: "string \<Rightarrow> nat \<Rightarrow> bool" where
  "lower_hex value n \<longleftrightarrow>
     length value = n
   \<and> list_all (\<lambda>c. (CHR ''0'' \<le> c \<and> c \<le> CHR ''9'') \<or> (CHR ''a'' \<le> c \<and> c \<le> CHR ''f'')) value"

definition js_hash :: "string \<Rightarrow> bool" where
  "js_hash value \<longleftrightarrow> lower_hex value 64"

definition js_hex :: "string \<Rightarrow> nat \<Rightarrow> bool" where
  "js_hex value bytes \<longleftrightarrow> lower_hex value (bytes * 2)"

section \<open>Base64\<close>

definition b64_char :: "string \<Rightarrow> nat \<Rightarrow> char" where
  "b64_char tail n =
     (if n < 26 then char_of (65 + n) else if n < 52 then char_of (97 + (n - 26))
      else if n < 62 then char_of (48 + (n - 52)) else tail ! (n - 62))"

definition b64_value :: "string \<Rightarrow> char \<Rightarrow> nat option" where
  "b64_value tail c =
     (let n = of_char c :: nat
      in if 65 \<le> n \<and> n \<le> 90 then Some (n - 65)
         else if 97 \<le> n \<and> n \<le> 122 then Some (n - 97 + 26)
         else if 48 \<le> n \<and> n \<le> 57 then Some (n - 48 + 52)
         else if c = tail ! 0 then Some 62
         else if c = tail ! 1 then Some 63
         else None)"

fun btoa :: "bytes \<Rightarrow> string" where
  "btoa (a # b # c # rest) =
     (let n = unat a * 65536 + unat b * 256 + unat c
      in map (b64_char ''+/'') [n div 262144, n div 4096 mod 64, n div 64 mod 64, n mod 64]) @ btoa rest"
| "btoa [a, b] =
     (let n = unat a * 65536 + unat b * 256
      in map (b64_char ''+/'') [n div 262144, n div 4096 mod 64, n div 64 mod 64]) @ ''=''"
| "btoa [a] =
     (let n = unat a * 65536 in map (b64_char ''+/'') [n div 262144, n div 4096 mod 64]) @ ''==''"
| "btoa [] = []"

text \<open>\<open>atob\<close> on text without white space: the bits that do not fill a byte are dropped.\<close>

fun atob_digits :: "nat list \<Rightarrow> bytes option" where
  "atob_digits (a # b # c # d # rest) =
     map_option (\<lambda>bs. be_encode 3 (a * 262144 + b * 4096 + c * 64 + d) @ bs) (atob_digits rest)"
| "atob_digits [a, b, c] = Some (be_encode 2 ((a * 262144 + b * 4096 + c * 64) div 256))"
| "atob_digits [a, b] = Some (be_encode 1 ((a * 262144 + b * 4096) div 65536))"
| "atob_digits [a] = None"
| "atob_digits [] = Some []"

definition strip_padding :: "string \<Rightarrow> string" where
  "strip_padding s =
     (if length s mod 4 = 0 \<and> ends_with s ''=='' then take (length s - 2) s
      else if length s mod 4 = 0 \<and> ends_with s ''='' then take (length s - 1) s
      else s)"

definition atob :: "string \<Rightarrow> bytes option" where
  "atob s =
     (let vs = map (b64_value ''+/'') (strip_padding s)
      in if None \<in> set vs then None else atob_digits (map the vs))"

definition decodedBase64Bytes :: "string \<Rightarrow> int option" where
  "decodedBase64Bytes value =
     (case atob value of
        None \<Rightarrow> None
      | Some decoded \<Rightarrow> if btoa decoded \<noteq> value then None else Some (int (length decoded)))"

definition b64_body :: "string \<Rightarrow> bool" where
  "b64_body s \<longleftrightarrow> list_all (\<lambda>c. b64_value ''+/'' c \<noteq> None) s"

definition js_b64 :: "string \<Rightarrow> bool" where
  "js_b64 value \<longleftrightarrow>
     value \<noteq> [] \<and> length value \<le> MAX_TRANSFER_FRAME_BYTES \<and> length value mod 4 = 0
   \<and> (b64_body value
      \<or> (ends_with value ''='' \<and> b64_body (take (length value - 1) value))
      \<or> (ends_with value ''=='' \<and> b64_body (take (length value - 2) value)))"

definition base64Url :: "bytes \<Rightarrow> string" where
  "base64Url bytes =
     filter (\<lambda>c. c \<noteq> CHR ''='')
       (map (\<lambda>c. if c = CHR ''+'' then CHR ''-'' else if c = CHR ''/'' then CHR ''_'' else c) (btoa bytes))"

definition fromBase64Url :: "string \<Rightarrow> bytes option" where
  "fromBase64Url value =
     (if value = [] \<or> \<not> list_all (\<lambda>c. b64_value ''-_'' c \<noteq> None) value then None
      else
        atob (map (\<lambda>c. if c = CHR ''-'' then CHR ''+'' else if c = CHR ''_'' then CHR ''/'' else c) value
              @ replicate ((4 - length value mod 4) mod 4) (CHR ''='')))"

section \<open>The router\<close>

record in_flight =
  fl_sequence :: int
  fl_offset :: int
  fl_length :: int

record transfer_router =
  rt_peers :: "(transfer_role \<times> transfer_peer) list"
  rt_in_flight :: "in_flight option"
  rt_meta :: transfer_metadata
  rt_broken :: bool

text \<open>What is sent to a peer: a frame of the room, or the text of the other peer as it came.\<close>

datatype room_frame =
    ReadyFrame int int
  | AckFrame int int
  | FinishAckFrame
  | CancelFrame
  | ErrorFrame string
  | Relayed string

type_synonym sent = "(string \<times> room_frame) list"

definition bound_fields :: "transfer_metadata \<Rightarrow> (string \<times> json) list" where
  "bound_fields md =
     [(''epoch'', JInt (md_epoch md)), (''fence'', JInt (md_fence md)), (''plan_sha256'', JStr (md_plan_sha256 md))]"

definition frame_head :: "transfer_metadata \<Rightarrow> string \<Rightarrow> (string \<times> json) list" where
  "frame_head md type =
     [(''protocol'', JStr TRANSFER_PROTOCOL), (''type'', JStr type), (''transfer_id'', JStr (md_transfer_id md))]"

fun frame_text :: "js_runtime \<Rightarrow> transfer_metadata \<Rightarrow> room_frame \<Rightarrow> string" where
  "frame_text js md (ReadyFrame next_sequence next_offset) =
     js_stringify js (JObj (frame_head md ''ready'' @ bound_fields md
       @ [(''next_sequence'', JInt next_sequence), (''next_offset'', JInt next_offset)]))"
| "frame_text js md (AckFrame sequence next_offset) =
     js_stringify js (JObj (frame_head md ''ack'' @ bound_fields md
       @ [(''sequence'', JInt sequence), (''next_offset'', JInt next_offset)]))"
| "frame_text js md FinishAckFrame = js_stringify js (JObj (frame_head md ''finish_ack'' @ bound_fields md))"
| "frame_text js md CancelFrame = js_stringify js (JObj (frame_head md ''cancel'' @ bound_fields md))"
| "frame_text js md (ErrorFrame code) =
     js_stringify js (JObj [(''protocol'', JStr TRANSFER_PROTOCOL), (''type'', JStr ''error''), (''code'', JStr code)])"
| "frame_text js md (Relayed raw) = raw"

definition router_new :: "transfer_metadata \<Rightarrow> transfer_router" where
  "router_new metadata = \<lparr>rt_peers = [], rt_in_flight = None, rt_meta = metadata, rt_broken = False\<rparr>"

definition rt_state :: "room_state \<Rightarrow> transfer_router \<Rightarrow> transfer_router" where
  "rt_state s rt = rt\<lparr>rt_meta := (rt_meta rt)\<lparr>md_state := s\<rparr>\<rparr>"

definition router_expired :: "int \<Rightarrow> transfer_router \<Rightarrow> bool \<times> transfer_router" where
  "router_expired now rt =
     (if md_transfer_expires_at (rt_meta rt) > now then (False, rt) else (True, rt_state Room_Expired rt))"

text \<open>\<open>this.peers.get(role)?.send(...)\<close>\<close>

definition send_to :: "transfer_role \<Rightarrow> room_frame \<Rightarrow> transfer_router \<Rightarrow> sent" where
  "send_to role f rt = (case map_of (rt_peers rt) role of None \<Rightarrow> [] | Some p \<Rightarrow> [(pr_id p, f)])"

definition next_sequence :: "transfer_metadata \<Rightarrow> int" where
  "next_sequence md = (case md_ack_sequence md of None \<Rightarrow> 0 | Some n \<Rightarrow> n + 1)"

definition sendReady :: "transfer_router \<Rightarrow> sent" where
  "sendReady rt =
     (let f = ReadyFrame (next_sequence (rt_meta rt)) (md_ack_offset (rt_meta rt))
      in send_to Source f rt @ send_to Destination f rt)"

definition expected_device :: "transfer_metadata \<Rightarrow> transfer_role \<Rightarrow> string" where
  "expected_device md role =
     (case role of Source \<Rightarrow> md_source_device_id md | Destination \<Rightarrow> md_destination_device_id md)"

definition router_attach :: "int \<Rightarrow> transfer_peer \<Rightarrow> transfer_router \<Rightarrow> attach_result \<times> transfer_router \<times> sent" where
  "router_attach now peer rt =
     (if rt_broken rt \<or> pr_device peer \<noteq> expected_device (rt_meta rt) (pr_role peer)
       \<or> md_state (rt_meta rt) = Room_Cancelled \<or> md_state (rt_meta rt) = Room_Completed
      then (AttachReject, rt, [])
      else
        let (gone, rt1) = router_expired now rt
        in if gone then (AttachReject, rt1, [])
           else
             case map_of (rt_peers rt1) (pr_role peer) of
               Some existing \<Rightarrow>
                 if pr_id existing \<noteq> pr_id peer then (AttachReject, rt1, []) else (AttachExisting, rt1, [])
             | None \<Rightarrow>
                 let rt2 = rt1\<lparr>rt_peers := AList.update (pr_role peer) peer (rt_peers rt1)\<rparr>
                 in (AttachNew, rt2,
                     if map_of (rt_peers rt2) Source \<noteq> None \<and> map_of (rt_peers rt2) Destination \<noteq> None
                     then sendReady rt2 else []))"

definition router_detach :: "transfer_role \<Rightarrow> string \<Rightarrow> transfer_router \<Rightarrow> transfer_router" where
  "router_detach role peer_id rt =
     (let rt1 = (if map_option pr_id (map_of (rt_peers rt) role) = Some peer_id
                 then rt\<lparr>rt_peers := AList.delete role (rt_peers rt)\<rparr> else rt)
      in rt1\<lparr>rt_in_flight := None\<rparr>)"

text \<open>A frame is the object that was read; of a repeated key the last value counts.\<close>

type_synonym frame = "(string \<times> json) list"

definition fget :: "frame \<Rightarrow> string \<Rightarrow> json option" where
  "fget f k = map_of (rev f) k"

definition exactlyKeys :: "frame \<Rightarrow> string list \<Rightarrow> bool" where
  "exactlyKeys f ks \<longleftrightarrow> list_all (\<lambda>(k, _). k \<in> set ks) f"

definition frame_bound :: "transfer_metadata \<Rightarrow> frame \<Rightarrow> bool" where
  "frame_bound md f \<longleftrightarrow>
     fget f ''epoch'' = Some (JInt (md_epoch md)) \<and> fget f ''fence'' = Some (JInt (md_fence md))
   \<and> fget f ''plan_sha256'' = Some (JStr (md_plan_sha256 md))"

definition fstring :: "(string \<Rightarrow> bool) \<Rightarrow> frame \<Rightarrow> string \<Rightarrow> bool" where
  "fstring P f k \<longleftrightarrow> (case fget f k of Some (JStr s) \<Rightarrow> P s | _ \<Rightarrow> False)"

definition fnumber :: "js_runtime \<Rightarrow> frame \<Rightarrow> string \<Rightarrow> int option" where
  "fnumber js f k =
     (case Option.bind (fget f k) (js_number js) of
        Some n \<Rightarrow> if safe_integer n then Some n else None
      | None \<Rightarrow> None)"

definition base_keys :: "string list" where
  "base_keys = [''protocol'', ''type'', ''transfer_id'', ''epoch'', ''fence'', ''plan_sha256'']"

text \<open>
  What a handler returns: its result, the router, what it sent, and what became of the persistence
  barrier: not reached, a copy of the metadata stored, or the write failed.  In the last case the
  router goes back to the copy that it made before; the object that it had changed in place is the
  one given here.
\<close>

datatype barrier_outcome = NoBarrier | Stored transfer_metadata | Lost transfer_metadata

type_synonym handled = "(string, unit) result \<times> transfer_router \<times> sent \<times> barrier_outcome"

definition refuse :: "string \<Rightarrow> transfer_router \<Rightarrow> handled" where
  "refuse code rt = (Inl code, rt, [], NoBarrier)"

text \<open>The barrier: a failed write puts the old metadata back, breaks the router and drops its peers.\<close>

definition barrier ::
  "bool \<Rightarrow> transfer_metadata \<Rightarrow> transfer_router \<Rightarrow> (transfer_router \<Rightarrow> sent) \<Rightarrow> handled" where
  "barrier stored before rt outp =
     (if stored then (Inr (), rt, outp rt, Stored (rt_meta rt))
      else (Inl ''persist_failed'', rt\<lparr>rt_meta := before, rt_broken := True, rt_peers := []\<rparr>, [], Lost (rt_meta rt)))"

definition room_chunk :: "js_runtime \<Rightarrow> transfer_peer \<Rightarrow> frame \<Rightarrow> string \<Rightarrow> transfer_router \<Rightarrow> handled" where
  "room_chunk js peer f raw rt =
     (let md = rt_meta rt
      in if pr_role peer \<noteq> Source \<or> md_state md = Room_Cancelled \<or> \<not> frame_bound md f
         then refuse ''binding_mismatch'' rt
         else if \<not> exactlyKeys f (base_keys @ [''sequence'', ''offset'', ''length'', ''ciphertext_base64'', ''chunk_sha256''])
               \<or> \<not> fstring js_hash f ''chunk_sha256'' \<or> \<not> fstring js_b64 f ''ciphertext_base64''
         then refuse ''bad_chunk'' rt
         else
           case (fnumber js f ''sequence'', fnumber js f ''offset'', fnumber js f ''length'') of
             (Some sequence, Some offset, Some len) \<Rightarrow>
               (if sequence \<noteq> next_sequence md \<or> offset \<noteq> md_ack_offset md \<or> len < 1
                 \<or> len > MAX_TRANSFER_CHUNK_BYTES \<or> offset + len > md_max_bytes md
                 \<or> \<not> fstring (\<lambda>s. decodedBase64Bytes s = Some (len + AEAD_TAG_BYTES)) f ''ciphertext_base64''
                 \<or> rt_in_flight rt \<noteq> None
                then refuse ''non_contiguous_or_busy'' rt
                else if map_of (rt_peers rt) Destination = None then refuse ''destination_offline'' rt
                else
                  let rt1 = (rt_state Room_Active rt)\<lparr>rt_in_flight :=
                        Some \<lparr>fl_sequence = sequence, fl_offset = offset, fl_length = len\<rparr>\<rparr>
                  in (Inr (), rt1, send_to Destination (Relayed raw) rt1, NoBarrier))
           | _ \<Rightarrow> refuse ''non_contiguous_or_busy'' rt)"

definition room_ack :: "js_runtime \<Rightarrow> bool \<Rightarrow> transfer_peer \<Rightarrow> frame \<Rightarrow> transfer_router \<Rightarrow> handled" where
  "room_ack js stored peer f rt =
     (case rt_in_flight rt of
        None \<Rightarrow> refuse ''bad_ack'' rt
      | Some fl \<Rightarrow>
          if pr_role peer \<noteq> Destination \<or> \<not> frame_bound (rt_meta rt) f
           \<or> \<not> exactlyKeys f (base_keys @ [''sequence'', ''next_offset''])
          then refuse ''bad_ack'' rt
          else
            case (fnumber js f ''sequence'', fnumber js f ''next_offset'') of
              (Some sequence, Some nxt) \<Rightarrow>
                (if sequence \<noteq> fl_sequence fl \<or> nxt \<noteq> fl_offset fl + fl_length fl
                 then refuse ''ack_mismatch'' rt
                 else
                   let before = rt_meta rt;
                       rt1 = rt\<lparr>rt_meta := before\<lparr>md_ack_sequence := Some sequence, md_ack_offset := nxt\<rparr>,
                                 rt_in_flight := None\<rparr>
                   in barrier stored before rt1 (send_to Source (AckFrame sequence nxt)))
            | _ \<Rightarrow> refuse ''ack_mismatch'' rt)"

definition room_finish :: "transfer_peer \<Rightarrow> frame \<Rightarrow> string \<Rightarrow> transfer_router \<Rightarrow> handled" where
  "room_finish peer f raw rt =
     (if pr_role peer \<noteq> Source \<or> \<not> frame_bound (rt_meta rt) f \<or> rt_in_flight rt \<noteq> None \<or> \<not> exactlyKeys f base_keys
      then refuse ''bad_finish'' rt
      else if md_ack_offset (rt_meta rt) \<noteq> md_max_bytes (rt_meta rt) then refuse ''finish_before_complete'' rt
      else if map_of (rt_peers rt) Destination = None then refuse ''destination_offline'' rt
      else (Inr (), rt, send_to Destination (Relayed raw) rt, NoBarrier))"

definition room_finish_ack :: "bool \<Rightarrow> transfer_peer \<Rightarrow> frame \<Rightarrow> transfer_router \<Rightarrow> handled" where
  "room_finish_ack stored peer f rt =
     (if pr_role peer \<noteq> Destination \<or> \<not> frame_bound (rt_meta rt) f \<or> rt_in_flight rt \<noteq> None \<or> \<not> exactlyKeys f base_keys
      then refuse ''bad_finish_ack'' rt
      else if md_ack_offset (rt_meta rt) \<noteq> md_max_bytes (rt_meta rt) then refuse ''finish_before_complete'' rt
      else barrier stored (rt_meta rt) (rt_state Room_Completed rt) (send_to Source FinishAckFrame))"

definition other_role :: "transfer_role \<Rightarrow> transfer_role" where
  "other_role role = (case role of Source \<Rightarrow> Destination | Destination \<Rightarrow> Source)"

definition room_cancel :: "bool \<Rightarrow> transfer_peer \<Rightarrow> frame \<Rightarrow> transfer_router \<Rightarrow> handled" where
  "room_cancel stored peer f rt =
     (if \<not> frame_bound (rt_meta rt) f \<or> \<not> exactlyKeys f base_keys then refuse ''binding_mismatch'' rt
      else barrier stored (rt_meta rt) ((rt_state Room_Cancelled rt)\<lparr>rt_in_flight := None\<rparr>)
             (send_to (other_role (pr_role peer)) CancelFrame))"

definition dispatch_frame ::
  "js_runtime \<Rightarrow> bool \<Rightarrow> transfer_peer \<Rightarrow> string \<Rightarrow> transfer_router \<Rightarrow> handled" where
  "dispatch_frame js stored peer raw rt =
     (case js_parse js raw of
        Some (JObj f) \<Rightarrow>
          (if fget f ''protocol'' \<noteq> Some (JStr TRANSFER_PROTOCOL)
            \<or> fget f ''transfer_id'' \<noteq> Some (JStr (md_transfer_id (rt_meta rt))) \<or> \<not> fstring js_id f ''type''
           then refuse ''bad_frame'' rt
           else if fget f ''type'' = Some (JStr ''chunk'') then room_chunk js peer f raw rt
           else if fget f ''type'' = Some (JStr ''ack'') then room_ack js stored peer f rt
           else if fget f ''type'' = Some (JStr ''finish'') then room_finish peer f raw rt
           else if fget f ''type'' = Some (JStr ''finish_ack'') then room_finish_ack stored peer f rt
           else if fget f ''type'' = Some (JStr ''cancel'') then room_cancel stored peer f rt
           else refuse ''unsupported_type'' rt)
      | _ \<Rightarrow> refuse ''bad_frame'' rt)"

definition router_handle ::
  "js_runtime \<Rightarrow> int \<Rightarrow> bool \<Rightarrow> transfer_peer \<Rightarrow> string \<Rightarrow> transfer_router \<Rightarrow> handled" where
  "router_handle js now stored peer raw rt =
     (if length raw > MAX_TRANSFER_FRAME_BYTES then refuse ''frame_too_large'' rt
      else if rt_broken rt \<or> map_option pr_id (map_of (rt_peers rt) (pr_role peer)) \<noteq> Some (pr_id peer)
            \<or> md_state (rt_meta rt) = Room_Completed
      then refuse ''peer_unavailable'' rt
      else
        let (gone, rt1) = router_expired now rt
        in if gone then refuse ''peer_unavailable'' rt1 else dispatch_frame js stored peer raw rt1)"

section \<open>Tickets\<close>

record transfer_ticket_claims =
  tk_v :: int
  tk_jti :: string
  tk_session_nonce :: string
  tk_transfer_id :: string
  tk_tenant_id :: string
  tk_principal_id :: string
  tk_device_id :: string
  tk_role :: transfer_role
  tk_source_device_id :: string
  tk_destination_device_id :: string
  tk_source_workspace_id :: string
  tk_destination_workspace_id :: string
  tk_plan_sha256 :: string
  tk_epoch :: int
  tk_fence :: int
  tk_max_bytes :: int
  tk_ticket_exp :: int
  tk_transfer_expires_at :: int
  tk_source_device_public_key :: string
  tk_destination_device_public_key :: string
  tk_source_ephemeral_public_key :: string
  tk_destination_ephemeral_public_key :: string
  tk_source_ephemeral_signature :: string
  tk_destination_ephemeral_signature :: string

definition role_json :: "transfer_role \<Rightarrow> json" where
  "role_json role = JStr (case role of Source \<Rightarrow> ''source'' | Destination \<Rightarrow> ''destination'')"

definition role_of_json :: "json \<Rightarrow> transfer_role option" where
  "role_of_json j =
     (if j = JStr ''source'' then Some Source else if j = JStr ''destination'' then Some Destination else None)"

definition canonicalTransferTicketJson :: "transfer_ticket_claims \<Rightarrow> json" where
  "canonicalTransferTicketJson c =
     JObj [(''v'', JInt (tk_v c)), (''jti'', JStr (tk_jti c)), (''session_nonce'', JStr (tk_session_nonce c)),
           (''transfer_id'', JStr (tk_transfer_id c)), (''tenant_id'', JStr (tk_tenant_id c)),
           (''principal_id'', JStr (tk_principal_id c)), (''device_id'', JStr (tk_device_id c)),
           (''role'', role_json (tk_role c)), (''source_device_id'', JStr (tk_source_device_id c)),
           (''destination_device_id'', JStr (tk_destination_device_id c)),
           (''source_workspace_id'', JStr (tk_source_workspace_id c)),
           (''destination_workspace_id'', JStr (tk_destination_workspace_id c)),
           (''plan_sha256'', JStr (tk_plan_sha256 c)), (''epoch'', JInt (tk_epoch c)),
           (''fence'', JInt (tk_fence c)), (''max_bytes'', JInt (tk_max_bytes c)),
           (''ticket_exp'', JInt (tk_ticket_exp c)), (''transfer_expires_at'', JInt (tk_transfer_expires_at c)),
           (''source_device_public_key'', JStr (tk_source_device_public_key c)),
           (''destination_device_public_key'', JStr (tk_destination_device_public_key c)),
           (''source_ephemeral_public_key'', JStr (tk_source_ephemeral_public_key c)),
           (''destination_ephemeral_public_key'', JStr (tk_destination_ephemeral_public_key c)),
           (''source_ephemeral_signature'', JStr (tk_source_ephemeral_signature c)),
           (''destination_ephemeral_signature'', JStr (tk_destination_ephemeral_signature c))]"

definition json_int :: "json \<Rightarrow> int option" where
  "json_int j = (case j of JInt n \<Rightarrow> Some n | _ \<Rightarrow> None)"

text \<open>
  The claims that a document carries.  A field of another type than its own is rejected by the
  checks of \<open>issueTransferTicket\<close> at the latest, so such a document yields no claims.
\<close>

definition claims_of_json :: "json \<Rightarrow> transfer_ticket_claims option" where
  "claims_of_json j =
     (case j of
        JObj f \<Rightarrow>
          (let s = (\<lambda>k. case Option.bind (fget f k) json_str of Some x \<Rightarrow> x | None \<Rightarrow> []);
               n = (\<lambda>k. Option.bind (fget f k) json_int);
               strings = [''jti'', ''session_nonce'', ''transfer_id'', ''tenant_id'', ''principal_id'', ''device_id'',
                 ''source_device_id'', ''destination_device_id'', ''source_workspace_id'',
                 ''destination_workspace_id'', ''plan_sha256'', ''source_device_public_key'',
                 ''destination_device_public_key'', ''source_ephemeral_public_key'',
                 ''destination_ephemeral_public_key'', ''source_ephemeral_signature'',
                 ''destination_ephemeral_signature'']
           in if \<not> list_all (\<lambda>k. Option.bind (fget f k) json_str \<noteq> None) strings then None
              else
                case (n ''v'', Option.bind (fget f ''role'') role_of_json, n ''epoch'', n ''fence'', n ''max_bytes'',
                      n ''ticket_exp'', n ''transfer_expires_at'') of
                  (Some v, Some role, Some epoch, Some fence, Some mx, Some te, Some xe) \<Rightarrow>
                    Some \<lparr>tk_v = v, tk_jti = s ''jti'', tk_session_nonce = s ''session_nonce'',
                      tk_transfer_id = s ''transfer_id'', tk_tenant_id = s ''tenant_id'',
                      tk_principal_id = s ''principal_id'', tk_device_id = s ''device_id'', tk_role = role,
                      tk_source_device_id = s ''source_device_id'',
                      tk_destination_device_id = s ''destination_device_id'',
                      tk_source_workspace_id = s ''source_workspace_id'',
                      tk_destination_workspace_id = s ''destination_workspace_id'',
                      tk_plan_sha256 = s ''plan_sha256'', tk_epoch = epoch, tk_fence = fence, tk_max_bytes = mx,
                      tk_ticket_exp = te, tk_transfer_expires_at = xe,
                      tk_source_device_public_key = s ''source_device_public_key'',
                      tk_destination_device_public_key = s ''destination_device_public_key'',
                      tk_source_ephemeral_public_key = s ''source_ephemeral_public_key'',
                      tk_destination_ephemeral_public_key = s ''destination_ephemeral_public_key'',
                      tk_source_ephemeral_signature = s ''source_ephemeral_signature'',
                      tk_destination_ephemeral_signature = s ''destination_ephemeral_signature''\<rparr>
                | _ \<Rightarrow> None)
      | _ \<Rightarrow> None)"

definition claims_valid :: "int \<Rightarrow> string \<Rightarrow> transfer_ticket_claims \<Rightarrow> bool" where
  "claims_valid now secret c \<longleftrightarrow>
     secret \<noteq> [] \<and> tk_v c = 1
   \<and> list_all js_id [tk_jti c, tk_session_nonce c, tk_transfer_id c, tk_tenant_id c, tk_principal_id c,
       tk_device_id c, tk_source_device_id c, tk_destination_device_id c, tk_source_workspace_id c,
       tk_destination_workspace_id c]
   \<and> js_hash (tk_plan_sha256 c)
   \<and> js_hex (tk_source_device_public_key c) 32 \<and> js_hex (tk_destination_device_public_key c) 32
   \<and> js_hex (tk_source_ephemeral_public_key c) 32 \<and> js_hex (tk_destination_ephemeral_public_key c) 32
   \<and> js_hex (tk_source_ephemeral_signature c) 64 \<and> js_hex (tk_destination_ephemeral_signature c) 64
   \<and> tk_device_id c = (case tk_role c of Source \<Rightarrow> tk_source_device_id c | Destination \<Rightarrow> tk_destination_device_id c)
   \<and> safe_integer (tk_ticket_exp c) \<and> tk_ticket_exp c > now \<and> tk_ticket_exp c \<le> now + TICKET_MAX_MS
   \<and> safe_integer (tk_transfer_expires_at c) \<and> tk_transfer_expires_at c > now
   \<and> tk_transfer_expires_at c \<ge> tk_ticket_exp c \<and> tk_transfer_expires_at c \<le> now + TRANSFER_MAX_TTL_MS
   \<and> safe_integer (tk_epoch c) \<and> tk_epoch c \<ge> 1 \<and> safe_integer (tk_fence c) \<and> tk_fence c \<ge> 1
   \<and> safe_integer (tk_max_bytes c) \<and> tk_max_bytes c \<ge> 0"

definition issueTransferTicket ::
  "js_runtime \<Rightarrow> room_crypto \<Rightarrow> int \<Rightarrow> string \<Rightarrow> transfer_ticket_claims \<Rightarrow> string option" where
  "issueTransferTicket js rc now secret claims =
     (if \<not> claims_valid now secret claims then None
      else
        let body = base64Url (as_bytes (js_stringify js (canonicalTransferTicketJson claims)))
        in Some (body @ ''.'' @ base64Url (rc_hmac rc secret (as_bytes body))))"

fun split_dots :: "string \<Rightarrow> string list" where
  "split_dots [] = [[]]"
| "split_dots (c # s) =
     (if c = CHR ''.'' then [] # split_dots s
      else case split_dots s of [] \<Rightarrow> [[c]] | p # ps \<Rightarrow> (c # p) # ps)"

definition verifyTransferTicket ::
  "js_runtime \<Rightarrow> room_crypto \<Rightarrow> int \<Rightarrow> string option \<Rightarrow> string option \<Rightarrow> transfer_ticket_claims option" where
  "verifyTransferTicket js rc now secret raw =
     (case (secret, raw) of
        (Some key, Some text) \<Rightarrow>
          (if key = [] \<or> text = [] then None
           else
             let parts = split_dots text
             in if length parts < 2 \<or> parts ! 0 = [] \<or> parts ! 1 = [] \<or> (length parts > 2 \<and> parts ! 2 \<noteq> []) then None
                else
                  case (fromBase64Url (parts ! 1), fromBase64Url (parts ! 0)) of
                    (Some signature, Some bytes) \<Rightarrow>
                      (if signature \<noteq> rc_hmac rc key (as_bytes (parts ! 0)) then None
                       else
                         let decoded = js_decode js bytes
                         in case Option.bind (js_parse js decoded) claims_of_json of
                              None \<Rightarrow> None
                            | Some claims \<Rightarrow>
                                if decoded \<noteq> js_stringify js (canonicalTransferTicketJson claims) then None
                                else if \<not> claims_valid now key claims then None
                                else Some claims)
                  | _ \<Rightarrow> None)
      | _ \<Rightarrow> None)"

text \<open>What names a used ticket in the replay ledger.\<close>

definition u32_prefixed :: "string \<Rightarrow> bytes" where
  "u32_prefixed s = be_encode 4 (length s) @ as_bytes s"

definition ticket_replay_bytes :: "string \<Rightarrow> string \<Rightarrow> bytes" where
  "ticket_replay_bytes transfer_id jti =
     concat (map u32_prefixed [''ownmesh-transfer-ticket-replay-v1'', transfer_id, jti])"

definition ticketReplayKey :: "room_crypto \<Rightarrow> string \<Rightarrow> string \<Rightarrow> string" where
  "ticketReplayKey rc transfer_id jti = rc_sha256_hex rc (ticket_replay_bytes transfer_id jti)"

text \<open>What a device signs to bind its ephemeral key.\<close>

definition hex_digit_value :: "char \<Rightarrow> nat" where
  "hex_digit_value c = (let n = of_char c :: nat in if n \<le> 57 then n - 48 else n - 87)"

fun raw_hex :: "string \<Rightarrow> bytes" where
  "raw_hex (a # b # s) = of_nat (hex_digit_value a * 16 + hex_digit_value b) # raw_hex s"
| "raw_hex _ = []"

definition proof_u32 :: "int \<Rightarrow> bytes option" where
  "proof_u32 n = (if n < 0 \<or> n > 0xFFFFFFFF then None else Some (be_encode 4 (nat n)))"

definition proof_u64 :: "int \<Rightarrow> bytes option" where
  "proof_u64 n = (if \<not> safe_integer n \<or> n < 0 then None else Some (be_encode 8 (nat n)))"

definition proof_text :: "string \<Rightarrow> bytes option" where
  "proof_text s = map_option (\<lambda>len. len @ as_bytes s) (proof_u32 (int (length s)))"

fun join_parts :: "bytes option list \<Rightarrow> bytes option" where
  "join_parts [] = Some []"
| "join_parts (None # ps) = None"
| "join_parts (Some b # ps) = map_option (\<lambda>r. b @ r) (join_parts ps)"

definition canonicalTransferEphemeralProof :: "transfer_ticket_claims \<Rightarrow> transfer_role \<Rightarrow> bytes option" where
  "canonicalTransferEphemeralProof c role =
     (let device = (case role of Source \<Rightarrow> tk_source_device_id c | Destination \<Rightarrow> tk_destination_device_id c);
          workspace = (case role of Source \<Rightarrow> tk_source_workspace_id c | Destination \<Rightarrow> tk_destination_workspace_id c);
          ephemeral = (case role of Source \<Rightarrow> tk_source_ephemeral_public_key c
                                  | Destination \<Rightarrow> tk_destination_ephemeral_public_key c)
      in if \<not> js_hash (tk_plan_sha256 c) \<or> \<not> js_hex ephemeral 32 then None
         else
           join_parts
             [proof_text ''ownmesh-transfer-ephemeral-v1'', proof_text (tk_transfer_id c),
              proof_text (tk_tenant_id c), Some [case role of Source \<Rightarrow> 1 | Destination \<Rightarrow> 2],
              proof_text device, proof_text workspace, Some (raw_hex (tk_plan_sha256 c)),
              proof_u32 (tk_epoch c), proof_u64 (tk_fence c), proof_text (tk_session_nonce c),
              Some (raw_hex ephemeral), proof_u64 (tk_transfer_expires_at c)])"

definition verifyTransferEphemeralProof ::
  "room_crypto \<Rightarrow> transfer_ticket_claims \<Rightarrow> transfer_role \<Rightarrow> string \<Rightarrow> bool" where
  "verifyTransferEphemeralProof rc c role device_public_key =
     (let signature = (case role of Source \<Rightarrow> tk_source_ephemeral_signature c
                                  | Destination \<Rightarrow> tk_destination_ephemeral_signature c)
      in if \<not> js_hex device_public_key 32 \<or> \<not> js_hex signature 64 then False
         else
           case canonicalTransferEphemeralProof c role of
             None \<Rightarrow> False
           | Some message \<Rightarrow> rc_ed25519_verify rc (raw_hex device_public_key) (raw_hex signature) message)"

section \<open>The terminal control\<close>

record transfer_terminal_control =
  tc_v :: int
  tc_transfer_id :: string
  tc_plan_sha256 :: string
  tc_epoch :: int
  tc_fence :: int
  tc_artifact_sha256 :: string

definition canonicalTransferTerminalControl :: "transfer_terminal_control \<Rightarrow> json" where
  "canonicalTransferTerminalControl c =
     JObj [(''v'', JInt (tc_v c)), (''transfer_id'', JStr (tc_transfer_id c)),
           (''plan_sha256'', JStr (tc_plan_sha256 c)), (''epoch'', JInt (tc_epoch c)),
           (''fence'', JInt (tc_fence c)), (''artifact_sha256'', JStr (tc_artifact_sha256 c))]"

definition control_of_json :: "json \<Rightarrow> transfer_terminal_control option" where
  "control_of_json j =
     (case j of
        JObj f \<Rightarrow>
          (case (Option.bind (fget f ''v'') json_int, Option.bind (fget f ''transfer_id'') json_str,
                 Option.bind (fget f ''plan_sha256'') json_str, Option.bind (fget f ''epoch'') json_int,
                 Option.bind (fget f ''fence'') json_int, Option.bind (fget f ''artifact_sha256'') json_str) of
             (Some v, Some t, Some p, Some e, Some fe, Some a) \<Rightarrow>
               Some \<lparr>tc_v = v, tc_transfer_id = t, tc_plan_sha256 = p, tc_epoch = e, tc_fence = fe,
                     tc_artifact_sha256 = a\<rparr>
           | _ \<Rightarrow> None)
      | _ \<Rightarrow> None)"

definition control_valid :: "string \<Rightarrow> transfer_terminal_control \<Rightarrow> bool" where
  "control_valid secret c \<longleftrightarrow>
     secret \<noteq> [] \<and> tc_v c = 1 \<and> js_id (tc_transfer_id c) \<and> js_hash (tc_plan_sha256 c) \<and> js_hash (tc_artifact_sha256 c)
   \<and> safe_integer (tc_epoch c) \<and> tc_epoch c \<ge> 1 \<and> safe_integer (tc_fence c) \<and> tc_fence c \<ge> 1"

definition issueTransferTerminalControl ::
  "js_runtime \<Rightarrow> room_crypto \<Rightarrow> string \<Rightarrow> transfer_terminal_control \<Rightarrow> (string \<times> string) option" where
  "issueTransferTerminalControl js rc secret c =
     (if \<not> control_valid secret c then None
      else
        let body = js_stringify js (canonicalTransferTerminalControl c)
        in Some (body, base64Url (rc_hmac rc secret (as_bytes body))))"

definition verifyTransferTerminalControl ::
  "js_runtime \<Rightarrow> room_crypto \<Rightarrow> string option \<Rightarrow> string \<Rightarrow> string option \<Rightarrow> transfer_terminal_control option" where
  "verifyTransferTerminalControl js rc secret body signature =
     (case (secret, signature) of
        (Some key, Some sig) \<Rightarrow>
          (if key = [] \<or> sig = [] then None
           else
             case fromBase64Url sig of
               None \<Rightarrow> None
             | Some raw \<Rightarrow>
                 if raw \<noteq> rc_hmac rc key (as_bytes body) then None
                 else
                   case Option.bind (js_parse js body) control_of_json of
                     None \<Rightarrow> None
                   | Some c \<Rightarrow>
                       if body \<noteq> js_stringify js (canonicalTransferTerminalControl c) \<or> \<not> control_valid key c
                       then None else Some c)
      | _ \<Rightarrow> None)"

section \<open>The room\<close>

record transfer_attachment =
  at_peer_id :: string
  at_role :: transfer_role
  at_device_id :: string
  at_transfer_id :: string
  at_epoch :: int
  at_fence :: int
  at_plan_sha256 :: string
  at_transfer_expires_at :: int

definition validateTransferAttachment :: "transfer_attachment \<Rightarrow> transfer_metadata option \<Rightarrow> int \<Rightarrow> bool" where
  "validateTransferAttachment a metadata now \<longleftrightarrow>
     js_id (at_peer_id a) \<and> js_id (at_device_id a) \<and> js_id (at_transfer_id a)
   \<and> safe_integer (at_epoch a) \<and> at_epoch a \<ge> 1 \<and> safe_integer (at_fence a) \<and> at_fence a \<ge> 1
   \<and> js_hash (at_plan_sha256 a)
   \<and> safe_integer (at_transfer_expires_at a) \<and> at_transfer_expires_at a > now
   \<and> (case metadata of
        None \<Rightarrow> False
      | Some md \<Rightarrow>
          at_transfer_id a = md_transfer_id md \<and> at_epoch a = md_epoch md \<and> at_fence a = md_fence md
        \<and> at_plan_sha256 a = md_plan_sha256 md \<and> at_transfer_expires_at a = md_transfer_expires_at md
        \<and> at_device_id a = expected_device md (at_role a))"

text \<open>
  The room and its router hold references to metadata.  They share one object when the router has
  just been built from the room's, and two once the router has handed a copy to the barrier.
\<close>

datatype meta_ref = SharedWithRouter | OwnMeta transfer_metadata

record transfer_room =
  rm_meta :: "meta_ref option"
  rm_router :: "transfer_router option"
  rm_consumed :: "(string \<times> int) list"
  rm_sockets :: "transfer_attachment list"
  rm_failed :: bool
  st_metadata :: "transfer_metadata option"
  st_tickets :: "(string \<times> int) list option"
  st_alarm :: "int option"

definition room_metadata :: "transfer_room \<Rightarrow> transfer_metadata option" where
  "room_metadata rm =
     (case rm_meta rm of
        None \<Rightarrow> None
      | Some SharedWithRouter \<Rightarrow> map_option rt_meta (rm_router rm)
      | Some (OwnMeta m) \<Rightarrow> Some m)"

text \<open>An object that has not been touched yet, on empty storage.\<close>

definition room_empty :: transfer_room where
  "room_empty =
     \<lparr>rm_meta = None, rm_router = None, rm_consumed = [], rm_sockets = [], rm_failed = False,
      st_metadata = None, st_tickets = None, st_alarm = None\<rparr>"

definition socket_peer :: "transfer_attachment \<Rightarrow> transfer_peer" where
  "socket_peer a = \<lparr>pr_id = at_peer_id a, pr_role = at_role a, pr_device = at_device_id a\<rparr>"

definition close_socket :: "transfer_attachment \<Rightarrow> transfer_room \<Rightarrow> transfer_room" where
  "close_socket a rm = rm\<lparr>rm_sockets := filter (\<lambda>b. b \<noteq> a) (rm_sockets rm)\<rparr>"

definition with_router :: "transfer_metadata \<Rightarrow> transfer_room \<Rightarrow> transfer_room" where
  "with_router m rm = rm\<lparr>rm_router := Some (router_new m), rm_meta := Some SharedWithRouter\<rparr>"

fun reattach_sockets :: "int \<Rightarrow> transfer_attachment list \<Rightarrow> transfer_room \<Rightarrow> transfer_room \<times> sent" where
  "reattach_sockets now [] rm = (rm, [])"
| "reattach_sockets now (a # as) rm =
     (case rm_router rm of
        None \<Rightarrow> (rm, [])
      | Some rt \<Rightarrow>
          let (res, rt1, out1) =
                (if validateTransferAttachment a (room_metadata rm) now then router_attach now (socket_peer a) rt
                 else (AttachReject, rt, []));
              rm1 = rm\<lparr>rm_router := Some rt1\<rparr>;
              rm2 = (if res = AttachReject then close_socket a rm1 else rm1);
              (rm3, out2) = reattach_sockets now as rm2
          in (rm3, out1 @ out2))"

definition ledger_entry_ok :: "int \<Rightarrow> string \<times> int \<Rightarrow> bool" where
  "ledger_entry_ok now e \<longleftrightarrow>
     js_hash (fst e) \<and> safe_integer (snd e) \<and> snd e \<ge> 1 \<and> snd e \<le> now + TICKET_MAX_MS"

text \<open>Waking up: everything but storage and the open sockets is lost.\<close>

definition room_restore :: "int \<Rightarrow> transfer_room \<Rightarrow> transfer_room \<times> sent" where
  "room_restore now rm =
     (let entries = (case st_tickets rm of None \<Rightarrow> [] | Some es \<Rightarrow> es);
          rm0 = rm\<lparr>rm_meta := map_option OwnMeta (st_metadata rm), rm_router := None, rm_consumed := [],
                    rm_failed := False\<rparr>
      in if length entries > MAX_TICKET_REPLAYS \<or> \<not> list_all (ledger_entry_ok now) entries
         then (rm0\<lparr>rm_failed := True\<rparr>, [])
         else
           let rm1 = rm0\<lparr>rm_consumed := filter (\<lambda>e. snd e > now) entries\<rparr>
           in case st_metadata rm of
                None \<Rightarrow> (rm1, [])
              | Some m \<Rightarrow> reattach_sockets now (rm_sockets rm) (with_router m rm1))"

definition sameMetadata :: "transfer_metadata \<Rightarrow> transfer_ticket_claims \<Rightarrow> bool" where
  "sameMetadata md c \<longleftrightarrow>
     md_transfer_id md = tk_transfer_id c \<and> md_tenant_id md = tk_tenant_id c
   \<and> md_source_device_id md = tk_source_device_id c \<and> md_destination_device_id md = tk_destination_device_id c
   \<and> md_source_workspace_id md = tk_source_workspace_id c
   \<and> md_destination_workspace_id md = tk_destination_workspace_id c
   \<and> md_plan_sha256 md = tk_plan_sha256 c \<and> md_epoch md = tk_epoch c \<and> md_fence md = tk_fence c
   \<and> md_max_bytes md = tk_max_bytes c \<and> md_transfer_expires_at md = tk_transfer_expires_at c"

definition canAdvanceMetadata :: "transfer_metadata \<Rightarrow> transfer_ticket_claims \<Rightarrow> bool" where
  "canAdvanceMetadata md c \<longleftrightarrow>
     md_transfer_id md = tk_transfer_id c \<and> md_tenant_id md = tk_tenant_id c
   \<and> md_source_device_id md = tk_source_device_id c \<and> md_destination_device_id md = tk_destination_device_id c
   \<and> md_source_workspace_id md = tk_source_workspace_id c
   \<and> md_destination_workspace_id md = tk_destination_workspace_id c
   \<and> md_plan_sha256 md = tk_plan_sha256 c \<and> md_max_bytes md = tk_max_bytes c
   \<and> md_transfer_expires_at md = tk_transfer_expires_at c
   \<and> tk_epoch c = md_epoch md + 1 \<and> tk_fence c = md_fence md + 1"

definition metadataFor :: "transfer_ticket_claims \<Rightarrow> transfer_metadata" where
  "metadataFor c =
     \<lparr>md_transfer_id = tk_transfer_id c, md_tenant_id = tk_tenant_id c,
      md_source_device_id = tk_source_device_id c, md_destination_device_id = tk_destination_device_id c,
      md_source_workspace_id = tk_source_workspace_id c,
      md_destination_workspace_id = tk_destination_workspace_id c, md_plan_sha256 = tk_plan_sha256 c,
      md_transfer_expires_at = tk_transfer_expires_at c, md_max_bytes = tk_max_bytes c,
      md_epoch = tk_epoch c, md_fence = tk_fence c, md_state = Room_Prepared, md_ack_sequence = None,
      md_ack_offset = 0\<rparr>"

text \<open>Which of the storage calls of an event succeed, in the order in which the code makes them.\<close>

record storage_outcome =
  so_advance :: bool
  so_tickets :: bool
  so_metadata :: bool
  so_alarm :: bool
  so_delete :: bool

definition put_metadata :: "transfer_metadata \<Rightarrow> transfer_room \<Rightarrow> transfer_room" where
  "put_metadata m rm = rm\<lparr>st_metadata := Some m, rm_meta := Some (OwnMeta m)\<rparr>"

text \<open>\<open>consume\<close>: \<open>None\<close> when the write of the ledger throws.\<close>

definition room_consume ::
  "room_crypto \<Rightarrow> int \<Rightarrow> bool \<Rightarrow> transfer_ticket_claims \<Rightarrow> transfer_room \<Rightarrow> bool option \<times> transfer_room" where
  "room_consume rc now stored c rm =
     (let live = filter (\<lambda>e. \<not> snd e \<le> now) (rm_consumed rm);
          key = ticketReplayKey rc (tk_transfer_id c) (tk_jti c)
      in if map_of live key \<noteq> None \<or> length live \<ge> MAX_TICKET_REPLAYS
         then (Some False, rm\<lparr>rm_consumed := live\<rparr>)
         else
           let live1 = live @ [(key, tk_ticket_exp c)]; rm1 = rm\<lparr>rm_consumed := live1\<rparr>
           in if stored then (Some True, rm1\<lparr>st_tickets := Some live1\<rparr>) else (None, rm1))"

definition attachment_for :: "string \<Rightarrow> transfer_ticket_claims \<Rightarrow> transfer_attachment" where
  "attachment_for peer_id c =
     \<lparr>at_peer_id = peer_id, at_role = tk_role c, at_device_id = tk_device_id c,
      at_transfer_id = tk_transfer_id c, at_epoch = tk_epoch c, at_fence = tk_fence c,
      at_plan_sha256 = tk_plan_sha256 c, at_transfer_expires_at = tk_transfer_expires_at c\<rparr>"

text \<open>An epoch later: the new metadata is stored, a new router built on it, and every socket closed.\<close>

definition advance_epoch :: "transfer_metadata \<Rightarrow> transfer_ticket_claims \<Rightarrow> transfer_room \<Rightarrow> transfer_room" where
  "advance_epoch md c rm =
     (let advanced = md\<lparr>md_epoch := tk_epoch c, md_fence := tk_fence c\<rparr>
      in (with_router advanced (put_metadata advanced rm))\<lparr>rm_sockets := []\<rparr>)"

definition admit_socket ::
  "int \<Rightarrow> string \<Rightarrow> transfer_ticket_claims \<Rightarrow> transfer_room \<Rightarrow> nat \<times> transfer_room \<times> sent" where
  "admit_socket now peer_id c rm =
     (let a = attachment_for peer_id c; rm1 = rm\<lparr>rm_sockets := rm_sockets rm @ [a]\<rparr>
      in case rm_router rm1 of
           None \<Rightarrow> (101, rm1, [])
         | Some rt \<Rightarrow>
             let (res, rt1, outp) = router_attach now (socket_peer a) rt; rm2 = rm1\<lparr>rm_router := Some rt1\<rparr>
             in if res = AttachReject then (403, close_socket a rm2, outp) else (101, rm2, outp))"

definition role_taken :: "int \<Rightarrow> transfer_role \<Rightarrow> transfer_room \<Rightarrow> bool" where
  "role_taken now role rm \<longleftrightarrow>
     list_ex (\<lambda>a. validateTransferAttachment a (room_metadata rm) now \<and> at_role a = role) (rm_sockets rm)"

definition admit_ticket ::
  "room_crypto \<Rightarrow> int \<Rightarrow> storage_outcome \<Rightarrow> string \<Rightarrow> transfer_ticket_claims \<Rightarrow> transfer_room \<Rightarrow>
   nat \<times> transfer_room \<times> sent" where
  "admit_ticket rc now so peer_id c rm =
     (if (case room_metadata rm of
            None \<Rightarrow> False
          | Some md \<Rightarrow>
              md_state md = Room_Cancelled \<or> md_state md = Room_Completed
            \<or> (md_transfer_expires_at md \<noteq> 0 \<and> md_transfer_expires_at md \<le> now))
      then (410, rm, [])
      else if role_taken now (tk_role c) rm then (409, rm, [])
      else
        case room_consume rc now (so_tickets so) c rm of
          (None, rm1) \<Rightarrow> (503, rm1, [])
        | (Some False, rm1) \<Rightarrow> (409, rm1, [])
        | (Some True, rm1) \<Rightarrow>
            (case room_metadata rm1 of
               Some _ \<Rightarrow> admit_socket now peer_id c rm1
             | None \<Rightarrow>
                 let m = metadataFor c
                 in if \<not> so_metadata so then (503, rm1, [])
                    else if \<not> so_alarm so then (503, put_metadata m rm1, [])
                    else
                      admit_socket now peer_id c
                        (with_router m ((put_metadata m rm1)\<lparr>st_alarm := Some (md_transfer_expires_at m)\<rparr>))))"

definition fetch_socket ::
  "js_runtime \<Rightarrow> room_crypto \<Rightarrow> string option \<Rightarrow> int \<Rightarrow> storage_outcome \<Rightarrow> string \<Rightarrow> string option \<Rightarrow> transfer_room \<Rightarrow>
   nat \<times> transfer_room \<times> sent" where
  "fetch_socket js rc secret now so peer_id raw rm =
     (case verifyTransferTicket js rc now secret raw of
        None \<Rightarrow> (401, rm, [])
      | Some c \<Rightarrow>
          if tk_ticket_exp c \<le> now then (401, rm, [])
          else if tk_device_id c \<noteq> (case tk_role c of Source \<Rightarrow> tk_source_device_id c | Destination \<Rightarrow> tk_destination_device_id c)
          then (403, rm, [])
          else
            case room_metadata rm of
              None \<Rightarrow> admit_ticket rc now so peer_id c rm
            | Some md \<Rightarrow>
                if sameMetadata md c then admit_ticket rc now so peer_id c rm
                else if \<not> canAdvanceMetadata md c then (403, rm, [])
                else if \<not> so_advance so then (503, rm, [])
                else admit_ticket rc now so peer_id c (advance_epoch md c rm))"

text \<open>
  \<open>POST /terminal\<close>: the headers that are looked at, and the body as the pieces that its reader
  delivers.
\<close>

record terminal_request =
  rq_content_type :: "string option"
  rq_content_length :: "string option"
  rq_body :: "bytes list option"
  rq_control :: "string option"

fun read_pieces :: "nat \<Rightarrow> nat \<Rightarrow> bytes list \<Rightarrow> bytes option" where
  "read_pieces got expected [] = (if got \<noteq> expected then None else Some [])"
| "read_pieces got expected (p # ps) =
     (let got1 = got + length p
      in if got1 > MAX_TERMINAL_CONTROL_BYTES \<or> got1 > expected then None
         else map_option (\<lambda>r. p @ r) (read_pieces got1 expected ps))"

text \<open>What \<open>TextDecoder\<close> with \<open>fatal\<close> accepts: well-formed UTF-8, by the value of each byte.\<close>

fun well_formed_utf8 :: "nat list \<Rightarrow> bool" where
  "well_formed_utf8 [] = True"
| "well_formed_utf8 (a # s) =
     (let cont = (\<lambda>b. 0x80 \<le> b \<and> b \<le> 0xBF)
      in if a \<le> 0x7F then well_formed_utf8 s
         else if 0xC2 \<le> a \<and> a \<le> 0xDF then (case s of b # t \<Rightarrow> cont b \<and> well_formed_utf8 t | _ \<Rightarrow> False)
         else if 0xE0 \<le> a \<and> a \<le> 0xEF
         then (case s of b # c # t \<Rightarrow>
                 cont b \<and> (a = 0xE0 \<longrightarrow> 0xA0 \<le> b) \<and> (a = 0xED \<longrightarrow> b \<le> 0x9F) \<and> cont c \<and> well_formed_utf8 t
               | _ \<Rightarrow> False)
         else if 0xF0 \<le> a \<and> a \<le> 0xF4
         then (case s of b # c # d # t \<Rightarrow>
                 cont b \<and> (a = 0xF0 \<longrightarrow> 0x90 \<le> b) \<and> (a = 0xF4 \<longrightarrow> b \<le> 0x8F) \<and> cont c \<and> cont d \<and> well_formed_utf8 t
               | _ \<Rightarrow> False)
         else False)"

definition readTerminalControlBody :: "bytes list option \<Rightarrow> nat \<Rightarrow> string option" where
  "readTerminalControlBody body expected =
     (case body of
        None \<Rightarrow> None
      | Some pieces \<Rightarrow>
          (case read_pieces 0 expected pieces of
             None \<Rightarrow> None
           | Some bytes \<Rightarrow>
               if well_formed_utf8 (map unat bytes) then Some (map (\<lambda>b. char_of (unat b)) bytes) else None))"

text \<open>\<open>/^[1-9][0-9]*$/\<close> and its value.\<close>

definition content_bytes :: "string \<Rightarrow> nat option" where
  "content_bytes s =
     (if s = [] \<or> hd s = CHR ''0'' \<or> \<not> list_all (\<lambda>c. CHR ''0'' \<le> c \<and> c \<le> CHR ''9'') s then None
      else Some (foldl (\<lambda>a c. a * 10 + ((of_char c :: nat) - 48)) 0 s))"

definition fetch_terminal ::
  "js_runtime \<Rightarrow> room_crypto \<Rightarrow> string option \<Rightarrow> storage_outcome \<Rightarrow> terminal_request \<Rightarrow> transfer_room \<Rightarrow>
   nat \<times> transfer_room" where
  "fetch_terminal js rc secret so req rm =
     (if rq_content_type req \<noteq> Some ''application/json'' then (415, rm)
      else
        case rq_content_length req of
          None \<Rightarrow> (411, rm)
        | Some len \<Rightarrow>
            (case content_bytes len of
               None \<Rightarrow> (400, rm)
             | Some n \<Rightarrow>
                 if \<not> safe_integer (int n) then (400, rm)
                 else if n > MAX_TERMINAL_CONTROL_BYTES then (413, rm)
                 else
                   case readTerminalControlBody (rq_body req) n of
                     None \<Rightarrow> (400, rm)
                   | Some body \<Rightarrow>
                       (case verifyTransferTerminalControl js rc secret body (rq_control req) of
                          None \<Rightarrow> (401, rm)
                        | Some control \<Rightarrow>
                            (case room_metadata rm of
                               None \<Rightarrow> (403, rm)
                             | Some md \<Rightarrow>
                                 if tc_transfer_id control \<noteq> md_transfer_id md \<or> tc_plan_sha256 control \<noteq> md_plan_sha256 md
                                  \<or> tc_epoch control \<noteq> md_epoch md \<or> tc_fence control \<noteq> md_fence md
                                 then (403, rm)
                                 else if md_state md = Room_Cancelled \<or> md_state md = Room_Expired then (409, rm)
                                 else if md_state md \<noteq> Room_Completed \<and> \<not> so_metadata so then (503, rm)
                                 else
                                   let rm1 = (if md_state md = Room_Completed then rm
                                              else let completed = md\<lparr>md_state := Room_Completed\<rparr>
                                                   in with_router completed (put_metadata completed rm))
                                   in if \<not> so_delete so then (503, rm1)
                                      else (200, rm1\<lparr>st_tickets := None, rm_consumed := [], rm_sockets := []\<rparr>)))))"

section \<open>Sockets and the alarm\<close>

definition set_router :: "transfer_router \<Rightarrow> transfer_room \<Rightarrow> transfer_room" where
  "set_router rt rm = rm\<lparr>rm_router := Some rt\<rparr>"

definition after_barrier :: "barrier_outcome \<Rightarrow> transfer_room \<Rightarrow> transfer_room" where
  "after_barrier b rm =
     (case b of
        NoBarrier \<Rightarrow> rm
      | Stored m \<Rightarrow> put_metadata m rm
      | Lost m \<Rightarrow> if rm_meta rm = Some SharedWithRouter then rm\<lparr>rm_meta := Some (OwnMeta m)\<rparr> else rm)"

definition webSocketMessage ::
  "js_runtime \<Rightarrow> int \<Rightarrow> bool \<Rightarrow> transfer_attachment \<Rightarrow> string option \<Rightarrow> transfer_room \<Rightarrow> transfer_room \<times> sent" where
  "webSocketMessage js now stored a message rm =
     (case (message, rm_router rm) of
        (Some raw, Some rt) \<Rightarrow>
          (if \<not> validateTransferAttachment a (room_metadata rm) now then (close_socket a rm, [])
           else
             let (res, rt1, out1) = router_attach now (socket_peer a) rt; rm1 = set_router rt1 rm
             in if res = AttachReject then (close_socket a rm1, out1)
                else
                  let (r, rt2, out2, b) = router_handle js now stored (socket_peer a) raw rt1;
                      rm2 = set_router rt2 (after_barrier b rm1)
                  in case r of
                       Inr _ \<Rightarrow> (rm2, out1 @ out2)
                     | Inl code \<Rightarrow>
                         if code = ''persist_failed'' \<or> rt_broken rt2 then (rm2\<lparr>rm_sockets := []\<rparr>, out1 @ out2)
                         else (rm2, out1 @ out2 @ [(at_peer_id a, ErrorFrame code)]))
      | _ \<Rightarrow> (close_socket a rm, []))"

text \<open>
  A socket that the runtime reports as closed or failed, also one that the room itself has closed
  before; it is no longer among the open ones.
\<close>

definition webSocketClose :: "int \<Rightarrow> transfer_attachment \<Rightarrow> transfer_room \<Rightarrow> transfer_room" where
  "webSocketClose now a rm =
     (let rm1 = close_socket a rm
      in case rm_router rm1 of
           Some rt \<Rightarrow>
             if validateTransferAttachment a (room_metadata rm1) now
             then set_router (router_detach (at_role a) (at_peer_id a) rt) rm1 else rm1
         | None \<Rightarrow> rm1)"

definition expire_metadata :: "transfer_room \<Rightarrow> transfer_room" where
  "expire_metadata rm =
     (case rm_meta rm of
        None \<Rightarrow> rm
      | Some SharedWithRouter \<Rightarrow> rm\<lparr>rm_router := map_option (rt_state Room_Expired) (rm_router rm)\<rparr>
      | Some (OwnMeta m) \<Rightarrow> rm\<lparr>rm_meta := Some (OwnMeta (m\<lparr>md_state := Room_Expired\<rparr>))\<rparr>)"

definition room_alarm :: "int \<Rightarrow> storage_outcome \<Rightarrow> transfer_room \<Rightarrow> transfer_room" where
  "room_alarm now so rm =
     (case room_metadata rm of
        None \<Rightarrow> rm
      | Some md \<Rightarrow>
          if md_transfer_expires_at md > now then rm
          else
            let rm1 = expire_metadata rm;
                rm2 = (if so_metadata so then rm1\<lparr>st_metadata := room_metadata rm1\<rparr> else rm1);
                rm3 = (if so_metadata so \<and> so_delete so then rm2\<lparr>st_tickets := None\<rparr> else rm2)
            in rm3\<lparr>rm_sockets := []\<rparr>)"

section \<open>Runs\<close>

text \<open>
  Everything that happens to a room: an upgrade request with a ticket (and how many requests wait
  for admission), the terminal control, a message, the end of a socket, the alarm, and waking up
  after the object was evicted.  A room whose restoration failed answers nothing.

  An event is one step.  In the code, admissions wait for each other, and storage calls hold back
  other events; only the hashes of an admission let a message or the end of a socket in between, and
  such an event is one before or after the admission here.
\<close>

datatype room_event =
    Upgrade nat string "string option"
  | Terminal nat terminal_request
  | Message transfer_attachment "string option" bool
  | Closed transfer_attachment
  | Alarm
  | Wake

record room_setting =
  rs_js :: js_runtime
  rs_crypto :: room_crypto
  rs_secret :: "string option"

fun room_step ::
  "room_setting \<Rightarrow> int \<Rightarrow> storage_outcome \<Rightarrow> room_event \<Rightarrow> transfer_room \<Rightarrow> nat \<times> transfer_room \<times> sent" where
  "room_step rs now so (Upgrade queued peer_id raw) rm =
     (if rm_failed rm then (500, rm, [])
      else if queued \<ge> MAX_ADMISSION_QUEUE then (429, rm, [])
      else fetch_socket (rs_js rs) (rs_crypto rs) (rs_secret rs) now so peer_id raw rm)"
| "room_step rs now so (Terminal queued req) rm =
     (if rm_failed rm then (500, rm, [])
      else if queued \<ge> MAX_ADMISSION_QUEUE then (429, rm, [])
      else let (status, rm1) = fetch_terminal (rs_js rs) (rs_crypto rs) (rs_secret rs) so req rm in (status, rm1, []))"
| "room_step rs now so (Message a message stored) rm =
     (if rm_failed rm \<or> a \<notin> set (rm_sockets rm) then (0, rm, [])
      else let (rm1, outp) = webSocketMessage (rs_js rs) now stored a message rm in (0, rm1, outp))"
| "room_step rs now so (Closed a) rm = (0, webSocketClose now a rm, [])"
| "room_step rs now so Alarm rm = (if rm_failed rm then (500, rm, []) else (0, room_alarm now so rm, []))"
| "room_step rs now so Wake rm = (let (rm1, outp) = room_restore now rm in (0, rm1, outp))"

fun room_run :: "room_setting \<Rightarrow> (int \<times> storage_outcome \<times> room_event) list \<Rightarrow> transfer_room \<Rightarrow> transfer_room \<times> (nat \<times> sent) list" where
  "room_run rs [] rm = (rm, [])"
| "room_run rs ((now, so, e) # es) rm =
     (let (status, rm1, outp) = room_step rs now so e rm; (rm2, outs) = room_run rs es rm1
      in (rm2, (status, outp) # outs))"

end
