(* ===== verification/Room_Tickets.thy ===== *)
theory Room_Tickets
  imports Transfer_Room "HOL-Library.Code_Target_Numeral"
begin

text \<open>
  What the room's credentials are worth: Base64 loses nothing, a ticket or a terminal control that
  was issued verifies to what was signed, and the bytes that a device signs for its ephemeral key
  determine every field of the binding.
\<close>

section \<open>Base64\<close>

fun b64_digits :: "bytes \<Rightarrow> nat list" where
  "b64_digits (a # b # c # rest) =
     (let n = unat a * 65536 + unat b * 256 + unat c
      in [n div 262144, n div 4096 mod 64, n div 64 mod 64, n mod 64]) @ b64_digits rest"
| "b64_digits [a, b] = (let n = unat a * 65536 + unat b * 256 in [n div 262144, n div 4096 mod 64, n div 64 mod 64])"
| "b64_digits [a] = (let n = unat a * 65536 in [n div 262144, n div 4096 mod 64])"
| "b64_digits [] = []"

definition b64_pad :: "nat \<Rightarrow> string" where
  "b64_pad n = (if n mod 3 = 1 then ''=='' else if n mod 3 = 2 then ''='' else [])"

lemma btoa_digits: "btoa bs = map (b64_char ''+/'') (b64_digits bs) @ b64_pad (length bs)"
proof (induction bs rule: btoa.induct)
  case (1 a b c rest)
  have "Suc (Suc (Suc (length rest))) mod 3 = length rest mod 3" by presburger
  with 1 show ?case by (simp add: b64_pad_def Let_def)
qed (simp_all add: b64_pad_def Let_def)

lemma unat_u8: "unat (b :: u8) < 256"
  using unsigned_less [of b, where 'a = nat] by simp

lemma b64_digits_small: "d \<in> set (b64_digits bs) \<Longrightarrow> d < 64"
proof (induction bs rule: b64_digits.induct)
  case (1 a b c rest)
  have "unat a * 65536 + unat b * 256 + unat c < 16777216"
    using unat_u8 [of a] unat_u8 [of b] unat_u8 [of c] by linarith
  then have "(unat a * 65536 + unat b * 256 + unat c) div 262144 < 64" by (simp add: div_less_iff_less_mult)
  with 1 show ?case by (auto simp: Let_def)
next
  case (2 a b)
  have "unat a * 65536 + unat b * 256 < 16777216" using unat_u8 [of a] unat_u8 [of b] by linarith
  then have "(unat a * 65536 + unat b * 256) div 262144 < 64" by (simp add: div_less_iff_less_mult)
  with 2 show ?case by (auto simp: Let_def)
next
  case (3 a)
  have "unat a * 65536 < 16777216" using unat_u8 [of a] by linarith
  then have "unat a * 65536 div 262144 < 64" by (simp add: div_less_iff_less_mult)
  with 3 show ?case by (auto simp: Let_def)
qed simp

lemma b64_regroup: "n div 262144 * 262144 + n div 4096 mod 64 * 4096 + n div 64 mod 64 * 64 + n mod 64 = (n :: nat)"
proof -
  have "n = n div 64 * 64 + n mod 64" by simp
  moreover have "n div 64 = n div 4096 * 64 + n div 64 mod 64"
    using div_mult_mod_eq [of "n div 64" 64] by (simp add: div_mult2_eq [symmetric])
  moreover have "n div 4096 = n div 262144 * 64 + n div 4096 mod 64"
    using div_mult_mod_eq [of "n div 4096" 64] by (simp add: div_mult2_eq [symmetric])
  ultimately show ?thesis by linarith
qed

lemma be_encode_group:
  "be_encode 3 (unat a * 65536 + unat b * 256 + unat c) = [a, b, c]"
  "be_encode 2 (unat a * 256 + unat b) = [a, b]"
  "be_encode 1 (unat a) = [a]"
  using be_encode_decode [of "[a, b, c]"] be_encode_decode [of "[a, b]"] be_encode_decode [of "[a]"]
  by (simp_all add: be_decode_def numeral_3_eq_3 numeral_2_eq_2 algebra_simps)

lemma atob_b64_digits: "atob_digits (b64_digits bs) = Some bs"
proof (induction bs rule: b64_digits.induct)
  case (1 a b c rest)
  show ?case
    using 1 b64_regroup [of "unat a * 65536 + unat b * 256 + unat c"] be_encode_group(1) [of a b c]
    by (simp add: Let_def)
next
  case (2 a b)
  let ?n = "unat a * 65536 + unat b * 256"
  have "?n mod 64 = 0" by (simp add: mod_eq_0_iff_dvd dvd_add)
  then have "(?n div 262144 * 262144 + ?n div 4096 mod 64 * 4096 + ?n div 64 mod 64 * 64) div 256 = unat a * 256 + unat b"
    using b64_regroup [of ?n] by simp
  then show ?case using be_encode_group(2) [of a b] by (simp add: Let_def)
next
  case (3 a)
  let ?n = "unat a * 65536"
  have "?n div 64 mod 64 = 0" "?n mod 64 = 0" by (simp_all add: mod_eq_0_iff_dvd)
  then have "(?n div 262144 * 262144 + ?n div 4096 mod 64 * 4096) div 65536 = unat a"
    using b64_regroup [of ?n] by simp
  then show ?case using be_encode_group(3) [of a] by (simp add: Let_def)
qed simp

text \<open>The characters of a digit.\<close>

lemma b64_char_cases:
  assumes "d < 64"
  obtains "d < 26" "b64_char t d = char_of (65 + d)" | "26 \<le> d" "d < 52" "b64_char t d = char_of (71 + d)"
  | "52 \<le> d" "d < 62" "b64_char t d = char_of (d - 4)" | "d = 62" "b64_char t d = t ! 0" | "d = 63" "b64_char t d = t ! 1"
proof -
  consider "d < 26" | "26 \<le> d" "d < 52" | "52 \<le> d" "d < 62" | "d = 62" | "d = 63" using assms by linarith
  then show thesis
  proof cases
    case 1
    then show ?thesis by (intro that(1)) (simp_all add: b64_char_def)
  next
    case 2
    then have "97 + (d - 26) = 71 + d" by simp
    with 2 show ?thesis by (intro that(2)) (simp_all add: b64_char_def)
  next
    case 3
    then have "48 + (d - 52) = d - 4" by simp
    with 3 show ?thesis by (intro that(3)) (simp_all add: b64_char_def)
  next
    case 4
    then show ?thesis by (intro that(4)) (simp_all add: b64_char_def)
  next
    case 5
    then show ?thesis by (intro that(5)) (simp_all add: b64_char_def)
  qed
qed

lemma char_of_neq: "k < 256 \<Longrightarrow> of_char c \<noteq> k \<Longrightarrow> char_of (k :: nat) \<noteq> c"
  by auto

lemma b64_char_code:
  assumes "d < 64" and "t = ''+/'' \<or> t = ''-_''"
  shows "b64_value t (b64_char t d) = Some d \<and> b64_char t d \<noteq> CHR ''='' \<and> b64_char t d \<noteq> CHR ''.''"
  using assms(1)
proof (cases rule: b64_char_cases [of d t])
  case 1
  then show ?thesis
    using char_of_neq [of "65 + d" "CHR ''=''"] char_of_neq [of "65 + d" "CHR ''.''"] by (auto simp: b64_value_def Let_def)
next
  case 2
  then show ?thesis
    using char_of_neq [of "71 + d" "CHR ''=''"] char_of_neq [of "71 + d" "CHR ''.''"] by (auto simp: b64_value_def Let_def)
next
  case 3
  then show ?thesis
    using char_of_neq [of "d - 4" "CHR ''=''"] char_of_neq [of "d - 4" "CHR ''.''"] by (auto simp: b64_value_def Let_def)
next
  case 4
  then show ?thesis using assms(2) by (auto simp: b64_value_def Let_def)
next
  case 5
  then show ?thesis using assms(2) by (auto simp: b64_value_def Let_def)
qed

definition to_url :: "char \<Rightarrow> char" where
  "to_url c = (if c = CHR ''+'' then CHR ''-'' else if c = CHR ''/'' then CHR ''_'' else c)"

definition of_url :: "char \<Rightarrow> char" where
  "of_url c = (if c = CHR ''-'' then CHR ''+'' else if c = CHR ''_'' then CHR ''/'' else c)"

lemma url_char:
  assumes "d < 64"
  shows "to_url (b64_char ''+/'' d) = b64_char ''-_'' d \<and> of_url (b64_char ''-_'' d) = b64_char ''+/'' d"
proof -
  have low: "b64_char t d = b64_char ''+/'' d" if "d < 62" for t using that by (simp add: b64_char_def)
  have range: "let n = of_char (b64_char t d) :: nat in (65 \<le> n \<and> n \<le> 90) \<or> (97 \<le> n \<and> n \<le> 122) \<or> (48 \<le> n \<and> n \<le> 57)"
    if "d < 62" for t
    using assms by (cases rule: b64_char_cases [of d t]) (use that in \<open>auto simp: Let_def\<close>)
  have plain: "b64_char t d \<noteq> CHR ''+''" "b64_char t d \<noteq> CHR ''/''" "b64_char t d \<noteq> CHR ''-''" "b64_char t d \<noteq> CHR ''_''"
    if "d < 62" for t
    using range [OF that, of t] by (auto simp: Let_def)
  show ?thesis
  proof (cases "d < 62")
    case True
    note p = plain [OF True, of "''+/''"]
    show ?thesis unfolding low [OF True, of "''-_''"] to_url_def of_url_def using p by simp
  next
    case False
    then have "d = 62 \<or> d = 63" using assms by linarith
    then show ?thesis by (elim disjE) (simp_all add: b64_char_def to_url_def of_url_def)
  qed
qed

lemma base64Url_digits: "base64Url bs = map (b64_char ''-_'') (b64_digits bs)"
proof -
  have "filter (\<lambda>c. c \<noteq> CHR ''='') (map to_url (b64_pad n)) = []" for n
    by (simp add: b64_pad_def to_url_def)
  moreover have "map (to_url \<circ> b64_char ''+/'') (b64_digits bs) = map (b64_char ''-_'') (b64_digits bs)"
    using url_char b64_digits_small by auto
  moreover have "filter (\<lambda>c. c \<noteq> CHR ''='') (map (b64_char ''-_'') (b64_digits bs)) = map (b64_char ''-_'') (b64_digits bs)"
    using b64_char_code [of _ "''-_''"] b64_digits_small by (auto intro!: filter_True)
  moreover have "base64Url bs = filter (\<lambda>c. c \<noteq> CHR ''='') (map to_url (btoa bs))"
    unfolding base64Url_def to_url_def [abs_def] by (rule refl)
  ultimately show ?thesis
    by (simp del: map_eq_conv add: btoa_digits)
qed

lemma b64_length: "length (b64_digits bs) mod 4 = (if length bs mod 3 = 0 then 0 else length bs mod 3 + 1)"
proof (induction bs rule: b64_digits.induct)
  case (1 a b c rest)
  have "length (a # b # c # rest) mod 3 = length rest mod 3" by simp
  moreover have "length (b64_digits (a # b # c # rest)) mod 4 = length (b64_digits rest) mod 4"
    by (simp add: Let_def)
  ultimately show ?case using 1 by (metis (full_types))
qed (simp_all add: Let_def)

lemma b64_pad_replicate: "b64_pad (length bs) = replicate ((4 - length (b64_digits bs) mod 4) mod 4) (CHR ''='')"
proof -
  have "length bs mod 3 < 3" by simp
  then consider "length bs mod 3 = 0" | "length bs mod 3 = 1" | "length bs mod 3 = 2" by linarith
  then show ?thesis
    unfolding b64_length by cases (simp_all add: b64_pad_def numeral_2_eq_2)
qed

text \<open>Decoding what was encoded.\<close>

lemma atob_btoa: "atob (btoa bs) = Some bs"
proof -
  let ?cs = "map (b64_char ''+/'') (b64_digits bs)"
  have noeq: "CHR ''='' \<notin> set ?cs" using b64_char_code [of _ "''+/''"] b64_digits_small by fastforce
  have "strip_padding (btoa bs) = ?cs"
  proof -
    have "length bs mod 3 < 3" by simp
    then consider "length bs mod 3 = 0" | "length bs mod 3 = 1" | "length bs mod 3 = 2" by linarith
    then show ?thesis
    proof cases
      case 1
      have "\<not> ends_with ?cs (CHR ''='' # p)" for p
      proof
        assume "ends_with ?cs (CHR ''='' # p)"
        then obtain r where "?cs = r @ CHR ''='' # p" by (auto simp: ends_with_iff)
        with noeq show False by (metis in_set_conv_decomp)
      qed
      with 1 show ?thesis by (simp add: strip_padding_def btoa_digits b64_pad_def)
    next
      case 2
      then have "length (b64_digits bs) mod 4 = 2" by (simp add: b64_length)
      then have "Suc (Suc (length (b64_digits bs))) mod 4 = 0" by presburger
      with 2 show ?thesis by (auto simp: strip_padding_def btoa_digits b64_pad_def ends_with_iff)
    next
      case 3
      then have "length (b64_digits bs) mod 4 = 3" by (simp add: b64_length)
      then have "Suc (length (b64_digits bs)) mod 4 = 0" by presburger
      moreover have "\<not> ends_with (?cs @ ''='') ''==''"
      proof
        assume "ends_with (?cs @ ''='') ''==''"
        then obtain r where "?cs @ ''='' = (r @ ''='') @ ''=''" by (auto simp: ends_with_iff)
        then have "?cs = r @ ''=''" by (simp only: append_same_eq)
        with noeq show False by (metis in_set_conv_decomp)
      qed
      ultimately show ?thesis using 3 by (auto simp: strip_padding_def btoa_digits b64_pad_def ends_with_iff)
    qed
  qed
  moreover have "map (b64_value ''+/'') ?cs = map Some (b64_digits bs)"
    using b64_char_code [of _ "''+/''"] b64_digits_small by auto
  moreover have "map the (map Some (b64_digits bs)) = b64_digits bs" "None \<notin> set (map Some (b64_digits bs))"
    by (simp_all add: comp_def)
  ultimately show ?thesis
    by (simp only: atob_def Let_def atob_b64_digits if_False)
qed

lemma base64Url_not_Nil: "bs \<noteq> [] \<Longrightarrow> base64Url bs \<noteq> []"
  by (cases bs rule: b64_digits.cases) (simp_all add: base64Url_digits Let_def)

lemma base64Url_no_dot: "CHR ''.'' \<notin> set (base64Url bs)"
  using b64_char_code [of _ "''-_''"] b64_digits_small by (fastforce simp: base64Url_digits)

lemma fromBase64Url_base64Url:
  assumes "bs \<noteq> []"
  shows "fromBase64Url (base64Url bs) = Some bs"
proof -
  have ok: "list_all (\<lambda>c. b64_value ''-_'' c \<noteq> None) (base64Url bs)"
    using b64_char_code [of _ "''-_''"] b64_digits_small by (fastforce simp: base64Url_digits list_all_iff)
  have "map of_url (base64Url bs) = map (b64_char ''+/'') (b64_digits bs)"
    using url_char b64_digits_small by (auto simp: base64Url_digits)
  then have "map of_url (base64Url bs) @ replicate ((4 - length (base64Url bs) mod 4) mod 4) (CHR ''='') = btoa bs"
    by (simp add: btoa_digits b64_pad_replicate base64Url_digits)
  moreover have "fromBase64Url (base64Url bs) =
      atob (map of_url (base64Url bs) @ replicate ((4 - length (base64Url bs) mod 4) mod 4) (CHR ''=''))"
    using ok base64Url_not_Nil [OF assms] unfolding fromBase64Url_def of_url_def [abs_def] by simp
  ultimately show ?thesis by (simp add: atob_btoa)
qed

section \<open>Tickets\<close>

lemma role_json_roundtrip: "role_of_json (role_json role) = Some role"
  by (cases role) (simp_all add: role_of_json_def role_json_def)

lemma claims_roundtrip: "claims_of_json (canonicalTransferTicketJson c) = Some c"
  by (simp add: claims_of_json_def canonicalTransferTicketJson_def fget_def json_int_def json_str_def
      role_json_roundtrip Let_def)

lemma control_roundtrip: "control_of_json (canonicalTransferTerminalControl c) = Some c"
  by (simp add: control_of_json_def canonicalTransferTerminalControl_def fget_def json_int_def json_str_def)

lemma split_dots_plain: "CHR ''.'' \<notin> set s \<Longrightarrow> split_dots s = [s]"
  by (induction s) auto

lemma split_dots_two:
  assumes "CHR ''.'' \<notin> set s" and "CHR ''.'' \<notin> set t"
  shows "split_dots (s @ ''.'' @ t) = [s, t]"
  using assms(1) by (induction s) (auto simp: split_dots_plain [OF assms(2)])

text \<open>The clock may have moved on since the ticket was issued.\<close>

lemma claims_valid_later:
  assumes "claims_valid now secret c" and "now \<le> later"
  shows "claims_valid later secret c \<longleftrightarrow> later < tk_ticket_exp c"
  using assms by (auto simp: claims_valid_def)

definition json_faithful :: "js_runtime \<Rightarrow> json \<Rightarrow> bool" where
  "json_faithful js j \<longleftrightarrow>
     js_stringify js j \<noteq> [] \<and> js_parse js (js_stringify js j) = Some j
   \<and> js_decode js (as_bytes (js_stringify js j)) = js_stringify js j"

lemma as_bytes_Nil: "as_bytes s = [] \<longleftrightarrow> s = []"
  by (simp add: as_bytes_def)

lemma issued_ticket:
  assumes iss: "issueTransferTicket js rc now secret c = Some raw"
    and js: "json_faithful js (canonicalTransferTicketJson c)"
    and mac: "\<And>m. rc_hmac rc secret m \<noteq> []"
  shows "verifyTransferTicket js rc later (Some secret) (Some raw) = (if claims_valid later secret c then Some c else None)"
proof -
  let ?text = "js_stringify js (canonicalTransferTicketJson c)"
  let ?body = "base64Url (as_bytes ?text)"
  let ?mac = "rc_hmac rc secret (as_bytes ?body)"
  have valid: "claims_valid now secret c" and raw: "raw = ?body @ ''.'' @ base64Url ?mac"
    using iss by (auto simp: issueTransferTicket_def Let_def split: if_splits)
  have full: "as_bytes ?text \<noteq> []" "?mac \<noteq> []" "secret \<noteq> []"
    using js mac valid by (auto simp: json_faithful_def as_bytes_Nil claims_valid_def)
  have parts: "split_dots raw = [?body, base64Url ?mac]"
    unfolding raw by (rule split_dots_two) (rule base64Url_no_dot)+
  have dec: "fromBase64Url ?body = Some (as_bytes ?text)" "fromBase64Url (base64Url ?mac) = Some ?mac"
    by (rule fromBase64Url_base64Url [OF full(1)]) (rule fromBase64Url_base64Url [OF full(2)])
  have ne: "raw \<noteq> []" "?body \<noteq> []" "base64Url ?mac \<noteq> []"
    using base64Url_not_Nil full raw by auto
  have js': "js_decode js (as_bytes ?text) = ?text" "js_parse js ?text = Some (canonicalTransferTicketJson c)"
    using js by (simp_all add: json_faithful_def)
  show ?thesis
    using ne full(3) by (simp add: verifyTransferTicket_def parts dec js' claims_roundtrip)
qed

lemma issued_control:
  assumes iss: "issueTransferTerminalControl js rc secret c = Some (body, sig)"
    and js: "json_faithful js (canonicalTransferTerminalControl c)"
    and mac: "\<And>m. rc_hmac rc secret m \<noteq> []"
  shows "verifyTransferTerminalControl js rc (Some secret) body (Some sig) = Some c"
proof -
  have valid: "control_valid secret c" and b: "body = js_stringify js (canonicalTransferTerminalControl c)"
    and s: "sig = base64Url (rc_hmac rc secret (as_bytes body))"
    using iss by (auto simp: issueTransferTerminalControl_def Let_def split: if_splits)
  have "secret \<noteq> []" "sig \<noteq> []" "fromBase64Url sig = Some (rc_hmac rc secret (as_bytes body))"
    using valid base64Url_not_Nil [OF mac] fromBase64Url_base64Url [OF mac] s by (auto simp: control_valid_def)
  moreover have "js_parse js body = Some (canonicalTransferTerminalControl c)" using js b by (simp add: json_faithful_def)
  ultimately show ?thesis using valid b by (simp add: verifyTransferTerminalControl_def control_roundtrip)
qed

section \<open>The ephemeral proof\<close>

lemma be_encode_inj: "be_encode k x = be_encode k y \<Longrightarrow> x < 256 ^ k \<Longrightarrow> y < 256 ^ k \<Longrightarrow> x = y"
  by (metis be_decode_encode)

lemma as_bytes_length [simp]: "length (as_bytes s) = length s"
  by (simp add: as_bytes_def)

text \<open>Each part can be cut off the front of what follows it in one way only.\<close>

lemma cut_text:
  assumes "proof_text s = Some b" "proof_text s' = Some b'" "b @ x = b' @ x'"
  shows "s = s' \<and> x = x'"
proof -
  have l: "length s < 256 ^ 4" "length s' < 256 ^ 4" and b: "b = be_encode 4 (length s) @ as_bytes s"
    "b' = be_encode 4 (length s') @ as_bytes s'"
    using assms(1,2) by (auto simp: proof_text_def proof_u32_def split: if_splits)
  have "be_encode 4 (length s) = be_encode 4 (length s')" "as_bytes s @ x = as_bytes s' @ x'"
    using assms(3) b by (simp_all add: append_eq_append_conv)
  with be_encode_inj [OF _ l] show ?thesis by (simp add: append_eq_append_conv as_bytes_inj)
qed

lemma cut_u32:
  assumes "proof_u32 n = Some b" "proof_u32 n' = Some b'" "b @ x = b' @ x'"
  shows "n = n' \<and> x = x'"
proof -
  have n: "0 \<le> n" "n \<le> 0xFFFFFFFF" "0 \<le> n'" "n' \<le> 0xFFFFFFFF" "b = be_encode 4 (nat n)" "b' = be_encode 4 (nat n')"
    using assms(1,2) by (auto simp: proof_u32_def split: if_splits)
  then have "be_encode 4 (nat n) = be_encode 4 (nat n')" "x = x'" using assms(3) by (simp_all add: append_eq_append_conv)
  moreover have "nat n < 256 ^ 4" "nat n' < 256 ^ 4" using n by simp_all
  ultimately have "nat n = nat n'" using be_encode_inj by blast
  with n \<open>x = x'\<close> show ?thesis by simp
qed

lemma cut_u64:
  assumes "proof_u64 n = Some b" "proof_u64 n' = Some b'" "b @ x = b' @ x'"
  shows "n = n' \<and> x = x'"
proof -
  have n: "0 \<le> n" "safe_integer n" "0 \<le> n'" "safe_integer n'" "b = be_encode 8 (nat n)" "b' = be_encode 8 (nat n')"
    using assms(1,2) by (auto simp: proof_u64_def split: if_splits)
  then have "be_encode 8 (nat n) = be_encode 8 (nat n')" "x = x'" using assms(3) by (simp_all add: append_eq_append_conv)
  moreover have "nat n < 256 ^ 8" "nat n' < 256 ^ 8" using n by (simp_all add: safe_integer_def)
  ultimately have "nat n = nat n'" using be_encode_inj by blast
  with n \<open>x = x'\<close> show ?thesis by simp
qed

definition hex_char :: "char \<Rightarrow> bool" where
  "hex_char c \<longleftrightarrow> (CHR ''0'' \<le> c \<and> c \<le> CHR ''9'') \<or> (CHR ''a'' \<le> c \<and> c \<le> CHR ''f'')"

lemma hex_char_code: "hex_char c \<longleftrightarrow> (48 \<le> (of_char c :: nat) \<and> of_char c \<le> (57 :: nat)) \<or> (97 \<le> (of_char c :: nat) \<and> of_char c \<le> (102 :: nat))"
  by (simp add: hex_char_def less_eq_char_def)

lemma hex_digit_range: "hex_char c \<Longrightarrow> hex_digit_value c < 16"
  by (auto simp: hex_char_code hex_digit_value_def Let_def)

lemma hex_digit_inj: "hex_char c \<Longrightarrow> hex_char d \<Longrightarrow> hex_digit_value c = hex_digit_value d \<Longrightarrow> c = d"
proof -
  assume h: "hex_char c" "hex_char d" "hex_digit_value c = hex_digit_value d"
  have key: "m = n" if "48 \<le> m \<and> m \<le> 57 \<or> 97 \<le> m \<and> m \<le> 102" "48 \<le> n \<and> n \<le> 57 \<or> 97 \<le> n \<and> n \<le> 102"
    "(if m \<le> 57 then m - 48 else m - 87) = (if n \<le> 57 then n - 48 else n - 87)" for m n :: nat
    using that by (auto split: if_splits)
  have "(of_char c :: nat) = of_char d"
    by (rule key) (use h in \<open>simp_all only: hex_char_code hex_digit_value_def Let_def\<close>)
  then show "c = d" by simp
qed

lemma unat_of_nat_u8: "n < 256 \<Longrightarrow> unat (of_nat n :: u8) = n"
  by (simp add: unat_of_nat)

lemma of_nat_u8_inj: "m < 256 \<Longrightarrow> n < 256 \<Longrightarrow> (of_nat m :: u8) = of_nat n \<Longrightarrow> m = n"
  by (metis unat_of_nat_u8)

lemma nibbles: "(y :: nat) < 16 \<Longrightarrow> y' < 16 \<Longrightarrow> x * 16 + y = x' * 16 + y' \<Longrightarrow> x = x' \<and> y = y'"
  by (metis (no_types) add.commute add_left_cancel div_less div_mult_self3 plus_nat.add_0 zero_neq_numeral)

lemma raw_hex_length: "length (raw_hex s) = length s div 2"
  by (induction s rule: raw_hex.induct) simp_all

lemma raw_hex_inj:
  assumes "list_all hex_char s" "list_all hex_char t" "length s = length t" "even (length s)" "raw_hex s = raw_hex t"
  shows "s = t"
  using assms
proof (induction s arbitrary: t rule: raw_hex.induct)
  case (1 a b s)
  then obtain c d t' where t: "t = c # d # t'" by (cases t rule: raw_hex.cases) auto
  have small: "hex_digit_value x * 16 + hex_digit_value y < 256" if "hex_char x" "hex_char y" for x y
    using hex_digit_range [OF that(1)] hex_digit_range [OF that(2)] by linarith
  have h: "hex_char a" "hex_char b" "hex_char c" "hex_char d" using 1(2,3) t by simp_all
  have "(of_nat (hex_digit_value a * 16 + hex_digit_value b) :: u8) = of_nat (hex_digit_value c * 16 + hex_digit_value d)"
    using 1(6) t by simp
  then have "hex_digit_value a * 16 + hex_digit_value b = hex_digit_value c * 16 + hex_digit_value d"
    by (rule of_nat_u8_inj [OF small [OF h(1,2)] small [OF h(3,4)]])
  then have "hex_digit_value a = hex_digit_value c \<and> hex_digit_value b = hex_digit_value d"
    by (rule nibbles [OF hex_digit_range [OF h(2)] hex_digit_range [OF h(4)]])
  then have "a = c" "b = d" using hex_digit_inj h by blast+
  moreover have "s = t'"
  proof (rule 1(1))
    show "list_all hex_char s" "list_all hex_char t'" "length s = length t'" "even (length s)" using 1(2-5) t by simp_all
    show "raw_hex s = raw_hex t'" using 1(6) unfolding t raw_hex.simps by (rule list.inject [THEN iffD1, THEN conjunct2])
  qed
  ultimately show ?case using t by simp
qed (simp_all, metis even_Suc even_zero)

lemma cut_hex:
  assumes "lower_hex s 64" "lower_hex t 64" "raw_hex s @ x = raw_hex t @ x'"
  shows "s = t \<and> x = x'"
proof -
  have h: "list_all hex_char s" "list_all hex_char t" "length s = 64" "length t = 64"
    using assms(1,2) by (simp_all add: lower_hex_def hex_char_def [abs_def])
  have "raw_hex s = raw_hex t" "x = x'"
    using assms(3) h(3,4) by (simp_all add: append_eq_append_conv raw_hex_length)
  with raw_hex_inj [OF h(1,2)] h(3,4) show ?thesis by simp
qed

lemma join_parts_Some:
  "join_parts (p # ps) = Some bs \<longleftrightarrow> (\<exists>b r. p = Some b \<and> join_parts ps = Some r \<and> bs = b @ r)"
  by (cases p) auto

definition proof_device :: "transfer_ticket_claims \<Rightarrow> transfer_role \<Rightarrow> string \<times> string \<times> string" where
  "proof_device c role =
     (case role of
        Source \<Rightarrow> (tk_source_device_id c, tk_source_workspace_id c, tk_source_ephemeral_public_key c)
      | Destination \<Rightarrow> (tk_destination_device_id c, tk_destination_workspace_id c, tk_destination_ephemeral_public_key c))"

lemma ephemeral_proof_parts:
  assumes "canonicalTransferEphemeralProof c role = Some bs"
  shows "lower_hex (tk_plan_sha256 c) 64 \<and> lower_hex (snd (snd (proof_device c role))) 64 \<and>
    (\<exists>d t n dv ws ep fe no xp. proof_text ''ownmesh-transfer-ephemeral-v1'' = Some d
      \<and> proof_text (tk_transfer_id c) = Some t \<and> proof_text (tk_tenant_id c) = Some n
      \<and> proof_text (fst (proof_device c role)) = Some dv \<and> proof_text (fst (snd (proof_device c role))) = Some ws
      \<and> proof_u32 (tk_epoch c) = Some ep \<and> proof_u64 (tk_fence c) = Some fe
      \<and> proof_text (tk_session_nonce c) = Some no \<and> proof_u64 (tk_transfer_expires_at c) = Some xp
      \<and> bs = d @ t @ n @ [case role of Source \<Rightarrow> 1 | Destination \<Rightarrow> 2] @ dv @ ws @ raw_hex (tk_plan_sha256 c) @ ep @ fe @ no
          @ raw_hex (snd (snd (proof_device c role))) @ xp @ [])"
  using assms
  by (cases role; simp add: canonicalTransferEphemeralProof_def proof_device_def Let_def join_parts_Some js_hash_def js_hex_def
      split: if_split_asm; blast)

lemma ephemeral_proof_injective:
  assumes "canonicalTransferEphemeralProof c role = Some bs" and "canonicalTransferEphemeralProof c' role' = Some bs"
  shows "role = role' \<and> tk_transfer_id c = tk_transfer_id c' \<and> tk_tenant_id c = tk_tenant_id c'
    \<and> proof_device c role = proof_device c' role' \<and> tk_plan_sha256 c = tk_plan_sha256 c' \<and> tk_epoch c = tk_epoch c'
    \<and> tk_fence c = tk_fence c' \<and> tk_session_nonce c = tk_session_nonce c'
    \<and> tk_transfer_expires_at c = tk_transfer_expires_at c'"
proof -
  let ?d = "proof_device c role" and ?d' = "proof_device c' role'"
  let ?r = "case role of Source \<Rightarrow> 1 :: u8 | Destination \<Rightarrow> 2" and ?r' = "case role' of Source \<Rightarrow> 1 :: u8 | Destination \<Rightarrow> 2"
  from ephemeral_proof_parts [OF assms(1)] obtain d t n dv ws ep fe no xp where p:
    "lower_hex (tk_plan_sha256 c) 64" "lower_hex (snd (snd ?d)) 64"
    "proof_text ''ownmesh-transfer-ephemeral-v1'' = Some d"
    "proof_text (tk_transfer_id c) = Some t" "proof_text (tk_tenant_id c) = Some n"
    "proof_text (fst ?d) = Some dv" "proof_text (fst (snd ?d)) = Some ws"
    "proof_u32 (tk_epoch c) = Some ep" "proof_u64 (tk_fence c) = Some fe"
    "proof_text (tk_session_nonce c) = Some no" "proof_u64 (tk_transfer_expires_at c) = Some xp"
    "bs = d @ t @ n @ [?r] @ dv @ ws @ raw_hex (tk_plan_sha256 c) @ ep @ fe @ no @ raw_hex (snd (snd ?d)) @ xp @ []"
    by blast
  from ephemeral_proof_parts [OF assms(2)] obtain d' t' n' dv' ws' ep' fe' no' xp' where q:
    "lower_hex (tk_plan_sha256 c') 64" "lower_hex (snd (snd ?d')) 64"
    "proof_text ''ownmesh-transfer-ephemeral-v1'' = Some d'"
    "proof_text (tk_transfer_id c') = Some t'" "proof_text (tk_tenant_id c') = Some n'"
    "proof_text (fst ?d') = Some dv'" "proof_text (fst (snd ?d')) = Some ws'"
    "proof_u32 (tk_epoch c') = Some ep'" "proof_u64 (tk_fence c') = Some fe'"
    "proof_text (tk_session_nonce c') = Some no'" "proof_u64 (tk_transfer_expires_at c') = Some xp'"
    "bs = d' @ t' @ n' @ [?r'] @ dv' @ ws' @ raw_hex (tk_plan_sha256 c') @ ep' @ fe' @ no' @ raw_hex (snd (snd ?d')) @ xp' @ []"
    by blast
  note 0 = cut_text [OF p(3) q(3) trans [OF p(12) [symmetric] q(12)]]
  note 1 = cut_text [OF p(4) q(4) conjunct2 [OF 0]]
  note 2 = cut_text [OF p(5) q(5) conjunct2 [OF 1]]
  have 3: "?r = ?r' \<and> dv @ ws @ raw_hex (tk_plan_sha256 c) @ ep @ fe @ no @ raw_hex (snd (snd ?d)) @ xp @ []
    = dv' @ ws' @ raw_hex (tk_plan_sha256 c') @ ep' @ fe' @ no' @ raw_hex (snd (snd ?d')) @ xp' @ []"
    using conjunct2 [OF 2] by (simp only: append_Cons append_Nil list.inject)
  note 4 = cut_text [OF p(6) q(6) conjunct2 [OF 3]]
  note 5 = cut_text [OF p(7) q(7) conjunct2 [OF 4]]
  note 6 = cut_hex [OF p(1) q(1) conjunct2 [OF 5]]
  note 7 = cut_u32 [OF p(8) q(8) conjunct2 [OF 6]]
  note 8 = cut_u64 [OF p(9) q(9) conjunct2 [OF 7]]
  note 9 = cut_text [OF p(10) q(10) conjunct2 [OF 8]]
  note 10 = cut_hex [OF p(2) q(2) conjunct2 [OF 9]]
  note 11 = cut_u64 [OF p(11) q(11) conjunct2 [OF 10]]
  have "role = role'" using 3 by (cases role; cases role') simp_all
  moreover have "?d = ?d'" using 4 5 10 by (simp add: prod_eq_iff)
  ultimately show ?thesis using 1 2 6 7 8 9 11 by simp
qed

section \<open>A concrete room\<close>

text \<open>
  Two devices and one byte to move, on a runtime that knows the documents of the example by short
  names.
\<close>

definition demo_claims :: "string \<Rightarrow> transfer_role \<Rightarrow> int \<Rightarrow> transfer_ticket_claims" where
  "demo_claims jti role epoch =
     \<lparr>tk_v = 1, tk_jti = jti, tk_session_nonce = ''n'', tk_transfer_id = ''t'', tk_tenant_id = ''o'',
      tk_principal_id = ''p'', tk_device_id = (case role of Source \<Rightarrow> ''a'' | Destination \<Rightarrow> ''b''), tk_role = role,
      tk_source_device_id = ''a'', tk_destination_device_id = ''b'', tk_source_workspace_id = ''w'',
      tk_destination_workspace_id = ''w'', tk_plan_sha256 = replicate 64 (CHR ''c''), tk_epoch = epoch,
      tk_fence = epoch, tk_max_bytes = 1, tk_ticket_exp = 1000, tk_transfer_expires_at = 5000,
      tk_source_device_public_key = replicate 64 (CHR ''d''), tk_destination_device_public_key = replicate 64 (CHR ''d''),
      tk_source_ephemeral_public_key = replicate 64 (CHR ''e''), tk_destination_ephemeral_public_key = replicate 64 (CHR ''e''),
      tk_source_ephemeral_signature = replicate 128 (CHR ''f''), tk_destination_ephemeral_signature = replicate 128 (CHR ''f'')\<rparr>"

definition demo_control :: transfer_terminal_control where
  "demo_control =
     \<lparr>tc_v = 1, tc_transfer_id = ''t'', tc_plan_sha256 = replicate 64 (CHR ''c''), tc_epoch = 1, tc_fence = 1,
      tc_artifact_sha256 = replicate 64 (CHR ''8'')\<rparr>"

definition demo_frame :: "string \<Rightarrow> (string \<times> json) list \<Rightarrow> json" where
  "demo_frame type rest =
     JObj ([(''protocol'', JStr TRANSFER_PROTOCOL), (''type'', JStr type), (''transfer_id'', JStr ''t''),
            (''epoch'', JInt 1), (''fence'', JInt 1), (''plan_sha256'', JStr (replicate 64 (CHR ''c'')))] @ rest)"

definition demo_parse :: "string \<Rightarrow> json option" where
  "demo_parse s =
     (if s = ''1'' then Some (canonicalTransferTicketJson (demo_claims ''1'' Source 1))
      else if s = ''2'' then Some (canonicalTransferTicketJson (demo_claims ''2'' Destination 1))
      else if s = ''3'' then Some (canonicalTransferTicketJson (demo_claims ''3'' Source 2))
      else if s = ''C'' then
        Some (demo_frame ''chunk'' [(''sequence'', JInt 0), (''offset'', JInt 0), (''length'', JInt 1),
          (''ciphertext_base64'', JStr ''AAAAAAAAAAAAAAAAAAAAAAA=''), (''chunk_sha256'', JStr (replicate 64 (CHR ''9'')))])
      else if s = ''A'' then Some (demo_frame ''ack'' [(''sequence'', JInt 0), (''next_offset'', JInt 1)])
      else if s = ''F'' then Some (demo_frame ''finish_ack'' [])
      else if s = ''X'' then Some (demo_frame ''cancel'' [])
      else if s = ''E'' then Some (canonicalTransferTerminalControl demo_control)
      else None)"

definition demo_stringify :: "json \<Rightarrow> string" where
  "demo_stringify j =
     (case j of
        JObj f \<Rightarrow> (case fget f ''jti'' of Some (JStr s) \<Rightarrow> s | _ \<Rightarrow> if fget f ''artifact_sha256'' = None then ''?'' else ''E'')
      | _ \<Rightarrow> ''?'')"

definition demo_js :: js_runtime where
  "demo_js = \<lparr>js_parse = demo_parse, js_stringify = demo_stringify, js_number = json_int, js_decode = map (\<lambda>b. char_of (unat b))\<rparr>"

definition demo_crypto :: room_crypto where
  "demo_crypto =
     \<lparr>rc_sha256_hex = (\<lambda>bs. replicate 63 (CHR ''0'') @ [char_of (unat (last bs))]),
      rc_hmac = (\<lambda>key bs. 7 # bs),
      rc_ed25519_verify = (\<lambda>key sig bs. True)\<rparr>"

definition demo_mac :: "string \<Rightarrow> string" where
  "demo_mac body = base64Url (7 # as_bytes body)"

definition demo_ticket :: "string \<Rightarrow> string" where
  "demo_ticket jti = (let body = base64Url (as_bytes jti) in body @ ''.'' @ demo_mac body)"

definition demo_issued :: "(string \<times> transfer_role \<times> int) list" where
  "demo_issued = [(''1'', Source, 1), (''2'', Destination, 1), (''3'', Source, 2)]"

lemma demo_text: "demo_stringify (canonicalTransferTicketJson (demo_claims jti role epoch)) = jti"
  "demo_stringify (canonicalTransferTerminalControl demo_control) = ''E''"
  by (simp_all add: demo_stringify_def canonicalTransferTicketJson_def canonicalTransferTerminalControl_def fget_def demo_claims_def)

lemma demo_parsed:
  "(jti, role, epoch) \<in> set demo_issued \<Longrightarrow> demo_parse jti = Some (canonicalTransferTicketJson (demo_claims jti role epoch))"
  "demo_parse ''E'' = Some (canonicalTransferTerminalControl demo_control)"
  by (auto simp only: demo_issued_def demo_parse_def list.set insert_iff prod.inject empty_iff simp_thms
      list.inject char.inject if_True if_False)

lemma demo_decode: "map (\<lambda>b. char_of (unat b)) (as_bytes s) = s"
  by (induction s) (simp_all add: as_bytes_def unat_of_char)

lemma demo_faithful:
  "(jti, role, epoch) \<in> set demo_issued \<Longrightarrow> json_faithful demo_js (canonicalTransferTicketJson (demo_claims jti role epoch))"
  "json_faithful demo_js (canonicalTransferTerminalControl demo_control)"
  using demo_parsed by (auto simp: json_faithful_def demo_js_def demo_text demo_decode demo_issued_def)

lemma demo_valid:
  assumes "(jti, role, epoch) \<in> set demo_issued" and "0 \<le> now"
  shows "claims_valid now ''s'' (demo_claims jti role epoch) \<longleftrightarrow> now < 1000"
  using assms
  by (auto simp: demo_issued_def claims_valid_def demo_claims_def js_id_def js_hash_def js_hex_def lower_hex_def
      safe_integer_def TICKET_MAX_MS_def TRANSFER_MAX_TTL_MS_def list_all_iff)

lemma demo_verified:
  assumes "(jti, role, epoch) \<in> set demo_issued" and "0 \<le> now" and "now < 1000"
  shows "verifyTransferTicket demo_js demo_crypto now (Some ''s'') (Some (demo_ticket jti)) = Some (demo_claims jti role epoch)"
proof -
  have "issueTransferTicket demo_js demo_crypto 0 ''s'' (demo_claims jti role epoch) = Some (demo_ticket jti)"
    using demo_valid [OF assms(1), of 0]
    by (simp add: issueTransferTicket_def demo_js_def demo_text demo_ticket_def demo_mac_def demo_crypto_def Let_def)
  from issued_ticket [OF this demo_faithful(1) [OF assms(1)]] demo_valid [OF assms(1,2)] assms(3)
  show ?thesis by (simp add: demo_crypto_def)
qed

section \<open>Properties\<close>

text \<open>
  C35: A ticket that was issued verifies, under the same secret, to exactly the claims that were signed
  as long as it has not expired, and to nothing from its deadline on.  The runtime is assumed to read
  back the JSON that it wrote, and a keyed hash is never empty.
\<close>

theorem issued_ticket_verifies:
  assumes "issueTransferTicket js rc now secret c = Some raw"
    and "json_faithful js (canonicalTransferTicketJson c)"
    and "\<And>m. rc_hmac rc secret m \<noteq> []"
    and "now \<le> later"
  shows "verifyTransferTicket js rc later (Some secret) (Some raw) = (if later < tk_ticket_exp c then Some c else None)"
proof -
  have "claims_valid now secret c" using assms(1) by (auto simp: issueTransferTicket_def split: if_splits)
  from claims_valid_later [OF this assms(4)] issued_ticket [OF assms(1-3)] show ?thesis by simp
qed

theorem issued_ticket_verifies_witness:
  "issueTransferTicket demo_js demo_crypto 0 ''s'' (demo_claims ''1'' Source 1) = Some (demo_ticket ''1'')
   \<and> verifyTransferTicket demo_js demo_crypto 999 (Some ''s'') (Some (demo_ticket ''1'')) = Some (demo_claims ''1'' Source 1)
   \<and> verifyTransferTicket demo_js demo_crypto 1000 (Some ''s'') (Some (demo_ticket ''1'')) = None"
proof -
  have in_list: "(''1'', Source, 1) \<in> set demo_issued" by (simp add: demo_issued_def)
  have iss: "issueTransferTicket demo_js demo_crypto 0 ''s'' (demo_claims ''1'' Source 1) = Some (demo_ticket ''1'')"
    using demo_valid [OF in_list, of 0]
    by (simp add: issueTransferTicket_def demo_js_def demo_text demo_ticket_def demo_mac_def demo_crypto_def Let_def)
  have mac: "rc_hmac demo_crypto ''s'' m \<noteq> []" for m by (simp add: demo_crypto_def)
  have ex: "tk_ticket_exp (demo_claims ''1'' Source 1) = 1000" by (simp add: demo_claims_def)
  show ?thesis
    using iss issued_ticket_verifies [OF iss demo_faithful(1) [OF in_list] mac, of 999]
      issued_ticket_verifies [OF iss demo_faithful(1) [OF in_list] mac, of 1000] ex by simp
qed

text \<open>
  C36: The bytes that a device signs to vouch for its ephemeral key determine the role, the transfer,
  the tenant, the device, its workspace and ephemeral key, the plan, the epoch, the fence, the session
  and the deadline: two bindings with the same bytes are the same binding.
\<close>

theorem ephemeral_proof_binds:
  assumes "canonicalTransferEphemeralProof c role = Some bs"
    and "canonicalTransferEphemeralProof c' role' = Some bs"
  shows "role = role' \<and> tk_transfer_id c = tk_transfer_id c' \<and> tk_tenant_id c = tk_tenant_id c'
    \<and> proof_device c role = proof_device c' role' \<and> tk_plan_sha256 c = tk_plan_sha256 c' \<and> tk_epoch c = tk_epoch c'
    \<and> tk_fence c = tk_fence c' \<and> tk_session_nonce c = tk_session_nonce c'
    \<and> tk_transfer_expires_at c = tk_transfer_expires_at c'"
  by (rule ephemeral_proof_injective [OF assms])

theorem ephemeral_proof_binds_witness:
  "canonicalTransferEphemeralProof (demo_claims ''1'' Source 1) Source \<noteq> None
   \<and> canonicalTransferEphemeralProof (demo_claims ''2'' Destination 1) Source
     = canonicalTransferEphemeralProof (demo_claims ''1'' Source 1) Source
   \<and> proof_device (demo_claims ''2'' Destination 1) Source = proof_device (demo_claims ''1'' Source 1) Source"
proof -
  have same: "canonicalTransferEphemeralProof (demo_claims ''2'' Destination 1) Source
     = canonicalTransferEphemeralProof (demo_claims ''1'' Source 1) Source"
    by (simp add: canonicalTransferEphemeralProof_def demo_claims_def Let_def)
  have "canonicalTransferEphemeralProof (demo_claims ''1'' Source 1) Source \<noteq> None" by code_simp
  then obtain bs where "canonicalTransferEphemeralProof (demo_claims ''1'' Source 1) Source = Some bs" by auto
  with same ephemeral_proof_binds [of "demo_claims ''2'' Destination 1" Source bs "demo_claims ''1'' Source 1" Source]
  show ?thesis by simp
qed

end
