(* ===== verification/Room_Relay.thy ===== *)
theory Room_Relay
  imports Room_Tickets OM_Interfaces
begin

text \<open>
  What the transfer room promises about the bytes that it relays and about who may relay them:
  the durable cursor only moves forward, the source sees an acknowledgement only of what is durable
  and never twice, and a socket of an earlier epoch is out for good.
\<close>

section \<open>Metadata\<close>

text \<open>The part of the metadata that a ticket fixes, and the part that the relay moves.\<close>

definition binding :: "transfer_metadata \<Rightarrow> transfer_metadata" where
  "binding md = md\<lparr>md_state := Room_Prepared, md_ack_sequence := None, md_ack_offset := 0\<rparr>"

definition cursor_of :: "transfer_metadata \<Rightarrow> int option \<times> int" where
  "cursor_of md = (md_ack_sequence md, md_ack_offset md)"

lemma binding_updates [simp]:
  "binding (md\<lparr>md_state := s\<rparr>) = binding md"
  "binding (md\<lparr>md_ack_sequence := q\<rparr>) = binding md"
  "binding (md\<lparr>md_ack_offset := n\<rparr>) = binding md"
  by (simp_all add: binding_def)

lemma cursor_updates [simp]:
  "cursor_of (md\<lparr>md_state := s\<rparr>) = cursor_of md"
  "cursor_of (md\<lparr>md_epoch := e\<rparr>) = cursor_of md"
  "cursor_of (md\<lparr>md_fence := e\<rparr>) = cursor_of md"
  by (simp_all add: cursor_of_def)

lemma binding_fields:
  assumes "binding m = binding m'"
  shows "md_epoch m = md_epoch m'" "md_fence m = md_fence m'" "md_max_bytes m = md_max_bytes m'"
    "md_transfer_expires_at m = md_transfer_expires_at m'" "md_transfer_id m = md_transfer_id m'"
    "md_plan_sha256 m = md_plan_sha256 m'"
proof -
  have eq: "f (binding m) = f (binding m')" for f :: "transfer_metadata \<Rightarrow> 'x" using assms by simp
  show "md_epoch m = md_epoch m'" "md_fence m = md_fence m'" "md_max_bytes m = md_max_bytes m'"
    "md_transfer_expires_at m = md_transfer_expires_at m'" "md_transfer_id m = md_transfer_id m'"
    "md_plan_sha256 m = md_plan_sha256 m'"
    using eq [of md_epoch] eq [of md_fence] eq [of md_max_bytes] eq [of md_transfer_expires_at]
      eq [of md_transfer_id] eq [of md_plan_sha256] by (simp_all add: binding_def)
qed

lemma cursor_next: "cursor_of m = cursor_of m' \<Longrightarrow> next_sequence m = next_sequence m' \<and> md_ack_offset m = md_ack_offset m'"
  by (simp add: cursor_of_def next_sequence_def)

definition no_ack :: "sent \<Rightarrow> bool" where
  "no_ack outp \<longleftrightarrow> list_all (\<lambda>(_, f). case f of AckFrame _ _ \<Rightarrow> False | _ \<Rightarrow> True) outp"

lemma no_ack_simps [simp]:
  "no_ack []" "no_ack (xs @ ys) \<longleftrightarrow> no_ack xs \<and> no_ack ys"
  by (simp_all add: no_ack_def)

lemma no_ack_send [simp]:
  "(\<And>q n. f \<noteq> AckFrame q n) \<Longrightarrow> no_ack (send_to role f rt)"
  by (auto simp: no_ack_def send_to_def split: option.splits room_frame.splits)

section \<open>The router\<close>

lemma router_expired_meta:
  "router_expired now rt = (gone, rt1) \<Longrightarrow>
   rt1 = (if gone then rt_state Room_Expired rt else rt) \<and> gone = (md_transfer_expires_at (rt_meta rt) \<le> now)"
  by (auto simp: router_expired_def split: if_splits)

lemma attach_keeps:
  assumes "router_attach now p rt = (res, rt1, outp)"
  shows "rt_meta rt1 = rt_meta rt \<or> rt_meta rt1 = (rt_meta rt)\<lparr>md_state := Room_Expired\<rparr>
      \<and> md_transfer_expires_at (rt_meta rt) \<le> now \<and> res = AttachReject"
    and "rt_in_flight rt1 = rt_in_flight rt" and "rt_broken rt1 = rt_broken rt" and "no_ack outp"
    and "rt_broken rt \<Longrightarrow> res = AttachReject"
  using assms
  by (auto simp: router_attach_def router_expired_def rt_state_def sendReady_def Let_def
      split: if_splits option.splits)

definition flight_fits :: "transfer_metadata \<Rightarrow> in_flight \<Rightarrow> bool" where
  "flight_fits md fl \<longleftrightarrow>
     fl_sequence fl = next_sequence md \<and> fl_offset fl = md_ack_offset md \<and> 1 \<le> fl_length fl
   \<and> fl_length fl \<le> MAX_TRANSFER_CHUNK_BYTES \<and> fl_offset fl + fl_length fl \<le> md_max_bytes md"

text \<open>What a handler does, in four kinds.\<close>

inductive handles :: "transfer_router \<Rightarrow> handled \<Rightarrow> bool" for rt where
  quiet: "binding (rt_meta rt') = binding (rt_meta rt) \<Longrightarrow> cursor_of (rt_meta rt') = cursor_of (rt_meta rt) \<Longrightarrow>
    rt_broken rt' = rt_broken rt \<Longrightarrow>
    rt_in_flight rt' = rt_in_flight rt \<or> (\<exists>fl. rt_in_flight rt' = Some fl \<and> flight_fits (rt_meta rt) fl) \<Longrightarrow>
    no_ack outp \<Longrightarrow> handles rt (r, rt', outp, NoBarrier)"
| settled: "binding (rt_meta rt') = binding (rt_meta rt) \<Longrightarrow> cursor_of (rt_meta rt') = cursor_of (rt_meta rt) \<Longrightarrow>
    rt_broken rt' = rt_broken rt \<Longrightarrow> rt_in_flight rt' = None \<Longrightarrow> no_ack outp \<Longrightarrow>
    handles rt (Inr (), rt', outp, Stored (rt_meta rt'))"
| acked: "rt_in_flight rt = Some fl \<Longrightarrow>
    rt' = rt\<lparr>rt_meta := (rt_meta rt)\<lparr>md_ack_sequence := Some (fl_sequence fl), md_ack_offset := fl_offset fl + fl_length fl\<rparr>,
             rt_in_flight := None\<rparr> \<Longrightarrow>
    handles rt (Inr (), rt', send_to Source (AckFrame (fl_sequence fl) (fl_offset fl + fl_length fl)) rt', Stored (rt_meta rt'))"
| lost: "binding m = binding (rt_meta rt) \<Longrightarrow>
    cursor_of m = cursor_of (rt_meta rt)
    \<or> (\<exists>fl. rt_in_flight rt = Some fl \<and> cursor_of m = (Some (fl_sequence fl), fl_offset fl + fl_length fl)) \<Longrightarrow>
    rt_meta rt' = rt_meta rt \<Longrightarrow> rt_broken rt' \<Longrightarrow> rt_in_flight rt' = None \<Longrightarrow>
    handles rt (Inl ''persist_failed'', rt', [], Lost m)"

lemma handles_refuse: "handles rt (refuse code rt)"
  unfolding refuse_def by (rule handles.quiet) auto

lemma handles_chunk: "handles rt (room_chunk js p f raw rt)"
  unfolding room_chunk_def Let_def
  by (auto simp: handles_refuse rt_state_def flight_fits_def split: option.splits
      intro!: handles.quiet)

lemma handles_ack: "handles rt (room_ack js stored p f rt)"
proof (cases "rt_in_flight rt")
  case None
  then show ?thesis by (simp add: room_ack_def handles_refuse)
next
  case (Some fl)
  let ?q = "fl_sequence fl" and ?n = "fl_offset fl + fl_length fl"
  let ?md = "(rt_meta rt)\<lparr>md_ack_sequence := Some ?q, md_ack_offset := ?n\<rparr>"
  let ?rt = "rt\<lparr>rt_meta := ?md, rt_in_flight := None\<rparr>"
  have "handles rt (barrier stored (rt_meta rt) ?rt (send_to Source (AckFrame ?q ?n)))"
  proof (cases stored)
    case True
    have "handles rt (Inr (), ?rt, send_to Source (AckFrame ?q ?n) ?rt, Stored (rt_meta ?rt))"
      by (rule handles.acked [OF Some]) simp
    with True show ?thesis by (simp add: barrier_def)
  next
    case False
    have "handles rt (Inl ''persist_failed'', ?rt\<lparr>rt_meta := rt_meta rt, rt_broken := True, rt_peers := []\<rparr>, [], Lost ?md)"
      by (rule handles.lost) (use Some in \<open>auto simp: cursor_of_def\<close>)
    with False show ?thesis by (simp add: barrier_def)
  qed
  with Some show ?thesis
    by (auto simp: room_ack_def Let_def handles_refuse split: option.splits)
qed

lemma handles_barrier:
  assumes "binding (rt_meta rt1) = binding (rt_meta rt)" "cursor_of (rt_meta rt1) = cursor_of (rt_meta rt)"
    "rt_broken rt1 = rt_broken rt" "rt_in_flight rt1 = None" "no_ack (outp rt1)"
  shows "handles rt (barrier stored (rt_meta rt) rt1 outp)"
  using assms unfolding barrier_def
  by (auto intro!: handles.settled handles.lost)

lemma handles_dispatch: "handles rt (dispatch_frame js stored p raw rt)"
proof -
  have "handles rt (room_finish p f raw rt)" for f
    unfolding room_finish_def by (auto simp: handles_refuse intro!: handles.quiet)
  moreover have "handles rt (room_finish_ack stored p f rt)" for f
    unfolding room_finish_ack_def
    by (auto simp: handles_refuse rt_state_def intro!: handles_barrier)
  moreover have "handles rt (room_cancel stored p f rt)" for f
    unfolding room_cancel_def
    by (auto simp: handles_refuse rt_state_def intro!: handles_barrier)
  ultimately show ?thesis
    unfolding dispatch_frame_def
    by (auto simp: handles_refuse handles_chunk handles_ack split: option.splits json.splits)
qed

lemma handles_handle: "handles rt (router_handle js now stored p raw rt)"
proof -
  have "handles rt (refuse code (rt_state Room_Expired rt))" for code
    unfolding refuse_def by (rule handles.quiet) (auto simp: rt_state_def)
  then show ?thesis
    unfolding router_handle_def
    by (auto simp: handles_refuse handles_dispatch router_expired_def split: if_splits)
qed

section \<open>What every event keeps\<close>

definition ahead :: "transfer_metadata \<Rightarrow> transfer_metadata \<Rightarrow> bool" where
  "ahead s m \<longleftrightarrow> next_sequence s \<le> next_sequence m \<and> md_ack_offset s \<le> md_ack_offset m"

definition cursor_ok :: "transfer_metadata \<Rightarrow> bool" where
  "cursor_ok md \<longleftrightarrow>
     0 \<le> next_sequence md \<and> next_sequence md \<le> md_ack_offset md \<and> md_ack_offset md \<le> md_max_bytes md"

lemma ahead_refl [simp]: "ahead m m"
  by (simp add: ahead_def)

lemma ahead_trans: "ahead a b \<Longrightarrow> ahead b c \<Longrightarrow> ahead a c"
  by (simp add: ahead_def)

lemma ahead_cursor: "cursor_of m = cursor_of m' \<Longrightarrow> ahead s m \<longleftrightarrow> ahead s m'"
  by (auto simp: ahead_def dest: cursor_next)

lemma ahead_same: "cursor_of s = cursor_of m \<Longrightarrow> ahead s m"
  by (auto simp: ahead_def dest: cursor_next)

lemma cursor_ok_same: "cursor_of m = cursor_of s \<Longrightarrow> binding m = binding s \<Longrightarrow> cursor_ok s \<Longrightarrow> cursor_ok m"
  using binding_fields(3) [of m s] cursor_next [of m s] by (simp add: cursor_ok_def)

text \<open>
  The room remembers nothing that contradicts storage: its metadata and its router's bear the
  stored binding; a working router stands exactly at the stored cursor, with at most the next chunk
  in flight; and the room itself is ahead of storage only after a write failed.
\<close>

definition room_ok :: "transfer_room \<Rightarrow> bool" where
  "room_ok rm \<longleftrightarrow>
     (room_metadata rm = None \<longrightarrow> st_metadata rm = None)
   \<and> (\<forall>m. room_metadata rm = Some m \<longrightarrow>
        (\<exists>s. st_metadata rm = Some s \<and> binding m = binding s \<and> ahead s m \<and> cursor_ok m
           \<and> (\<forall>rt. rm_router rm = Some rt \<and> \<not> rt_broken rt \<longrightarrow> cursor_of m = cursor_of s)))
   \<and> (\<forall>rt. rm_router rm = Some rt \<longrightarrow>
        (\<exists>s. st_metadata rm = Some s \<and> binding (rt_meta rt) = binding s
           \<and> (\<not> rt_broken rt \<longrightarrow> cursor_of (rt_meta rt) = cursor_of s)
           \<and> (\<forall>fl. rt_in_flight rt = Some fl \<longrightarrow> flight_fits (rt_meta rt) fl)))
   \<and> (rm_meta rm = Some SharedWithRouter \<longrightarrow> (\<exists>rt. rm_router rm = Some rt \<and> \<not> rt_broken rt))
   \<and> (\<forall>s. st_metadata rm = Some s \<longrightarrow> cursor_ok s)"

text \<open>
  What an event may do to the stored metadata: the cursor moves forward, the plan stays what it was,
  and epoch and fence grow together.
\<close>

definition plan_of :: "transfer_metadata \<Rightarrow> transfer_metadata" where
  "plan_of md = (binding md)\<lparr>md_epoch := 0, md_fence := 0\<rparr>"

definition moves :: "transfer_metadata \<Rightarrow> transfer_metadata \<Rightarrow> bool" where
  "moves s s' \<longleftrightarrow>
     ahead s s' \<and> plan_of s' = plan_of s \<and> md_epoch s \<le> md_epoch s'
   \<and> md_fence s' - md_fence s = md_epoch s' - md_epoch s"

lemma moves_refl [simp]: "moves s s"
  by (simp add: moves_def)

lemma moves_trans: "moves a b \<Longrightarrow> moves b c \<Longrightarrow> moves a c"
  by (auto simp: moves_def elim: ahead_trans)

lemma moves_bound: "binding s' = binding s \<Longrightarrow> ahead s s' \<Longrightarrow> moves s s'"
  using binding_fields [of s' s] by (simp add: moves_def plan_of_def)

definition forward :: "transfer_room \<Rightarrow> transfer_room \<Rightarrow> bool" where
  "forward rm rm' \<longleftrightarrow> (\<forall>s. st_metadata rm = Some s \<longrightarrow> (\<exists>s'. st_metadata rm' = Some s' \<and> moves s s'))"

lemma forward_refl [simp]: "forward rm rm"
  by (simp add: forward_def)

lemma forward_trans: "forward a b \<Longrightarrow> forward b c \<Longrightarrow> forward a c"
  unfolding forward_def by (metis moves_trans)

lemma forward_same: "st_metadata rm' = st_metadata rm \<Longrightarrow> forward rm rm'"
  by (simp add: forward_def)

lemma room_ok_empty: "room_ok room_empty"
  by (simp add: room_ok_def room_empty_def room_metadata_def)

text \<open>Two rooms that agree on metadata, router and stored metadata.\<close>

lemma room_ok_cong:
  assumes "rm_meta rm' = rm_meta rm" "rm_router rm' = rm_router rm" "st_metadata rm' = st_metadata rm"
  shows "room_ok rm' = room_ok rm"
  unfolding room_ok_def room_metadata_def assms by (rule refl)

lemma room_metadata_cong:
  assumes "rm_meta rm' = rm_meta rm" "rm_router rm' = rm_router rm"
  shows "room_metadata rm' = room_metadata rm"
  unfolding room_metadata_def assms by (rule refl)

text \<open>Metadata that has just been stored, with a new router on it.\<close>

lemma room_ok_fresh:
  assumes "cursor_ok m"
  shows "room_ok (with_router m (put_metadata m rm))"
  using assms
  by (simp add: room_ok_def with_router_def put_metadata_def room_metadata_def router_new_def)

lemma room_ok_put_only:
  assumes "cursor_ok m" and "rm_router rm = None"
  shows "room_ok (put_metadata m rm)"
  using assms by (simp add: room_ok_def put_metadata_def room_metadata_def)

text \<open>A router that moved without touching the cursor.\<close>

lemma room_ok_router:
  assumes ok: "room_ok rm" and rt: "rm_router rm = Some rt"
    and same: "binding (rt_meta rt') = binding (rt_meta rt)" "cursor_of (rt_meta rt') = cursor_of (rt_meta rt)"
      "rt_broken rt' = rt_broken rt"
    and fl: "\<And>fl. rt_in_flight rt' = Some fl \<Longrightarrow> flight_fits (rt_meta rt) fl"
  shows "room_ok (set_router rt' rm)"
proof -
  have fits: "flight_fits (rt_meta rt') fl \<longleftrightarrow> flight_fits (rt_meta rt) fl" for fl
    using cursor_next [OF same(2)] binding_fields [OF same(1)] by (simp add: flight_fits_def)
  have router: "\<exists>s. st_metadata rm = Some s \<and> binding (rt_meta rt') = binding s
      \<and> (\<not> rt_broken rt' \<longrightarrow> cursor_of (rt_meta rt') = cursor_of s)
      \<and> (\<forall>fl. rt_in_flight rt' = Some fl \<longrightarrow> flight_fits (rt_meta rt') fl)"
    using ok rt same fl fits unfolding room_ok_def by auto
  show ?thesis
  proof (cases "rm_meta rm = Some SharedWithRouter")
    case True
    with ok rt have nb: "\<not> rt_broken rt" and sok: "\<forall>s. st_metadata rm = Some s \<longrightarrow> cursor_ok s"
      by (auto simp: room_ok_def)
    from router same(3) nb obtain s where s: "st_metadata rm = Some s" "binding (rt_meta rt') = binding s"
      "cursor_of (rt_meta rt') = cursor_of s" by auto
    have "ahead s (rt_meta rt')" "cursor_ok (rt_meta rt')"
      using ahead_same [OF s(3) [symmetric]] cursor_ok_same [OF s(3,2)] sok s(1) by auto
    with s sok router True nb same(3) show ?thesis
      by (simp add: room_ok_def room_metadata_def set_router_def)
  next
    case False
    then have "room_metadata (set_router rt' rm) = room_metadata rm"
      by (auto simp: room_metadata_def set_router_def split: option.splits meta_ref.splits)
    with ok router False rt same(3) show ?thesis
      by (auto simp: room_ok_def set_router_def)
  qed
qed

lemma room_okD:
  assumes "room_ok rm"
  shows "room_metadata rm = Some m \<Longrightarrow> \<exists>s. st_metadata rm = Some s \<and> binding m = binding s \<and> ahead s m \<and> cursor_ok m
           \<and> (\<forall>rt. rm_router rm = Some rt \<and> \<not> rt_broken rt \<longrightarrow> cursor_of m = cursor_of s)"
    and "rm_router rm = Some rt \<Longrightarrow> \<exists>s. st_metadata rm = Some s \<and> binding (rt_meta rt) = binding s
           \<and> (\<not> rt_broken rt \<longrightarrow> cursor_of (rt_meta rt) = cursor_of s)
           \<and> (\<forall>fl. rt_in_flight rt = Some fl \<longrightarrow> flight_fits (rt_meta rt) fl)"
    and "rm_meta rm = Some SharedWithRouter \<Longrightarrow> \<exists>rt. rm_router rm = Some rt \<and> \<not> rt_broken rt"
    and "st_metadata rm = Some s \<Longrightarrow> cursor_ok s"
    and "room_metadata rm = None \<Longrightarrow> st_metadata rm = None"
  using assms unfolding room_ok_def by blast+

text \<open>A router whose new metadata was stored.\<close>

lemma room_ok_stored:
  assumes "cursor_ok (rt_meta rt')" and "\<And>fl. rt_in_flight rt' = Some fl \<Longrightarrow> flight_fits (rt_meta rt') fl"
  shows "room_ok (set_router rt' (put_metadata (rt_meta rt') rm))"
  using assms by (simp add: room_ok_def set_router_def put_metadata_def room_metadata_def)

lemma flight_advances:
  assumes "flight_fits md fl" and "cursor_ok md"
  shows "cursor_ok (md\<lparr>md_ack_sequence := Some (fl_sequence fl), md_ack_offset := fl_offset fl + fl_length fl\<rparr>)"
    and "ahead md (md\<lparr>md_ack_sequence := Some (fl_sequence fl), md_ack_offset := fl_offset fl + fl_length fl\<rparr>)"
  using assms by (auto simp: flight_fits_def cursor_ok_def ahead_def next_sequence_def)

text \<open>A message that a router handled, with the barrier that it went through.\<close>

lemma handled_room:
  assumes ok: "room_ok rm" and rt: "rm_router rm = Some rt" and nb: "\<not> rt_broken rt"
    and h: "handles rt (r, rt', outp, b)"
  shows "room_ok (set_router rt' (after_barrier b rm)) \<and> forward rm (set_router rt' (after_barrier b rm))"
proof -
  from room_okD(2) [OF ok rt] nb obtain s where s: "st_metadata rm = Some s" "binding (rt_meta rt) = binding s"
    "cursor_of (rt_meta rt) = cursor_of s" and fl: "\<And>fl. rt_in_flight rt = Some fl \<Longrightarrow> flight_fits (rt_meta rt) fl"
    by auto
  have sok: "cursor_ok s" and mok: "cursor_ok (rt_meta rt)"
    using room_okD(4) [OF ok s(1)] cursor_ok_same [OF s(3,2)] by auto
  from h show ?thesis
  proof (cases rule: handles.cases)
    case quiet
    have "room_ok (set_router rt' rm)"
      by (rule room_ok_router [OF ok rt quiet(2-4)]) (use quiet(5) fl in auto)
    with quiet(1) show ?thesis by (simp add: after_barrier_def set_router_def forward_def)
  next
    case settled
    have "cursor_ok (rt_meta rt')" by (rule cursor_ok_same [OF settled(4,3) mok])
    then have "room_ok (set_router rt' (put_metadata (rt_meta rt') rm))"
      by (rule room_ok_stored) (simp add: settled(6))
    moreover have "moves s (rt_meta rt')"
      by (rule moves_bound) (use settled(3,4) s in \<open>auto intro: ahead_same\<close>)
    ultimately show ?thesis
      using settled(2) s(1) by (simp add: after_barrier_def set_router_def forward_def put_metadata_def)
  next
    case (acked fl)
    have fits: "flight_fits (rt_meta rt) fl" by (rule fl [OF acked(4)])
    have "cursor_ok (rt_meta rt')" using flight_advances(1) [OF fits mok] acked(5) by simp
    then have "room_ok (set_router rt' (put_metadata (rt_meta rt') rm))"
      by (rule room_ok_stored) (simp add: acked(5))
    moreover have "ahead s (rt_meta rt')"
      using ahead_trans [OF ahead_same flight_advances(2) [OF fits mok], of s] s(3) acked(5) by simp
    moreover have "binding (rt_meta rt') = binding s" using acked(5) s(2) by simp
    ultimately show ?thesis
      using acked(3) s(1) moves_bound [of "rt_meta rt'" s] by (simp add: after_barrier_def set_router_def forward_def put_metadata_def)
  next
    case (lost m)
    have m: "ahead s m \<and> cursor_ok m \<and> binding m = binding s"
    proof (cases "cursor_of m = cursor_of (rt_meta rt)")
      case True
      have "cursor_ok m" by (rule cursor_ok_same [OF True lost(4) mok])
      with True lost(4) s show ?thesis by (auto intro: ahead_same)
    next
      case False
      with lost(5) obtain fl0 where f: "rt_in_flight rt = Some fl0"
        "cursor_of m = (Some (fl_sequence fl0), fl_offset fl0 + fl_length fl0)" by auto
      let ?md = "(rt_meta rt)\<lparr>md_ack_sequence := Some (fl_sequence fl0), md_ack_offset := fl_offset fl0 + fl_length fl0\<rparr>"
      have "cursor_of m = cursor_of ?md" "binding m = binding ?md"
        using f(2) lost(4) by (simp_all add: cursor_of_def)
      moreover have "cursor_ok ?md" "ahead (rt_meta rt) ?md" using flight_advances [OF fl [OF f(1)] mok] by simp_all
      ultimately have "cursor_ok m" "ahead (rt_meta rt) m"
        using cursor_ok_same ahead_cursor [of m ?md "rt_meta rt"] by blast+
      then show ?thesis
        using s lost(4) ahead_trans [OF ahead_same [OF s(3) [symmetric]]] by simp
    qed
    let ?rm = "set_router rt' (after_barrier b rm)"
    have st: "st_metadata ?rm = Some s" and router: "rm_router ?rm = Some rt'"
      using lost(3) s(1) by (simp_all add: after_barrier_def set_router_def)
    have meta: "rm_meta ?rm \<noteq> Some SharedWithRouter"
      using lost(3) by (simp add: after_barrier_def set_router_def)
    have "room_metadata ?rm = Some x \<Longrightarrow> x = m \<or> room_metadata rm = Some x" for x
      using lost(3) meta by (auto simp: after_barrier_def set_router_def room_metadata_def split: if_splits option.splits meta_ref.splits)
    then have "\<exists>s. st_metadata ?rm = Some s \<and> binding x = binding s \<and> ahead s x \<and> cursor_ok x"
      if "room_metadata ?rm = Some x" for x
      using that m st s(1) room_okD(1) [OF ok] by fastforce
    moreover have "room_metadata rm \<noteq> None" using room_okD(5) [OF ok] s(1) by auto
    then have "room_metadata ?rm \<noteq> None"
      using lost(3) rt
      by (cases "rm_meta rm") (auto simp: after_barrier_def set_router_def room_metadata_def split: meta_ref.splits)
    ultimately have "room_ok ?rm"
      using router st meta lost(6-8) s(2) sok unfolding room_ok_def by auto
    with st s(1) show ?thesis by (simp add: forward_def)
  qed
qed

section \<open>Event by event\<close>

definition keeps :: "transfer_room \<Rightarrow> transfer_room \<Rightarrow> bool" where
  "keeps rm rm' \<longleftrightarrow> (room_ok rm \<longrightarrow> room_ok rm' \<and> forward rm rm')"

lemma keepsI: "(room_ok rm \<Longrightarrow> room_ok rm' \<and> forward rm rm') \<Longrightarrow> keeps rm rm'"
  by (simp add: keeps_def)

lemma keeps_refl [simp]: "keeps rm rm"
  by (simp add: keeps_def)

lemma keeps_trans: "keeps a b \<Longrightarrow> keeps b c \<Longrightarrow> keeps a c"
  by (auto simp: keeps_def elim: forward_trans)

lemma keeps_same:
  assumes "rm_meta rm' = rm_meta rm" "rm_router rm' = rm_router rm" "st_metadata rm' = st_metadata rm"
  shows "keeps rm rm'"
  using room_ok_cong [OF assms] forward_same [OF assms(3)] by (simp add: keeps_def)

lemma keeps_close: "keeps rm (close_socket a rm)"
  by (rule keeps_same) (simp_all add: close_socket_def)

lemma keeps_attach:
  assumes rt: "rm_router rm = Some rt" and at: "router_attach now p rt = (res, rt1, outp)"
  shows "keeps rm (set_router rt1 rm)"
proof (rule keepsI)
  assume ok: "room_ok rm"
  note k = attach_keeps [OF at]
  have "room_ok (set_router rt1 rm)"
    by (rule room_ok_router [OF ok rt]) (use k room_okD(2) [OF ok rt] in auto)
  then show "room_ok (set_router rt1 rm) \<and> forward rm (set_router rt1 rm)"
    by (simp add: forward_same set_router_def)
qed

lemma keeps_detach:
  assumes rt: "rm_router rm = Some rt"
  shows "keeps rm (set_router (router_detach role pid rt) rm)"
proof (rule keepsI)
  assume ok: "room_ok rm"
  have "room_ok (set_router (router_detach role pid rt) rm)"
    by (rule room_ok_router [OF ok rt]) (simp_all add: router_detach_def Let_def)
  then show "room_ok (set_router (router_detach role pid rt) rm) \<and> forward rm (set_router (router_detach role pid rt) rm)"
    by (simp add: forward_same set_router_def)
qed

lemma reattach_keeps:
  "reattach_sockets now as rm = (rm', outp) \<Longrightarrow> keeps rm rm' \<and> no_ack outp"
proof (induction as arbitrary: rm rm' outp)
  case (Cons a as)
  show ?case
  proof (cases "rm_router rm")
    case None
    with Cons.prems show ?thesis by simp
  next
    case (Some rt)
    obtain res rt1 out1 where at: "(if validateTransferAttachment a (room_metadata rm) now
        then router_attach now (socket_peer a) rt else (AttachReject, rt, [])) = (res, rt1, out1)"
      by (cases "if validateTransferAttachment a (room_metadata rm) now
        then router_attach now (socket_peer a) rt else (AttachReject, rt, [])") auto
    let ?rm1 = "set_router rt1 rm"
    let ?rm2 = "if res = AttachReject then close_socket a ?rm1 else ?rm1"
    obtain rm3 out2 where rest: "reattach_sockets now as ?rm2 = (rm3, out2)" by (cases "reattach_sockets now as ?rm2") auto
    have res: "rm' = rm3" "outp = out1 @ out2"
      using Cons.prems Some at rest by (simp_all add: set_router_def Let_def split: if_splits)
    have "keeps rm ?rm1 \<and> no_ack out1"
    proof (cases "validateTransferAttachment a (room_metadata rm) now")
      case True
      with at have "router_attach now (socket_peer a) rt = (res, rt1, out1)" by simp
      then show ?thesis using keeps_attach [OF Some] attach_keeps(4) by blast
    next
      case False
      with at Some show ?thesis by (auto intro!: keeps_same simp: set_router_def)
    qed
    moreover have "keeps ?rm1 ?rm2" by (simp add: keeps_close)
    ultimately show ?thesis using Cons.IH [OF rest] res by (auto intro: keeps_trans)
  qed
qed simp

lemma restore_keeps:
  assumes "room_restore now rm = (rm', outp)"
  shows "keeps rm rm' \<and> no_ack outp"
proof -
  let ?es = "case st_tickets rm of None \<Rightarrow> [] | Some es \<Rightarrow> es"
  let ?rm0 = "rm\<lparr>rm_meta := map_option OwnMeta (st_metadata rm), rm_router := None, rm_consumed := [], rm_failed := False\<rparr>"
  let ?rm1 = "?rm0\<lparr>rm_consumed := filter (\<lambda>e. snd e > now) ?es\<rparr>"
  have own: "keeps rm rm0" if "rm_meta rm0 = map_option OwnMeta (st_metadata rm)" "rm_router rm0 = None"
    "st_metadata rm0 = st_metadata rm" for rm0
    using that by (auto simp: keeps_def room_ok_def room_metadata_def forward_def split: option.splits)
  consider (bad) "length ?es > MAX_TICKET_REPLAYS \<or> \<not> list_all (ledger_entry_ok now) ?es"
    | (empty) "\<not> (length ?es > MAX_TICKET_REPLAYS \<or> \<not> list_all (ledger_entry_ok now) ?es)" "st_metadata rm = None"
    | (some) m where "\<not> (length ?es > MAX_TICKET_REPLAYS \<or> \<not> list_all (ledger_entry_ok now) ?es)" "st_metadata rm = Some m"
    by (cases "st_metadata rm") auto
  then show ?thesis
  proof cases
    case bad
    with assms have "rm' = ?rm0\<lparr>rm_failed := True\<rparr>" "outp = []"
      by (simp_all only: room_restore_def Let_def if_True prod.inject)
    then show ?thesis by (auto intro!: own)
  next
    case empty
    with assms have "rm' = ?rm1" "outp = []"
      by (simp_all only: room_restore_def Let_def if_False option.case prod.inject)
    then show ?thesis by (auto intro!: own)
  next
    case some
    with assms have re: "reattach_sockets now (rm_sockets rm) (with_router m ?rm1) = (rm', outp)"
      by (simp only: room_restore_def Let_def if_False option.case)
    have "keeps rm (with_router m ?rm1)"
      using some(2) by (auto simp: keeps_def room_ok_def room_metadata_def forward_def with_router_def router_new_def)
    with reattach_keeps [OF re] show ?thesis by (blast intro: keeps_trans)
  qed
qed

lemma consume_keeps:
  assumes "room_consume rc now stored c rm = (r, rm1)"
  shows "rm_meta rm1 = rm_meta rm" "rm_router rm1 = rm_router rm" "st_metadata rm1 = st_metadata rm"
    "rm_sockets rm1 = rm_sockets rm" "rm_failed rm1 = rm_failed rm"
  using assms by (auto simp: room_consume_def Let_def split: if_splits)

lemma admit_socket_keeps:
  assumes "admit_socket now pid c rm = (status, rm', outp)"
  shows "keeps rm rm' \<and> no_ack outp"
proof -
  let ?a = "attachment_for pid c"
  let ?rm1 = "rm\<lparr>rm_sockets := rm_sockets rm @ [?a]\<rparr>"
  have k1: "keeps rm ?rm1" by (rule keeps_same) simp_all
  show ?thesis
  proof (cases "rm_router rm")
    case None
    with assms k1 show ?thesis by (auto simp: admit_socket_def)
  next
    case (Some rt)
    obtain res rt1 out1 where at: "router_attach now (socket_peer ?a) rt = (res, rt1, out1)"
      by (cases "router_attach now (socket_peer ?a) rt") auto
    have k2: "keeps ?rm1 (set_router rt1 ?rm1)" by (rule keeps_attach [OF _ at]) (simp add: Some)
    have "rm' = (if res = AttachReject then close_socket ?a (set_router rt1 ?rm1) else set_router rt1 ?rm1)" "outp = out1"
      using assms Some at by (auto simp: admit_socket_def Let_def set_router_def split: if_splits)
    moreover have "keeps (set_router rt1 ?rm1) (close_socket ?a (set_router rt1 ?rm1))" by (rule keeps_close)
    ultimately show ?thesis using k1 k2 attach_keeps(4) [OF at] by (auto intro: keeps_trans)
  qed
qed

lemma no_metadata_no_router:
  assumes ok: "room_ok rm" and none: "room_metadata rm = None"
  shows "rm_router rm = None"
proof (rule ccontr)
  assume "rm_router rm \<noteq> None"
  then obtain rt where "rm_router rm = Some rt" by blast
  with room_okD(2,5) [OF ok] none show False by fastforce
qed

lemma metadataFor_ok: "0 \<le> tk_max_bytes c \<Longrightarrow> cursor_ok (metadataFor c)"
  by (simp add: cursor_ok_def metadataFor_def next_sequence_def)

lemma new_room_keeps:
  assumes none: "room_metadata rm = None" and pos: "0 \<le> tk_max_bytes c"
  shows "keeps rm (put_metadata (metadataFor c) rm)"
    and "keeps rm (with_router (metadataFor c) ((put_metadata (metadataFor c) rm)\<lparr>st_alarm := a\<rparr>))"
proof -
  let ?m = "metadataFor c"
  have fwd: "room_ok rm \<Longrightarrow> forward rm rm'" for rm'
    using room_okD(5) [OF _ none] by (simp add: forward_def)
  show "keeps rm (put_metadata ?m rm)"
    using room_ok_put_only [OF metadataFor_ok [OF pos] no_metadata_no_router [OF _ none]] fwd
    by (simp add: keeps_def)
  have "room_ok (with_router ?m ((put_metadata ?m rm)\<lparr>st_alarm := a\<rparr>))
      = room_ok (with_router ?m (put_metadata ?m rm))"
    by (rule room_ok_cong) (simp_all add: with_router_def)
  with room_ok_fresh [OF metadataFor_ok [OF pos]] fwd
  show "keeps rm (with_router ?m ((put_metadata ?m rm)\<lparr>st_alarm := a\<rparr>))" by (simp add: keeps_def)
qed

definition room_over :: "int \<Rightarrow> transfer_room \<Rightarrow> bool" where
  "room_over now rm \<longleftrightarrow>
     (case room_metadata rm of
        None \<Rightarrow> False
      | Some md \<Rightarrow>
          md_state md = Room_Cancelled \<or> md_state md = Room_Completed
        \<or> (md_transfer_expires_at md \<noteq> 0 \<and> md_transfer_expires_at md \<le> now))"

lemma admit_ticket_alt:
  "admit_ticket rc now so pid c rm =
     (if room_over now rm then (410, rm, [])
      else if role_taken now (tk_role c) rm then (409, rm, [])
      else
        case room_consume rc now (so_tickets so) c rm of
          (None, rm1) \<Rightarrow> (503, rm1, [])
        | (Some False, rm1) \<Rightarrow> (409, rm1, [])
        | (Some True, rm1) \<Rightarrow>
            (case room_metadata rm1 of
               Some _ \<Rightarrow> admit_socket now pid c rm1
             | None \<Rightarrow>
                 if \<not> so_metadata so then (503, rm1, [])
                 else if \<not> so_alarm so then (503, put_metadata (metadataFor c) rm1, [])
                 else
                   admit_socket now pid c
                     (with_router (metadataFor c)
                       ((put_metadata (metadataFor c) rm1)\<lparr>st_alarm := Some (md_transfer_expires_at (metadataFor c))\<rparr>))))"
  unfolding admit_ticket_def room_over_def Let_def by (rule refl)

text \<open>The ways in which a valid ticket is answered.\<close>

lemma admit_ticket_cases:
  assumes ad: "admit_ticket rc now so pid c rm = (status, rm', outp)"
    and co: "room_consume rc now (so_tickets so) c rm = (r, rm1)"
  obtains (refused) "rm' = rm" "outp = []" "status \<noteq> 101"
  | (spent) "rm' = rm1" "outp = []" "status \<noteq> 101"
  | (old) md where "\<not> room_over now rm" "r = Some True" "room_metadata rm1 = Some md"
      "admit_socket now pid c rm1 = (status, rm', outp)"
  | (half) "\<not> room_over now rm" "r = Some True" "room_metadata rm1 = None" "rm' = put_metadata (metadataFor c) rm1"
      "outp = []" "status \<noteq> 101"
  | (new) "\<not> room_over now rm" "r = Some True" "room_metadata rm1 = None"
      "admit_socket now pid c
         (with_router (metadataFor c)
           ((put_metadata (metadataFor c) rm1)\<lparr>st_alarm := Some (md_transfer_expires_at (metadataFor c))\<rparr>))
       = (status, rm', outp)"
proof (cases "room_over now rm \<or> role_taken now (tk_role c) rm")
  case True
  then show ?thesis using ad refused by (auto simp: admit_ticket_alt split: if_splits)
next
  case False
  then have go: "(case (r, rm1) of
          (None, rm1) \<Rightarrow> (503, rm1, [])
        | (Some False, rm1) \<Rightarrow> (409, rm1, [])
        | (Some True, rm1) \<Rightarrow>
            (case room_metadata rm1 of
               Some _ \<Rightarrow> admit_socket now pid c rm1
             | None \<Rightarrow>
                 if \<not> so_metadata so then (503, rm1, [])
                 else if \<not> so_alarm so then (503, put_metadata (metadataFor c) rm1, [])
                 else
                   admit_socket now pid c
                     (with_router (metadataFor c)
                       ((put_metadata (metadataFor c) rm1)\<lparr>st_alarm := Some (md_transfer_expires_at (metadataFor c))\<rparr>))))
       = (status, rm', outp)"
    using ad co unfolding admit_ticket_alt by (simp only: de_Morgan_disj if_False)
  have over: "\<not> room_over now rm" using False by simp
  show ?thesis
  proof (cases "r = Some True")
    case no: False
    then show ?thesis using go spent by (cases r) (auto split: bool.splits)
  next
    case True
    show ?thesis
    proof (cases "room_metadata rm1")
      case (Some md)
      with go True show ?thesis by (simp add: old [OF over True Some])
    next
      case None
      consider "\<not> so_metadata so" | "so_metadata so" "\<not> so_alarm so" | "so_metadata so" "so_alarm so" by blast
      then show ?thesis
      proof cases
        case 1
        with go True None spent show ?thesis by simp
      next
        case 2
        with go True None half [OF over True None] show ?thesis by simp
      next
        case 3
        with go True None new [OF over True None] show ?thesis by simp
      qed
    qed
  qed
qed

lemma admit_ticket_keeps:
  assumes ad: "admit_ticket rc now so pid c rm = (status, rm', outp)" and pos: "0 \<le> tk_max_bytes c"
  shows "keeps rm rm' \<and> no_ack outp"
proof -
  obtain r rm1 where co: "room_consume rc now (so_tickets so) c rm = (r, rm1)"
    by (cases "room_consume rc now (so_tickets so) c rm") auto
  have k1: "keeps rm rm1" by (rule keeps_same [OF consume_keeps(1-3) [OF co]])
  from ad co show ?thesis
  proof (cases rule: admit_ticket_cases)
    case refused
    then show ?thesis by simp
  next
    case spent
    then show ?thesis using k1 by simp
  next
    case old
    then show ?thesis using k1 admit_socket_keeps [OF old(4)] by (blast intro: keeps_trans)
  next
    case half
    then show ?thesis using k1 new_room_keeps(1) [OF half(3) pos] by (auto intro: keeps_trans)
  next
    case new
    show ?thesis
      using k1 new_room_keeps(2) [OF new(3) pos] admit_socket_keeps [OF new(4)] by (blast intro: keeps_trans)
  qed
qed

lemma advance_keeps:
  assumes md: "room_metadata rm = Some md" and can: "canAdvanceMetadata md c"
  shows "keeps rm (advance_epoch md c rm)"
proof (rule keepsI)
  assume ok: "room_ok rm"
  let ?m = "md\<lparr>md_epoch := tk_epoch c, md_fence := tk_fence c\<rparr>"
  from room_okD(1) [OF ok md] obtain s where s: "st_metadata rm = Some s" "binding md = binding s" "ahead s md" "cursor_ok md"
    by blast
  have cok: "cursor_ok ?m" using s(4) by (simp add: cursor_ok_def next_sequence_def)
  have "moves md ?m"
    using can by (simp add: moves_def canAdvanceMetadata_def ahead_def next_sequence_def plan_of_def binding_def)
  with moves_bound [OF s(2,3)] have mv: "moves s ?m" by (rule moves_trans)
  have "room_ok (advance_epoch md c rm) = room_ok (with_router ?m (put_metadata ?m rm))"
    by (rule room_ok_cong) (simp_all add: advance_epoch_def Let_def)
  with room_ok_fresh [OF cok] s(1) mv show "room_ok (advance_epoch md c rm) \<and> forward rm (advance_epoch md c rm)"
    by (simp add: forward_def advance_epoch_def Let_def with_router_def put_metadata_def)
qed

lemma verified_claims:
  assumes "verifyTransferTicket js rc now secret raw = Some c"
  shows "\<exists>key. secret = Some key \<and> claims_valid now key c"
  using assms unfolding verifyTransferTicket_def Let_def
  by (auto split: option.splits if_splits)

lemma fetch_socket_keeps:
  assumes "fetch_socket js rc secret now so pid raw rm = (status, rm', outp)"
  shows "keeps rm rm' \<and> no_ack outp"
proof (cases "verifyTransferTicket js rc now secret raw")
  case None
  with assms show ?thesis by (simp add: fetch_socket_def)
next
  case (Some c)
  then have pos: "0 \<le> tk_max_bytes c" using verified_claims by (fastforce simp: claims_valid_def)
  consider (same) "rm' = rm" "outp = []" | (admit) "admit_ticket rc now so pid c rm = (status, rm', outp)"
    | (advance) md where "room_metadata rm = Some md" "canAdvanceMetadata md c"
        "admit_ticket rc now so pid c (advance_epoch md c rm) = (status, rm', outp)"
    using assms Some by (auto simp: fetch_socket_def split: if_splits option.splits transfer_role.splits)
  then show ?thesis
  proof cases
    case same
    then show ?thesis by simp
  next
    case admit
    then show ?thesis by (rule admit_ticket_keeps [OF _ pos])
  next
    case advance
    show ?thesis
      using advance_keeps [OF advance(1,2)] admit_ticket_keeps [OF advance(3) pos] by (blast intro: keeps_trans)
  qed
qed

text \<open>A terminal request: refused, or the room completed and its ledger cleared.\<close>

lemma fetch_terminal_cases:
  assumes "fetch_terminal js rc secret so req rm = (status, rm')"
  obtains (refused) "rm' = rm" "status \<noteq> 200"
  | (settled) md rm1 where "room_metadata rm = Some md" "md_state md \<noteq> Room_Cancelled" "md_state md \<noteq> Room_Expired"
      "rm1 = (if md_state md = Room_Completed then rm
              else with_router (md\<lparr>md_state := Room_Completed\<rparr>) (put_metadata (md\<lparr>md_state := Room_Completed\<rparr>) rm))"
      "rm' = (if so_delete so then rm1\<lparr>st_tickets := None, rm_consumed := [], rm_sockets := []\<rparr> else rm1)"
      "status = (if so_delete so then 200 else 503)"
proof -
  have "rm' = rm \<and> status \<noteq> 200 \<or> (\<exists>md rm1. room_metadata rm = Some md \<and> md_state md \<noteq> Room_Cancelled \<and> md_state md \<noteq> Room_Expired
      \<and> rm1 = (if md_state md = Room_Completed then rm
              else with_router (md\<lparr>md_state := Room_Completed\<rparr>) (put_metadata (md\<lparr>md_state := Room_Completed\<rparr>) rm))
      \<and> rm' = (if so_delete so then rm1\<lparr>st_tickets := None, rm_consumed := [], rm_sockets := []\<rparr> else rm1)
      \<and> status = (if so_delete so then 200 else 503))"
    using assms unfolding fetch_terminal_def Let_def
    by (simp split: option.split_asm if_split_asm) (metis prod.inject)+
  then show thesis using refused settled by blast
qed

lemma terminal_keeps:
  assumes "fetch_terminal js rc secret so req rm = (status, rm')"
  shows "keeps rm rm'"
  using assms
proof (cases rule: fetch_terminal_cases)
  case refused
  then show ?thesis by simp
next
  case (settled md rm1)
  let ?m = "md\<lparr>md_state := Room_Completed\<rparr>"
  have new: "keeps rm (with_router ?m (put_metadata ?m rm))"
  proof (rule keepsI)
    assume ok: "room_ok rm"
    from room_okD(1) [OF ok settled(1)] obtain s where s: "st_metadata rm = Some s" "binding md = binding s" "ahead s md" "cursor_ok md"
      by blast
    have "cursor_ok ?m" using s(4) by (simp add: cursor_ok_def next_sequence_def)
    moreover have "moves s ?m" by (rule moves_bound) (use s ahead_cursor [of ?m md s] in auto)
    ultimately show "room_ok (with_router ?m (put_metadata ?m rm)) \<and> forward rm (with_router ?m (put_metadata ?m rm))"
      using room_ok_fresh s(1) by (simp add: forward_def with_router_def put_metadata_def)
  qed
  have "keeps rm rm1" using settled(4) new by simp
  moreover have "keeps rm1 rm'" using settled(5) by (auto intro!: keeps_same)
  ultimately show ?thesis by (rule keeps_trans)
qed

lemma close_keeps: "keeps rm (webSocketClose now a rm)"
proof (cases "rm_router rm")
  case None
  then show ?thesis by (auto simp: webSocketClose_def close_socket_def Let_def intro!: keeps_same)
next
  case (Some rt)
  then have rt: "rm_router (close_socket a rm) = Some rt" by (simp add: close_socket_def)
  show ?thesis
    using keeps_trans [OF keeps_close keeps_detach [OF rt]] keeps_close [of rm a] rt
    by (simp add: webSocketClose_def Let_def)
qed

lemma alarm_keeps: "keeps rm (room_alarm now so rm)"
proof (rule keepsI)
  assume ok: "room_ok rm"
  show "room_ok (room_alarm now so rm) \<and> forward rm (room_alarm now so rm)"
  proof (cases "\<exists>md. room_metadata rm = Some md \<and> \<not> md_transfer_expires_at md > now")
    case False
    then have "room_alarm now so rm = rm" by (auto simp: room_alarm_def split: option.splits)
    with ok show ?thesis by simp
  next
    case True
    then obtain md where md: "room_metadata rm = Some md" "\<not> md_transfer_expires_at md > now" by blast
    let ?m = "md\<lparr>md_state := Room_Expired\<rparr>"
    from room_okD(1) [OF ok md(1)] obtain s where s: "st_metadata rm = Some s" "binding md = binding s" "ahead s md" "cursor_ok md"
      "\<And>rt. rm_router rm = Some rt \<Longrightarrow> \<not> rt_broken rt \<Longrightarrow> cursor_of md = cursor_of s" by blast
    let ?rm1 = "expire_metadata rm" and ?rm' = "room_alarm now so rm"
    have m1: "room_metadata ?rm1 = Some ?m"
      using md(1) by (auto simp: expire_metadata_def room_metadata_def rt_state_def split: option.splits meta_ref.splits)
    have r1: "rm_router ?rm1 = rm_router rm \<or> rm_router ?rm1 = map_option (rt_state Room_Expired) (rm_router rm)"
      "rm_meta ?rm1 = Some SharedWithRouter \<longleftrightarrow> rm_meta rm = Some SharedWithRouter" "st_metadata ?rm1 = st_metadata rm"
      by (auto simp: expire_metadata_def split: option.splits meta_ref.splits)
    have f: "rm_router ?rm' = rm_router ?rm1" "rm_meta ?rm' = rm_meta ?rm1"
      "st_metadata ?rm' = (if so_metadata so then Some ?m else Some s)"
      using md m1 r1(3) s(1) by (simp_all add: room_alarm_def Let_def)
    have m': "room_metadata ?rm' = Some ?m" using m1 room_metadata_cong [OF f(2,1)] by simp
    let ?s' = "if so_metadata so then ?m else s"
    have s': "binding ?s' = binding s" "ahead s ?s'" "ahead ?s' ?m" "cursor_ok ?s'" "cursor_ok ?m"
      "st_metadata ?rm' = Some ?s'"
      using s room_okD(4) [OF ok s(1)] ahead_cursor [of ?m md s] f(3)
      by (auto simp: cursor_ok_def next_sequence_def)
    have rt': "\<exists>rt. rm_router rm = Some rt \<and> rt_broken rt' = rt_broken rt \<and> rt_in_flight rt' = rt_in_flight rt
        \<and> binding (rt_meta rt') = binding (rt_meta rt) \<and> cursor_of (rt_meta rt') = cursor_of (rt_meta rt)"
      if "rm_router ?rm' = Some rt'" for rt'
      using that [unfolded f(1)] r1(1) by (cases "rm_router rm") (auto simp: rt_state_def)
    have "\<exists>s. st_metadata ?rm' = Some s \<and> binding (rt_meta rt') = binding s
         \<and> (\<not> rt_broken rt' \<longrightarrow> cursor_of (rt_meta rt') = cursor_of s)
         \<and> (\<forall>fl. rt_in_flight rt' = Some fl \<longrightarrow> flight_fits (rt_meta rt') fl)"
      if r: "rm_router ?rm' = Some rt'" for rt'
    proof -
      from rt' [OF r] obtain rt where rt: "rm_router rm = Some rt" "rt_broken rt' = rt_broken rt" "rt_in_flight rt' = rt_in_flight rt"
        "binding (rt_meta rt') = binding (rt_meta rt)" "cursor_of (rt_meta rt') = cursor_of (rt_meta rt)" by blast
      have fits: "flight_fits (rt_meta rt') fl \<longleftrightarrow> flight_fits (rt_meta rt) fl" for fl
        using cursor_next [OF rt(5)] binding_fields [OF rt(4)] by (simp add: flight_fits_def)
      from room_okD(2) [OF ok rt(1)] s(1,5) rt fits s' show ?thesis by auto
    qed
    moreover have "cursor_of ?m = cursor_of ?s'" if r: "rm_router ?rm' = Some rt'" "\<not> rt_broken rt'" for rt'
      using rt' [OF r(1)] r(2) s(5) by auto
    moreover have "\<exists>rt. rm_router ?rm' = Some rt \<and> \<not> rt_broken rt" if "rm_meta ?rm' = Some SharedWithRouter"
      using that room_okD(3) [OF ok] r1(1,2) f(1,2) by (auto simp: rt_state_def)
    ultimately have "room_ok ?rm'"
      unfolding room_ok_def m' using s' s(2) by auto
    moreover have "forward rm ?rm'" using s(1) s'(6) moves_bound [OF s'(1,2)] by (simp add: forward_def)
    ultimately show ?thesis by simp
  qed
qed

lemma message_cases:
  assumes "webSocketMessage js now stored a message rm = (rm', outp)"
  obtains (closed) "rm' = close_socket a rm" "outp = []"
  | (rejected) rt rt1 where "rm_router rm = Some rt" "router_attach now (socket_peer a) rt = (AttachReject, rt1, outp)"
      "rm' = close_socket a (set_router rt1 rm)"
  | (handled) raw rt res rt1 out1 r rt2 out2 b outs ss where
      "validateTransferAttachment a (room_metadata rm) now" "rm_router rm = Some rt"
      "router_attach now (socket_peer a) rt = (res, rt1, out1)" "res \<noteq> AttachReject"
      "router_handle js now stored (socket_peer a) raw rt1 = (r, rt2, out2, b)"
      "rm' = (set_router rt2 (after_barrier b (set_router rt1 rm)))\<lparr>rm_sockets := ss\<rparr>"
      "outp = out1 @ out2 @ outs" "no_ack outs"
proof (cases "message = None \<or> rm_router rm = None \<or> \<not> validateTransferAttachment a (room_metadata rm) now")
  case True
  then have "rm' = close_socket a rm" "outp = []"
    using assms by (auto simp: webSocketMessage_def split: option.splits)
  then show ?thesis by (rule closed)
next
  case False
  then obtain raw rt where c: "message = Some raw" "rm_router rm = Some rt" "validateTransferAttachment a (room_metadata rm) now"
    by auto
  obtain res rt1 out1 where at: "router_attach now (socket_peer a) rt = (res, rt1, out1)"
    by (cases "router_attach now (socket_peer a) rt") auto
  obtain r rt2 out2 b where ha: "router_handle js now stored (socket_peer a) raw rt1 = (r, rt2, out2, b)"
    by (cases "router_handle js now stored (socket_peer a) raw rt1") auto
  show ?thesis
  proof (cases "res = AttachReject")
    case True
    then show ?thesis using assms c at rejected [OF c(2)] by (simp add: webSocketMessage_def)
  next
    case False
    let ?rm2 = "set_router rt2 (after_barrier b (set_router rt1 rm))"
    have own: "?rm2 = ?rm2\<lparr>rm_sockets := rm_sockets ?rm2\<rparr>" by simp
    consider "rm' = ?rm2" "outp = out1 @ out2 @ []" | "rm' = ?rm2\<lparr>rm_sockets := []\<rparr>" "outp = out1 @ out2 @ []"
      | code where "rm' = ?rm2" "outp = out1 @ out2 @ [(at_peer_id a, ErrorFrame code)]"
      using assms c at ha False by (auto simp: webSocketMessage_def Let_def split: sum.splits if_splits)
    then show ?thesis
    proof cases
      case 1
      show ?thesis by (rule handled [OF c(3,2) at False ha trans [OF 1(1) own] 1(2)]) simp
    next
      case 2
      show ?thesis by (rule handled [OF c(3,2) at False ha 2]) simp
    next
      case 3
      show ?thesis by (rule handled [OF c(3,2) at False ha trans [OF 3(1) own] 3(2)]) (simp add: no_ack_def)
    qed
  qed
qed

text \<open>The acknowledgements among what was sent.\<close>

fun acks_of :: "sent \<Rightarrow> (int \<times> int) list" where
  "acks_of [] = []"
| "acks_of ((pid, AckFrame q n) # outp) = (q, n) # acks_of outp"
| "acks_of (_ # outp) = acks_of outp"

lemma no_ack_acks: "no_ack outp \<Longrightarrow> acks_of outp = []"
  by (induction outp rule: acks_of.induct) (simp_all add: no_ack_def)

lemma acks_append [simp]: "acks_of (xs @ ys) = acks_of xs @ acks_of ys"
  by (induction xs rule: acks_of.induct) simp_all

lemma acks_send: "acks_of (send_to Source (AckFrame q n) rt) = [] \<or> acks_of (send_to Source (AckFrame q n) rt) = [(q, n)]"
  by (simp add: send_to_def split: option.splits)

text \<open>An acknowledgement of bytes that were not acknowledged before, and are now.\<close>

definition acknowledged :: "transfer_room \<Rightarrow> int \<times> int \<Rightarrow> transfer_room \<Rightarrow> bool" where
  "acknowledged rm ack rm' \<longleftrightarrow>
     (\<exists>s s'. st_metadata rm = Some s \<and> st_metadata rm' = Some s' \<and> cursor_of s' = (Some (fst ack), snd ack)
       \<and> fst ack = next_sequence s \<and> md_ack_offset s < snd ack \<and> snd ack \<le> md_ack_offset s + MAX_TRANSFER_CHUNK_BYTES
       \<and> binding s' = binding s)"

lemma message_keeps:
  assumes "webSocketMessage js now stored a message rm = (rm', outp)" and ok: "room_ok rm"
  shows "room_ok rm' \<and> forward rm rm' \<and> (acks_of outp = [] \<or> (\<exists>ack. acks_of outp = [ack] \<and> acknowledged rm ack rm'))"
  using assms(1)
proof (cases rule: message_cases)
  case closed
  then show ?thesis using keeps_close [of rm a] ok by (simp add: keeps_def)
next
  case rejected
  then show ?thesis
    using keeps_trans [OF keeps_attach [OF rejected(1,2)] keeps_close, of a] ok no_ack_acks [OF attach_keeps(4) [OF rejected(2)]]
    by (simp add: keeps_def)
next
  case (handled raw rt res rt1 out1 r rt2 out2 b outs ss)
  let ?rm1 = "set_router rt1 rm" and ?rm2 = "set_router rt2 (after_barrier b (set_router rt1 rm))"
  note at = attach_keeps [OF handled(3)]
  have nb: "\<not> rt_broken rt1" using at(3,5) handled(4) by auto
  have k1: "room_ok ?rm1" "forward rm ?rm1" using keeps_attach [OF handled(2,3)] ok by (simp_all add: keeps_def)
  have rt1: "rm_router ?rm1 = Some rt1" by (simp add: set_router_def)
  have hd: "handles rt1 (r, rt2, out2, b)" using handles_handle [of rt1 js now stored "socket_peer a" raw] handled(5) by simp
  have k2: "room_ok ?rm2" "forward ?rm1 ?rm2" using handled_room [OF k1(1) rt1 nb hd] by simp_all
  have ok': "room_ok rm'" "forward ?rm2 rm'"
    using k2(1) handled(6) room_ok_cong [of rm' ?rm2] forward_same [of rm' ?rm2] by simp_all
  have out: "acks_of outp = acks_of out2" using at(4) handled(7,8) by (simp add: no_ack_acks)
  have "acks_of out2 = [] \<or> (\<exists>ack. acks_of out2 = [ack] \<and> acknowledged rm ack rm')"
    using hd
  proof (cases rule: handles.cases)
    case (acked fl)
    from room_okD(2) [OF k1(1) rt1] nb acked(4) obtain s where s: "st_metadata rm = Some s" "binding (rt_meta rt1) = binding s"
      "cursor_of (rt_meta rt1) = cursor_of s" and fits: "flight_fits (rt_meta rt1) fl" by (auto simp: set_router_def)
    have "acknowledged rm (fl_sequence fl, fl_offset fl + fl_length fl) rm'"
      using acked(3,5) s fits handled(6) cursor_next [OF s(3)]
      by (simp add: acknowledged_def after_barrier_def put_metadata_def set_router_def cursor_of_def flight_fits_def)
    then show ?thesis using acks_send acked(2) by metis
  qed (simp_all add: no_ack_acks)
  with ok' k1(2) k2(2) out show ?thesis by (auto intro: forward_trans)
qed

section \<open>Runs\<close>

type_synonym moment = "int \<times> storage_outcome \<times> room_event"

definition room_exec :: "room_setting \<Rightarrow> transfer_room \<Rightarrow> moment \<Rightarrow> transfer_room" where
  "room_exec rs rm = (\<lambda>(now, so, e). fst (snd (room_step rs now so e rm)))"

definition room_sent :: "room_setting \<Rightarrow> transfer_room \<Rightarrow> moment \<Rightarrow> sent" where
  "room_sent rs rm = (\<lambda>(now, so, e). snd (snd (room_step rs now so e rm)))"

lemma step_keeps:
  assumes st: "room_step rs now so e rm = (status, rm', outp)" and ok: "room_ok rm"
  shows "room_ok rm' \<and> forward rm rm' \<and> (acks_of outp = [] \<or> (\<exists>ack. acks_of outp = [ack] \<and> acknowledged rm ack rm'))"
proof (cases e)
  case (Upgrade q pid raw)
  then have "rm' = rm \<and> outp = [] \<or> fetch_socket (rs_js rs) (rs_crypto rs) (rs_secret rs) now so pid raw rm = (status, rm', outp)"
    using st by (auto split: if_splits)
  then show ?thesis using fetch_socket_keeps ok by (auto simp: keeps_def no_ack_acks)
next
  case (Terminal q req)
  then have "rm' = rm \<and> outp = [] \<or> (\<exists>z. fetch_terminal (rs_js rs) (rs_crypto rs) (rs_secret rs) so req rm = (z, rm')) \<and> outp = []"
    using st by (auto split: if_splits prod.splits)
  then show ?thesis using terminal_keeps ok by (auto simp: keeps_def)
next
  case (Message a message stored)
  then have "rm' = rm \<and> outp = [] \<or> webSocketMessage (rs_js rs) now stored a message rm = (rm', outp)"
    using st by (auto split: if_splits prod.splits)
  then show ?thesis
  proof
    assume "rm' = rm \<and> outp = []"
    with ok show ?thesis by simp
  qed (rule message_keeps [OF _ ok])
next
  case (Closed a)
  then show ?thesis using st close_keeps [of rm now a] ok by (auto simp: keeps_def split: if_splits)
next
  case Alarm
  then show ?thesis using st alarm_keeps [of rm now so] ok by (auto simp: keeps_def split: if_splits)
next
  case Wake
  then have "room_restore now rm = (rm', outp)" using st by (auto split: prod.splits)
  then show ?thesis using restore_keeps ok by (auto simp: keeps_def no_ack_acks)
qed

lemma room_exec_keeps:
  assumes "room_ok rm"
  shows "room_ok (room_exec rs rm m) \<and> forward rm (room_exec rs rm m)
    \<and> (acks_of (room_sent rs rm m) = [] \<or> (\<exists>ack. acks_of (room_sent rs rm m) = [ack] \<and> acknowledged rm ack (room_exec rs rm m)))"
proof (cases m)
  case (fields now so e)
  obtain status rm' outp where st: "room_step rs now so e rm = (status, rm', outp)"
    by (cases "room_step rs now so e rm") auto
  have "room_exec rs rm m = rm'" "room_sent rs rm m = outp" by (simp_all add: fields st room_exec_def room_sent_def)
  with step_keeps [OF st assms] show ?thesis by simp
qed

text \<open>The cursor that the source is told, as the offset in an acknowledgement.\<close>

definition durable_offset :: "transfer_room \<Rightarrow> nat" where
  "durable_offset rm = (case st_metadata rm of None \<Rightarrow> 0 | Some s \<Rightarrow> nat (md_ack_offset s))"

definition acked_offset :: "room_setting \<Rightarrow> transfer_room \<Rightarrow> moment \<Rightarrow> nat option" where
  "acked_offset rs rm m = (case acks_of (room_sent rs rm m) of [] \<Rightarrow> None | (_, n) # _ \<Rightarrow> Some (nat n))"

lemma durable_mono: "room_ok rm \<Longrightarrow> forward rm rm' \<Longrightarrow> durable_offset rm \<le> durable_offset rm'"
  by (fastforce simp: durable_offset_def forward_def moves_def ahead_def split: option.splits)

interpretation relay_cursor: monotone_cursor "room_exec rs" "acked_offset rs" durable_offset room_ok "\<lambda>_. True"
  for rs
proof
  show "room_ok (room_exec rs m oper)" if "room_ok m" for m oper
    using room_exec_keeps [OF that] by simp
  show "durable_offset m \<le> durable_offset (room_exec rs m oper)" if "room_ok m" for m oper
    using durable_mono [OF that] room_exec_keeps [OF that] by simp
  show "durable_offset m < q \<and> q \<le> durable_offset (room_exec rs m oper)"
    if ok: "room_ok m" and ack: "acked_offset rs m oper = Some q" for m oper q
  proof -
    from ack have "acks_of (room_sent rs m oper) \<noteq> []" by (auto simp: acked_offset_def)
    with room_exec_keeps [OF ok, of rs oper] obtain qn where a: "acks_of (room_sent rs m oper) = [qn]"
      "acknowledged m qn (room_exec rs m oper)" by blast
    then obtain s s' where s: "st_metadata m = Some s" "st_metadata (room_exec rs m oper) = Some s'"
      "md_ack_offset s < snd qn" "md_ack_offset s' = snd qn" by (auto simp: acknowledged_def cursor_of_def)
    have "0 \<le> md_ack_offset s" using room_okD(4) [OF ok s(1)] by (simp add: cursor_ok_def)
    with s a(1) ack show ?thesis by (auto simp: acked_offset_def durable_offset_def split: prod.splits)
  qed
qed

text \<open>Epochs as generations: a later epoch in storage puts every socket of an earlier one out.\<close>

definition epoch_gone :: "int \<Rightarrow> transfer_room \<Rightarrow> bool" where
  "epoch_gone e rm \<longleftrightarrow> (\<exists>s. st_metadata rm = Some s \<and> e < md_epoch s)"

definition epoch_heard :: "transfer_room \<Rightarrow> int \<Rightarrow> bool" where
  "epoch_heard rm e \<longleftrightarrow> (\<exists>a now. at_epoch a = e \<and> validateTransferAttachment a (room_metadata rm) now)"

interpretation relay_epoch: generation_fence "room_exec rs" room_ok epoch_gone "\<lambda>_ _. True" epoch_heard
  for rs
proof
  show "room_ok (room_exec rs m oper)" if "room_ok m" for m oper
    using room_exec_keeps [OF that] by simp
  show "epoch_gone e (room_exec rs m oper)" if "room_ok m" "epoch_gone e m" for m e oper
    using room_exec_keeps [OF that(1), of rs oper] that(2) by (fastforce simp: epoch_gone_def forward_def moves_def)
  show "\<not> epoch_heard m e" if ok: "room_ok m" and gone: "epoch_gone e m" for m e
  proof
    assume "epoch_heard m e"
    then obtain md where "room_metadata m = Some md" "e = md_epoch md"
      by (auto simp: epoch_heard_def validateTransferAttachment_def split: option.splits)
    with room_okD(1) [OF ok] gone show False by (fastforce simp: epoch_gone_def dest: binding_fields(1))
  qed
qed

end
