(* ===== verification/Room_Ledger.thy ===== *)
theory Room_Ledger
  imports Room_Relay
begin

text \<open>
  How a transfer ends and what a ticket is good for: a completed or cancelled transfer stays what it
  is until its deadline, and no ticket opens two sockets as long as the router's writes succeed.
\<close>

section \<open>States that are final\<close>

definition over :: "room_state \<Rightarrow> bool" where
  "over st \<longleftrightarrow> st = Room_Completed \<or> st = Room_Cancelled"

text \<open>The states in memory, in storage and in the router.\<close>

definition all_in :: "room_state set \<Rightarrow> transfer_room \<Rightarrow> bool" where
  "all_in S rm \<longleftrightarrow>
     (\<forall>md. room_metadata rm = Some md \<longrightarrow> md_state md \<in> S)
   \<and> (\<forall>s. st_metadata rm = Some s \<longrightarrow> md_state s \<in> S)
   \<and> (\<forall>rt. rm_router rm = Some rt \<longrightarrow> md_state (rt_meta rt) \<in> S)"

definition passed :: "int \<Rightarrow> transfer_room \<Rightarrow> bool" where
  "passed now rm \<longleftrightarrow> (\<exists>s. st_metadata rm = Some s \<and> 0 < md_transfer_expires_at s \<and> md_transfer_expires_at s \<le> now)"

definition final :: "room_state \<Rightarrow> int \<Rightarrow> transfer_room \<Rightarrow> bool" where
  "final st now rm \<longleftrightarrow> all_in {st} rm \<or> passed now rm \<and> all_in {st, Room_Expired} rm"

lemma final_later: "final st now rm \<Longrightarrow> now \<le> later \<Longrightarrow> final st later rm"
  by (auto simp: final_def passed_def)

lemma all_in_cong:
  assumes "rm_meta rm' = rm_meta rm" "rm_router rm' = rm_router rm" "st_metadata rm' = st_metadata rm"
  shows "all_in S rm' = all_in S rm"
  unfolding all_in_def room_metadata_cong [OF assms(1,2)] assms(2,3) by (rule refl)

lemma final_cong:
  assumes "rm_meta rm' = rm_meta rm" "rm_router rm' = rm_router rm" "st_metadata rm' = st_metadata rm"
  shows "final st now rm' = final st now rm"
  unfolding final_def all_in_cong [OF assms] passed_def assms(3) by (rule refl)

lemma final_close: "final st now (close_socket a rm) = final st now rm"
  by (rule final_cong) (simp_all add: close_socket_def)

text \<open>Every copy of the metadata has the stored deadline.\<close>

lemma same_deadline:
  assumes "room_ok rm" and "st_metadata rm = Some s"
  shows "room_metadata rm = Some md \<Longrightarrow> md_transfer_expires_at md = md_transfer_expires_at s"
    and "rm_router rm = Some rt \<Longrightarrow> md_transfer_expires_at (rt_meta rt) = md_transfer_expires_at s"
  using room_okD(1,2) [OF assms(1)] assms(2) by (fastforce dest: binding_fields(4))+

lemma all_in_router:
  assumes "all_in S rm" and "md_state (rt_meta rt) \<in> S"
  shows "all_in S (set_router rt rm)"
  using assms by (auto simp: all_in_def set_router_def room_metadata_def split: option.splits meta_ref.splits)

lemma final_attach:
  assumes ok: "room_ok rm" and fin: "final st now rm" and over: "over st"
    and rt: "rm_router rm = Some rt" and at: "router_attach now p rt = (res, rt1, outp)"
  shows "res = AttachReject" and "final st now (set_router rt1 rm)"
proof -
  have "res = AttachReject \<and> final st now (set_router rt1 rm)"
  proof (cases "md_state (rt_meta rt) = st")
    case True
    with over at have "res = AttachReject" "rt1 = rt" by (auto simp: over_def router_attach_def)
    moreover have "set_router rt rm = rm" using rt by (simp add: set_router_def)
    ultimately show ?thesis using fin by simp
  next
    case False
    then have p: "passed now rm" and ai: "all_in {st, Room_Expired} rm"
      using fin rt by (auto simp: final_def all_in_def)
    then obtain s where s: "st_metadata rm = Some s" "md_transfer_expires_at s \<le> now" by (auto simp: passed_def)
    have exp: "md_transfer_expires_at (rt_meta rt) \<le> now" using same_deadline(2) [OF ok s(1) rt] s(2) by simp
    have "md_state (rt_meta rt) = Room_Expired" using ai rt False by (auto simp: all_in_def)
    with at exp have r: "res = AttachReject" "md_state (rt_meta rt1) = Room_Expired"
      by (auto simp: router_attach_def router_expired_def rt_state_def split: if_splits)
    have "all_in {st, Room_Expired} (set_router rt1 rm)" by (rule all_in_router [OF ai]) (simp add: r)
    moreover have "passed now (set_router rt1 rm)" using p by (simp add: passed_def set_router_def)
    ultimately show ?thesis using r by (simp add: final_def)
  qed
  then show "res = AttachReject" and "final st now (set_router rt1 rm)" by simp_all
qed

lemma final_reattach:
  "reattach_sockets now as rm = (rm', outp) \<Longrightarrow> room_ok rm \<Longrightarrow> final st now rm \<Longrightarrow> over st \<Longrightarrow> final st now rm'"
proof (induction as arbitrary: rm rm' outp)
  case (Cons a as)
  show ?case
  proof (cases "rm_router rm")
    case None
    with Cons.prems show ?thesis by simp
  next
    case (Some rt)
    obtain res rt1 out1 where at: "(if validateTransferAttachment a (room_metadata rm) now
        then router_attach now (socket_peer a) rt else (AttachReject, rt, [])) = (res, rt1, out1)"
      by (cases "if validateTransferAttachment a (room_metadata rm) now
        then router_attach now (socket_peer a) rt else (AttachReject, rt, [])") auto
    let ?rm1 = "set_router rt1 rm"
    have k: "keeps rm ?rm1" and f: "final st now ?rm1" and res: "res = AttachReject"
    proof -
      have "keeps rm ?rm1 \<and> final st now ?rm1 \<and> res = AttachReject"
      proof (cases "validateTransferAttachment a (room_metadata rm) now")
        case True
        with at have "router_attach now (socket_peer a) rt = (res, rt1, out1)" by simp
        then show ?thesis
          using keeps_attach [OF Some] final_attach [OF Cons.prems(2,3,4) Some] by blast
      next
        case False
        with at have "rt1 = rt" "res = AttachReject" by simp_all
        moreover have "set_router rt rm = rm" using Some by (simp add: set_router_def)
        ultimately show ?thesis using Cons.prems(3) by simp
      qed
      then show "keeps rm ?rm1" "final st now ?rm1" "res = AttachReject" by simp_all
    qed
    obtain rm3 out2 where rest: "reattach_sockets now as (close_socket a ?rm1) = (rm3, out2)"
      by (cases "reattach_sockets now as (close_socket a ?rm1)") auto
    have "rm' = rm3" using Cons.prems(1) Some at rest res by (simp add: set_router_def Let_def split: if_splits)
    moreover have "room_ok (close_socket a ?rm1)"
      using keeps_trans [OF k keeps_close] Cons.prems(2) by (simp add: keeps_def)
    ultimately show ?thesis using Cons.IH [OF rest _ _ Cons.prems(4)] f by (simp add: final_close)
  qed
qed simp

text \<open>A room in a final state turns every ticket away, listens to nobody and stays as it is.\<close>

lemma final_over:
  assumes ok: "room_ok rm" and s: "st_metadata rm = Some s" and fin: "final st now rm" and over: "over st"
  shows "room_over now rm"
proof -
  from room_okD(5) [OF ok] s obtain md where md: "room_metadata rm = Some md" by fastforce
  consider "md_state md = st" | "passed now rm" using fin md by (auto simp: final_def all_in_def)
  then show ?thesis
  proof cases
    case 1
    with md over show ?thesis by (auto simp: room_over_def over_def)
  next
    case 2
    with md same_deadline(1) [OF ok s md] s show ?thesis by (auto simp: room_over_def passed_def)
  qed
qed

lemma over_refuses: "room_over now rm \<Longrightarrow> admit_ticket rc now so pid c rm = (410, rm, [])"
  by (simp add: admit_ticket_alt)

lemma advanced_room:
  "room_metadata (advance_epoch md c rm) = Some (md\<lparr>md_epoch := tk_epoch c, md_fence := tk_fence c\<rparr>)"
  "st_metadata (advance_epoch md c rm) = Some (md\<lparr>md_epoch := tk_epoch c, md_fence := tk_fence c\<rparr>)"
  "rm_router (advance_epoch md c rm) = Some (router_new (md\<lparr>md_epoch := tk_epoch c, md_fence := tk_fence c\<rparr>))"
  by (simp_all add: advance_epoch_def Let_def room_metadata_def with_router_def put_metadata_def router_new_def)

lemma all_in_advance: "all_in S (advance_epoch md c rm) \<longleftrightarrow> md_state md \<in> S"
  by (simp add: all_in_def advanced_room router_new_def)

lemma final_fetch_socket:
  assumes ft: "fetch_socket js rc secret now so pid raw rm = (status, rm', outp)"
    and ok: "room_ok rm" and s: "st_metadata rm = Some s" and fin: "final st now rm" and over: "over st"
  shows "final st now rm'"
proof (cases "verifyTransferTicket js rc now secret raw")
  case None
  with ft fin show ?thesis by (simp add: fetch_socket_def)
next
  case (Some c)
  have stays: "admit_ticket rc now so pid c rm = (410, rm, [])"
    by (rule over_refuses [OF final_over [OF ok s fin over]])
  consider (same) "rm' = rm"
    | (advance) md where "room_metadata rm = Some md" "canAdvanceMetadata md c"
        "admit_ticket rc now so pid c (advance_epoch md c rm) = (status, rm', outp)"
    using ft Some stays by (auto simp: fetch_socket_def split: if_splits option.splits transfer_role.splits)
  then show ?thesis
  proof cases
    case same
    with fin show ?thesis by simp
  next
    case advance
    let ?a = "advance_epoch md c rm"
    have "final st now ?a"
      using fin advance(1) same_deadline(1) [OF ok s advance(1)] s
      by (auto simp: final_def all_in_advance passed_def advanced_room) (auto simp: all_in_def)
    moreover have "room_ok ?a" using advance_keeps [OF advance(1,2)] ok by (simp add: keeps_def)
    ultimately have "room_over now ?a" using final_over [OF _ advanced_room(2) _ over] by blast
    with advance(3) have "rm' = ?a" by (simp add: over_refuses)
    with \<open>final st now ?a\<close> show ?thesis by simp
  qed
qed

lemma final_terminal:
  assumes "fetch_terminal js rc secret so req rm = (status, rm')" and fin: "final st now rm" and over: "over st"
  shows "final st now rm'"
  using assms(1)
proof (cases rule: fetch_terminal_cases)
  case refused
  with fin show ?thesis by simp
next
  case (settled md rm1)
  have "md_state md = st" using fin settled(1,3) by (auto simp: final_def all_in_def)
  then have "rm1 = rm" using settled(2,4) over by (auto simp: over_def)
  then have "final st now rm' = final st now rm" using settled(5) by (intro final_cong) simp_all
  with fin show ?thesis by simp
qed

lemma final_message:
  assumes ms: "webSocketMessage js now stored a message rm = (rm', outp)"
    and ok: "room_ok rm" and fin: "final st now rm" and over: "over st"
  shows "final st now rm'"
  using ms
proof (cases rule: message_cases)
  case closed
  with fin show ?thesis by (simp add: final_close)
next
  case rejected
  with final_attach(2) [OF ok fin over rejected(1,2)] show ?thesis by (simp add: final_close)
next
  case (handled raw rt res rt1 out1 r rt2 out2 b outs ss)
  with final_attach(1) [OF ok fin over handled(2,3)] show ?thesis by simp
qed

lemma final_closed:
  assumes fin: "final st now rm"
  shows "final st now (webSocketClose now' a rm)"
proof (cases "rm_router rm")
  case None
  then have "webSocketClose now' a rm = close_socket a rm" by (simp add: webSocketClose_def close_socket_def Let_def)
  with fin show ?thesis by (simp add: final_close)
next
  case (Some rt)
  let ?rt = "router_detach (at_role a) (at_peer_id a) rt"
  have same: "rt_meta ?rt = rt_meta rt" by (simp add: router_detach_def Let_def)
  have ai: "all_in S (set_router ?rt (close_socket a rm))" if "all_in S rm" for S
  proof (rule all_in_router)
    show "all_in S (close_socket a rm)" using that all_in_cong [of "close_socket a rm" rm S] by (simp add: close_socket_def)
    show "md_state (rt_meta ?rt) \<in> S" using that Some same by (simp add: all_in_def)
  qed
  have "passed now (set_router ?rt (close_socket a rm)) = passed now rm"
    by (simp add: passed_def set_router_def close_socket_def)
  with ai fin have f: "final st now (set_router ?rt (close_socket a rm))" by (auto simp: final_def)
  have "webSocketClose now' a rm = set_router ?rt (close_socket a rm) \<or> webSocketClose now' a rm = close_socket a rm"
    using Some by (simp add: webSocketClose_def Let_def close_socket_def)
  then show ?thesis using fin f by (elim disjE) (simp_all add: final_close)
qed

definition dated :: "transfer_room \<Rightarrow> bool" where
  "dated rm \<longleftrightarrow> (\<forall>s. st_metadata rm = Some s \<longrightarrow> 0 < md_transfer_expires_at s)"

text \<open>The alarm either does nothing or finds the deadline passed.\<close>

lemma alarm_cases:
  assumes ok: "room_ok rm"
  obtains (early) "room_alarm now so rm = rm"
  | (late) s md where "st_metadata rm = Some s" "md_transfer_expires_at s \<le> now" "room_metadata rm = Some md"
      "room_metadata (room_alarm now so rm) = Some (md\<lparr>md_state := Room_Expired\<rparr>)"
      "st_metadata (room_alarm now so rm) = (if so_metadata so then Some (md\<lparr>md_state := Room_Expired\<rparr>) else Some s)"
      "rm_router (room_alarm now so rm) = rm_router rm \<or> rm_router (room_alarm now so rm) = map_option (rt_state Room_Expired) (rm_router rm)"
proof (cases "\<exists>md. room_metadata rm = Some md \<and> \<not> md_transfer_expires_at md > now")
  case False
  then have "room_alarm now so rm = rm" by (auto simp: room_alarm_def split: option.splits)
  then show ?thesis by (rule early)
next
  case True
  then obtain md where md: "room_metadata rm = Some md" "\<not> md_transfer_expires_at md > now" by blast
  from room_okD(1) [OF ok md(1)] obtain s where s: "st_metadata rm = Some s" by blast
  have e: "md_transfer_expires_at s \<le> now" using same_deadline(1) [OF ok s md(1)] md(2) by simp
  let ?rm1 = "expire_metadata rm" and ?rm' = "room_alarm now so rm"
  have m1: "room_metadata ?rm1 = Some (md\<lparr>md_state := Room_Expired\<rparr>)"
    using md(1) by (auto simp: expire_metadata_def room_metadata_def rt_state_def split: option.splits meta_ref.splits)
  have r1: "rm_router ?rm1 = rm_router rm \<or> rm_router ?rm1 = map_option (rt_state Room_Expired) (rm_router rm)"
    "st_metadata ?rm1 = st_metadata rm"
    by (auto simp: expire_metadata_def split: option.splits meta_ref.splits)
  have f: "rm_router ?rm' = rm_router ?rm1" "rm_meta ?rm' = rm_meta ?rm1"
    "st_metadata ?rm' = (if so_metadata so then Some (md\<lparr>md_state := Room_Expired\<rparr>) else Some s)"
    using md m1 r1(2) s by (simp_all add: room_alarm_def Let_def)
  have m': "room_metadata ?rm' = Some (md\<lparr>md_state := Room_Expired\<rparr>)" using m1 room_metadata_cong [OF f(2,1)] by simp
  have "rm_router ?rm' = rm_router rm \<or> rm_router ?rm' = map_option (rt_state Room_Expired) (rm_router rm)"
    using r1(1) unfolding f(1) .
  then show ?thesis by (rule late [OF s e md(1) m' f(3)])
qed

lemma final_alarm:
  assumes ok: "room_ok rm" and dt: "dated rm" and fin: "final st now rm"
  shows "final st now (room_alarm now so rm)"
  using ok
proof (cases rule: alarm_cases [of rm now so])
  case early
  with fin show ?thesis by simp
next
  case (late s md)
  have "0 < md_transfer_expires_at s" "md_transfer_expires_at md = md_transfer_expires_at s"
    using dt late(1) same_deadline(1) [OF ok late(1,3)] by (auto simp: dated_def)
  then have "passed now (room_alarm now so rm)" using late(2,5) by (simp add: passed_def)
  moreover have "md_state s \<in> {st, Room_Expired}" using fin late(1) by (auto simp: final_def all_in_def)
  moreover have "md_state (rt_meta rt) \<in> {st, Room_Expired}" if "rm_router (room_alarm now so rm) = Some rt" for rt
  proof (cases "rm_router (room_alarm now so rm) = rm_router rm")
    case True
    with that fin show ?thesis by (auto simp: final_def all_in_def)
  next
    case False
    with late(6) that show ?thesis by (cases "rm_router rm") (auto simp: rt_state_def)
  qed
  ultimately have "all_in {st, Room_Expired} (room_alarm now so rm)" using late(4,5) by (simp add: all_in_def)
  with \<open>passed now (room_alarm now so rm)\<close> show ?thesis by (simp add: final_def)
qed

text \<open>Waking up: what storage says is all that counts.\<close>

lemma restore_cases:
  assumes "room_restore now rm = (rm', outp)"
  obtains (failed) "rm' = rm\<lparr>rm_meta := map_option OwnMeta (st_metadata rm), rm_router := None, rm_consumed := [], rm_failed := True\<rparr>"
  | (empty) "st_metadata rm = None"
      "rm' = rm\<lparr>rm_meta := None, rm_router := None, rm_failed := False,
                rm_consumed := filter (\<lambda>e. snd e > now) (case st_tickets rm of None \<Rightarrow> [] | Some es \<Rightarrow> es)\<rparr>"
  | (awake) m where "st_metadata rm = Some m"
      "reattach_sockets now (rm_sockets rm)
         (with_router m (rm\<lparr>rm_meta := Some (OwnMeta m), rm_router := None, rm_failed := False,
            rm_consumed := filter (\<lambda>e. snd e > now) (case st_tickets rm of None \<Rightarrow> [] | Some es \<Rightarrow> es)\<rparr>)) = (rm', outp)"
proof -
  let ?es = "case st_tickets rm of None \<Rightarrow> [] | Some es \<Rightarrow> es"
  let ?bad = "length ?es > MAX_TICKET_REPLAYS \<or> \<not> list_all (ledger_entry_ok now) ?es"
  consider ?bad | "\<not> ?bad" "st_metadata rm = None" | m where "\<not> ?bad" "st_metadata rm = Some m"
    by (cases "st_metadata rm") auto
  then show thesis
  proof cases
    case 1
    with assms have "rm' = rm\<lparr>rm_meta := map_option OwnMeta (st_metadata rm), rm_router := None, rm_consumed := [], rm_failed := False\<rparr>\<lparr>rm_failed := True\<rparr>"
      by (simp only: room_restore_def Let_def if_True prod.inject)
    then show ?thesis by (intro failed) simp
  next
    case 2
    with assms have "rm' = rm\<lparr>rm_meta := map_option OwnMeta (st_metadata rm), rm_router := None, rm_consumed := [], rm_failed := False\<rparr>
        \<lparr>rm_consumed := filter (\<lambda>e. snd e > now) ?es\<rparr>"
      by (simp only: room_restore_def Let_def if_False option.case prod.inject)
    with 2(2) show ?thesis by (intro empty) simp_all
  next
    case (3 m)
    with assms have "reattach_sockets now (rm_sockets rm)
        (with_router m (rm\<lparr>rm_meta := map_option OwnMeta (st_metadata rm), rm_router := None, rm_consumed := [], rm_failed := False\<rparr>
        \<lparr>rm_consumed := filter (\<lambda>e. snd e > now) ?es\<rparr>)) = (rm', outp)"
      by (simp only: room_restore_def Let_def if_False option.case)
    with 3(2) show ?thesis by (intro awake [OF 3(2)]) simp
  qed
qed

lemma woken_ok:
  assumes "room_ok rm" and "st_metadata rm = Some m" and "st_metadata rm0 = Some m"
  shows "room_ok (with_router m rm0)"
  using room_okD(4) [OF assms(1,2)] assms(3)
  by (simp add: room_ok_def room_metadata_def with_router_def router_new_def)

lemma final_restore:
  assumes rs: "room_restore now rm = (rm', outp)" and ok: "room_ok rm" and fin: "final st now rm" and over: "over st"
  shows "final st now rm'"
  using rs
proof (cases rule: restore_cases)
  case failed
  with fin show ?thesis
    by (auto simp: final_def all_in_def room_metadata_def passed_def split: option.splits)
next
  case empty
  then show ?thesis by (simp add: final_def all_in_def room_metadata_def)
next
  case (awake m)
  let ?rm0 = "rm\<lparr>rm_meta := Some (OwnMeta m), rm_router := None, rm_failed := False,
            rm_consumed := filter (\<lambda>e. snd e > now) (case st_tickets rm of None \<Rightarrow> [] | Some es \<Rightarrow> es)\<rparr>"
  have "final st now (with_router m ?rm0)"
    using fin awake(1) by (auto simp: final_def all_in_def passed_def room_metadata_def with_router_def router_new_def)
  moreover have "room_ok (with_router m ?rm0)" by (rule woken_ok [OF ok awake(1)]) (simp add: awake(1))
  ultimately show ?thesis using final_reattach [OF awake(2) _ _ over] by blast
qed

lemma final_step:
  assumes st: "room_step rs now so e rm = (status, rm', outp)"
    and ok: "room_ok rm" and dt: "dated rm" and s: "st_metadata rm = Some s" and fin: "final z now rm" and over: "over z"
  shows "final z now rm'"
proof (cases e)
  case (Upgrade q pid raw)
  then have "rm' = rm \<or> fetch_socket (rs_js rs) (rs_crypto rs) (rs_secret rs) now so pid raw rm = (status, rm', outp)"
    using st by (auto split: if_splits)
  then show ?thesis using final_fetch_socket [OF _ ok s fin over] fin by blast
next
  case (Terminal q req)
  then have "rm' = rm \<or> (\<exists>z. fetch_terminal (rs_js rs) (rs_crypto rs) (rs_secret rs) so req rm = (z, rm'))"
    using st by (auto split: if_splits prod.splits)
  then show ?thesis using final_terminal [OF _ fin over] fin by blast
next
  case (Message a message stored)
  then have "rm' = rm \<or> webSocketMessage (rs_js rs) now stored a message rm = (rm', outp)"
    using st by (auto split: if_splits prod.splits)
  then show ?thesis using final_message [OF _ ok fin over] fin by blast
next
  case (Closed a)
  then have "rm' = rm \<or> rm' = webSocketClose now a rm" using st by (auto split: if_splits)
  then show ?thesis using final_closed [OF fin] fin by blast
next
  case Alarm
  then have "rm' = rm \<or> rm' = room_alarm now so rm" using st by (auto split: if_splits)
  then show ?thesis using final_alarm [OF ok dt fin] fin by blast
next
  case Wake
  then have "room_restore now rm = (rm', outp)" using st by (auto split: prod.splits)
  then show ?thesis by (rule final_restore [OF _ ok fin over])
qed

text \<open>What can be stored by an event, and what the room looks like then.\<close>

lemma reattach_fields:
  "reattach_sockets now as rm = (rm', outp) \<Longrightarrow>
   st_metadata rm' = st_metadata rm \<and> st_tickets rm' = st_tickets rm \<and> rm_consumed rm' = rm_consumed rm \<and> rm_failed rm' = rm_failed rm"
proof (induction as arbitrary: rm rm' outp)
  case (Cons a as)
  then show ?case
    by (auto simp: close_socket_def Let_def split: option.splits prod.splits if_splits dest!: Cons.IH)
qed simp

lemma admit_socket_fields:
  assumes "admit_socket now pid c rm = (status, rm', outp)"
  shows "st_metadata rm' = st_metadata rm \<and> st_tickets rm' = st_tickets rm \<and> rm_consumed rm' = rm_consumed rm \<and> rm_failed rm' = rm_failed rm"
  using assms by (auto simp: admit_socket_def Let_def close_socket_def split: option.splits prod.splits if_splits)

lemma fetch_socket_cases:
  assumes ft: "fetch_socket js rc secret now so pid raw rm = (status, rm', outp)"
  obtains (same) "rm' = rm" "status \<noteq> 101"
  | (admit) c key where "verifyTransferTicket js rc now secret raw = Some c" "claims_valid now key c"
      "\<And>md. room_metadata rm = Some md \<Longrightarrow> sameMetadata md c" "admit_ticket rc now so pid c rm = (status, rm', outp)"
  | (advance) c key md where "verifyTransferTicket js rc now secret raw = Some c" "claims_valid now key c"
      "room_metadata rm = Some md" "canAdvanceMetadata md c"
      "admit_ticket rc now so pid c (advance_epoch md c rm) = (status, rm', outp)"
proof (cases "verifyTransferTicket js rc now secret raw")
  case None
  with ft same show ?thesis by (simp add: fetch_socket_def)
next
  case (Some c)
  from verified_claims [OF Some] obtain key where v: "claims_valid now key c" by blast
  have exp: "\<not> tk_ticket_exp c \<le> now" using v by (simp add: claims_valid_def)
  show ?thesis
  proof (cases "room_metadata rm")
    case None
    then show ?thesis
      using ft Some exp same admit [OF Some v] by (auto simp: fetch_socket_def split: if_splits transfer_role.splits)
  next
    case md: (Some md)
    then show ?thesis
      using ft Some exp same admit [OF Some v] advance [OF Some v md]
      by (auto simp: fetch_socket_def split: if_splits transfer_role.splits)
  qed
qed

lemma stored_by_admit:
  assumes "admit_ticket rc now so pid c rm = (status, rm', outp)"
  shows "st_metadata rm' = st_metadata rm \<or> room_metadata rm = None \<and> st_metadata rm' = Some (metadataFor c)"
proof -
  obtain r rm1 where co: "room_consume rc now (so_tickets so) c rm = (r, rm1)"
    by (cases "room_consume rc now (so_tickets so) c rm") auto
  note same = consume_keeps [OF co]
  have m: "room_metadata rm1 = room_metadata rm" by (rule room_metadata_cong [OF same(1,2)])
  from assms co show ?thesis
  proof (cases rule: admit_ticket_cases)
    case old
    then show ?thesis using admit_socket_fields [OF old(4)] same(3) by simp
  next
    case half
    then show ?thesis using m by (simp add: put_metadata_def)
  next
    case new
    then show ?thesis using m admit_socket_fields [OF new(4)] by (simp add: put_metadata_def with_router_def)
  qed (simp_all add: same)
qed

lemma stored_step:
  assumes st: "room_step rs now so e rm = (status, rm', outp)" and ok: "room_ok rm"
    and before: "\<And>s. st_metadata rm = Some s \<Longrightarrow> \<not> over (md_state s)"
    and after: "st_metadata rm' = Some s'" "over (md_state s')"
  shows "all_in {md_state s'} rm'"
proof -
  have same: "st_metadata rm' \<noteq> st_metadata rm" using before after by auto
  show ?thesis
  proof (cases e)
    case (Upgrade q pid raw)
    then have ft: "fetch_socket (rs_js rs) (rs_crypto rs) (rs_secret rs) now so pid raw rm = (status, rm', outp)"
      using st same by (auto split: if_splits)
    then show ?thesis
    proof (cases rule: fetch_socket_cases)
      case same
      with \<open>st_metadata rm' \<noteq> st_metadata rm\<close> show ?thesis by simp
    next
      case (admit c key)
      from stored_by_admit [OF admit(4)] same after show ?thesis by (auto simp: metadataFor_def over_def)
    next
      case (advance c key md)
      let ?a = "advance_epoch md c rm"
      from stored_by_admit [OF advance(5)] have s': "st_metadata rm' = st_metadata ?a" by (auto simp: advanced_room)
      then have z: "md_state md = md_state s'" using after(1) by (auto simp: advanced_room)
      then have "room_over now ?a" using after(2) by (auto simp: room_over_def advanced_room over_def)
      with advance(5) have "rm' = ?a" by (simp add: over_refuses)
      then show ?thesis using z by (simp add: all_in_advance)
    qed
  next
    case (Terminal q req)
    then obtain z where "fetch_terminal (rs_js rs) (rs_crypto rs) (rs_secret rs) so req rm = (z, rm')"
      using st same by (auto split: if_splits prod.splits)
    then show ?thesis
    proof (cases rule: fetch_terminal_cases)
      case refused
      with same show ?thesis by simp
    next
      case (settled md rm1)
      let ?m = "md\<lparr>md_state := Room_Completed\<rparr>"
      have st1: "st_metadata rm' = st_metadata rm1" "rm_meta rm' = rm_meta rm1" "rm_router rm' = rm_router rm1"
        using settled(5) by simp_all
      have rm1: "rm1 = with_router ?m (put_metadata ?m rm)" using settled(4) same st1(1) by (auto split: if_splits)
      then have "all_in {Room_Completed} rm1"
        by (simp add: all_in_def room_metadata_def with_router_def put_metadata_def router_new_def)
      moreover have "md_state s' = Room_Completed"
        using after(1) st1(1) rm1 by (auto simp: with_router_def put_metadata_def)
      ultimately show ?thesis using all_in_cong [OF st1(2,3,1)] by simp
    qed
  next
    case (Message a message stored)
    then have "webSocketMessage (rs_js rs) now stored a message rm = (rm', outp)"
      using st same by (auto split: if_splits prod.splits)
    then show ?thesis
    proof (cases rule: message_cases)
      case closed
      with same show ?thesis by (simp add: close_socket_def)
    next
      case rejected
      with same show ?thesis by (simp add: close_socket_def set_router_def)
    next
      case (handled raw rt res rt1 out1 r rt2 out2 b outs ss)
      have "handles rt1 (r, rt2, out2, b)"
        using handles_handle [of rt1 "rs_js rs" now stored "socket_peer a" raw] handled(5) by simp
      moreover have "\<exists>m. b = Stored m"
        using same handled(6) by (cases b) (auto simp: after_barrier_def set_router_def split: if_splits)
      ultimately have b: "b = Stored (rt_meta rt2)" by (auto elim: handles.cases)
      with handled(6) after(1) show ?thesis
        by (auto simp: all_in_def room_metadata_def after_barrier_def set_router_def put_metadata_def)
    qed
  next
    case (Closed a)
    have "st_metadata (webSocketClose now a rm) = st_metadata rm"
      by (simp add: webSocketClose_def Let_def close_socket_def set_router_def split: option.splits)
    with Closed st same show ?thesis by (auto split: if_splits)
  next
    case Alarm
    then have "rm' = room_alarm now so rm" using st same by (auto split: if_splits)
    with ok show ?thesis
    proof (cases rule: alarm_cases [of rm now so])
      case early
      with same \<open>rm' = room_alarm now so rm\<close> show ?thesis by simp
    next
      case (late s md)
      with \<open>rm' = room_alarm now so rm\<close> same after show ?thesis by (auto simp: over_def split: if_splits)
    qed
  next
    case Wake
    then have "room_restore now rm = (rm', outp)" using st by (auto split: prod.splits)
    then have "st_metadata rm' = st_metadata rm"
      by (cases rule: restore_cases) (auto dest!: reattach_fields simp: with_router_def)
    with same show ?thesis by simp
  qed
qed

lemma created_step:
  assumes st: "room_step rs now so e rm = (status, rm', outp)" and ok: "room_ok rm" and none: "st_metadata rm = None"
    and some: "st_metadata rm' = Some s'"
  shows "\<exists>key c. claims_valid now key c \<and> s' = metadataFor c"
proof -
  have no: "room_metadata rm = None" using room_okD(1) [OF ok] none by fastforce
  have nr: "rm_router rm = None" by (rule no_metadata_no_router [OF ok no])
  show ?thesis
  proof (cases e)
    case (Upgrade q pid raw)
    then have ft: "fetch_socket (rs_js rs) (rs_crypto rs) (rs_secret rs) now so pid raw rm = (status, rm', outp)"
      using st none some by (auto split: if_splits)
    then show ?thesis
    proof (cases rule: fetch_socket_cases)
      case (admit c key)
      with stored_by_admit [OF admit(4)] none some show ?thesis by auto
    qed (use none some no in simp_all)
  next
    case (Terminal q req)
    then have "rm' = rm \<or> (\<exists>z. fetch_terminal (rs_js rs) (rs_crypto rs) (rs_secret rs) so req rm = (z, rm'))"
      using st by (auto split: if_splits prod.splits)
    then show ?thesis using none some no by (auto elim: fetch_terminal_cases)
  next
    case (Message a message stored)
    then have "rm' = rm \<or> rm' = close_socket a rm"
      using st nr by (auto simp: webSocketMessage_def split: if_splits prod.splits option.splits)
    then show ?thesis using none some by (auto simp: close_socket_def)
  next
    case (Closed a)
    then have "rm' = rm \<or> rm' = close_socket a rm"
      using st nr by (auto simp: webSocketClose_def close_socket_def Let_def split: if_splits)
    then show ?thesis using none some by (auto simp: close_socket_def)
  next
    case Alarm
    then show ?thesis using st none some no by (auto simp: room_alarm_def split: if_splits)
  next
    case Wake
    then have "room_restore now rm = (rm', outp)" using st by (auto split: prod.splits)
    then have "st_metadata rm' = st_metadata rm"
      by (cases rule: restore_cases) (auto dest!: reattach_fields simp: with_router_def)
    with none some show ?thesis by simp
  qed
qed

lemma deadline_kept:
  assumes "forward rm rm'" and "st_metadata rm = Some s" and "st_metadata rm' = Some s'"
  shows "md_transfer_expires_at s' = md_transfer_expires_at s"
proof -
  have "plan_of s' = plan_of s" using assms by (auto simp: forward_def moves_def)
  then have "md_transfer_expires_at (plan_of s') = md_transfer_expires_at (plan_of s)" by simp
  then show ?thesis by (simp add: plan_of_def binding_def)
qed

lemma dated_step:
  assumes st: "room_step rs now so e rm = (status, rm', outp)" and ok: "room_ok rm" and dt: "dated rm" and now: "0 \<le> now"
  shows "dated rm'"
  unfolding dated_def
proof (intro allI impI)
  fix s' assume s': "st_metadata rm' = Some s'"
  show "0 < md_transfer_expires_at s'"
  proof (cases "st_metadata rm")
    case None
    from created_step [OF st ok None s'] now show ?thesis by (auto simp: claims_valid_def metadataFor_def)
  next
    case (Some s)
    from step_keeps [OF st ok] have "forward rm rm'" by simp
    from deadline_kept [OF this Some s'] dt Some show ?thesis by (simp add: dated_def)
  qed
qed

section \<open>Runs under a clock\<close>

text \<open>A tick is the time that passes before an event, and the event.\<close>

type_synonym tick = "nat \<times> storage_outcome \<times> room_event"

definition clocked :: "room_setting \<Rightarrow> transfer_room \<times> nat \<Rightarrow> tick \<Rightarrow> transfer_room \<times> nat" where
  "clocked rs = (\<lambda>(rm, t) (dt, so, e). (room_exec rs rm (int (t + dt), so, e), t + dt))"

definition linked :: "transfer_room \<times> nat \<Rightarrow> bool" where
  "linked = (\<lambda>(rm, t). room_ok rm \<and> dated rm
     \<and> (\<forall>s. st_metadata rm = Some s \<and> over (md_state s) \<longrightarrow> final (md_state s) (int t) rm))"

lemma linked_empty: "linked (room_empty, t)"
  using room_ok_empty by (simp add: linked_def dated_def) (simp add: room_empty_def)

lemma linked_clocked:
  assumes "linked (rm, t)"
  shows "linked (clocked rs (rm, t) (dt, so, e))"
proof -
  obtain status rm' outp where st: "room_step rs (int (t + dt)) so e rm = (status, rm', outp)"
    by (cases "room_step rs (int (t + dt)) so e rm") auto
  have c: "clocked rs (rm, t) (dt, so, e) = (rm', t + dt)" using st by (simp add: clocked_def room_exec_def)
  have ok: "room_ok rm" "dated rm" using assms by (simp_all add: linked_def)
  have "final (md_state s') (int (t + dt)) rm'" if s': "st_metadata rm' = Some s'" "over (md_state s')" for s'
  proof (cases "\<exists>s. st_metadata rm = Some s \<and> over (md_state s)")
    case True
    then obtain s where s: "st_metadata rm = Some s" "over (md_state s)" by blast
    then have "final (md_state s) (int t) rm" using assms by (simp add: linked_def)
    then have "final (md_state s) (int (t + dt)) rm" by (rule final_later) simp
    from final_step [OF st ok s(1) this s(2)] have f: "final (md_state s) (int (t + dt)) rm'" .
    then have "md_state s' = md_state s" using s' by (auto simp: final_def all_in_def over_def)
    with f show ?thesis by simp
  next
    case False
    then have "all_in {md_state s'} rm'" using stored_step [OF st ok(1) _ s'] by blast
    then show ?thesis by (simp add: final_def)
  qed
  moreover have "room_ok rm'" using step_keeps [OF st ok(1)] by simp
  moreover have "dated rm'" by (rule dated_step [OF st ok]) simp
  ultimately show ?thesis unfolding c by (simp add: linked_def)
qed

lemma linked_run: "linked m \<Longrightarrow> linked (foldl (clocked rs) m ticks)"
proof (induction ticks arbitrary: m)
  case (Cons x xs)
  have "linked (clocked rs m x)" using linked_clocked Cons.prems by (cases m, cases x) auto
  with Cons.IH show ?case by simp
qed simp

section \<open>Tickets work once\<close>

text \<open>An event whose persistence barrier, if it has one, succeeds.\<close>

fun barrier_holds :: "tick \<Rightarrow> bool" where
  "barrier_holds (dt, so, Message a message stored) = stored"
| "barrier_holds _ = True"

lemma barrier_outcomes:
  assumes "router_handle js now True p raw rt = (r, rt', outp, b)"
  shows "b \<noteq> Lost m"
  using assms
  by (auto simp: router_handle_def dispatch_frame_def refuse_def room_chunk_def room_ack_def room_finish_def
      room_finish_ack_def room_cancel_def barrier_def Let_def
      split: if_splits option.splits json.splits prod.splits)

lemma quiet_never_completes:
  assumes "router_handle js now stored p raw rt = (r, rt', outp, NoBarrier)" and "md_state (rt_meta rt') = Room_Completed"
  shows "md_state (rt_meta rt) = Room_Completed"
  using assms
  by (auto simp: router_handle_def dispatch_frame_def refuse_def room_chunk_def room_ack_def room_finish_def
      room_finish_ack_def room_cancel_def barrier_def Let_def router_expired_def rt_state_def
      split: if_splits option.splits json.splits prod.splits)

definition mem_completed :: "transfer_room \<Rightarrow> bool" where
  "mem_completed rm \<longleftrightarrow> (\<exists>md. room_metadata rm = Some md \<and> md_state md = Room_Completed)"

lemma attach_mem:
  assumes rt: "rm_router rm = Some rt" and at: "router_attach now p rt = (res, rt1, outp)"
  shows "mem_completed (set_router rt1 rm) \<Longrightarrow> mem_completed rm"
  using attach_keeps(1) [OF at] rt
  by (auto simp: mem_completed_def room_metadata_def set_router_def split: option.splits meta_ref.splits)

lemma mem_completed_cong:
  assumes "rm_meta rm' = rm_meta rm" "rm_router rm' = rm_router rm"
  shows "mem_completed rm' = mem_completed rm"
  unfolding mem_completed_def room_metadata_cong [OF assms] by (rule refl)

lemma admit_socket_mem:
  assumes "admit_socket now pid c rm = (status, rm', outp)"
  shows "mem_completed rm' \<Longrightarrow> mem_completed rm"
proof -
  let ?a = "attachment_for pid c"
  let ?rm1 = "rm\<lparr>rm_sockets := rm_sockets rm @ [?a]\<rparr>"
  assume mem: "mem_completed rm'"
  have c1: "mem_completed ?rm1 = mem_completed rm" by (rule mem_completed_cong) simp_all
  show "mem_completed rm"
  proof (cases "rm_router rm")
    case None
    with assms mem c1 show ?thesis by (simp add: admit_socket_def)
  next
    case (Some rt)
    obtain res rt1 out1 where at: "router_attach now (socket_peer ?a) rt = (res, rt1, out1)"
      by (cases "router_attach now (socket_peer ?a) rt") auto
    have "rm' = (if res = AttachReject then close_socket ?a (set_router rt1 ?rm1) else set_router rt1 ?rm1)"
      using assms Some at by (auto simp: admit_socket_def Let_def set_router_def split: if_splits)
    then have "mem_completed (set_router rt1 ?rm1)"
      using mem mem_completed_cong [of "close_socket ?a (set_router rt1 ?rm1)" "set_router rt1 ?rm1"]
      by (auto simp: close_socket_def split: if_splits)
    then have "mem_completed ?rm1" by (rule attach_mem [OF _ at, rotated]) (simp add: Some)
    with c1 show ?thesis by simp
  qed
qed

lemma admit_ticket_mem:
  assumes ad: "admit_ticket rc now so pid c rm = (status, rm', outp)"
  shows "mem_completed rm' \<Longrightarrow> mem_completed rm"
proof -
  assume mem: "mem_completed rm'"
  obtain r rm1 where co: "room_consume rc now (so_tickets so) c rm = (r, rm1)"
    by (cases "room_consume rc now (so_tickets so) c rm") auto
  have c1: "mem_completed rm1 = mem_completed rm" by (rule mem_completed_cong [OF consume_keeps(1,2) [OF co]])
  from ad co show "mem_completed rm"
  proof (cases rule: admit_ticket_cases)
    case old
    with admit_socket_mem [OF old(4) mem] c1 show ?thesis by simp
  next
    case half
    with mem show ?thesis by (simp add: mem_completed_def put_metadata_def room_metadata_def metadataFor_def)
  next
    case new
    from admit_socket_mem [OF new(4) mem] show ?thesis
      by (simp add: mem_completed_def with_router_def put_metadata_def room_metadata_def router_new_def metadataFor_def)
  qed (use mem c1 in simp_all)
qed

lemma reattach_mem: "reattach_sockets now as rm = (rm', outp) \<Longrightarrow> mem_completed rm' \<Longrightarrow> mem_completed rm"
proof (induction as arbitrary: rm rm' outp)
  case (Cons a as)
  show ?case
  proof (cases "rm_router rm")
    case None
    with Cons.prems show ?thesis by simp
  next
    case (Some rt)
    obtain res rt1 out1 where at: "(if validateTransferAttachment a (room_metadata rm) now
        then router_attach now (socket_peer a) rt else (AttachReject, rt, [])) = (res, rt1, out1)"
      by (cases "if validateTransferAttachment a (room_metadata rm) now
        then router_attach now (socket_peer a) rt else (AttachReject, rt, [])") auto
    let ?rm1 = "set_router rt1 rm"
    let ?rm2 = "if res = AttachReject then close_socket a ?rm1 else ?rm1"
    obtain rm3 out2 where rest: "reattach_sockets now as ?rm2 = (rm3, out2)" by (cases "reattach_sockets now as ?rm2") auto
    have "rm' = rm3" using Cons.prems(1) Some at rest by (simp add: set_router_def Let_def split: if_splits)
    with Cons.IH [OF rest] Cons.prems(2) have "mem_completed ?rm2" by simp
    then have "mem_completed ?rm1"
      using mem_completed_cong [of "close_socket a ?rm1" ?rm1] by (auto simp: close_socket_def split: if_splits)
    then show ?thesis
    proof (cases "validateTransferAttachment a (room_metadata rm) now")
      case True
      with at have "router_attach now (socket_peer a) rt = (res, rt1, out1)" by simp
      from attach_mem [OF Some this \<open>mem_completed ?rm1\<close>] show ?thesis .
    next
      case False
      with at Some have "?rm1 = rm" by (simp add: set_router_def)
      with \<open>mem_completed ?rm1\<close> show ?thesis by simp
    qed
  qed
qed simp

text \<open>Where a completed room comes from, when the barriers hold.\<close>

lemma completed_step:
  assumes st: "room_step rs now so e rm = (status, rm', outp)" and ok: "room_ok rm" and holds: "barrier_holds (dt, so, e)"
    and new: "mem_completed rm'" and old: "\<not> mem_completed rm"
    and before: "\<And>s. st_metadata rm = Some s \<Longrightarrow> md_state s \<noteq> Room_Completed"
  shows "all_in {Room_Completed} rm'"
proof -
  have ne: "rm' \<noteq> rm" using new old by auto
  show ?thesis
  proof (cases e)
    case (Upgrade q pid raw)
    then have ft: "fetch_socket (rs_js rs) (rs_crypto rs) (rs_secret rs) now so pid raw rm = (status, rm', outp)"
      using st ne by (auto split: if_splits)
    then show ?thesis
    proof (cases rule: fetch_socket_cases)
      case same
      with ne show ?thesis by simp
    next
      case (admit c key)
      from admit_ticket_mem [OF admit(4) new] old show ?thesis by simp
    next
      case (advance c key md)
      from admit_ticket_mem [OF advance(5) new] advance(3) old show ?thesis
        by (auto simp: mem_completed_def advanced_room)
    qed
  next
    case (Terminal q req)
    then obtain z where "fetch_terminal (rs_js rs) (rs_crypto rs) (rs_secret rs) so req rm = (z, rm')"
      using st ne by (auto split: if_splits prod.splits)
    then show ?thesis
    proof (cases rule: fetch_terminal_cases)
      case refused
      with ne show ?thesis by simp
    next
      case (settled md rm1)
      let ?m = "md\<lparr>md_state := Room_Completed\<rparr>"
      have "rm1 = with_router ?m (put_metadata ?m rm)" using settled(1,4) old by (auto simp: mem_completed_def split: if_splits)
      then have "all_in {Room_Completed} rm1"
        by (simp add: all_in_def room_metadata_def with_router_def put_metadata_def router_new_def)
      moreover have "all_in {Room_Completed} rm' = all_in {Room_Completed} rm1"
        using settled(5) by (intro all_in_cong) simp_all
      ultimately show ?thesis by simp
    qed
  next
    case (Message a message stored)
    then have "webSocketMessage (rs_js rs) now True a message rm = (rm', outp)"
      using st ne holds by (auto split: if_splits prod.splits)
    then show ?thesis
    proof (cases rule: message_cases)
      case closed
      then show ?thesis using new old mem_completed_cong [of rm' rm] by (simp add: close_socket_def)
    next
      case (rejected rt rt1)
      then show ?thesis
        using new old mem_completed_cong [of rm' "set_router rt1 rm"] attach_mem [OF rejected(1,2)] by (simp add: close_socket_def)
    next
      case (handled raw rt res rt1 out1 r rt2 out2 b outs ss)
      have old1: "\<not> mem_completed (set_router rt1 rm)" using attach_mem [OF handled(2,3)] old by blast
      show ?thesis
      proof (cases b)
        case NoBarrier
        let ?rm2 = "set_router rt2 (set_router rt1 rm)"
        have "mem_completed rm' = mem_completed ?rm2"
          using handled(6) NoBarrier by (intro mem_completed_cong) (simp_all add: after_barrier_def)
        then have "mem_completed (set_router rt1 rm)"
          using new quiet_never_completes [OF handled(5) [unfolded NoBarrier]]
          by (auto simp: mem_completed_def room_metadata_def set_router_def split: option.splits meta_ref.splits)
        with old1 show ?thesis by simp
      next
        case (Stored m)
        have "handles rt1 (r, rt2, out2, b)"
          using handles_handle [of rt1 "rs_js rs" now True "socket_peer a" raw] handled(5) by simp
        then have m: "m = rt_meta rt2" using Stored by (auto elim: handles.cases)
        have rm': "room_metadata rm' = Some m" "st_metadata rm' = Some m" "rm_router rm' = Some rt2"
          using handled(6) Stored by (simp_all add: room_metadata_def after_barrier_def set_router_def put_metadata_def)
        with new m show ?thesis by (simp add: all_in_def mem_completed_def)
      next
        case (Lost m)
        with barrier_outcomes [OF handled(5), of m] show ?thesis by simp
      qed
    qed
  next
    case (Closed a)
    then have rm': "rm' = webSocketClose now a rm" using st ne by (auto split: if_splits)
    have "mem_completed rm"
    proof (cases "rm_router rm")
      case None
      with rm' new mem_completed_cong [of rm' rm] show ?thesis by (simp add: webSocketClose_def close_socket_def Let_def)
    next
      case (Some rt)
      have "rt_meta (router_detach x y rt) = rt_meta rt" for x y by (simp add: router_detach_def Let_def)
      with Some rm' new show ?thesis
        by (auto simp: webSocketClose_def close_socket_def Let_def mem_completed_def room_metadata_def set_router_def
            split: if_splits option.splits meta_ref.splits)
    qed
    with old show ?thesis by simp
  next
    case Alarm
    then have rm': "rm' = room_alarm now so rm" using st ne by (auto split: if_splits)
    from ok show ?thesis
    proof (cases rule: alarm_cases [of rm now so])
      case early
      with rm' ne show ?thesis by simp
    next
      case (late s md)
      with rm' new show ?thesis by (simp add: mem_completed_def)
    qed
  next
    case Wake
    then have "room_restore now rm = (rm', outp)" using st by (auto split: prod.splits)
    then show ?thesis
    proof (cases rule: restore_cases)
      case failed
      with new before show ?thesis by (cases "st_metadata rm") (auto simp: mem_completed_def room_metadata_def)
    next
      case empty
      with new show ?thesis by (simp add: mem_completed_def room_metadata_def)
    next
      case (awake m)
      have "\<not> mem_completed (with_router m rm0)" for rm0
        using before [OF awake(1)] by (simp add: mem_completed_def with_router_def room_metadata_def router_new_def)
      moreover have "mem_completed rm3 \<Longrightarrow> mem_completed rm2" if "reattach_sockets now as rm2 = (rm3, o3)" for as rm2 rm3 o3
        using that by (rule reattach_mem)
      ultimately show ?thesis using awake(2) new by blast
    qed
  qed
qed

definition synced :: "transfer_room \<times> nat \<Rightarrow> bool" where
  "synced = (\<lambda>(rm, t). linked (rm, t) \<and> (mem_completed rm \<longrightarrow> final Room_Completed (int t) rm))"

lemma synced_empty: "synced (room_empty, t)"
  using linked_empty by (simp add: synced_def mem_completed_def room_metadata_def room_empty_def)

lemma completed_is_over: "over Room_Completed"
  by (simp add: over_def)

lemma mem_has_stored: "room_ok rm \<Longrightarrow> room_metadata rm = Some md \<Longrightarrow> \<exists>s. st_metadata rm = Some s"
  using room_okD(1) by blast

lemma final_completed_step:
  assumes st: "room_step rs (int (t + dt)) so e rm = (status, rm', outp)" and sy: "synced (rm, t)"
    and c: "mem_completed rm \<or> (\<exists>s. st_metadata rm = Some s \<and> md_state s = Room_Completed)"
  shows "final Room_Completed (int (t + dt)) rm'"
proof -
  have ok: "room_ok rm" "dated rm" using sy by (simp_all add: synced_def linked_def)
  obtain s where s: "st_metadata rm = Some s" using c mem_has_stored [OF ok(1)] by (auto simp: mem_completed_def)
  have "final Room_Completed (int t) rm"
    using c sy completed_is_over by (auto simp: synced_def linked_def)
  then have "final Room_Completed (int (t + dt)) rm" by (rule final_later) simp
  from final_step [OF st ok s this completed_is_over] show ?thesis .
qed

lemma synced_step:
  assumes st: "room_step rs (int (t + dt)) so e rm = (status, rm', outp)" and sy: "synced (rm, t)"
    and holds: "barrier_holds (dt, so, e)"
  shows "synced (rm', t + dt)"
proof -
  have l: "linked (rm, t)" using sy by (simp add: synced_def)
  have "clocked rs (rm, t) (dt, so, e) = (rm', t + dt)" using st by (simp add: clocked_def room_exec_def)
  with linked_clocked [OF l, of rs dt so e] have l': "linked (rm', t + dt)" by simp
  have ok: "room_ok rm" using l by (simp add: linked_def)
  have "final Room_Completed (int (t + dt)) rm'" if mem: "mem_completed rm'"
  proof (cases "mem_completed rm \<or> (\<exists>s. st_metadata rm = Some s \<and> md_state s = Room_Completed)")
    case True
    then show ?thesis by (rule final_completed_step [OF st sy])
  next
    case False
    then have "all_in {Room_Completed} rm'" using completed_step [OF st ok holds mem] by blast
    then show ?thesis by (simp add: final_def)
  qed
  with l' show ?thesis by (simp add: synced_def)
qed

text \<open>A ticket in the ledger, in storage and in memory.\<close>

definition ledger_entry :: "room_setting \<Rightarrow> transfer_ticket_claims \<Rightarrow> string \<times> int" where
  "ledger_entry rs c = (ticketReplayKey (rs_crypto rs) (tk_transfer_id c) (tk_jti c), tk_ticket_exp c)"

definition recorded :: "string \<times> int \<Rightarrow> transfer_room \<Rightarrow> bool" where
  "recorded entry rm \<longleftrightarrow>
     (\<exists>es. st_tickets rm = Some es \<and> entry \<in> set es) \<and> (rm_failed rm \<or> entry \<in> set (rm_consumed rm))"

definition ticket_spent :: "room_setting \<Rightarrow> transfer_ticket_claims \<Rightarrow> transfer_room \<times> nat \<Rightarrow> bool" where
  "ticket_spent rs c = (\<lambda>(rm, t).
     tk_ticket_exp c \<le> int t
     \<or> (\<exists>s. st_metadata rm = Some s \<and> tk_ticket_exp c \<le> md_transfer_expires_at s
          \<and> (mem_completed rm \<or> recorded (ledger_entry rs c) rm)))"

lemma recorded_cong:
  assumes "st_tickets rm' = st_tickets rm" "rm_consumed rm' = rm_consumed rm" "rm_failed rm' = rm_failed rm"
  shows "recorded entry rm' = recorded entry rm"
  unfolding recorded_def assms by (rule refl)

lemma consume_recorded:
  assumes "room_consume rc now stored c rm = (r, rm1)" and "recorded entry rm" and "now < snd entry" and "\<not> rm_failed rm"
  shows "recorded entry rm1"
  using assms by (auto simp: room_consume_def recorded_def Let_def split: if_splits)

lemma consume_records:
  assumes "room_consume rc now stored c rm = (Some True, rm1)"
  shows "recorded (ticketReplayKey rc (tk_transfer_id c) (tk_jti c), tk_ticket_exp c) rm1"
    and "(ticketReplayKey rc (tk_transfer_id c) (tk_jti c), x) \<in> set (rm_consumed rm) \<Longrightarrow> x \<le> now"
  using assms
  by (auto simp: room_consume_def recorded_def Let_def map_of_eq_None_iff split: if_splits) (force simp: image_iff)

lemma admit_ticket_recorded:
  assumes ad: "admit_ticket rc now so pid c rm = (status, rm', outp)" and rec: "recorded entry rm" and now: "now < snd entry"
    and nf: "\<not> rm_failed rm"
  shows "recorded entry rm'"
proof -
  obtain r rm1 where co: "room_consume rc now (so_tickets so) c rm = (r, rm1)"
    by (cases "room_consume rc now (so_tickets so) c rm") auto
  have r1: "recorded entry rm1" by (rule consume_recorded [OF co rec now nf])
  from ad co show ?thesis
  proof (cases rule: admit_ticket_cases)
    case refused
    with rec show ?thesis by simp
  next
    case spent
    with r1 show ?thesis by simp
  next
    case old
    with r1 admit_socket_fields [OF old(4)] recorded_cong [of rm' rm1] show ?thesis by simp
  next
    case half
    with r1 recorded_cong [of rm' rm1] show ?thesis by (simp add: put_metadata_def)
  next
    case new
    with r1 admit_socket_fields [OF new(4)] recorded_cong [of rm' rm1] show ?thesis by (simp add: put_metadata_def with_router_def)
  qed
qed

lemma recorded_step:
  assumes st: "room_step rs now so e rm = (status, rm', outp)" and ok: "room_ok rm"
    and rec: "recorded entry rm" and now: "now < snd entry"
    and s: "st_metadata rm = Some s" "now < md_transfer_expires_at s"
  shows "mem_completed rm' \<or> recorded entry rm'"
proof (cases e)
  case (Upgrade q pid raw)
  show ?thesis
  proof (cases "rm' = rm")
    case True
    with rec show ?thesis by simp
  next
    case False
    with Upgrade st have nf: "\<not> rm_failed rm"
      and ft: "fetch_socket (rs_js rs) (rs_crypto rs) (rs_secret rs) now so pid raw rm = (status, rm', outp)"
      by (auto split: if_splits)
    from ft show ?thesis
    proof (cases rule: fetch_socket_cases)
      case same
      with rec show ?thesis by simp
    next
      case (admit c key)
      from admit_ticket_recorded [OF admit(4) rec now nf] show ?thesis ..
    next
      case (advance c key md)
      let ?a = "advance_epoch md c rm"
      have f: "st_tickets ?a = st_tickets rm" "rm_consumed ?a = rm_consumed rm" "rm_failed ?a = rm_failed rm"
        by (simp_all add: advance_epoch_def Let_def with_router_def put_metadata_def)
      have "recorded entry ?a" using rec recorded_cong [OF f] by simp
      from admit_ticket_recorded [OF advance(5) this now] nf f(3) show ?thesis by simp
    qed
  qed
next
  case (Terminal q req)
  then consider "rm' = rm" | z where "fetch_terminal (rs_js rs) (rs_crypto rs) (rs_secret rs) so req rm = (z, rm')"
    using st by (auto split: if_splits prod.splits)
  then show ?thesis
  proof cases
    case 1
    with rec show ?thesis by simp
  next
    case (2 z)
    then show ?thesis
    proof (cases rule: fetch_terminal_cases)
      case refused
      with rec show ?thesis by simp
    next
      case (settled md rm1)
      have "mem_completed rm1"
        using settled(1,4) by (auto simp: mem_completed_def with_router_def room_metadata_def router_new_def)
      moreover have "mem_completed rm' = mem_completed rm1" using settled(5) by (intro mem_completed_cong) simp_all
      ultimately show ?thesis by simp
    qed
  qed
next
  case (Message a message stored)
  then consider "rm' = rm" | "webSocketMessage (rs_js rs) now stored a message rm = (rm', outp)"
    using st by (auto split: if_splits prod.splits)
  then have "st_tickets rm' = st_tickets rm \<and> rm_consumed rm' = rm_consumed rm \<and> rm_failed rm' = rm_failed rm"
  proof cases
    case 2
    then show ?thesis
    proof (cases rule: message_cases)
      case (handled raw rt res rt1 out1 r rt2 out2 b outs ss)
      then show ?thesis by (cases b) (auto simp: after_barrier_def set_router_def put_metadata_def)
    qed (simp_all add: close_socket_def set_router_def)
  qed simp
  with rec recorded_cong [of rm' rm] show ?thesis by simp
next
  case (Closed a)
  have f: "st_tickets (webSocketClose now a rm) = st_tickets rm" "rm_consumed (webSocketClose now a rm) = rm_consumed rm"
      "rm_failed (webSocketClose now a rm) = rm_failed rm"
    by (simp_all add: webSocketClose_def Let_def close_socket_def set_router_def split: option.splits)
  have "rm' = rm \<or> rm' = webSocketClose now a rm" using Closed st by (auto split: if_splits)
  then show ?thesis using rec recorded_cong [OF f, of entry] by (elim disjE) simp_all
next
  case Alarm
  show ?thesis
  proof (cases "rm' = rm")
    case True
    with rec show ?thesis by simp
  next
    case False
    then have "rm' = room_alarm now so rm" using st Alarm by (auto split: if_splits)
    with False have "room_alarm now so rm \<noteq> rm" by simp
    from ok show ?thesis
    proof (cases rule: alarm_cases [of rm now so])
      case early
      with \<open>room_alarm now so rm \<noteq> rm\<close> show ?thesis by simp
    next
      case (late s' md)
      with s show ?thesis by simp
    qed
  qed
next
  case Wake
  then have "room_restore now rm = (rm', outp)" using st by (auto split: prod.splits)
  then show ?thesis
  proof (cases rule: restore_cases)
    case failed
    with rec show ?thesis by (simp add: recorded_def)
  next
    case empty
    with s show ?thesis by simp
  next
    case (awake m)
    from reattach_fields [OF awake(2)] rec now show ?thesis
      by (auto simp: recorded_def with_router_def)
  qed
qed

text \<open>The tickets that open a socket.\<close>

definition admitted :: "room_setting \<Rightarrow> transfer_room \<times> nat \<Rightarrow> tick \<Rightarrow> transfer_ticket_claims option" where
  "admitted rs = (\<lambda>(rm, t) (dt, so, e).
     case e of
       Upgrade q pid raw \<Rightarrow>
         if fst (room_step rs (int (t + dt)) so e rm) = 101
         then verifyTransferTicket (rs_js rs) (rs_crypto rs) (int (t + dt)) (rs_secret rs) raw
         else None
     | _ \<Rightarrow> None)"

lemma spent_persists:
  assumes sy: "synced (rm, t)" and sp: "ticket_spent rs c (rm, t)"
    and st: "room_step rs (int (t + dt)) so e rm = (status, rm', outp)"
  shows "ticket_spent rs c (rm', t + dt)"
proof (cases "tk_ticket_exp c \<le> int (t + dt)")
  case True
  then show ?thesis by (simp add: ticket_spent_def)
next
  case False
  then obtain s where s: "st_metadata rm = Some s" "tk_ticket_exp c \<le> md_transfer_expires_at s"
    and rec: "mem_completed rm \<or> recorded (ledger_entry rs c) rm"
    using sp by (auto simp: ticket_spent_def)
  have ok: "room_ok rm" using sy by (simp add: synced_def linked_def)
  from step_keeps [OF st ok] s(1) obtain s' where ok': "room_ok rm'" and fw: "forward rm rm'" and s': "st_metadata rm' = Some s'"
    by (auto simp: forward_def)
  have e': "md_transfer_expires_at s' = md_transfer_expires_at s" by (rule deadline_kept [OF fw s(1) s'])
  have live: "int (t + dt) < md_transfer_expires_at s" using False s(2) by simp
  have "mem_completed rm' \<or> recorded (ledger_entry rs c) rm'"
  proof (cases "mem_completed rm")
    case True
    then have "final Room_Completed (int (t + dt)) rm'" using final_completed_step [OF st sy] by blast
    then have "all_in {Room_Completed} rm'" using s' live e' by (auto simp: final_def passed_def)
    moreover obtain md where "room_metadata rm' = Some md" using room_okD(5) [OF ok'] s' by fastforce
    ultimately show ?thesis by (simp add: mem_completed_def all_in_def)
  next
    case no: False
    then have "recorded (ledger_entry rs c) rm" using rec by simp
    from recorded_step [OF st ok this _ s(1) live] False show ?thesis by (simp add: ledger_entry_def)
  qed
  with s' e' s(2) show ?thesis by (simp add: ticket_spent_def)
qed

lemma admit_101:
  assumes ad: "admit_ticket rc now so pid c rm = (101, rm', outp)"
  shows "\<not> room_over now rm"
    and "(ticketReplayKey rc (tk_transfer_id c) (tk_jti c), x) \<in> set (rm_consumed rm) \<Longrightarrow> x \<le> now"
    and "recorded (ticketReplayKey rc (tk_transfer_id c) (tk_jti c), tk_ticket_exp c) rm'"
    and "room_metadata rm = None \<Longrightarrow> st_metadata rm' = Some (metadataFor c)"
    and "room_metadata rm \<noteq> None \<Longrightarrow> st_metadata rm' = st_metadata rm"
proof -
  obtain r rm1 where co: "room_consume rc now (so_tickets so) c rm = (r, rm1)"
    by (cases "room_consume rc now (so_tickets so) c rm") auto
  have m: "room_metadata rm1 = room_metadata rm" by (rule room_metadata_cong [OF consume_keeps(1,2) [OF co]])
  note z = consume_records [of rc now "so_tickets so" c rm rm1]
  let ?k = "ticketReplayKey rc (tk_transfer_id c) (tk_jti c)"
  have "\<not> room_over now rm \<and> r = Some True \<and> st_tickets rm' = st_tickets rm1 \<and> rm_consumed rm' = rm_consumed rm1 \<and> rm_failed rm' = rm_failed rm1
      \<and> (room_metadata rm = None \<longrightarrow> st_metadata rm' = Some (metadataFor c))"
    using ad co
  proof (cases rule: admit_ticket_cases)
    case (old md)
    then show ?thesis using admit_socket_fields [OF old(4)] m by simp
  next
    case new
    then show ?thesis using admit_socket_fields [OF new(4)] by (simp add: put_metadata_def with_router_def)
  qed simp_all
  then have f: "\<not> room_over now rm" "r = Some True" "st_tickets rm' = st_tickets rm1" "rm_consumed rm' = rm_consumed rm1"
    "rm_failed rm' = rm_failed rm1" "room_metadata rm = None \<longrightarrow> st_metadata rm' = Some (metadataFor c)" by blast+
  show "\<not> room_over now rm" by (rule f(1))
  show "x \<le> now" if "(?k, x) \<in> set (rm_consumed rm)" using z(2) co f(2) that by simp
  show "recorded (?k, tk_ticket_exp c) rm'" using z(1) co f(2) recorded_cong [OF f(3-5)] by simp
  show "st_metadata rm' = Some (metadataFor c)" if "room_metadata rm = None" using f(6) that by simp
  show "st_metadata rm' = st_metadata rm" if "room_metadata rm \<noteq> None" using stored_by_admit [OF ad] that by blast
qed

lemma admitted_spends:
  assumes sy: "synced (rm, t)" and adm: "admitted rs (rm, t) (dt, so, e) = Some c"
    and st: "room_step rs (int (t + dt)) so e rm = (status, rm', outp)"
  shows "\<not> ticket_spent rs c (rm, t) \<and> ticket_spent rs c (rm', t + dt)"
proof -
  let ?now = "int (t + dt)" and ?k = "ledger_entry rs c"
  have ok: "room_ok rm" using sy by (simp add: synced_def linked_def)
  from adm st obtain q pid raw where e: "e = Upgrade q pid raw" and s101: "status = 101"
    and ver: "verifyTransferTicket (rs_js rs) (rs_crypto rs) ?now (rs_secret rs) raw = Some c"
    by (auto simp: admitted_def split: room_event.splits if_splits)
  have nf: "\<not> rm_failed rm" and ft: "fetch_socket (rs_js rs) (rs_crypto rs) (rs_secret rs) ?now so pid raw rm = (101, rm', outp)"
    using st s101 unfolding e by (auto split: if_splits)
  obtain key where v: "claims_valid ?now key c" using verified_claims [OF ver] by blast
  have exp: "?now < tk_ticket_exp c" "tk_ticket_exp c \<le> tk_transfer_expires_at c" using v by (auto simp: claims_valid_def)
  obtain rm0 where ad: "admit_ticket (rs_crypto rs) ?now so pid c rm0 = (101, rm', outp)"
    and same0: "rm_consumed rm0 = rm_consumed rm" "mem_completed rm \<Longrightarrow> mem_completed rm0"
    and dl: "\<exists>s'. st_metadata rm' = Some s' \<and> md_transfer_expires_at s' = tk_transfer_expires_at c"
    using ft
  proof (cases rule: fetch_socket_cases)
    case (admit c' key')
    then have c: "c' = c" using ver by simp
    note a = admit_101 [OF admit(4) [unfolded c]]
    have "\<exists>s'. st_metadata rm' = Some s' \<and> md_transfer_expires_at s' = tk_transfer_expires_at c"
    proof (cases "room_metadata rm")
      case None
      with a(4) show ?thesis by (simp add: metadataFor_def)
    next
      case (Some md)
      with mem_has_stored [OF ok] obtain s where s: "st_metadata rm = Some s" by blast
      have "md_transfer_expires_at s = tk_transfer_expires_at c"
        using same_deadline(1) [OF ok s Some] admit(3) [OF Some] c by (simp add: sameMetadata_def)
      with a(5) Some s show ?thesis by simp
    qed
    with that [OF admit(4) [unfolded c]] show ?thesis by simp
  next
    case (advance c' key' md)
    then have c: "c' = c" using ver by simp
    let ?a = "advance_epoch md c rm"
    note a = admit_101 [OF advance(5) [unfolded c]]
    have "st_metadata rm' = st_metadata ?a" using a(5) by (simp add: advanced_room)
    then have "\<exists>s'. st_metadata rm' = Some s' \<and> md_transfer_expires_at s' = tk_transfer_expires_at c"
      using advance(4) c by (simp add: advanced_room canAdvanceMetadata_def)
    moreover have "rm_consumed ?a = rm_consumed rm"
      by (simp add: advance_epoch_def Let_def with_router_def put_metadata_def)
    moreover have "mem_completed ?a" if "mem_completed rm" using that advance(3) by (simp add: mem_completed_def advanced_room)
    ultimately show ?thesis using that [OF advance(5) [unfolded c]] by blast
  qed simp
  note a = admit_101 [OF ad]
  have "\<not> ticket_spent rs c (rm, t)"
  proof
    assume "ticket_spent rs c (rm, t)"
    then consider "mem_completed rm" | "recorded ?k rm" using exp(1) by (auto simp: ticket_spent_def)
    then show False
    proof cases
      case 1
      with same0(2) have "room_over ?now rm0" by (auto simp: mem_completed_def room_over_def)
      with a(1) show ?thesis by simp
    next
      case 2
      with nf have "?k \<in> set (rm_consumed rm0)" using same0(1) by (simp add: recorded_def)
      then have "tk_ticket_exp c \<le> ?now" using a(2) by (simp add: ledger_entry_def)
      with exp(1) show ?thesis by simp
    qed
  qed
  moreover have "ticket_spent rs c (rm', t + dt)"
    using a(3) dl exp(2) by (auto simp: ticket_spent_def ledger_entry_def)
  ultimately show ?thesis ..
qed

interpretation room_tickets: single_use "clocked rs" "admitted rs" "ticket_spent rs" synced barrier_holds
  for rs
proof
  fix m oper k assume inv: "synced m" and holds: "barrier_holds oper"
  obtain rm t where m: "m = (rm, t)" by (cases m)
  obtain dt so e where oper: "oper = (dt, so, e)" by (cases oper)
  obtain status rm' outp where st: "room_step rs (int (t + dt)) so e rm = (status, rm', outp)"
    by (cases "room_step rs (int (t + dt)) so e rm") auto
  have c: "clocked rs m oper = (rm', t + dt)" using st by (simp add: m oper clocked_def room_exec_def)
  show "synced (clocked rs m oper)" unfolding c using synced_step [OF st] inv holds by (simp add: m oper)
  show "ticket_spent rs k (clocked rs m oper)" if "ticket_spent rs k m"
    unfolding c using spent_persists [OF _ _ st] inv that by (simp add: m)
  show "\<not> ticket_spent rs k m \<and> ticket_spent rs k (clocked rs m oper)" if "admitted rs m oper = Some k"
    unfolding c using admitted_spends [OF _ _ st] inv that by (simp add: m oper)
qed

end
