(* ===== verification/Room_Demo.thy ===== *)
theory Room_Demo
  imports Room_Relay
begin

text \<open>
  A concrete room for the witnesses: two tickets, one chunk, its acknowledgement, and what may go
  wrong afterwards, computed event by event.
\<close>

section \<open>The concrete room, moment by moment\<close>

definition demo :: room_setting where
  "demo = \<lparr>rs_js = demo_js, rs_crypto = demo_crypto, rs_secret = Some ''s''\<rparr>"

definition all_well :: storage_outcome where
  "all_well = \<lparr>so_advance = True, so_tickets = True, so_metadata = True, so_alarm = True, so_delete = True\<rparr>"

definition demo_source :: transfer_attachment where
  "demo_source = attachment_for ''x'' (demo_claims ''1'' Source 1)"

definition demo_destination :: transfer_attachment where
  "demo_destination = attachment_for ''y'' (demo_claims ''2'' Destination 1)"

definition demo_metadata :: transfer_metadata where
  "demo_metadata = metadataFor (demo_claims ''1'' Source 1)"

definition demo_key :: "string \<Rightarrow> string" where
  "demo_key jti = replicate 63 (CHR ''0'') @ jti"

definition demo_room :: "transfer_metadata \<Rightarrow> in_flight option \<Rightarrow> transfer_room" where
  "demo_room md fl =
     \<lparr>rm_meta = Some SharedWithRouter,
      rm_router = Some \<lparr>rt_peers = [(Source, socket_peer demo_source), (Destination, socket_peer demo_destination)],
                        rt_in_flight = fl, rt_meta = md, rt_broken = False\<rparr>,
      rm_consumed = [(demo_key ''1'', 1000), (demo_key ''2'', 1000)],
      rm_sockets = [demo_source, demo_destination], rm_failed = False,
      st_metadata = Some demo_metadata, st_tickets = Some [(demo_key ''1'', 1000), (demo_key ''2'', 1000)],
      st_alarm = Some 5000\<rparr>"

lemma demo_replay_key:
  "ticketReplayKey demo_crypto ''t'' ''1'' = demo_key ''1''" "ticketReplayKey demo_crypto ''t'' ''2'' = demo_key ''2''"
  "ticketReplayKey demo_crypto ''t'' ''3'' = demo_key ''3''"
  by code_simp+

lemma demo_key_inj: "demo_key x = demo_key y \<longleftrightarrow> x = y"
  by (simp add: demo_key_def)

lemma demo_fields:
  "tk_transfer_id (demo_claims jti role e) = ''t''" "tk_jti (demo_claims jti role e) = jti"
  "tk_ticket_exp (demo_claims jti role e) = 1000" "tk_role (demo_claims jti role e) = role"
  "tk_transfer_expires_at (demo_claims jti role e) = 5000"
  by (simp_all add: demo_claims_def)

definition demo_waiting :: transfer_room where
  "demo_waiting =
     \<lparr>rm_meta = Some SharedWithRouter,
      rm_router = Some \<lparr>rt_peers = [(Source, socket_peer demo_source)], rt_in_flight = None, rt_meta = demo_metadata, rt_broken = False\<rparr>,
      rm_consumed = [(demo_key ''1'', 1000)], rm_sockets = [demo_source], rm_failed = False,
      st_metadata = Some demo_metadata, st_tickets = Some [(demo_key ''1'', 1000)], st_alarm = Some 5000\<rparr>"

lemma demo_metadata_fields:
  "demo_metadata =
     \<lparr>md_transfer_id = ''t'', md_tenant_id = ''o'', md_source_device_id = ''a'', md_destination_device_id = ''b'',
      md_source_workspace_id = ''w'', md_destination_workspace_id = ''w'', md_plan_sha256 = replicate 64 (CHR ''c''),
      md_transfer_expires_at = 5000, md_max_bytes = 1, md_epoch = 1, md_fence = 1, md_state = Room_Prepared,
      md_ack_sequence = None, md_ack_offset = 0\<rparr>"
  by (simp add: demo_metadata_def metadataFor_def demo_claims_def)

lemma demo_attached:
  "demo_source = \<lparr>at_peer_id = ''x'', at_role = Source, at_device_id = ''a'', at_transfer_id = ''t'', at_epoch = 1, at_fence = 1,
     at_plan_sha256 = replicate 64 (CHR ''c''), at_transfer_expires_at = 5000\<rparr>"
  "demo_destination = \<lparr>at_peer_id = ''y'', at_role = Destination, at_device_id = ''b'', at_transfer_id = ''t'', at_epoch = 1, at_fence = 1,
     at_plan_sha256 = replicate 64 (CHR ''c''), at_transfer_expires_at = 5000\<rparr>"
  by (simp_all add: demo_source_def demo_destination_def attachment_for_def demo_claims_def)

lemma demo_hash: "js_hash (replicate 64 (CHR ''c''))" "js_hash (replicate 64 (CHR ''9''))"
  by (simp_all add: js_hash_def lower_hex_def list_all_iff)

lemma demo_id: "js_id [c] \<longleftrightarrow> 0x1F < (of_char c :: nat) \<and> \<not> (0x80 \<le> (of_char c :: nat) \<and> (of_char c :: nat) < 0xC0)"
  by (simp add: js_id_def Let_def)

lemma demo_heard:
  "now < 5000 \<Longrightarrow> md_transfer_id md = ''t'' \<and> md_epoch md = 1 \<and> md_fence md = 1 \<and> md_plan_sha256 md = replicate 64 (CHR ''c'')
     \<and> md_transfer_expires_at md = 5000 \<and> md_source_device_id md = ''a'' \<and> md_destination_device_id md = ''b'' \<Longrightarrow>
   validateTransferAttachment demo_source (Some md) now \<and> validateTransferAttachment demo_destination (Some md) now"
  by (simp add: validateTransferAttachment_def demo_attached demo_id demo_hash safe_integer_def expected_device_def)

lemmas demo_records = demo_attached demo_metadata_fields demo_fields

lemmas demo_eval =
  room_metadata_def Let_def demo_replay_key demo_key_inj MAX_TICKET_REPLAYS_def socket_peer_def expected_device_def
  router_attach_def router_expired_def send_to_def sendReady_def next_sequence_def set_router_def after_barrier_def
  put_metadata_def with_router_def router_new_def rt_state_def close_socket_def

lemma demo_admit_1: "admit_ticket demo_crypto 10 all_well ''x'' (demo_claims ''1'' Source 1) room_empty = (101, demo_waiting, [])"
proof -
  have "metadataFor (demo_claims ''1'' Source 1) = demo_metadata" "attachment_for ''x'' (demo_claims ''1'' Source 1) = demo_source"
    by (simp_all add: demo_metadata_def demo_source_def)
  then show ?thesis
    by (simp add: admit_ticket_def room_empty_def role_taken_def room_consume_def
       all_well_def admit_socket_def demo_waiting_def demo_eval demo_records)
qed

lemma demo_admit_2: "admit_ticket demo_crypto 20 all_well ''y'' (demo_claims ''2'' Destination 1) demo_waiting
   = (101, demo_room demo_metadata None, [(''x'', ReadyFrame 0 0), (''y'', ReadyFrame 0 0)])"
proof -
  have "attachment_for ''y'' (demo_claims ''2'' Destination 1) = demo_destination"
    by (simp add: demo_destination_def)
  then show ?thesis
    by (simp add: admit_ticket_def role_taken_def room_consume_def
       all_well_def admit_socket_def demo_waiting_def demo_room_def demo_eval demo_records)
qed

lemma demo_chunk:
  assumes "now < 5000"
  shows "webSocketMessage demo_js now True demo_source (Some ''C'') (demo_room demo_metadata None)
   = (demo_room (demo_metadata\<lparr>md_state := Room_Active\<rparr>) (Some \<lparr>fl_sequence = 0, fl_offset = 0, fl_length = 1\<rparr>), [(''y'', Relayed ''C'')])"
proof -
  let ?fl = "\<lparr>fl_sequence = 0, fl_offset = 0, fl_length = 1\<rparr>"
  define rt where "rt = \<lparr>rt_peers = [(Source, socket_peer demo_source), (Destination, socket_peer demo_destination)],
    rt_in_flight = None, rt_meta = demo_metadata, rt_broken = False\<rparr>"
  have at: "router_attach now (socket_peer demo_source) rt = (AttachExisting, rt, [])"
    using assms by (simp add: rt_def demo_eval demo_records)
  have b64: "decodedBase64Bytes ''AAAAAAAAAAAAAAAAAAAAAAA='' = Some 17" "js_b64 ''AAAAAAAAAAAAAAAAAAAAAAA=''"
    by code_simp+
  have p: "js_parse demo_js ''C'' = demo_parse ''C''" by (simp add: demo_js_def)
  have h: "router_handle demo_js now True (socket_peer demo_source) ''C'' rt =
      (Inr (), (rt_state Room_Active rt)\<lparr>rt_in_flight := Some ?fl\<rparr>, [(''y'', Relayed ''C'')], NoBarrier)"
    using assms
    by (simp add: router_handle_def MAX_TRANSFER_FRAME_BYTES_def dispatch_frame_def p demo_parse_def demo_frame_def fget_def
      rt_def demo_eval demo_records fstring_def js_id_def room_chunk_def frame_bound_def exactlyKeys_def base_keys_def demo_hash
      fnumber_def demo_js_def json_int_def safe_integer_def MAX_TRANSFER_CHUNK_BYTES_def AEAD_TAG_BYTES_def b64)
  have "validateTransferAttachment demo_source (Some demo_metadata) now"
    using demo_heard [OF assms, of demo_metadata] by (simp add: demo_metadata_fields)
  with at h show ?thesis
    by (simp add: webSocketMessage_def demo_room_def rt_def demo_eval)
qed

section \<open>Events\<close>

lemma demo_upgrade:
  assumes "(jti, role, epoch) \<in> set demo_issued" and "0 \<le> now" and "now < 1000" and "\<not> rm_failed rm"
    and "\<And>md. room_metadata rm = Some md \<Longrightarrow> sameMetadata md (demo_claims jti role epoch)"
  shows "room_step demo now so (Upgrade 0 pid (Some (demo_ticket jti))) rm = admit_ticket demo_crypto now so pid (demo_claims jti role epoch) rm"
proof -
  let ?c = "demo_claims jti role epoch"
  have f: "\<not> tk_ticket_exp ?c \<le> now" "tk_device_id ?c = (case tk_role ?c of Source \<Rightarrow> tk_source_device_id ?c | Destination \<Rightarrow> tk_destination_device_id ?c)"
    using assms(3) by (cases role; simp add: demo_claims_def)+
  have "fetch_socket demo_js demo_crypto (Some ''s'') now so pid (Some (demo_ticket jti)) rm = admit_ticket demo_crypto now so pid ?c rm"
    using demo_verified [OF assms(1-3)] f assms(5) by (cases "room_metadata rm") (simp_all add: fetch_socket_def)
  with assms(4) show ?thesis by (simp add: demo_def MAX_ADMISSION_QUEUE_def)
qed

lemma demo_same: "sameMetadata (demo_metadata\<lparr>md_state := z, md_ack_sequence := q, md_ack_offset := n\<rparr>) (demo_claims jti role 1)"
  "sameMetadata demo_metadata (demo_claims jti role 1)"
  by (simp_all add: sameMetadata_def demo_metadata_fields demo_claims_def)

definition demo_active :: transfer_metadata where
  "demo_active = demo_metadata\<lparr>md_state := Room_Active\<rparr>"

definition demo_acked :: transfer_metadata where
  "demo_acked = demo_active\<lparr>md_ack_sequence := Some 0, md_ack_offset := 1\<rparr>"

definition demo_flight :: in_flight where
  "demo_flight = \<lparr>fl_sequence = 0, fl_offset = 0, fl_length = 1\<rparr>"

definition demo_opening :: "moment list" where
  "demo_opening =
     [(10, all_well, Upgrade 0 ''x'' (Some (demo_ticket ''1''))),
      (20, all_well, Upgrade 0 ''y'' (Some (demo_ticket ''2''))),
      (30, all_well, Message demo_source (Some ''C'') True)]"

lemma demo_first: "room_step demo 10 all_well (Upgrade 0 ''x'' (Some (demo_ticket ''1''))) room_empty = (101, demo_waiting, [])"
  using demo_upgrade [of "''1''" Source 1 10 room_empty all_well "''x''"] demo_admit_1
  by (simp add: demo_issued_def room_empty_def room_metadata_def)

lemma demo_second:
  "room_step demo 20 all_well (Upgrade 0 ''y'' (Some (demo_ticket ''2''))) demo_waiting
   = (101, demo_room demo_metadata None, [(''x'', ReadyFrame 0 0), (''y'', ReadyFrame 0 0)])"
  using demo_upgrade [of "''2''" Destination 1 20 demo_waiting all_well "''y''"] demo_admit_2
  by (simp add: demo_issued_def demo_waiting_def room_metadata_def demo_same)

lemma demo_third:
  "room_step demo 30 all_well (Message demo_source (Some ''C'') True) (demo_room demo_metadata None)
   = (0, demo_room demo_active (Some demo_flight), [(''y'', Relayed ''C'')])"
  using demo_chunk [of 30] by (simp add: demo_def demo_room_def demo_active_def demo_flight_def)

lemma demo_opened: "foldl (room_exec demo) room_empty demo_opening = demo_room demo_active (Some demo_flight)"
  by (simp add: demo_opening_def room_exec_def demo_first demo_second demo_third del: room_step.simps)

text \<open>The acknowledgement: the cursor is stored, then the source is told.\<close>

definition demo_moved :: transfer_room where
  "demo_moved = (demo_room demo_acked None)\<lparr>rm_meta := Some (OwnMeta demo_acked), st_metadata := Some demo_acked\<rparr>"

lemma demo_fourth:
  "room_step demo 40 all_well (Message demo_destination (Some ''A'') True) (demo_room demo_active (Some demo_flight))
   = (0, demo_moved, [(''x'', AckFrame 0 1)])"
proof -
  define rt where "rt = \<lparr>rt_peers = [(Source, socket_peer demo_source), (Destination, socket_peer demo_destination)],
    rt_in_flight = Some demo_flight, rt_meta = demo_active, rt_broken = False\<rparr>"
  have at: "router_attach 40 (socket_peer demo_destination) rt = (AttachExisting, rt, [])"
    by (simp add: rt_def demo_eval demo_records demo_active_def)
  have p: "js_parse demo_js ''A'' = demo_parse ''A''" by (simp add: demo_js_def)
  have h: "router_handle demo_js 40 True (socket_peer demo_destination) ''A'' rt =
      (Inr (), rt\<lparr>rt_meta := demo_acked, rt_in_flight := None\<rparr>, [(''x'', AckFrame 0 1)], Stored demo_acked)"
    by (simp add: router_handle_def MAX_TRANSFER_FRAME_BYTES_def dispatch_frame_def p demo_parse_def demo_frame_def fget_def
      rt_def demo_eval demo_records fstring_def js_id_def room_ack_def frame_bound_def exactlyKeys_def base_keys_def
      fnumber_def demo_js_def json_int_def safe_integer_def demo_flight_def demo_active_def demo_acked_def barrier_def)
  have "validateTransferAttachment demo_destination (Some demo_active) 40"
    using demo_heard [of 40 demo_active] by (simp add: demo_active_def demo_metadata_fields)
  with at h have "webSocketMessage demo_js 40 True demo_destination (Some ''A'') (demo_room demo_active (Some demo_flight))
      = (demo_moved, [(''x'', AckFrame 0 1)])"
    by (simp add: webSocketMessage_def demo_room_def demo_moved_def rt_def demo_eval)
  then show ?thesis by (simp add: demo_def demo_room_def)
qed

section \<open>A barrier that fails\<close>

text \<open>
  The object is evicted and wakes up, so that room and router share one metadata object again.  The
  write of the final acknowledgement fails; the router goes back to its copy, and the room is left
  with the object that says completed.
\<close>

definition demo_woken :: transfer_room where
  "demo_woken = (demo_room demo_acked None)\<lparr>st_metadata := Some demo_acked\<rparr>"

lemma demo_acked_fields:
  "demo_acked = demo_metadata\<lparr>md_state := Room_Active, md_ack_sequence := Some 0, md_ack_offset := 1\<rparr>"
  by (simp add: demo_acked_def demo_active_def)

lemma demo_acked_heard:
  "now < 5000 \<Longrightarrow> validateTransferAttachment demo_source (Some demo_acked) now"
  "now < 5000 \<Longrightarrow> validateTransferAttachment demo_destination (Some demo_acked) now"
  using demo_heard [of now demo_acked] by (simp_all add: demo_acked_fields demo_metadata_fields)

lemma demo_ledger_ok: "ledger_entry_ok now (demo_key j, 1000)" if "0 \<le> now" "j \<in> {''1'', ''2''}"
  using that by (auto simp: ledger_entry_ok_def demo_key_def js_hash_def lower_hex_def list_all_iff safe_integer_def TICKET_MAX_MS_def)

lemma demo_wake: "room_step demo 50 all_well Wake demo_moved = (0, demo_woken, [(''x'', ReadyFrame 1 1), (''y'', ReadyFrame 1 1)])"
proof -
  let ?p1 = "[(Source, socket_peer demo_source)]"
  let ?rt = "\<lambda>ps. \<lparr>rt_peers = ps, rt_in_flight = None, rt_meta = demo_acked, rt_broken = False\<rparr>"
  have at: "router_attach 50 (socket_peer demo_source) (?rt []) = (AttachNew, ?rt ?p1, [])"
    "router_attach 50 (socket_peer demo_destination) (?rt ?p1)
      = (AttachNew, ?rt (?p1 @ [(Destination, socket_peer demo_destination)]), [(''x'', ReadyFrame 1 1), (''y'', ReadyFrame 1 1)])"
    by (simp_all add: demo_eval demo_records demo_acked_fields)
  have "room_restore 50 demo_moved = (demo_woken, [(''x'', ReadyFrame 1 1), (''y'', ReadyFrame 1 1)])"
    using at
    by (simp add: room_restore_def demo_moved_def demo_woken_def demo_room_def demo_ledger_ok MAX_TICKET_REPLAYS_def with_router_def
      room_metadata_def router_new_def demo_acked_heard Let_def)
  then show ?thesis by simp
qed

definition demo_lost :: transfer_room where
  "demo_lost = demo_woken\<lparr>rm_meta := Some (OwnMeta (demo_acked\<lparr>md_state := Room_Completed\<rparr>)),
     rm_router := Some \<lparr>rt_peers = [], rt_in_flight = None, rt_meta = demo_acked, rt_broken = True\<rparr>, rm_sockets := []\<rparr>"

lemma demo_finish_lost: "room_step demo 60 all_well (Message demo_destination (Some ''F'') False) demo_woken = (0, demo_lost, [])"
proof -
  define rt where "rt = \<lparr>rt_peers = [(Source, socket_peer demo_source), (Destination, socket_peer demo_destination)],
    rt_in_flight = None, rt_meta = demo_acked, rt_broken = False\<rparr>"
  have at: "router_attach 60 (socket_peer demo_destination) rt = (AttachExisting, rt, [])"
    by (simp add: rt_def demo_eval demo_records demo_acked_fields)
  have p: "js_parse demo_js ''F'' = demo_parse ''F''" by (simp add: demo_js_def)
  have h: "router_handle demo_js 60 False (socket_peer demo_destination) ''F'' rt =
      (Inl ''persist_failed'', rt\<lparr>rt_broken := True, rt_peers := []\<rparr>, [], Lost (demo_acked\<lparr>md_state := Room_Completed\<rparr>))"
    by (simp add: router_handle_def MAX_TRANSFER_FRAME_BYTES_def dispatch_frame_def p demo_parse_def demo_frame_def fget_def
      rt_def demo_eval demo_records fstring_def js_id_def room_finish_ack_def frame_bound_def exactlyKeys_def base_keys_def
      demo_acked_fields barrier_def)
  have "webSocketMessage demo_js 60 False demo_destination (Some ''F'') demo_woken = (demo_lost, [])"
    using at h demo_acked_heard(2) [of 60]
    by (simp add: webSocketMessage_def demo_room_def demo_woken_def demo_lost_def rt_def demo_eval)
  then show ?thesis by (simp add: demo_def demo_woken_def demo_room_def)
qed

definition demo_request :: terminal_request where
  "demo_request = \<lparr>rq_content_type = Some ''application/json'', rq_content_length = Some ''1'', rq_body = Some [as_bytes ''E''],
     rq_control = Some (demo_mac ''E'')\<rparr>"

lemma demo_control_verified: "verifyTransferTerminalControl demo_js demo_crypto (Some ''s'') ''E'' (Some (demo_mac ''E'')) = Some demo_control"
proof -
  have "control_valid ''s'' demo_control"
    by (simp add: control_valid_def demo_control_def js_id_def js_hash_def lower_hex_def list_all_iff safe_integer_def)
  then have "issueTransferTerminalControl demo_js demo_crypto ''s'' demo_control = Some (''E'', demo_mac ''E'')"
    by (simp add: issueTransferTerminalControl_def demo_js_def demo_text demo_crypto_def demo_mac_def Let_def)
  from issued_control [OF this demo_faithful(2)] show ?thesis by (simp add: demo_crypto_def)
qed

lemma demo_terminal:
  "room_step demo 70 all_well (Terminal 0 demo_request) demo_lost
   = (200, demo_lost\<lparr>st_tickets := None, rm_consumed := [], rm_sockets := []\<rparr>, [])"
proof -
  have body: "readTerminalControlBody (Some [as_bytes ''E'']) 1 = Some ''E''" "content_bytes ''1'' = Some 1"
    by code_simp+
  have "fetch_terminal demo_js demo_crypto (Some ''s'') all_well demo_request demo_lost
      = (200, demo_lost\<lparr>st_tickets := None, rm_consumed := [], rm_sockets := []\<rparr>)"
    using body demo_control_verified
    by (simp add: fetch_terminal_def demo_request_def safe_integer_def MAX_TERMINAL_CONTROL_BYTES_def demo_lost_def room_metadata_def
      demo_control_def demo_acked_fields demo_metadata_fields all_well_def)
  then show ?thesis by (simp add: demo_def demo_lost_def demo_woken_def demo_room_def MAX_ADMISSION_QUEUE_def)
qed

definition demo_settled :: transfer_room where
  "demo_settled = demo_lost\<lparr>st_tickets := None, rm_consumed := [], rm_sockets := []\<rparr>"

definition demo_reborn :: transfer_room where
  "demo_reborn =
     \<lparr>rm_meta = Some SharedWithRouter,
      rm_router = Some \<lparr>rt_peers = [], rt_in_flight = None, rt_meta = demo_acked, rt_broken = False\<rparr>,
      rm_consumed = [], rm_sockets = [], rm_failed = False,
      st_metadata = Some demo_acked, st_tickets = None, st_alarm = Some 5000\<rparr>"

lemma demo_wake_again: "room_step demo 80 all_well Wake demo_settled = (0, demo_reborn, [])"
  by (simp add: room_restore_def demo_settled_def demo_reborn_def demo_lost_def demo_woken_def demo_room_def MAX_TICKET_REPLAYS_def
      with_router_def router_new_def Let_def)

lemma demo_replayed: "fst (room_step demo 90 all_well (Upgrade 0 ''z'' (Some (demo_ticket ''1''))) demo_reborn) = 101"
proof -
  have "sameMetadata demo_acked (demo_claims ''1'' Source 1)" by (simp add: demo_acked_fields demo_same)
  then have "room_step demo 90 all_well (Upgrade 0 ''z'' (Some (demo_ticket ''1''))) demo_reborn
      = admit_ticket demo_crypto 90 all_well ''z'' (demo_claims ''1'' Source 1) demo_reborn"
    by (intro demo_upgrade) (simp_all add: demo_issued_def demo_reborn_def room_metadata_def)
  moreover have "fst (admit_ticket demo_crypto 90 all_well ''z'' (demo_claims ''1'' Source 1) demo_reborn) = 101"
    by (simp add: admit_ticket_def demo_reborn_def role_taken_def room_consume_def all_well_def admit_socket_def
      attachment_for_def demo_claims_def demo_eval demo_acked_fields demo_metadata_fields)
  ultimately show ?thesis by simp
qed

text \<open>The alarm cannot be set: the metadata is stored and known, and there is no router.\<close>

definition no_alarm :: storage_outcome where
  "no_alarm = all_well\<lparr>so_alarm := False\<rparr>"

definition demo_stranded :: transfer_room where
  "demo_stranded = demo_waiting\<lparr>rm_meta := Some (OwnMeta demo_metadata), rm_router := None, rm_sockets := [], st_alarm := None\<rparr>"

lemma demo_strands: "room_step demo 10 no_alarm (Upgrade 0 ''x'' (Some (demo_ticket ''1''))) room_empty = (503, demo_stranded, [])"
proof -
  have "room_step demo 10 no_alarm (Upgrade 0 ''x'' (Some (demo_ticket ''1''))) room_empty
      = admit_ticket demo_crypto 10 no_alarm ''x'' (demo_claims ''1'' Source 1) room_empty"
    by (intro demo_upgrade) (simp_all add: demo_issued_def room_empty_def room_metadata_def)
  moreover have "metadataFor (demo_claims ''1'' Source 1) = demo_metadata" by (simp add: demo_metadata_def)
  then have "admit_ticket demo_crypto 10 no_alarm ''x'' (demo_claims ''1'' Source 1) room_empty = (503, demo_stranded, [])"
    by (simp add: admit_ticket_def room_empty_def role_taken_def room_consume_def all_well_def no_alarm_def demo_stranded_def
      demo_waiting_def demo_eval demo_records)
  ultimately show ?thesis by simp
qed

lemma demo_stranded_upgrade:
  "room_step demo 20 all_well (Upgrade 0 ''y'' (Some (demo_ticket ''2''))) demo_stranded
   = (101, demo_stranded\<lparr>rm_sockets := [demo_destination], rm_consumed := [(demo_key ''1'', 1000), (demo_key ''2'', 1000)],
        st_tickets := Some [(demo_key ''1'', 1000), (demo_key ''2'', 1000)]\<rparr>, [])"
proof -
  have "room_step demo 20 all_well (Upgrade 0 ''y'' (Some (demo_ticket ''2''))) demo_stranded
      = admit_ticket demo_crypto 20 all_well ''y'' (demo_claims ''2'' Destination 1) demo_stranded"
    by (intro demo_upgrade) (simp_all add: demo_issued_def demo_stranded_def demo_waiting_def room_metadata_def demo_same)
  moreover have "attachment_for ''y'' (demo_claims ''2'' Destination 1) = demo_destination" by (simp add: demo_destination_def)
  then have "admit_ticket demo_crypto 20 all_well ''y'' (demo_claims ''2'' Destination 1) demo_stranded
      = (101, demo_stranded\<lparr>rm_sockets := [demo_destination], rm_consumed := [(demo_key ''1'', 1000), (demo_key ''2'', 1000)],
        st_tickets := Some [(demo_key ''1'', 1000), (demo_key ''2'', 1000)]\<rparr>, [])"
    by (simp add: admit_ticket_def demo_stranded_def role_taken_def room_consume_def all_well_def admit_socket_def
      demo_waiting_def demo_eval demo_records)
  ultimately show ?thesis by simp
qed

end
