(* ===== verification/Room_Safety.thy ===== *)
theory Room_Safety
  imports Room_Ledger Room_Demo
begin

text \<open>
  The properties of the transfer room, over whole runs of it: any events, in any order, at any times,
  with any of the storage calls failing unless a property says otherwise.
\<close>

section \<open>Runs\<close>

lemma room_run_ok: "room_ok (foldl (room_exec rs) room_empty history)"
  by (rule relay_epoch.inv_run [OF room_ok_empty])

lemma run_forward:
  "room_ok rm \<Longrightarrow> st_metadata rm = Some s \<Longrightarrow> \<exists>s'. st_metadata (foldl (room_exec rs) rm later) = Some s' \<and> moves s s'"
proof (induction later arbitrary: rm s)
  case (Cons m later)
  from room_exec_keeps [OF Cons.prems(1), of rs m] Cons.prems(2) obtain s1 where
    s1: "room_ok (room_exec rs rm m)" "st_metadata (room_exec rs rm m) = Some s1" "moves s s1" by (auto simp: forward_def)
  from Cons.IH [OF s1(1,2)] s1(3) show ?case by (auto intro: moves_trans)
qed simp

lemma final_run:
  assumes "linked m" and "final z (int (snd m)) (fst m)" and "over z" and "st_metadata (fst m) = Some s"
  shows "\<exists>s'. st_metadata (fst (foldl (clocked rs) m ticks)) = Some s' \<and> plan_of s' = plan_of s
    \<and> (md_state s' = z \<or> md_state s' = Room_Expired \<and> md_transfer_expires_at s' \<le> int (snd (foldl (clocked rs) m ticks)))"
  using assms
proof (induction ticks arbitrary: m s)
  case Nil
  then show ?case by (auto simp: final_def all_in_def passed_def)
next
  case (Cons tick ticks)
  obtain rm t where m: "m = (rm, t)" by (cases m)
  obtain dt so e where tk: "tick = (dt, so, e)" by (cases tick)
  obtain status rm' outp where st: "room_step rs (int (t + dt)) so e rm = (status, rm', outp)"
    by (cases "room_step rs (int (t + dt)) so e rm") auto
  have c: "clocked rs m tick = (rm', t + dt)" using st by (simp add: m tk clocked_def room_exec_def)
  have s: "st_metadata rm = Some s" using Cons.prems(4) by (simp add: m)
  have ok: "room_ok rm" "dated rm" using Cons.prems(1) by (simp_all add: m linked_def)
  have "final z (int (t + dt)) rm" using Cons.prems(2) by (auto simp: m intro: final_later)
  from final_step [OF st ok s this Cons.prems(3)] have f: "final z (int (t + dt)) rm'" .
  obtain s1 where s1: "st_metadata rm' = Some s1" "plan_of s1 = plan_of s"
    using step_keeps [OF st ok(1)] s by (auto simp: forward_def moves_def ahead_def)
  have "linked (rm', t + dt)" using linked_clocked [of rm t rs dt so e] Cons.prems(1) c by (simp add: m tk)
  from Cons.IH [OF this _ Cons.prems(3)] f s1 c show ?case by simp
qed

lemma clock_of_run: "snd (foldl (clocked rs) m ticks) = snd m + sum_list (map fst ticks)"
  by (induction ticks arbitrary: m) (auto simp: clocked_def split: prod.splits)

section \<open>The relay\<close>

text \<open>
  C28: Whatever happened to a room before, restarts and failed writes included, the source is sent an
  acknowledgement only in an event that leaves exactly the acknowledged cursor in storage; the
  acknowledged chunk is the one that storage expected next, at most one chunk long, under the same
  epoch and plan.
\<close>

theorem acknowledged_bytes_are_durable:
  assumes "room_step rs now so e (foldl (room_exec rs) room_empty history) = (status, rm', outp)"
    and "(q, n) \<in> set (acks_of outp)"
  shows "\<exists>s s'. st_metadata (foldl (room_exec rs) room_empty history) = Some s \<and> st_metadata rm' = Some s'
    \<and> md_ack_sequence s' = Some q \<and> md_ack_offset s' = n \<and> q = next_sequence s
    \<and> md_ack_offset s < n \<and> n \<le> md_ack_offset s + MAX_TRANSFER_CHUNK_BYTES \<and> n \<le> md_max_bytes s
    \<and> md_epoch s' = md_epoch s \<and> md_plan_sha256 s' = md_plan_sha256 s"
proof -
  let ?rm = "foldl (room_exec rs) room_empty history"
  from step_keeps [OF assms(1) room_run_ok] assms(2) have ack: "acknowledged ?rm (q, n) rm'" and ok: "room_ok rm'" by auto
  then obtain s s' where s: "st_metadata ?rm = Some s" "st_metadata rm' = Some s'" "cursor_of s' = (Some q, n)"
    "q = next_sequence s" "md_ack_offset s < n" "n \<le> md_ack_offset s + MAX_TRANSFER_CHUNK_BYTES" "binding s' = binding s"
    by (auto simp: acknowledged_def)
  have "n \<le> md_max_bytes s"
    using room_okD(4) [OF ok s(2)] s(3) binding_fields(3) [OF s(7)] by (simp add: cursor_ok_def cursor_of_def)
  with s binding_fields [OF s(7)] show ?thesis by (auto simp: cursor_of_def)
qed

theorem acknowledged_bytes_are_durable_witness:
  "room_step demo 40 all_well (Message demo_destination (Some ''A'') True) (foldl (room_exec demo) room_empty demo_opening)
     = (0, demo_moved, [(''x'', AckFrame 0 1)])
   \<and> (\<exists>s'. st_metadata demo_moved = Some s' \<and> md_ack_sequence s' = Some 0 \<and> md_ack_offset s' = 1)"
proof -
  have st: "room_step demo 40 all_well (Message demo_destination (Some ''A'') True) (foldl (room_exec demo) room_empty demo_opening)
     = (0, demo_moved, [(''x'', AckFrame 0 1)])"
    by (simp only: demo_opened demo_fourth)
  have "(0, 1) \<in> set (acks_of [(''x'', AckFrame 0 1)])" by simp
  from acknowledged_bytes_are_durable [OF st this] st show ?thesis by (auto simp del: room_step.simps)
qed

text \<open>
  Along every run of a room the offsets that it acknowledges to the source grow strictly: no byte
  is acknowledged twice, and none after a later one.
\<close>

theorem acknowledgements_only_grow:
  "sorted_wrt (<) (emitted (room_exec rs) (acked_offset rs) room_empty moments)"
  by (rule relay_cursor.emitted_strictly_increasing [OF room_ok_empty]) (simp add: list_all_iff)

text \<open>
  C32: What a room has stored only moves forward: the next sequence number and the offset never go
  back, the plan (devices, workspaces, plan hash, size, deadline) never changes, and epoch and fence
  grow together.
\<close>

theorem stored_transfer_moves_forward:
  assumes "st_metadata (foldl (room_exec rs) room_empty history) = Some s"
  shows "\<exists>s'. st_metadata (foldl (room_exec rs) room_empty (history @ later)) = Some s'
    \<and> next_sequence s \<le> next_sequence s' \<and> md_ack_offset s \<le> md_ack_offset s' \<and> plan_of s' = plan_of s
    \<and> md_epoch s \<le> md_epoch s' \<and> md_fence s' - md_fence s = md_epoch s' - md_epoch s"
  using run_forward [OF room_run_ok assms, of rs later] by (auto simp: moves_def ahead_def)

theorem stored_transfer_moves_forward_witness:
  "st_metadata (foldl (room_exec demo) room_empty demo_opening) = Some demo_metadata
   \<and> (\<exists>s'. st_metadata (foldl (room_exec demo) room_empty
        (demo_opening @ [(40, all_well, Message demo_destination (Some ''A'') True)])) = Some s'
      \<and> md_ack_offset demo_metadata \<le> md_ack_offset s' \<and> plan_of s' = plan_of demo_metadata)"
proof -
  have s: "st_metadata (foldl (room_exec demo) room_empty demo_opening) = Some demo_metadata"
    by (simp add: demo_opened demo_room_def)
  from s stored_transfer_moves_forward [OF s, of "[(40, all_well, Message demo_destination (Some ''A'') True)]"]
  show ?thesis by blast
qed

text \<open>
  C31: Once a later epoch is stored, a socket of an earlier one is out for good: whatever happens
  next, a message on it is answered by closing it, nothing is relayed and nothing else changes.
\<close>

theorem earlier_epoch_is_never_heard:
  assumes "st_metadata (foldl (room_exec rs) room_empty history) = Some s" and "at_epoch a < md_epoch s"
  shows "webSocketMessage js now stored a message (foldl (room_exec rs) room_empty (history @ later))
    = (close_socket a (foldl (room_exec rs) room_empty (history @ later)), [])"
proof -
  let ?rm = "foldl (room_exec rs) room_empty history"
  have "epoch_gone (at_epoch a) ?rm" using assms by (auto simp: epoch_gone_def)
  then have "\<not> epoch_heard (foldl (room_exec rs) ?rm later) (at_epoch a)"
    by (intro relay_epoch.fenced_forever [OF room_run_ok]) (simp_all add: list_all_iff)
  then have "\<not> validateTransferAttachment a (room_metadata (foldl (room_exec rs) ?rm later)) now" by (auto simp: epoch_heard_def)
  then show ?thesis by (simp add: webSocketMessage_def split: option.splits)
qed

text \<open>The source comes back with a ticket of the next epoch while its old socket is still open.\<close>

definition demo_reconnect :: "moment list" where
  "demo_reconnect = demo_opening @ [(40, all_well, Upgrade 0 ''z'' (Some (demo_ticket ''3'')))]"

lemma admit_keeps_stored:
  assumes "room_metadata rm \<noteq> None"
  shows "st_metadata (fst (snd (admit_ticket rc now so pid c rm))) = st_metadata rm"
  using assms
  by (auto simp: admit_ticket_def room_consume_def admit_socket_def close_socket_def room_metadata_def Let_def
      split: option.splits prod.splits meta_ref.splits if_splits)

lemma demo_reconnected:
  "st_metadata (foldl (room_exec demo) room_empty demo_reconnect) = Some (demo_active\<lparr>md_epoch := 2, md_fence := 2\<rparr>)"
proof -
  let ?rm = "demo_room demo_active (Some demo_flight)" and ?c = "demo_claims ''3'' Source 2"
  have v: "verifyTransferTicket demo_js demo_crypto 40 (Some ''s'') (Some (demo_ticket ''3'')) = Some ?c"
    by (rule demo_verified) (simp_all add: demo_issued_def)
  have md: "room_metadata ?rm = Some demo_active" by (simp add: demo_room_def room_metadata_def)
  have adv: "\<not> sameMetadata demo_active ?c" "canAdvanceMetadata demo_active ?c"
    by (simp_all add: sameMetadata_def canAdvanceMetadata_def demo_active_def demo_metadata_fields demo_claims_def)
  have c: "\<not> tk_ticket_exp ?c \<le> 40" "tk_device_id ?c = (case tk_role ?c of Source \<Rightarrow> tk_source_device_id ?c | Destination \<Rightarrow> tk_destination_device_id ?c)"
    by (simp_all add: demo_claims_def)
  have "fetch_socket demo_js demo_crypto (Some ''s'') 40 all_well ''z'' (Some (demo_ticket ''3'')) ?rm
      = admit_ticket demo_crypto 40 all_well ''z'' ?c (advance_epoch demo_active ?c ?rm)"
    using v md adv c by (simp add: fetch_socket_def all_well_def)
  then have step: "room_step demo 40 all_well (Upgrade 0 ''z'' (Some (demo_ticket ''3''))) ?rm
      = admit_ticket demo_crypto 40 all_well ''z'' ?c (advance_epoch demo_active ?c ?rm)"
    by (simp add: demo_def demo_room_def MAX_ADMISSION_QUEUE_def)
  have new: "room_metadata (advance_epoch demo_active ?c ?rm) \<noteq> None"
    "st_metadata (advance_epoch demo_active ?c ?rm) = Some (demo_active\<lparr>md_epoch := 2, md_fence := 2\<rparr>)"
    by (simp_all add: advance_epoch_def with_router_def put_metadata_def room_metadata_def Let_def demo_claims_def)
  show ?thesis
    unfolding demo_reconnect_def foldl_append demo_opened
    using admit_keeps_stored [OF new(1)] new(2) step by (simp add: room_exec_def del: room_step.simps)
qed

theorem earlier_epoch_is_never_heard_witness:
  "st_metadata (foldl (room_exec demo) room_empty demo_opening) = Some demo_metadata \<and> at_epoch demo_source = md_epoch demo_metadata
   \<and> st_metadata (foldl (room_exec demo) room_empty demo_reconnect) = Some (demo_active\<lparr>md_epoch := 2, md_fence := 2\<rparr>)
   \<and> webSocketMessage demo_js 50 True demo_source (Some ''C'')
        (foldl (room_exec demo) room_empty (demo_reconnect @ [(45, all_well, Wake)]))
     = (close_socket demo_source (foldl (room_exec demo) room_empty (demo_reconnect @ [(45, all_well, Wake)])), [])"
proof -
  have s: "st_metadata (foldl (room_exec demo) room_empty demo_opening) = Some demo_metadata" "at_epoch demo_source = md_epoch demo_metadata"
    by (simp_all add: demo_opened demo_room_def demo_attached demo_metadata_fields)
  have l: "at_epoch demo_source < md_epoch (demo_active\<lparr>md_epoch := 2, md_fence := 2\<rparr>)" by (simp add: demo_attached)
  from s demo_reconnected earlier_epoch_is_never_heard [OF demo_reconnected l, of demo_js 50 True "Some ''C''" "[(45, all_well, Wake)]"]
  show ?thesis by simp
qed

section \<open>How a transfer ends\<close>

text \<open>
  C30: A transfer that storage holds as completed or as cancelled stays what it is: along every run of a
  room under a clock that does not go back, whatever events follow and whatever storage calls fail,
  the stored state is still the same, unless the clock has reached the deadline of the transfer, which
  never changes; only then it may be expired.
\<close>

theorem settled_transfer_stays_settled:
  assumes "st_metadata (fst (foldl (clocked rs) (room_empty, 0) history)) = Some s"
    and "md_state s = Room_Completed \<or> md_state s = Room_Cancelled"
  shows "\<exists>s'. st_metadata (fst (foldl (clocked rs) (room_empty, 0) (history @ later))) = Some s'
    \<and> md_transfer_expires_at s' = md_transfer_expires_at s
    \<and> (md_state s' = md_state s
       \<or> md_state s' = Room_Expired
         \<and> md_transfer_expires_at s \<le> int (snd (foldl (clocked rs) (room_empty, 0) (history @ later))))"
proof -
  let ?m = "foldl (clocked rs) (room_empty, 0) history"
  have l: "linked ?m" by (rule linked_run [OF linked_empty])
  have ov: "over (md_state s)" using assms(2) by (auto simp: over_def)
  have "final (md_state s) (int (snd ?m)) (fst ?m)" using l assms(1) ov by (auto simp: linked_def split: prod.splits)
  from final_run [OF l this ov assms(1), of rs later] obtain s' where
    "st_metadata (fst (foldl (clocked rs) ?m later)) = Some s'" "plan_of s' = plan_of s"
    "md_state s' = md_state s \<or> md_state s' = Room_Expired \<and> md_transfer_expires_at s' \<le> int (snd (foldl (clocked rs) ?m later))"
    by blast
  moreover have "md_transfer_expires_at s' = md_transfer_expires_at s" using arg_cong [OF \<open>plan_of s' = plan_of s\<close>, of md_transfer_expires_at] by (simp add: plan_of_def binding_def)
  ultimately show ?thesis by simp
qed

definition demo_ticks :: "tick list" where
  "demo_ticks =
     [(10, all_well, Upgrade 0 ''x'' (Some (demo_ticket ''1''))),
      (10, all_well, Upgrade 0 ''y'' (Some (demo_ticket ''2''))),
      (10, all_well, Message demo_source (Some ''C'') True)]"

lemma demo_ticked: "foldl (clocked demo) (room_empty, 0) demo_ticks = (demo_room demo_active (Some demo_flight), 30)"
  by (simp add: demo_ticks_def clocked_def room_exec_def demo_first demo_second demo_third del: room_step.simps)

lemma demo_cancelled:
  "fst (snd (room_step demo 40 all_well (Message demo_source (Some ''X'') True) (demo_room demo_active (Some demo_flight))))
   = (demo_room (demo_active\<lparr>md_state := Room_Cancelled\<rparr>) None)
       \<lparr>rm_meta := Some (OwnMeta (demo_active\<lparr>md_state := Room_Cancelled\<rparr>)), st_metadata := Some (demo_active\<lparr>md_state := Room_Cancelled\<rparr>)\<rparr>"
proof -
  define rt where "rt = \<lparr>rt_peers = [(Source, socket_peer demo_source), (Destination, socket_peer demo_destination)],
    rt_in_flight = Some demo_flight, rt_meta = demo_active, rt_broken = False\<rparr>"
  let ?md = "demo_active\<lparr>md_state := Room_Cancelled\<rparr>"
  have at: "router_attach 40 (socket_peer demo_source) rt = (AttachExisting, rt, [])"
    by (simp add: rt_def demo_eval demo_records demo_active_def)
  have p: "js_parse demo_js ''X'' = demo_parse ''X''" by (simp add: demo_js_def)
  have h: "router_handle demo_js 40 True (socket_peer demo_source) ''X'' rt =
      (Inr (), rt\<lparr>rt_meta := ?md, rt_in_flight := None\<rparr>, [(''y'', CancelFrame)], Stored ?md)"
    by (simp add: router_handle_def MAX_TRANSFER_FRAME_BYTES_def dispatch_frame_def p demo_parse_def demo_frame_def fget_def
      rt_def demo_eval demo_records fstring_def js_id_def room_cancel_def frame_bound_def exactlyKeys_def base_keys_def
      demo_active_def barrier_def other_role_def)
  have "validateTransferAttachment demo_source (Some demo_active) 40"
    using demo_heard [of 40 demo_active] by (simp add: demo_active_def demo_metadata_fields)
  with at h have "webSocketMessage demo_js 40 True demo_source (Some ''X'') (demo_room demo_active (Some demo_flight))
      = ((demo_room ?md None)\<lparr>rm_meta := Some (OwnMeta ?md), st_metadata := Some ?md\<rparr>, [(''y'', CancelFrame)])"
    by (simp add: webSocketMessage_def demo_room_def rt_def demo_eval)
  then show ?thesis by (simp add: demo_def demo_room_def)
qed

theorem settled_transfer_stays_settled_witness:
  "st_metadata (fst (foldl (clocked demo) (room_empty, 0) (demo_ticks @ [(10, all_well, Message demo_source (Some ''X'') True)])))
     = Some (demo_active\<lparr>md_state := Room_Cancelled\<rparr>)
   \<and> (\<exists>s'. st_metadata (fst (foldl (clocked demo) (room_empty, 0)
          ((demo_ticks @ [(10, all_well, Message demo_source (Some ''X'') True)])
           @ [(10, all_well, Message demo_destination (Some ''F'') True), (10, all_well, Terminal 0 demo_request), (10, all_well, Alarm)])))
          = Some s' \<and> md_state s' = Room_Cancelled)"
proof -
  let ?h = "demo_ticks @ [(10, all_well, Message demo_source (Some ''X'') True)]"
  let ?l = "[(10, all_well, Message demo_destination (Some ''F'') True), (10, all_well, Terminal 0 demo_request), (10, all_well, Alarm)]"
  have s: "st_metadata (fst (foldl (clocked demo) (room_empty, 0) ?h)) = Some (demo_active\<lparr>md_state := Room_Cancelled\<rparr>)"
    using demo_cancelled
    by (simp only: foldl_append foldl.simps demo_ticked) (simp add: clocked_def room_exec_def del: room_step.simps)
  have z: "md_state (demo_active\<lparr>md_state := Room_Cancelled\<rparr>) = Room_Completed \<or> md_state (demo_active\<lparr>md_state := Room_Cancelled\<rparr>) = Room_Cancelled"
    by simp
  have t: "snd (foldl (clocked demo) (room_empty, 0) (?h @ ?l)) = 70" unfolding clock_of_run by (simp add: demo_ticks_def)
  have x: "md_transfer_expires_at (demo_active\<lparr>md_state := Room_Cancelled\<rparr>) = 5000"
    by (simp add: demo_active_def demo_metadata_fields)
  from s settled_transfer_stays_settled [OF s z, of ?l, unfolded t x] show ?thesis by auto
qed

section \<open>Tickets\<close>

text \<open>
  C29: No ticket opens two sockets: along every run of a room under a clock that does not go back, with
  restarts and with any failures of storage except in the persistence barrier of a message, the
  tickets of the upgrades that were answered with 101 are all different.
\<close>

theorem tickets_open_one_socket:
  assumes "list_all barrier_holds ticks"
  shows "distinct (emitted (clocked rs) (admitted rs) (room_empty, 0) ticks)"
  by (rule room_tickets.emitted_once [OF synced_empty assms])

lemma demo_admitted:
  "admitted demo (room_empty, 0) (10, all_well, Upgrade 0 ''x'' (Some (demo_ticket ''1''))) = Some (demo_claims ''1'' Source 1)"
  "admitted demo (demo_waiting, 10) (10, all_well, Upgrade 0 ''y'' (Some (demo_ticket ''2''))) = Some (demo_claims ''2'' Destination 1)"
proof -
  have v: "verifyTransferTicket (rs_js demo) (rs_crypto demo) now (rs_secret demo) (Some (demo_ticket jti)) = Some (demo_claims jti role ep)"
    if "(jti, role, ep) \<in> set demo_issued" "0 \<le> now" "now < 1000" for jti role ep now
    using demo_verified [OF that] by (simp add: demo_def)
  show "admitted demo (room_empty, 0) (10, all_well, Upgrade 0 ''x'' (Some (demo_ticket ''1''))) = Some (demo_claims ''1'' Source 1)"
    using v [of "''1''" Source 1 10] by (simp add: admitted_def demo_first demo_issued_def del: room_step.simps)
  show "admitted demo (demo_waiting, 10) (10, all_well, Upgrade 0 ''y'' (Some (demo_ticket ''2''))) = Some (demo_claims ''2'' Destination 1)"
    using v [of "''2''" Destination 1 20] by (simp add: admitted_def demo_second demo_issued_def del: room_step.simps)
qed

theorem tickets_open_one_socket_witness:
  "list_all barrier_holds demo_ticks
   \<and> emitted (clocked demo) (admitted demo) (room_empty, 0) demo_ticks = [demo_claims ''1'' Source 1, demo_claims ''2'' Destination 1]
   \<and> distinct (emitted (clocked demo) (admitted demo) (room_empty, 0) demo_ticks)"
proof -
  have ok: "list_all barrier_holds demo_ticks" by (simp add: demo_ticks_def)
  have "clocked demo (room_empty, 0) (10, all_well, Upgrade 0 ''x'' (Some (demo_ticket ''1''))) = (demo_waiting, 10)"
    "clocked demo (demo_waiting, 10) (10, all_well, Upgrade 0 ''y'' (Some (demo_ticket ''2''))) = (demo_room demo_metadata None, 20)"
    by (simp_all add: clocked_def room_exec_def demo_first demo_second del: room_step.simps)
  moreover have "admitted demo m (10, all_well, Message demo_source (Some ''C'') True) = None" for m
    by (cases m) (simp add: admitted_def)
  ultimately have "emitted (clocked demo) (admitted demo) (room_empty, 0) demo_ticks = [demo_claims ''1'' Source 1, demo_claims ''2'' Destination 1]"
    by (simp add: demo_ticks_def demo_admitted)
  with ok tickets_open_one_socket [OF ok, of demo] show ?thesis by blast
qed

text \<open>
  C33: A failed barrier breaks this.  The write of the destination's final acknowledgement fails after
  the room woke up, which leaves the room, but not storage, with a completed transfer.  The terminal
  request is then answered with 200 and deletes the replay ledger without storing anything, so that
  after the next restart a used ticket opens a second socket.
\<close>

theorem failed_barrier_reopens_tickets:
  "let (s1, r1, _) = room_step demo 60 all_well (Message demo_destination (Some ''F'') False) demo_woken;
       (s2, r2, _) = room_step demo 70 all_well (Terminal 0 demo_request) r1;
       (s3, r3, _) = room_step demo 80 all_well Wake r2;
       (s4, r4, _) = room_step demo 90 all_well (Upgrade 0 ''z'' (Some (demo_ticket ''1''))) r3
   in foldl (room_exec demo) room_empty
        (demo_opening @ [(40, all_well, Message demo_destination (Some ''A'') True), (50, all_well, Wake)]) = demo_woken
      \<and> s2 = 200 \<and> map_option md_state (st_metadata r2) = Some Room_Active \<and> st_tickets r2 = None \<and> s4 = 101"
proof -
  have start: "foldl (room_exec demo) room_empty
        (demo_opening @ [(40, all_well, Message demo_destination (Some ''A'') True), (50, all_well, Wake)]) = demo_woken"
    by (simp add: demo_opened room_exec_def demo_fourth demo_wake del: room_step.simps)
  obtain r4 o4 where last: "room_step demo 90 all_well (Upgrade 0 ''z'' (Some (demo_ticket ''1''))) demo_reborn = (101, r4, o4)"
    using demo_replayed by (cases "room_step demo 90 all_well (Upgrade 0 ''z'' (Some (demo_ticket ''1''))) demo_reborn") auto
  have "map_option md_state (st_metadata demo_settled) = Some Room_Active" "st_tickets demo_settled = None"
    by (simp_all add: demo_settled_def demo_lost_def demo_woken_def demo_acked_fields)
  then show ?thesis
    using start last
    by (simp add: demo_finish_lost demo_terminal demo_settled_def [symmetric] demo_wake_again del: room_step.simps)
qed

text \<open>
  C34: When the alarm of a new room cannot be set, its metadata stays and it gets no router: the next
  ticket is answered with 101, and the first message on the socket that it opened closes it.
\<close>

theorem failed_alarm_strands_the_room:
  "let (s1, r1, _) = room_step demo 10 no_alarm (Upgrade 0 ''x'' (Some (demo_ticket ''1''))) room_empty;
       (s2, r2, _) = room_step demo 20 all_well (Upgrade 0 ''y'' (Some (demo_ticket ''2''))) r1;
       (s3, r3, o3) = room_step demo now all_well (Message demo_destination (Some raw) True) r2
   in s1 = 503 \<and> s2 = 101 \<and> demo_destination \<in> set (rm_sockets r2) \<and> rm_sockets r3 = [] \<and> o3 = []"
proof -
  have "room_step demo now all_well (Message demo_destination (Some raw) True)
      (demo_stranded\<lparr>rm_sockets := [demo_destination], rm_consumed := ck, st_tickets := tk\<rparr>)
      = (0, demo_stranded\<lparr>rm_sockets := [], rm_consumed := ck, st_tickets := tk\<rparr>, [])" for ck tk
    by (simp add: demo_stranded_def demo_waiting_def webSocketMessage_def close_socket_def)
  then show ?thesis
    by (simp add: demo_strands demo_stranded_upgrade del: room_step.simps)
qed

end
