(* ===== verification/Transfer_Crypto.thy ===== *)
theory Transfer_Crypto
  imports Transfer_Flow Room_Tickets
begin

text \<open>
  The agent's side of a ticket, \<open>crates/ownmeshd/src/transfer_crypto.rs\<close>: the ticket as an agent
  reads it, the proof of the ephemeral keys, the binding from which the key of a transfer session is
  derived, and the sealing and opening of chunks; with the verification of a signature from
  \<open>crates/ownmesh-identity/src/device_key.rs\<close>.

  The functions of the \<open>ring\<close>, \<open>sha2\<close> and \<open>ed25519-dalek\<close> crates are arguments.  Key material is
  of any type.
\<close>

section \<open>Fields\<close>

definition hex_lower_digit :: "char \<Rightarrow> bool" where
  "hex_lower_digit c \<longleftrightarrow> is_ascii_digit c \<or> (CHR ''a'' \<le> c \<and> c \<le> CHR ''f'')"

definition valid_hex :: "string \<Rightarrow> nat \<Rightarrow> bool" where
  "valid_hex value bytes \<longleftrightarrow> length value = bytes * 2 \<and> list_all hex_lower_digit value"

definition ticket_id_ok :: "string \<Rightarrow> bool" where
  "ticket_id_ok value \<longleftrightarrow> value \<noteq> [] \<and> length value \<le> 256 \<and> \<not> list_ex is_ascii_control value"

definition decode_hex :: "string \<Rightarrow> (string, bytes) result" where
  "decode_hex value =
     (if odd (length value) \<or> \<not> list_all hex_lower_digit value then Inl ''invalid hexadecimal value''
      else Inr (raw_hex value))"

definition sha_hex :: "crypto \<Rightarrow> bytes \<Rightarrow> string" where
  "sha_hex H b =
     concat (map (\<lambda>x. [''0123456789abcdef'' ! (unat x div 16), ''0123456789abcdef'' ! (unat x mod 16)]) (cr_sha256 H b))"

section \<open>Signatures\<close>

record ed25519 =
  ed_key_ok :: "bytes \<Rightarrow> bool"
  ed_verify :: "bytes \<Rightarrow> bytes \<Rightarrow> bytes \<Rightarrow> bool"

text \<open>The kinds of \<open>IdentityError\<close>; their texts are dropped by every caller here.\<close>

datatype identity_error = IdentityInvalid | IdentityCrypto

definition hex_nibble :: "char \<Rightarrow> nat option" where
  "hex_nibble c =
     (let b = of_char c :: nat
      in if 48 \<le> b \<and> b \<le> 57 then Some (b - 48)
         else if 97 \<le> b \<and> b \<le> 102 then Some (b - 97 + 10)
         else if 65 \<le> b \<and> b \<le> 70 then Some (b - 65 + 10)
         else None)"

fun hex_pairs :: "string \<Rightarrow> (identity_error, bytes) result" where
  "hex_pairs (c # d # s) =
     (case (hex_nibble c, hex_nibble d) of
        (Some hi, Some lo) \<Rightarrow> and_then (hex_pairs s) (\<lambda>out. Inr (of_nat (hi * 16 + lo) # out))
      | _ \<Rightarrow> Inl IdentityInvalid)"
| "hex_pairs _ = Inr []"

definition hex_decode :: "string \<Rightarrow> (identity_error, bytes) result" where
  "hex_decode inp =
     (let s = trim inp
      in if odd (length s) then Inl IdentityInvalid
         else if \<not> list_all is_ascii_hexdigit s then Inl IdentityInvalid
         else hex_pairs s)"

definition verify_with_public :: "ed25519 \<Rightarrow> bytes \<Rightarrow> bytes \<Rightarrow> bytes \<Rightarrow> (identity_error, unit) result" where
  "verify_with_public ed verifying message signature =
     (if length signature \<noteq> 64 then Inl IdentityInvalid
      else if ed_verify ed verifying message signature then Inr () else Inl IdentityCrypto)"

definition verify_from_public_key_hex ::
  "ed25519 \<Rightarrow> string \<Rightarrow> bytes \<Rightarrow> string \<Rightarrow> (identity_error, unit) result" where
  "verify_from_public_key_hex ed public_key_hex message signature_hex =
     and_then (hex_decode (trim public_key_hex)) (\<lambda>pk.
     if length pk \<noteq> 32 then Inl IdentityInvalid
     else if \<not> ed_key_ok ed pk then Inl IdentityInvalid
     else
       and_then (hex_decode (trim signature_hex)) (\<lambda>sig.
       verify_with_public ed pk message sig))"

section \<open>The ticket of an agent\<close>

record agent_ticket =
  ag_v :: u8
  ag_jti :: string
  ag_session_nonce :: string
  ag_transfer_id :: string
  ag_tenant_id :: string
  ag_principal_id :: string
  ag_device_id :: string
  ag_role :: string
  ag_source_device_id :: string
  ag_destination_device_id :: string
  ag_source_workspace_id :: string
  ag_destination_workspace_id :: string
  ag_plan_sha256 :: string
  ag_epoch :: u32
  ag_fence :: u64
  ag_max_bytes :: u64
  ag_ticket_exp :: u64
  ag_transfer_expires_at :: u64
  ag_source_device_public_key :: string
  ag_destination_device_public_key :: string
  ag_source_ephemeral_public_key :: string
  ag_destination_ephemeral_public_key :: string
  ag_source_ephemeral_signature :: string
  ag_destination_ephemeral_signature :: string

definition EPHEMERAL_PROOF_DOMAIN :: string where
  "EPHEMERAL_PROOF_DOMAIN = ''ownmesh-transfer-ephemeral-v1''"

definition push_proof_string :: "bytes \<Rightarrow> string \<Rightarrow> (string, bytes) result" where
  "push_proof_string out value =
     (if length value \<ge> 2 ^ 32 then Inl ''transfer proof field too long''
      else Inr (out @ be_encode 4 (length value) @ as_bytes value))"

definition canonical_ephemeral_proof ::
  "string \<Rightarrow> string \<Rightarrow> string \<Rightarrow> string \<Rightarrow> string \<Rightarrow> string \<Rightarrow> u32 \<Rightarrow> u64 \<Rightarrow> string \<Rightarrow> string \<Rightarrow> u64 \<Rightarrow>
   (string, bytes) result" where
  "canonical_ephemeral_proof transfer_id tenant_id role device_id workspace_id plan_sha256 epoch fence
     session_nonce ephemeral_public_key expires_at_ms =
     and_then (decode_hex plan_sha256) (\<lambda>plan.
     and_then (decode_hex ephemeral_public_key) (\<lambda>ephemeral.
     if length plan \<noteq> 32 \<or> length ephemeral \<noteq> 32 \<or> epoch = 0 \<or> fence = 0
     then Inl ''invalid transfer proof key material''
     else if role \<noteq> ''source'' \<and> role \<noteq> ''destination'' then Inl ''invalid transfer proof role''
     else
       let role_byte = (if role = ''source'' then 1 else 2)
       in and_then (push_proof_string [] EPHEMERAL_PROOF_DOMAIN) (\<lambda>o1.
          and_then (push_proof_string o1 transfer_id) (\<lambda>o2.
          and_then (push_proof_string o2 tenant_id) (\<lambda>o3.
          and_then (push_proof_string (o3 @ [role_byte]) device_id) (\<lambda>o4.
          and_then (push_proof_string o4 workspace_id) (\<lambda>o5.
          and_then (push_proof_string (o5 @ plan @ be_encode 4 (unat epoch) @ be_encode 8 (unat fence)) session_nonce) (\<lambda>o6.
          Inr (o6 @ ephemeral @ be_encode 8 (unat expires_at_ms))))))))))"

definition ephemeral_proof :: "agent_ticket \<Rightarrow> string \<Rightarrow> (string, bytes) result" where
  "ephemeral_proof t role =
     (if role \<noteq> ''source'' \<and> role \<noteq> ''destination'' then Inl ''invalid transfer role''
      else
        let (device, workspace, ephemeral) =
              (if role = ''source''
               then (ag_source_device_id t, ag_source_workspace_id t, ag_source_ephemeral_public_key t)
               else (ag_destination_device_id t, ag_destination_workspace_id t, ag_destination_ephemeral_public_key t))
        in canonical_ephemeral_proof (ag_transfer_id t) (ag_tenant_id t) role device workspace (ag_plan_sha256 t)
             (ag_epoch t) (ag_fence t) (ag_session_nonce t) ephemeral (ag_transfer_expires_at t))"

definition map_err :: "'f \<Rightarrow> ('e, 'a) result \<Rightarrow> ('f, 'a) result" where
  "map_err f r = (case r of Inl _ \<Rightarrow> Inl f | Inr x \<Rightarrow> Inr x)"

definition verify_ephemeral_proofs :: "ed25519 \<Rightarrow> agent_ticket \<Rightarrow> (string, unit) result" where
  "verify_ephemeral_proofs ed t =
     and_then (ephemeral_proof t ''source'') (\<lambda>proof_s.
     and_then (map_err ''invalid source ephemeral proof''
       (verify_from_public_key_hex ed (ag_source_device_public_key t) proof_s (ag_source_ephemeral_signature t))) (\<lambda>_.
     and_then (ephemeral_proof t ''destination'') (\<lambda>proof_d.
     map_err ''invalid destination ephemeral proof''
       (verify_from_public_key_hex ed (ag_destination_device_public_key t) proof_d (ag_destination_ephemeral_signature t)))))"

definition ticket_shape_ok :: "agent_ticket \<Rightarrow> string \<Rightarrow> string \<Rightarrow> u64 \<Rightarrow> bool" where
  "ticket_shape_ok t device_id role now_ms \<longleftrightarrow>
     ag_v t = 1 \<and> ticket_id_ok (ag_jti t) \<and> ticket_id_ok (ag_session_nonce t) \<and> ticket_id_ok (ag_transfer_id t)
   \<and> ticket_id_ok (ag_tenant_id t) \<and> ticket_id_ok (ag_principal_id t) \<and> ticket_id_ok (ag_source_device_id t)
   \<and> ticket_id_ok (ag_destination_device_id t) \<and> ticket_id_ok (ag_source_workspace_id t)
   \<and> ticket_id_ok (ag_destination_workspace_id t) \<and> valid_hex (ag_plan_sha256 t) 32
   \<and> role = ag_role t \<and> device_id = ag_device_id t
   \<and> ag_ticket_exp t > now_ms \<and> ag_transfer_expires_at t > now_ms \<and> ag_transfer_expires_at t \<ge> ag_ticket_exp t
   \<and> ag_epoch t \<noteq> 0 \<and> ag_fence t \<noteq> 0 \<and> (role = ''source'' \<or> role = ''destination'')
   \<and> device_id = (if role = ''source'' then ag_source_device_id t else ag_destination_device_id t)
   \<and> valid_hex (ag_source_device_public_key t) 32 \<and> valid_hex (ag_destination_device_public_key t) 32
   \<and> valid_hex (ag_source_ephemeral_public_key t) 32 \<and> valid_hex (ag_destination_ephemeral_public_key t) 32
   \<and> valid_hex (ag_source_ephemeral_signature t) 64 \<and> valid_hex (ag_destination_ephemeral_signature t) 64"

definition ticket_validate_for :: "ed25519 \<Rightarrow> agent_ticket \<Rightarrow> string \<Rightarrow> string \<Rightarrow> u64 \<Rightarrow> (string, unit) result" where
  "ticket_validate_for ed t device_id role now_ms =
     (if \<not> ticket_shape_ok t device_id role now_ms then Inl ''invalid transfer ticket binding''
      else verify_ephemeral_proofs ed t)"

text \<open>\<open>None\<close> is the panic of \<open>copy_from_slice\<close> on a key that is not of 32 bytes.\<close>

definition peer_ephemeral_public_key :: "agent_ticket \<Rightarrow> string \<Rightarrow> (string, bytes) result option" where
  "peer_ephemeral_public_key t role =
     (if role \<noteq> ''source'' \<and> role \<noteq> ''destination'' then Some (Inl ''invalid transfer role'')
      else
        let raw = (if role = ''source'' then ag_destination_ephemeral_public_key t else ag_source_ephemeral_public_key t)
        in case decode_hex raw of
             Inl e \<Rightarrow> Some (Inl e)
           | Inr bytes \<Rightarrow> if length bytes \<noteq> 32 then None else Some (Inr bytes))"

section \<open>The binding of a session\<close>

record crypto_binding =
  cb_transfer_id :: string
  cb_tenant_id :: string
  cb_source_device_id :: string
  cb_destination_device_id :: string
  cb_source_workspace_id :: string
  cb_destination_workspace_id :: string
  cb_plan_sha256 :: string
  cb_epoch :: u32
  cb_fence :: u64
  cb_session_nonce :: string

definition ticket_binding :: "agent_ticket \<Rightarrow> crypto_binding" where
  "ticket_binding t =
     \<lparr>cb_transfer_id = ag_transfer_id t, cb_tenant_id = ag_tenant_id t, cb_source_device_id = ag_source_device_id t,
      cb_destination_device_id = ag_destination_device_id t, cb_source_workspace_id = ag_source_workspace_id t,
      cb_destination_workspace_id = ag_destination_workspace_id t, cb_plan_sha256 = ag_plan_sha256 t,
      cb_epoch = ag_epoch t, cb_fence = ag_fence t, cb_session_nonce = ag_session_nonce t\<rparr>"

definition E2E_DOMAIN :: bytes where "E2E_DOMAIN = as_bytes ''ownmesh-transfer-e2e-v1''"

definition binding_strings :: "crypto_binding \<Rightarrow> string list" where
  "binding_strings b =
     [cb_transfer_id b, cb_tenant_id b, cb_source_device_id b, cb_destination_device_id b, cb_source_workspace_id b,
      cb_destination_workspace_id b, cb_plan_sha256 b, cb_session_nonce b]"

definition binding_canonical :: "crypto_binding \<Rightarrow> (string, bytes) result" where
  "binding_canonical b =
     (if list_ex (\<lambda>v. v = [] \<or> length v > 256 \<or> list_ex is_ascii_control v) (binding_strings b)
       \<or> cb_epoch b = 0 \<or> cb_fence b = 0 \<or> length (cb_plan_sha256 b) \<noteq> 64 \<or> \<not> list_all is_ascii_hexdigit (cb_plan_sha256 b)
      then Inl ''invalid transfer crypto binding''
      else Inr (E2E_DOMAIN @ concat (map (\<lambda>f. be_encode 4 (length f) @ as_bytes f) (binding_strings b))
                @ be_encode 4 (unat (cb_epoch b)) @ be_encode 8 (unat (cb_fence b))))"

definition binding_nonce :: "crypto_binding \<Rightarrow> u64 \<Rightarrow> bytes" where
  "binding_nonce b sequence = be_encode 4 (unat (cb_epoch b)) @ be_encode 8 (unat sequence)"

definition additional_data :: "crypto_binding \<Rightarrow> u64 \<Rightarrow> u64 \<Rightarrow> nat \<Rightarrow> string \<Rightarrow> (string, bytes) result" where
  "additional_data b sequence offset len chunk_sha256 =
     (if length chunk_sha256 \<noteq> 64 \<or> \<not> list_all is_ascii_hexdigit chunk_sha256 then Inl ''invalid chunk hash''
      else
        and_then (binding_canonical b) (\<lambda>ad.
        Inr (ad @ be_encode 8 (unat sequence) @ be_encode 8 (unat offset) @ be_encode 8 len @ as_bytes chunk_sha256)))"

section \<open>Keys and chunks\<close>

text \<open>
  What \<open>ring\<close> offers: the public key of a private one, the agreement on a shared secret, the expansion of a secret under a salt and the
  parts of an info string, the reading of 32 bytes from it, the key schedule, and the authenticated
  cipher on a key, a nonce, additional data and a message.
\<close>

record ('priv, 'okm, 'key) session_crypto =
  sx_compute_public :: "'priv \<Rightarrow> bytes option"
  sx_agree :: "'priv \<Rightarrow> bytes \<Rightarrow> bytes option"
  sx_expand :: "bytes \<Rightarrow> bytes \<Rightarrow> bytes list \<Rightarrow> 'okm option"
  sx_fill :: "'okm \<Rightarrow> bytes option"
  sx_aes_key :: "bytes \<Rightarrow> 'key option"
  sx_seal :: "'key \<Rightarrow> bytes \<Rightarrow> bytes \<Rightarrow> bytes \<Rightarrow> bytes option"
  sx_open :: "'key \<Rightarrow> bytes \<Rightarrow> bytes \<Rightarrow> bytes \<Rightarrow> bytes option"

record 'key transfer_cipher =
  ci_key :: 'key
  ci_binding :: crypto_binding

text \<open>
  An ephemeral pair.  The private key that the system's random source gives is an argument, \<open>None\<close>
  when it fails.
\<close>

record 'priv transfer_ephemeral =
  te_private :: "'priv option"
  te_public :: bytes

definition generate_ephemeral ::
  "('priv, 'okm, 'key) session_crypto \<Rightarrow> 'priv option \<Rightarrow> (string, 'priv transfer_ephemeral) result" where
  "generate_ephemeral X random =
     and_then (ok_or ''generate x25519 key'' random) (\<lambda>private.
     and_then (ok_or ''derive x25519 public key'' (sx_compute_public X private)) (\<lambda>public.
     if length public \<noteq> 32 then Inl ''unexpected x25519 public key length''
     else Inr \<lparr>te_private = Some private, te_public = public\<rparr>))"

text \<open>\<open>derive\<close> takes the pair by value, so it is gone afterwards.\<close>

definition derive_cipher ::
  "('priv, 'okm, 'key) session_crypto \<Rightarrow> 'priv transfer_ephemeral \<Rightarrow> bytes \<Rightarrow> crypto_binding \<Rightarrow>
   (string, 'key transfer_cipher) result" where
  "derive_cipher X own peer_public b =
     (if length peer_public \<noteq> 32 then Inl ''invalid peer x25519 public key''
      else
        and_then (ok_or ''ephemeral key already consumed'' (te_private own)) (\<lambda>private.
        and_then (binding_canonical b) (\<lambda>info.
        and_then (ok_or ''x25519 agreement failed'' (sx_agree X private peer_public)) (\<lambda>shared.
        and_then (ok_or ''hkdf expand failed'' (sx_expand X (as_bytes (cb_plan_sha256 b)) shared [E2E_DOMAIN, info])) (\<lambda>okm.
        and_then (ok_or ''hkdf fill failed'' (sx_fill X okm)) (\<lambda>bytes.
        and_then (ok_or ''aes key failed'' (sx_aes_key X bytes)) (\<lambda>key.
        Inr \<lparr>ci_key = key, ci_binding = b\<rparr>)))))))"

definition seal_chunk ::
  "('priv, 'okm, 'key) session_crypto \<Rightarrow> 'key transfer_cipher \<Rightarrow> u64 \<Rightarrow> u64 \<Rightarrow> string \<Rightarrow> bytes \<Rightarrow> (string, bytes) result" where
  "seal_chunk X ci sequence offset chunk_sha256 plaintext =
     (if plaintext = [] \<or> length plaintext > 64 * 1024 then Inl ''invalid transfer plaintext length''
      else
        and_then (additional_data (ci_binding ci) sequence offset (length plaintext) chunk_sha256) (\<lambda>ad.
        ok_or ''aes seal failed'' (sx_seal X (ci_key ci) (binding_nonce (ci_binding ci) sequence) ad plaintext)))"

definition open_chunk ::
  "('priv, 'okm, 'key) session_crypto \<Rightarrow> crypto \<Rightarrow> 'key transfer_cipher \<Rightarrow> u64 \<Rightarrow> u64 \<Rightarrow> nat \<Rightarrow> string \<Rightarrow> bytes \<Rightarrow> (string, bytes) result" where
  "open_chunk X H ci sequence offset len chunk_sha256 ciphertext =
     (if len = 0 \<or> len > 64 * 1024 \<or> length ciphertext \<noteq> len + 16 then Inl ''invalid transfer ciphertext length''
      else
        and_then (additional_data (ci_binding ci) sequence offset len chunk_sha256) (\<lambda>ad.
        and_then (ok_or ''aes open failed'' (sx_open X (ci_key ci) (binding_nonce (ci_binding ci) sequence) ad ciphertext)) (\<lambda>plain.
        if sha_hex H plain \<noteq> chunk_sha256 then Inl ''transfer chunk hash mismatch'' else Inr plain)))"

section \<open>The two sides sign the same bytes\<close>

definition role_text :: "transfer_role \<Rightarrow> string" where
  "role_text role = (case role of Source \<Rightarrow> ''source'' | Destination \<Rightarrow> ''destination'')"

text \<open>The ticket of an agent, from the claims that the control plane signed.\<close>

definition agent_of :: "transfer_ticket_claims \<Rightarrow> agent_ticket" where
  "agent_of c =
     \<lparr>ag_v = of_int (tk_v c), ag_jti = tk_jti c, ag_session_nonce = tk_session_nonce c, ag_transfer_id = tk_transfer_id c,
      ag_tenant_id = tk_tenant_id c, ag_principal_id = tk_principal_id c, ag_device_id = tk_device_id c,
      ag_role = role_text (tk_role c), ag_source_device_id = tk_source_device_id c,
      ag_destination_device_id = tk_destination_device_id c, ag_source_workspace_id = tk_source_workspace_id c,
      ag_destination_workspace_id = tk_destination_workspace_id c, ag_plan_sha256 = tk_plan_sha256 c,
      ag_epoch = of_int (tk_epoch c), ag_fence = of_int (tk_fence c), ag_max_bytes = of_int (tk_max_bytes c),
      ag_ticket_exp = of_int (tk_ticket_exp c), ag_transfer_expires_at = of_int (tk_transfer_expires_at c),
      ag_source_device_public_key = tk_source_device_public_key c,
      ag_destination_device_public_key = tk_destination_device_public_key c,
      ag_source_ephemeral_public_key = tk_source_ephemeral_public_key c,
      ag_destination_ephemeral_public_key = tk_destination_ephemeral_public_key c,
      ag_source_ephemeral_signature = tk_source_ephemeral_signature c,
      ag_destination_ephemeral_signature = tk_destination_ephemeral_signature c\<rparr>"

lemma hex_digits_agree: "hex_lower_digit c \<longleftrightarrow> hex_char c"
  by (simp add: hex_lower_digit_def hex_char_def is_ascii_digit_def less_eq_char_def)

lemma valid_hex_js: "valid_hex s n \<longleftrightarrow> js_hex s n"
  by (simp add: valid_hex_def js_hex_def Transfer_Room.lower_hex_def hex_digits_agree [abs_def] hex_char_def [abs_def])

lemma decode_hex_ok: "js_hex s 32 \<Longrightarrow> decode_hex s = Inr (raw_hex s) \<and> length (raw_hex s) = 32"
  by (simp add: decode_hex_def raw_hex_length valid_hex_js [symmetric] valid_hex_def)

lemma decode_hex_32: "decode_hex s = Inr b \<Longrightarrow> length b = 32 \<Longrightarrow> js_hex s 32"
  by (auto simp: decode_hex_def raw_hex_length valid_hex_js [symmetric] valid_hex_def elim!: evenE split: if_splits)

lemma push_proof_text:
  "push_proof_string out v = (case proof_text v of None \<Rightarrow> Inl ''transfer proof field too long'' | Some b \<Rightarrow> Inr (out @ b))"
proof (cases "length v \<ge> 2 ^ 32")
  case True
  then have "int (length v) > 0xFFFFFFFF" by simp
  with True show ?thesis by (simp add: push_proof_string_def proof_text_def proof_u32_def)
next
  case False
  then have "\<not> int (length v) > 0xFFFFFFFF" by simp
  with False show ?thesis by (simp add: push_proof_string_def proof_text_def proof_u32_def)
qed

lemma unat_of_int_u32: "0 \<le> n \<Longrightarrow> n \<le> 0xFFFFFFFF \<Longrightarrow> unat (of_int n :: u32) = nat n"
  by (simp add: unat_eq_nat_uint uint_word_of_int_eq take_bit_int_eq_self)

lemma unat_of_int_u64: "0 \<le> n \<Longrightarrow> safe_integer n \<Longrightarrow> unat (of_int n :: u64) = nat n"
  by (simp add: unat_eq_nat_uint uint_word_of_int_eq take_bit_int_eq_self safe_integer_def)

lemma ephemeral_proof_agrees:
  assumes "1 \<le> tk_epoch c" "tk_epoch c \<le> 0xFFFFFFFF" "1 \<le> tk_fence c" "safe_integer (tk_fence c)"
    "0 \<le> tk_transfer_expires_at c" "safe_integer (tk_transfer_expires_at c)"
  shows "canonicalTransferEphemeralProof c role
    = (case ephemeral_proof (agent_of c) (role_text role) of Inl _ \<Rightarrow> None | Inr bs \<Rightarrow> Some bs)"
proof -
  let ?d = "proof_device c role"
  have words: "unat (of_int (tk_epoch c) :: u32) = nat (tk_epoch c)" "unat (of_int (tk_fence c) :: u64) = nat (tk_fence c)"
    "unat (of_int (tk_transfer_expires_at c) :: u64) = nat (tk_transfer_expires_at c)"
    using assms unat_of_int_u32 unat_of_int_u64 by auto
  have nz: "(of_int (tk_epoch c) :: u32) \<noteq> 0" "(of_int (tk_fence c) :: u64) \<noteq> 0"
    using words(1,2) assms(1,3) by (auto simp flip: unat_eq_0)
  have nums: "proof_u32 (tk_epoch c) = Some (be_encode 4 (nat (tk_epoch c)))" "proof_u64 (tk_fence c) = Some (be_encode 8 (nat (tk_fence c)))"
    "proof_u64 (tk_transfer_expires_at c) = Some (be_encode 8 (nat (tk_transfer_expires_at c)))"
    using assms by (simp_all add: proof_u32_def proof_u64_def)
  have rust: "ephemeral_proof (agent_of c) (role_text role) =
      canonical_ephemeral_proof (tk_transfer_id c) (tk_tenant_id c) (role_text role) (fst ?d) (fst (snd ?d)) (tk_plan_sha256 c)
        (of_int (tk_epoch c)) (of_int (tk_fence c)) (tk_session_nonce c) (snd (snd ?d)) (of_int (tk_transfer_expires_at c))"
    by (cases role) (simp_all add: ephemeral_proof_def role_text_def agent_of_def proof_device_def)
  show ?thesis
  proof (cases "js_hex (tk_plan_sha256 c) 32 \<and> js_hex (snd (snd ?d)) 32")
    case False
    then have ts: "canonicalTransferEphemeralProof c role = None"
      by (cases role) (auto simp: canonicalTransferEphemeralProof_def proof_device_def Let_def js_hash_def js_hex_def)
    have "\<exists>m. canonical_ephemeral_proof x1 x2 x3 x4 x5 (tk_plan_sha256 c) x6 x7 x8 (snd (snd ?d)) x9 = Inl m" for x1 x2 x3 x4 x5 x6 x7 x8 x9
      using False decode_hex_32
      by (cases "decode_hex (tk_plan_sha256 c)"; cases "decode_hex (snd (snd ?d))") (auto simp: canonical_ephemeral_proof_def and_then_def)
    with ts rust show ?thesis by (metis sum.case(1))
  next
    case True
    then have dec: "decode_hex (tk_plan_sha256 c) = Inr (raw_hex (tk_plan_sha256 c))" "length (raw_hex (tk_plan_sha256 c)) = 32"
      "decode_hex (snd (snd ?d)) = Inr (raw_hex (snd (snd ?d)))" "length (raw_hex (snd (snd ?d))) = 32"
      using decode_hex_ok by auto
    have dom: "proof_text EPHEMERAL_PROOF_DOMAIN = proof_text ''ownmesh-transfer-ephemeral-v1''" by (simp add: EPHEMERAL_PROOF_DOMAIN_def)
    have ts: "canonicalTransferEphemeralProof c role = join_parts
        [proof_text ''ownmesh-transfer-ephemeral-v1'', proof_text (tk_transfer_id c), proof_text (tk_tenant_id c),
         Some [case role of Source \<Rightarrow> 1 | Destination \<Rightarrow> 2], proof_text (fst ?d), proof_text (fst (snd ?d)),
         Some (raw_hex (tk_plan_sha256 c)), Some (be_encode 4 (nat (tk_epoch c))), Some (be_encode 8 (nat (tk_fence c))),
         proof_text (tk_session_nonce c), Some (raw_hex (snd (snd ?d))), Some (be_encode 8 (nat (tk_transfer_expires_at c)))]"
      using True nums by (cases role) (simp_all add: canonicalTransferEphemeralProof_def proof_device_def Let_def js_hash_def js_hex_def)
    have role: "role_text role = ''source'' \<or> role_text role = ''destination''"
      "(if role_text role = ''source'' then 1 :: u8 else 2) = (case role of Source \<Rightarrow> 1 | Destination \<Rightarrow> 2)"
      by (cases role; simp add: role_text_def)+
    show ?thesis
      unfolding ts rust canonical_ephemeral_proof_def dec(1,3) words and_then_def push_proof_text dom
      using dec(2,4) nz role
      by (simp split: option.split)
  qed
qed

section \<open>Both sides accept the same tickets\<close>

definition plain_char :: "char \<Rightarrow> bool" where
  "plain_char c \<longleftrightarrow> 33 \<le> (of_char c :: nat) \<and> (of_char c :: nat) < 127"

lemma plain_not_ws:
  assumes "plain_char c"
  shows "\<not> ascii_ws c" "\<not> ws2 c b" "\<not> ws2 a c" "\<not> ws3 c x y" "\<not> ws3 x y c"
  using assms by (auto simp: plain_char_def ascii_ws_def ws2_def ws3_def)

lemma trim_plain: "list_all plain_char s \<Longrightarrow> trim s = s"
proof -
  assume p: "list_all plain_char s"
  have h: "ws_head s = 0" if "list_all plain_char s" for s
    using that by (cases s rule: ws_head.cases) (auto simp: plain_not_ws)
  have t: "ws_tail s = 0" if "list_all plain_char s" for s
    using that by (cases s rule: ws_tail.cases) (auto simp: plain_not_ws)
  show "trim s = s"
    using h [OF p] t [of "rev s"] p by (simp add: trim_def trim_start.simps trim_rev.simps)
qed

lemma hex_char_plain: "hex_char c \<Longrightarrow> plain_char c \<and> is_ascii_hexdigit c \<and> hex_nibble c = Some (hex_digit_value c)"
  by (auto simp: hex_char_code plain_char_def is_ascii_hexdigit_def is_ascii_digit_def hex_nibble_def hex_digit_value_def Let_def)

lemma hex_pairs_raw: "list_all hex_char s \<Longrightarrow> hex_pairs s = Inr (raw_hex s)"
  by (induction s rule: raw_hex.induct) (simp_all add: hex_char_plain and_then_def)

lemma hex_decode_raw:
  assumes "js_hex s n"
  shows "hex_decode (trim s) = Inr (raw_hex s) \<and> length (raw_hex s) = n"
proof -
  have h: "list_all hex_char s" "length s = n * 2"
    using assms by (simp_all add: js_hex_def Transfer_Room.lower_hex_def hex_char_def [abs_def])
  then have "list_all plain_char s" "list_all is_ascii_hexdigit s" using hex_char_plain by (auto simp: list_all_iff)
  with h trim_plain show ?thesis by (simp add: hex_decode_def hex_pairs_raw raw_hex_length)
qed

definition role_key :: "transfer_ticket_claims \<Rightarrow> transfer_role \<Rightarrow> string" where
  "role_key c role = (case role of Source \<Rightarrow> tk_source_device_public_key c | Destination \<Rightarrow> tk_destination_device_public_key c)"

definition role_signature :: "transfer_ticket_claims \<Rightarrow> transfer_role \<Rightarrow> string" where
  "role_signature c role =
     (case role of Source \<Rightarrow> tk_source_ephemeral_signature c | Destination \<Rightarrow> tk_destination_ephemeral_signature c)"

text \<open>What the proof of a role hands to a verifier of Ed25519: key, signature and message.\<close>

definition proof_question :: "transfer_ticket_claims \<Rightarrow> transfer_role \<Rightarrow> (bytes \<times> bytes \<times> bytes) option" where
  "proof_question c role =
     map_option (\<lambda>message. (raw_hex (role_key c role), raw_hex (role_signature c role), message))
       (canonicalTransferEphemeralProof c role)"

definition agent_answers :: "ed25519 \<Rightarrow> bytes \<times> bytes \<times> bytes \<Rightarrow> bool" where
  "agent_answers ed = (\<lambda>(key, signature, message). ed_key_ok ed key \<and> ed_verify ed key message signature)"

definition worker_answers :: "room_crypto \<Rightarrow> bytes \<times> bytes \<times> bytes \<Rightarrow> bool" where
  "worker_answers rc = (\<lambda>(key, signature, message). rc_ed25519_verify rc key signature message)"

lemma verified_key:
  assumes "js_hex pk 32" and "js_hex sig 64"
  shows "verify_from_public_key_hex ed pk message sig = Inr () \<longleftrightarrow> agent_answers ed (raw_hex pk, raw_hex sig, message)"
  using hex_decode_raw [OF assms(1)] hex_decode_raw [OF assms(2)]
  by (simp add: verify_from_public_key_hex_def verify_with_public_def and_then_def agent_answers_def)

lemma role_hex:
  assumes "claims_valid now secret c"
  shows "js_hex (role_key c role) 32" and "js_hex (role_signature c role) 64"
  using assms by (cases role; simp add: claims_valid_def role_key_def role_signature_def)+

lemma worker_question:
  assumes "claims_valid now secret c"
  shows "verifyTransferEphemeralProof rc c role (role_key c role) \<longleftrightarrow> (\<exists>q. proof_question c role = Some q \<and> worker_answers rc q)"
  using role_hex [OF assms, of role]
  by (simp add: verifyTransferEphemeralProof_def role_signature_def [symmetric] proof_question_def worker_answers_def
      split: option.split)

lemma agent_question:
  assumes v: "claims_valid now secret c" and ep: "tk_epoch c \<le> 0xFFFFFFFF" and nn: "0 \<le> now"
  shows "verify_ephemeral_proofs ed (agent_of c) = Inr () \<longleftrightarrow> (\<forall>role. \<exists>q. proof_question c role = Some q \<and> agent_answers ed q)"
proof -
  have num: "1 \<le> tk_epoch c" "1 \<le> tk_fence c" "safe_integer (tk_fence c)" "0 \<le> tk_transfer_expires_at c" "safe_integer (tk_transfer_expires_at c)"
    using v nn by (auto simp: claims_valid_def)
  have one: "(\<exists>bs. ephemeral_proof (agent_of c) (role_text role) = Inr bs
        \<and> verify_from_public_key_hex ed (role_key c role) bs (role_signature c role) = Inr ())
      \<longleftrightarrow> (\<exists>q. proof_question c role = Some q \<and> agent_answers ed q)" for role
    unfolding verified_key [OF role_hex [OF v]] proof_question_def ephemeral_proof_agrees [OF num(1) ep num(2-5), of role]
    by (cases "ephemeral_proof (agent_of c) (role_text role)") simp_all
  have "verify_ephemeral_proofs ed (agent_of c) = Inr () \<longleftrightarrow>
      (\<exists>bs. ephemeral_proof (agent_of c) (role_text Source) = Inr bs
        \<and> verify_from_public_key_hex ed (role_key c Source) bs (role_signature c Source) = Inr ())
    \<and> (\<exists>bs. ephemeral_proof (agent_of c) (role_text Destination) = Inr bs
        \<and> verify_from_public_key_hex ed (role_key c Destination) bs (role_signature c Destination) = Inr ())"
    by (auto simp: verify_ephemeral_proofs_def and_then_def map_err_def role_text_def role_key_def role_signature_def agent_of_def
        split: sum.splits)
  then show ?thesis unfolding one by (metis (full_types) transfer_role.exhaust)
qed

lemma js_hash_hex: "js_hash s \<longleftrightarrow> valid_hex s 32"
  by (simp add: valid_hex_js js_hash_def js_hex_def)

definition ticket_ids :: "transfer_ticket_claims \<Rightarrow> string list" where
  "ticket_ids c =
     [tk_jti c, tk_session_nonce c, tk_transfer_id c, tk_tenant_id c, tk_principal_id c, tk_source_device_id c,
      tk_destination_device_id c, tk_source_workspace_id c, tk_destination_workspace_id c]"

lemma shape_agrees:
  assumes v: "claims_valid now secret c" and ids: "list_all ticket_id_ok (ticket_ids c)"
    and ep: "tk_epoch c \<le> 0xFFFFFFFF" and nn: "0 \<le> now"
  shows "ticket_shape_ok (agent_of c) device_id role (of_int now) \<longleftrightarrow> device_id = tk_device_id c \<and> role = role_text (tk_role c)"
proof -
  have num: "0 \<le> tk_epoch c" "0 \<le> tk_fence c" "safe_integer (tk_fence c)" "0 \<le> tk_ticket_exp c" "safe_integer (tk_ticket_exp c)"
    "0 \<le> tk_transfer_expires_at c" "safe_integer (tk_transfer_expires_at c)" "safe_integer now"
    using v nn by (auto simp: claims_valid_def safe_integer_def)
  have words: "unat (of_int (tk_epoch c) :: u32) = nat (tk_epoch c)" "unat (of_int (tk_fence c) :: u64) = nat (tk_fence c)"
    "unat (of_int (tk_ticket_exp c) :: u64) = nat (tk_ticket_exp c)"
    "unat (of_int (tk_transfer_expires_at c) :: u64) = nat (tk_transfer_expires_at c)" "unat (of_int now :: u64) = nat now"
    using num ep nn unat_of_int_u32 unat_of_int_u64 by auto
  have ord: "(of_int now :: u64) < of_int (tk_ticket_exp c)" "(of_int now :: u64) < of_int (tk_transfer_expires_at c)"
    "(of_int (tk_ticket_exp c) :: u64) \<le> of_int (tk_transfer_expires_at c)"
    using v nn words num by (auto simp: word_less_nat_alt word_le_nat_alt claims_valid_def)
  have nz: "(of_int (tk_epoch c) :: u32) \<noteq> 0" "(of_int (tk_fence c) :: u64) \<noteq> 0"
    using words(1,2) v by (auto simp: claims_valid_def simp flip: unat_eq_0)
  have hex: "valid_hex (tk_plan_sha256 c) 32" "valid_hex (tk_source_device_public_key c) 32"
    "valid_hex (tk_destination_device_public_key c) 32" "valid_hex (tk_source_ephemeral_public_key c) 32"
    "valid_hex (tk_destination_ephemeral_public_key c) 32" "valid_hex (tk_source_ephemeral_signature c) 64"
    "valid_hex (tk_destination_ephemeral_signature c) 64" "tk_v c = 1"
    using v by (simp_all add: claims_valid_def valid_hex_js js_hash_hex)
  have dev: "tk_device_id c = (if role_text (tk_role c) = ''source'' then tk_source_device_id c else tk_destination_device_id c)"
    and two: "role_text (tk_role c) = ''source'' \<or> role_text (tk_role c) = ''destination''"
    using v by (cases "tk_role c"; simp add: claims_valid_def role_text_def)+
  show ?thesis
    using ids hex nz ord dev two by (auto simp: ticket_shape_ok_def agent_of_def ticket_ids_def)
qed

section \<open>The additional data of a chunk\<close>

definition prefixed :: "string \<Rightarrow> bytes" where
  "prefixed f = be_encode 4 (length f) @ as_bytes f"

lemma cut_be:
  assumes "be_encode k x @ r = be_encode k y @ r'" and "x < 256 ^ k" and "y < 256 ^ k"
  shows "x = y \<and> r = r'"
  using assms be_encode_inj [OF _ assms(2,3)] by simp

lemma cut_fields:
  assumes "length fs = length gs" and "list_all (\<lambda>f. length f \<le> 256) fs" and "list_all (\<lambda>f. length f \<le> 256) gs"
    and "concat (map prefixed fs) @ x = concat (map prefixed gs) @ y"
  shows "fs = gs \<and> x = y"
  using assms
proof (induction fs gs rule: list_induct2)
  case Nil
  then show ?case by simp
next
  case (Cons f fs g gs)
  have len: "length f < 256 ^ 4" "length g < 256 ^ 4" using Cons.prems(1,2) by simp_all
  have "be_encode 4 (length f) @ as_bytes f @ concat (map prefixed fs) @ x
      = be_encode 4 (length g) @ as_bytes g @ concat (map prefixed gs) @ y"
    using Cons.prems(3) by (simp add: prefixed_def [of f] prefixed_def [of g])
  from cut_be [OF this len] have "length f = length g"
    and "as_bytes f @ concat (map prefixed fs) @ x = as_bytes g @ concat (map prefixed gs) @ y" by simp_all
  then have "f = g" and "concat (map prefixed fs) @ x = concat (map prefixed gs) @ y"
    by (simp_all add: append_eq_append_conv as_bytes_inj)
  with Cons.IH Cons.prems(1,2) show ?case by simp
qed

lemma binding_canonical_ok:
  assumes "binding_canonical b = Inr out"
  shows "list_all (\<lambda>f. length f \<le> 256) (binding_strings b)
    \<and> out = E2E_DOMAIN @ concat (map prefixed (binding_strings b)) @ be_encode 4 (unat (cb_epoch b)) @ be_encode 8 (unat (cb_fence b))"
  using assms
  by (auto simp: binding_canonical_def prefixed_def [abs_def] list_all_iff list_ex_iff not_less split: if_splits)

lemma binding_eq:
  assumes "binding_strings b = binding_strings b'" and "cb_epoch b = cb_epoch b'" and "cb_fence b = cb_fence b'"
  shows "b = (b' :: crypto_binding)"
  using assms by (cases b; cases b') (simp add: binding_strings_def)

lemma cut_u64_word: "be_encode 8 (unat x) @ r = be_encode 8 (unat y) @ r' \<Longrightarrow> x = (y :: u64) \<and> r = r'"
  using cut_be [of 8 "unat x" r "unat y" r'] unsigned_less [of x] unsigned_less [of y] by (simp add: word_unat_eq_iff)

lemma cut_u32_word: "be_encode 4 (unat x) @ r = be_encode 4 (unat y) @ r' \<Longrightarrow> x = (y :: u32) \<and> r = r'"
  using cut_be [of 4 "unat x" r "unat y" r'] unsigned_less [of x] unsigned_less [of y] by (simp add: word_unat_eq_iff)

lemma cut_binding:
  assumes "binding_canonical b = Inr out" and "binding_canonical b' = Inr out'" and "out @ r = out' @ r'"
  shows "b = b' \<and> r = r'"
proof -
  note p = binding_canonical_ok [OF assms(1)] and q = binding_canonical_ok [OF assms(2)]
  have "concat (map prefixed (binding_strings b)) @ be_encode 4 (unat (cb_epoch b)) @ be_encode 8 (unat (cb_fence b)) @ r
      = concat (map prefixed (binding_strings b')) @ be_encode 4 (unat (cb_epoch b')) @ be_encode 8 (unat (cb_fence b')) @ r'"
    using assms(3) p q by simp
  from cut_fields [OF _ conjunct1 [OF p] conjunct1 [OF q] this]
  have s: "binding_strings b = binding_strings b'"
    and e: "be_encode 4 (unat (cb_epoch b)) @ be_encode 8 (unat (cb_fence b)) @ r
      = be_encode 4 (unat (cb_epoch b')) @ be_encode 8 (unat (cb_fence b')) @ r'" by (simp_all add: binding_strings_def)
  note f = cut_u32_word [OF e]
  note g = cut_u64_word [OF conjunct2 [OF f]]
  show ?thesis using binding_eq [OF s conjunct1 [OF f] conjunct1 [OF g]] g by simp
qed

section \<open>Keys that agree\<close>

text \<open>
  What \<open>ring\<close> promises of AES-256-GCM: sealing appends a tag of 16 bytes, and what was sealed opens
  under the same key, nonce and additional data.
\<close>

definition aead_laws :: "('priv, 'okm, 'key) session_crypto \<Rightarrow> bool" where
  "aead_laws X \<longleftrightarrow>
     (\<forall>key nonce ad plain sealed. sx_seal X key nonce ad plain = Some sealed \<longrightarrow>
        length sealed = length plain + 16 \<and> sx_open X key nonce ad sealed = Some plain)"

text \<open>What X25519 promises: two parties that know their own private and the other's public key agree.\<close>

definition x25519_laws :: "('priv, 'okm, 'key) session_crypto \<Rightarrow> bool" where
  "x25519_laws X \<longleftrightarrow>
     (\<forall>a b pa pb. sx_compute_public X a = Some pa \<and> sx_compute_public X b = Some pb \<longrightarrow> sx_agree X a pb = sx_agree X b pa)"

lemma generated_pair:
  assumes "generate_ephemeral X random = Inr own"
  obtains a where "te_private own = Some a" and "sx_compute_public X a = Some (te_public own)"
    and "length (te_public own) = 32"
  using assms by (auto simp: generate_ephemeral_def and_then_def ok_or_def split: option.splits if_splits)

lemma peers_derive_one_cipher:
  assumes "x25519_laws X" and "generate_ephemeral X r1 = Inr own" and "generate_ephemeral X r2 = Inr other"
  shows "derive_cipher X own (te_public other) binding = derive_cipher X other (te_public own) binding"
proof -
  obtain a where a: "te_private own = Some a" "sx_compute_public X a = Some (te_public own)" "length (te_public own) = 32"
    using assms(2) by (rule generated_pair)
  obtain b where b: "te_private other = Some b" "sx_compute_public X b = Some (te_public other)" "length (te_public other) = 32"
    using assms(3) by (rule generated_pair)
  have "sx_agree X a (te_public other) = sx_agree X b (te_public own)" using assms(1) a(2) b(2) unfolding x25519_laws_def by blast
  with a b show ?thesis by (simp add: derive_cipher_def ok_or_simps)
qed

lemma peer_key:
  assumes "decode_hex (ag_destination_ephemeral_public_key t) = Inr pd" and "length pd = 32"
    and "decode_hex (ag_source_ephemeral_public_key t) = Inr ps" and "length ps = 32"
  shows "peer_ephemeral_public_key t ''source'' = Some (Inr pd)" and "peer_ephemeral_public_key t ''destination'' = Some (Inr ps)"
  using assms by (simp_all add: peer_ephemeral_public_key_def Let_def)

lemma sealed_opens:
  assumes "aead_laws X" and "seal_chunk X ci sequence offset (sha_hex H plain) plain = Inr sealed"
  shows "open_chunk X H ci sequence offset (length plain) (sha_hex H plain) sealed = Inr plain"
proof -
  have len: "plain \<noteq> []" "length plain \<le> 64 * 1024"
    using assms(2) by (auto simp: seal_chunk_def split: if_splits)
  obtain ad where ad: "additional_data (ci_binding ci) sequence offset (length plain) (sha_hex H plain) = Inr ad"
    and s: "sx_seal X (ci_key ci) (binding_nonce (ci_binding ci) sequence) ad plain = Some sealed"
    using assms(2) by (auto simp: seal_chunk_def and_then_def ok_or_def split: if_splits sum.splits option.splits)
  have "length sealed = length plain + 16" "sx_open X (ci_key ci) (binding_nonce (ci_binding ci) sequence) ad sealed = Some plain"
    using assms(1) s unfolding aead_laws_def by blast+
  with len ad show ?thesis by (simp add: open_chunk_def and_then_def ok_or_def)
qed

section \<open>A concrete session\<close>

text \<open>A verifier that knows one key and one signature, and looks at the length of the domain.\<close>

definition demo_ed25519 :: "u8 \<Rightarrow> ed25519" where
  "demo_ed25519 known =
     \<lparr>ed_key_ok = (\<lambda>key. key = replicate 32 known),
      ed_verify = (\<lambda>key message signature. take 4 message = [0, 0, 0, 29] \<and> signature = replicate 64 0xFF)\<rparr>"

definition demo_tag :: "u8 \<Rightarrow> bytes \<Rightarrow> bytes \<Rightarrow> bytes" where
  "demo_tag key nonce ad = replicate 16 (key + sum_list nonce + sum_list ad)"

definition demo_session :: "(u8, u8, u8) session_crypto" where
  "demo_session =
     \<lparr>sx_compute_public = (\<lambda>private. Some (replicate 32 (3 * private))),
      sx_agree = (\<lambda>private public. Some [private * hd public]),
      sx_expand = (\<lambda>salt shared info. Some (sum_list (salt @ shared @ concat info))),
      sx_fill = (\<lambda>okm. Some (replicate 32 okm)),
      sx_aes_key = (\<lambda>key. Some (hd key)),
      sx_seal = (\<lambda>key nonce ad plain. Some (plain @ demo_tag key nonce ad)),
      sx_open = (\<lambda>key nonce ad sealed.
        let n = length sealed - 16 in if drop n sealed = demo_tag key nonce ad then Some (take n sealed) else None)\<rparr>"

definition demo_sha :: crypto where
  "demo_sha = \<lparr>cr_sha256 = (\<lambda>bs. replicate 32 (sum_list bs)), cr_hex_encode = (\<lambda>bs. []), cr_hex_decode = (\<lambda>s. None)\<rparr>"

lemma demo_aead: "aead_laws demo_session"
  by (auto simp: aead_laws_def demo_session_def demo_tag_def Let_def)

lemma demo_x25519: "x25519_laws demo_session"
  by (auto simp: x25519_laws_def demo_session_def)

text \<open>The tickets of the two sides, with the public keys of the private keys 1 and 2.\<close>

definition demo_agent :: "string \<Rightarrow> transfer_role \<Rightarrow> agent_ticket" where
  "demo_agent jti role =
     (agent_of (demo_claims jti role 1))
       \<lparr>ag_source_ephemeral_public_key := concat (replicate 32 ''03''),
        ag_destination_ephemeral_public_key := concat (replicate 32 ''06'')\<rparr>"

section \<open>Properties\<close>

text \<open>
  C37: An agent and the control plane put the same questions about a ticket.  Of claims that the
  control plane finds valid, with an epoch of 32 bits and identifiers that the agent reads (up to 256
  bytes, no control character), the agent accepts the ticket exactly when it is asked for the device
  and the role that the ticket names and its own Ed25519 accepts, for both roles, the key, the
  signature and the message that the control plane gives to its Ed25519.  What the two implementations
  of Ed25519 answer is theirs.
\<close>

theorem agent_and_worker_check_the_same_proofs:
  assumes "claims_valid now secret c" and "list_all ticket_id_ok (ticket_ids c)" and "tk_epoch c \<le> 0xFFFFFFFF"
    and "0 \<le> now"
  shows "(ticket_validate_for ed (agent_of c) device_id role (of_int now) = Inr () \<longleftrightarrow>
        device_id = tk_device_id c \<and> role = role_text (tk_role c)
      \<and> (\<forall>r. \<exists>q. proof_question c r = Some q \<and> agent_answers ed q))
    \<and> (verifyTransferEphemeralProof rc c Source (tk_source_device_public_key c) \<longleftrightarrow>
        (\<exists>q. proof_question c Source = Some q \<and> worker_answers rc q))
    \<and> (verifyTransferEphemeralProof rc c Destination (tk_destination_device_public_key c) \<longleftrightarrow>
        (\<exists>q. proof_question c Destination = Some q \<and> worker_answers rc q))"
proof (intro conjI)
  show "ticket_validate_for ed (agent_of c) device_id role (of_int now) = Inr () \<longleftrightarrow>
      device_id = tk_device_id c \<and> role = role_text (tk_role c) \<and> (\<forall>r. \<exists>q. proof_question c r = Some q \<and> agent_answers ed q)"
    using shape_agrees [OF assms, of device_id role] agent_question [OF assms(1,3,4), of ed]
    unfolding ticket_validate_for_def by (cases "ticket_shape_ok (agent_of c) device_id role (of_int now)") auto
qed (use worker_question [OF assms(1), of rc Source] worker_question [OF assms(1), of rc Destination] in
    \<open>simp_all add: role_key_def\<close>)

theorem agent_and_worker_check_the_same_proofs_witness:
  "ticket_validate_for (demo_ed25519 0xDD) (agent_of (demo_claims ''1'' Source 1)) ''a'' ''source'' 0 = Inr ()
   \<and> ticket_validate_for (demo_ed25519 0xDD) (agent_of (demo_claims ''1'' Source 1)) ''b'' ''source'' 0 \<noteq> Inr ()
   \<and> ticket_validate_for (demo_ed25519 0xDC) (agent_of (demo_claims ''1'' Source 1)) ''a'' ''source'' 0 \<noteq> Inr ()"
proof -
  let ?c = "demo_claims ''1'' Source 1"
  have v: "claims_valid 0 ''s'' ?c" using demo_valid [of "''1''" Source 1 0] by (simp add: demo_issued_def)
  have ids: "list_all ticket_id_ok (ticket_ids ?c)"
    by (simp add: ticket_ids_def demo_claims_def ticket_id_ok_def is_ascii_control_def)
  have ep: "tk_epoch ?c \<le> 0xFFFFFFFF" and dev: "tk_device_id ?c = ''a''" and role: "role_text (tk_role ?c) = ''source''"
    by (simp_all add: demo_claims_def role_text_def)
  have yes: "\<forall>r. \<exists>q. proof_question ?c r = Some q \<and> agent_answers (demo_ed25519 0xDD) q"
  proof
    fix r
    have "case proof_question ?c Source of None \<Rightarrow> False | Some q \<Rightarrow> agent_answers (demo_ed25519 0xDD) q"
      "case proof_question ?c Destination of None \<Rightarrow> False | Some q \<Rightarrow> agent_answers (demo_ed25519 0xDD) q" by code_simp+
    then show "\<exists>q. proof_question ?c r = Some q \<and> agent_answers (demo_ed25519 0xDD) q" by (cases r) (auto split: option.splits)
  qed
  have "case proof_question ?c Source of None \<Rightarrow> False | Some q \<Rightarrow> \<not> agent_answers (demo_ed25519 0xDC) q" by code_simp
  then have no: "\<not> (\<forall>r. \<exists>q. proof_question ?c r = Some q \<and> agent_answers (demo_ed25519 0xDC) q)"
    by (metis option.case(2) option.inject)
  note at = agent_and_worker_check_the_same_proofs [OF v ids ep order_refl, THEN conjunct1]
  show ?thesis
    using at [of "demo_ed25519 0xDD" "''a''" "''source''"] at [of "demo_ed25519 0xDD" "''b''" "''source''"]
      at [of "demo_ed25519 0xDC" "''a''" "''source''"] yes no dev role by simp
qed

text \<open>
  C38: What the source seals, the destination opens.  Each agent generates its own ephemeral pair; the
  tickets of the two carry both public keys and name the same transfer.  Each takes the peer's key
  from its ticket and derives a cipher.  Then the destination's ticket gives it the source's public key,
  and the cipher that it derives opens every chunk that the source's cipher seals, at the sequence
  number, offset, length and hash that go with it, to exactly the bytes that were sealed.
\<close>

theorem sealed_chunk_opens_at_the_peer:
  assumes "generate_ephemeral X r1 = Inr src" and "generate_ephemeral X r2 = Inr dst"
    and "decode_hex (ag_source_ephemeral_public_key ts) = Inr (te_public src)"
    and "decode_hex (ag_destination_ephemeral_public_key ts) = Inr (te_public dst)"
    and "decode_hex (ag_source_ephemeral_public_key td) = Inr (te_public src)"
    and "decode_hex (ag_destination_ephemeral_public_key td) = Inr (te_public dst)"
    and "ticket_binding ts = ticket_binding td" and "x25519_laws X" and "aead_laws X"
    and "peer_ephemeral_public_key ts ''source'' = Some (Inr kd)"
    and "derive_cipher X src kd (ticket_binding ts) = Inr cs"
    and "seal_chunk X cs sequence offset (sha_hex H plain) plain = Inr sealed"
  shows "\<exists>ks cd. peer_ephemeral_public_key td ''destination'' = Some (Inr ks)
    \<and> derive_cipher X dst ks (ticket_binding td) = Inr cd
    \<and> open_chunk X H cd sequence offset (length plain) (sha_hex H plain) sealed = Inr plain"
proof -
  have len: "length (te_public src) = 32" "length (te_public dst) = 32"
    using assms(1,2) by (auto elim: generated_pair)
  have kd: "kd = te_public dst" using assms(10) peer_key(1) [OF assms(4) len(2) assms(3) len(1)] by simp
  have "derive_cipher X dst (te_public src) (ticket_binding td) = Inr cs"
    using peers_derive_one_cipher [OF assms(8,1,2), of "ticket_binding ts"] assms(7,11) kd by simp
  moreover have "peer_ephemeral_public_key td ''destination'' = Some (Inr (te_public src))"
    by (rule peer_key(2) [OF assms(6) len(2) assms(5) len(1)])
  ultimately show ?thesis using sealed_opens [OF assms(9,12)] by blast
qed

theorem sealed_chunk_opens_at_the_peer_witness:
  "\<exists>ks cd sealed. peer_ephemeral_public_key (demo_agent ''2'' Destination) ''destination'' = Some (Inr ks)
    \<and> derive_cipher demo_session \<lparr>te_private = Some 2, te_public = replicate 32 6\<rparr> ks (ticket_binding (demo_agent ''2'' Destination)) = Inr cd
    \<and> length sealed = 19 \<and> open_chunk demo_session demo_sha cd 0 0 3 (sha_hex demo_sha [1, 2, 3]) sealed = Inr [1, 2, 3]"
proof -
  let ?s = "demo_agent ''1'' Source" and ?d = "demo_agent ''2'' Destination"
  let ?src = "\<lparr>te_private = Some (1 :: u8), te_public = replicate 32 3\<rparr>" and ?dst = "\<lparr>te_private = Some (2 :: u8), te_public = replicate 32 6\<rparr>"
  have gen: "generate_ephemeral demo_session (Some 1) = Inr ?src" "generate_ephemeral demo_session (Some 2) = Inr ?dst"
    by (simp_all add: generate_ephemeral_def demo_session_def and_then_def ok_or_def)
  have "decode_hex (concat (replicate 32 ''03'')) = Inr (replicate 32 3)" "decode_hex (concat (replicate 32 ''06'')) = Inr (replicate 32 6)"
    by code_simp+
  then have keys: "decode_hex (ag_source_ephemeral_public_key ?s) = Inr (te_public ?src)" "decode_hex (ag_destination_ephemeral_public_key ?s) = Inr (te_public ?dst)"
    "decode_hex (ag_source_ephemeral_public_key ?d) = Inr (te_public ?src)" "decode_hex (ag_destination_ephemeral_public_key ?d) = Inr (te_public ?dst)"
    by (simp_all add: demo_agent_def)
  have same: "ticket_binding ?s = ticket_binding ?d" by (simp add: ticket_binding_def demo_agent_def agent_of_def demo_claims_def)
  have pk: "peer_ephemeral_public_key ?s ''source'' = Some (Inr (replicate 32 6))"
    by (rule peer_key(1) [OF keys(2) _ keys(1), simplified])
  have "case derive_cipher demo_session ?src (replicate 32 6) (ticket_binding ?s) of Inl e \<Rightarrow> False
    | Inr cs \<Rightarrow> (case seal_chunk demo_session cs 0 0 (sha_hex demo_sha [1, 2, 3]) [1, 2, 3] of Inl e \<Rightarrow> False | Inr sealed \<Rightarrow> length sealed = 19)"
    by code_simp
  then obtain cs sealed where c: "derive_cipher demo_session ?src (replicate 32 6) (ticket_binding ?s) = Inr cs"
    and s: "seal_chunk demo_session cs 0 0 (sha_hex demo_sha [1, 2, 3]) [1, 2, 3] = Inr sealed" and l: "length sealed = 19"
    by (auto split: sum.splits)
  have n: "length [1, 2, 3 :: u8] = 3" by simp
  from sealed_chunk_opens_at_the_peer [OF gen keys same demo_x25519 demo_aead pk c s, unfolded n] l show ?thesis by blast
qed

text \<open>
  C39: The additional data under which a chunk is sealed determines everything about it: the transfer,
  the tenant, both devices and workspaces, the plan, the epoch, the fence and the session, the sequence
  number, the offset, the length and the hash.  And under one key no two chunks share a nonce.
\<close>

theorem additional_data_binds_the_chunk:
  assumes "additional_data b sequence offset len hash = Inr ad"
    and "additional_data b' sequence' offset' len' hash' = Inr ad"
    and "len < 2 ^ 64" and "len' < 2 ^ 64"
  shows "b = b' \<and> sequence = sequence' \<and> offset = offset' \<and> len = len' \<and> hash = hash'
    \<and> (binding_nonce b n = binding_nonce b n' \<longleftrightarrow> n = n')"
proof -
  let ?t = "be_encode 8 (unat sequence) @ be_encode 8 (unat offset) @ be_encode 8 len @ as_bytes hash"
  let ?t' = "be_encode 8 (unat sequence') @ be_encode 8 (unat offset') @ be_encode 8 len' @ as_bytes hash'"
  obtain o1 where o1: "binding_canonical b = Inr o1" "ad = o1 @ ?t"
    using assms(1) by (auto simp: additional_data_def and_then_def split: if_splits sum.splits)
  obtain o2 where o2: "binding_canonical b' = Inr o2" "ad = o2 @ ?t'"
    using assms(2) by (auto simp: additional_data_def and_then_def split: if_splits sum.splits)
  note 1 = cut_binding [OF o1(1) o2(1) trans [OF o1(2) [symmetric] o2(2)]]
  note 2 = cut_u64_word [OF conjunct2 [OF 1]]
  note 3 = cut_u64_word [OF conjunct2 [OF 2]]
  have 4: "len = len' \<and> as_bytes hash = as_bytes hash'"
    using cut_be [OF conjunct2 [OF 3]] assms(3,4) by simp
  have "binding_nonce b n = binding_nonce b n' \<longleftrightarrow> n = n'"
    using cut_u64_word [of n "[]" n' "[]"] by (auto simp: binding_nonce_def)
  with 1 2 3 4 show ?thesis by (simp add: as_bytes_inj)
qed

theorem additional_data_binds_the_chunk_witness:
  "\<exists>ad. additional_data (ticket_binding (agent_of (demo_claims ''1'' Source 1))) 0 0 3 (sha_hex demo_sha [1, 2, 3]) = Inr ad
   \<and> additional_data (ticket_binding (agent_of (demo_claims ''1'' Source 1))) 1 0 3 (sha_hex demo_sha [1, 2, 3]) \<noteq> Inr ad"
proof -
  let ?b = "ticket_binding (agent_of (demo_claims ''1'' Source 1))" and ?h = "sha_hex demo_sha [1, 2, 3]"
  have "case additional_data ?b 0 0 3 ?h of Inl e \<Rightarrow> False | Inr ad \<Rightarrow> True" by code_simp
  then obtain ad where ad: "additional_data ?b 0 0 3 ?h = Inr ad" by (auto split: sum.splits)
  have "additional_data ?b 1 0 3 ?h \<noteq> Inr ad"
    using additional_data_binds_the_chunk [OF ad, of ?b 1 0 3 ?h] by auto
  with ad show ?thesis by blast
qed

end
