(* ===== verification/Spec2Isabelle.thy ===== *)
theory Spec2Isabelle
  imports Policy_Grants Session_Replay Transfer_Flow Ledger_Safety Journal_Recovery Supervisor_Safety
    Room_Safety Transfer_Crypto
begin

text \<open>
  A verification library for OwnMesh, a personal mesh that lets a remote agent operate the owner's
  machines under a local policy.  A request of an agent is decided by the policy engine; interactive
  work happens in sessions with one controller at a time, behind which the session supervisor keeps
  hosts alive; elevated operations pass a broker that consumes every capability once; and files move
  between two devices through a relay of the control plane, encrypted from end to end.  What must
  survive a crash is kept in small owner-only files that are replaced atomically.  The paths below are
  relative to \<open>src/\<close>.

  \<^bold>\<open>Conventions.\<close>  Strings are lists of UTF-8 bytes.  \<open>u8\<close> to \<open>u64\<close> are words, with the checked and
  saturating operations of Rust written out; \<open>i64\<close> and the safe integers of JavaScript are \<open>int\<close>;
  \<open>usize\<close> is \<open>nat\<close>.  \<open>Result\<close> is a sum with the error on the left, and a method that changes its
  receiver returns the receiver as well, also after an error.  Maps are association lists.  Clocks,
  random identifiers, failures of system calls and of storage are arguments or part of the state, so a
  theorem speaks about all of them.

  \<^bold>\<open>Foundations.\<close>
  \<^item> \<open>OM_Prelude\<close>, \<open>OM_Path\<close>, \<open>OM_Bytes\<close>, \<open>OM_Json\<close>: what the code uses of the standard library, of
    \<open>std::path\<close> on Unix, of byte encodings, and of JSON through serde.
  \<^item> \<open>OM_Interfaces\<close>: the contracts that components share.  \<open>generation_fence\<close> (what was superseded
    stays out) is met by the controller seat, the supervisor's bindings and the epochs of a transfer
    room; \<open>monotone_cursor\<close> (what is emitted grows strictly) by the input channels of a session and the
    acknowledgements of a room; \<open>single_use\<close> by the tickets of a room.

  \<^bold>\<open>Policy\<close> (\<open>crates/ownmesh-policy/src/lib.rs\<close>).
  \<^item> \<open>Policy\<close>: decisions, rules, presets and the evaluation of a document.  Denials win over questions
    and questions over permissions, more rules never loosen, and a prefix rule sees a path by its
    components; a rule written with a leading dot component misses.
  \<^item> \<open>Policy_Grants\<close>: temporary and bounded grants.  What they do to a verdict is stated exactly, by what
    a grant covers; a minted grant covers exactly its subtree.

  \<^bold>\<open>Sessions\<close> (\<open>crates/ownmesh-session/src/lib.rs\<close>).
  \<^item> \<open>Session\<close>: every operation of the manager, and a step relation for one session.
  \<^item> \<open>Session_Seat\<close>: the seat invariant over all runs, fencing of earlier leases (only a recovery to an
    earlier generation brings one back), exclusive claims, input delivered at most once.
  \<^item> \<open>Session_Replay\<close>: the ring keeps the longest suffix within its budgets, a client that follows the
    cursor gets all of it and comes to an end, and what a restart does to the accounting.

  \<^bold>\<open>Transfers\<close> (\<open>crates/ownmesh-transfer/src/lib.rs\<close>).
  \<^item> \<open>Transfer_Data\<close>, \<open>Transfer_Receiver\<close>: plans, chunks, the sender, the receiver and its part file.
  \<^item> \<open>Transfer_Frames\<close>: the chunk frame reads back and has one encoding; the plan digest covers every
    field but the hash of a file to overwrite.
  \<^item> \<open>Transfer_Flow\<close>: the contract of a sink, which the part file meets; a completed transfer is
    verified, a fed receiver completes, a crash resumes exactly.

  \<^bold>\<open>The relay\<close> (\<open>packages/control-plane/src/transfer-room.ts\<close>).
  \<^item> \<open>Transfer_Room\<close>: the router and the durable object around it, event by event, with the metadata
    object that the two may share written out (\<open>meta_ref\<close>).
  \<^item> \<open>Room_Tickets\<close>: Base64, tickets, terminal controls and the proof of an ephemeral key.
  \<^item> \<open>Room_Relay\<close>, \<open>Room_Ledger\<close>: the invariants that every event keeps, and the three contracts above.
  \<^item> \<open>Room_Demo\<close>, \<open>Room_Safety\<close>: a concrete room, and the properties over whole runs: acknowledged bytes
    are durable, what is stored moves forward, earlier epochs are never heard, settled transfers stay
    settled until their deadline, a ticket opens one socket, and what a failed write or a failed alarm
    leads to.  An event is one step; the interleaving of other events with the hashes of an admission
    is not modelled.

  \<^bold>\<open>The agent's cryptography\<close> (\<open>crates/ownmeshd/src/transfer_crypto.rs\<close>, and the verification of a
  signature from \<open>crates/ownmesh-identity/src/device_key.rs\<close>).
  \<^item> \<open>Transfer_Crypto\<close>: agent and relay give the same keys, signatures and messages of a ticket to their
    verifiers, the destination opens what the source seals, and the additional data of a chunk binds it.

  \<^bold>\<open>Durable state.\<close>
  \<^item> \<open>Persist\<close> (\<open>crates/ownmesh-persist/src/lib.rs\<close> and the owner-only writer): atomic replacement and
    creation over a device that remembers every state it passed through, so that a crash at any moment
    is covered.  The locale \<open>atomic_writer\<close> is what the two stores below rely on.
  \<^item> \<open>Transition_Journal\<close>, \<open>Journal_Recovery\<close> (\<open>crates/ownmesh-transition-journal/src/lib.rs\<close>): the journal
    acts on its entries as on a map, acknowledged transitions survive, and a rolled-back intent may
    reappear.
  \<^item> \<open>Ledger\<close>, \<open>Ledger_Safety\<close> (\<open>crates/ownmesh-broker/src/ledger.rs\<close>): a capability is spent once over any
    run with errors, crashes and restarts under a clock that does not go back.

  \<^bold>\<open>The supervisor\<close> (\<open>crates/ownmesh-session-host/src/\<close>).
  \<^item> \<open>Spool\<close>, \<open>Spool_Stream\<close> (\<open>supervisor_spool.rs\<close>): manifests, receipts and the retained output, which
    refines an append-only stream.
  \<^item> \<open>Supervisor\<close> (\<open>supervisor_state.rs\<close>), \<open>Supervisor_Ipc\<close> (\<open>supervisor_ipc.rs\<close>): the hosts, their
    transitions and the dispatch of requests.
  \<^item> \<open>Supervisor_Steps\<close>, \<open>Supervisor_Fence\<close>, \<open>Supervisor_Safety\<close>: every operation as one of six kinds of
    step, and what follows for bindings, terminations and the liveness probe.

  \<^bold>\<open>Loops and bounds.\<close>  Loops over data are recursive functions with a termination proof.  The one loop
  without a bound in the code, the search for a free temporary name, is a partial function, and the
  theorems about the writers show that it returns on every device with fewer than \<open>2 ^ 64\<close> files, the
  number of names that its counter can form.  Two definitions count their rounds: \<open>settle_all\<close> of
  \<open>Supervisor\<close>, which settles each of the hosts that a sweep collected, and the driver \<open>pump\<close> of
  \<open>Transfer_Flow\<close>, whose theorem shows that it ends with a result whenever the bound exceeds the length
  of the file.

  \<^bold>\<open>Not modelled.\<close>  Third-party code is a parameter: SHA-256, HMAC, Ed25519, X25519, HKDF and AES-GCM, hex
  and UTF-8 decoding, the readers and printers of JSON; what a proof needs of one is a named hypothesis
  (\<open>crypto_laws\<close>, \<open>json_laws\<close>, \<open>json_faithful\<close>, \<open>x25519_laws\<close>, \<open>aead_laws\<close>).
  The hypotheses about JSON say of every value what the libraries do for the values written here.  Nothing
  is assumed about Ed25519.  Terminals, processes, sockets, key stores, configuration files, the command line and the user interfaces are operating-system effects or
  presentation.  The files of the transfer journal store, the daemon apart from its transfer
  cryptography, and the control plane apart from its transfer room are left out.
\<close>

end
